(* ===== verification/Prelude.thy ===== *)
theory Prelude
  imports Main "HOL-Library.AList" "HOL-Library.Sublist" "HOL-Library.Word" "HOL-Library.Code_Target_Nat"
begin

text \<open>
  Shared ground of the NeuroSentry development: the Go values every component uses and the
  generic lemmas about them.

  \<^item> \<open>time\<close> is \<^verbatim>\<open>time.Time\<close> as nanoseconds since Go's zero time, so \<^verbatim>\<open>IsZero\<close> is
    \<open>t = 0\<close>; \<open>dur\<close> is \<^verbatim>\<open>time.Duration\<close>, an int64 count of nanoseconds.  \<open>time_sub\<close> is
    \<^verbatim>\<open>Time.Sub\<close>, which saturates at the int64 bounds.
  \<^item> A Go map is an association list with distinct keys: \<open>map_of\<close> reads, \<open>AList.update\<close>
    stores, \<open>AList.delete\<close> deletes, \<open>length\<close> is \<^verbatim>\<open>len\<close>.  Go leaves the order of a
    \<^verbatim>\<open>range\<close> over a map unspecified: an operation whose result depends on it takes the order
    as an argument (\<open>range_order\<close> below), and the theorems quantify over it.
  \<^item> \<open>keep_last n xs\<close> is the reslice \<^verbatim>\<open>xs[len(xs)-n:]\<close> guarded by \<^verbatim>\<open>len(xs) > n\<close>.
  \<^item> \<open>string\<close> is a list of bytes, as in Go.  \<open>to_lower\<close> and \<open>trim_space\<close> are
    \<^verbatim>\<open>strings.ToLower\<close> and \<^verbatim>\<open>strings.TrimSpace\<close> on ASCII.
\<close>

subsection \<open>Lemma collections\<close>

named_theorems model_defs \<open>unfolding equations of the one-line operations\<close>
named_theorems wf_intros \<open>operations that keep a component invariant\<close>

subsection \<open>Time and machine integers\<close>

type_synonym time = int
type_synonym dur = int

abbreviation (input) zero_time :: time where "zero_time \<equiv> 0"
text \<open>Instants are counted in nanoseconds from January 1 of year 1, the zero of the language's time type.\<close>

abbreviation (input) unix_epoch :: time where "unix_epoch \<equiv> 62135596800000000000"
abbreviation (input) second :: dur where "second \<equiv> 1000000000"
abbreviation (input) minute :: dur where "minute \<equiv> 60000000000"

abbreviation (input) max_int64 :: int where "max_int64 \<equiv> 9223372036854775807"
abbreviation (input) min_int64 :: int where "min_int64 \<equiv> - 9223372036854775808"

definition is_int64 :: "int \<Rightarrow> bool" where
  "is_int64 i \<longleftrightarrow> min_int64 \<le> i \<and> i \<le> max_int64"

text \<open>Two's complement wrap-around of an int64 result.\<close>

definition wrap64 :: "int \<Rightarrow> int" where
  "wrap64 i = (i + 9223372036854775808) mod 18446744073709551616 - 9223372036854775808"

definition time_sub :: "time \<Rightarrow> time \<Rightarrow> dur" where
  "time_sub t u = max min_int64 (min max_int64 (t - u))"

lemma wrap64_id [simp]: "is_int64 i \<Longrightarrow> wrap64 i = i"
  by (simp add: is_int64_def wrap64_def)

lemma is_int64_wrap64 [simp]: "is_int64 (wrap64 i)"
  using pos_mod_bound [of 18446744073709551616 "i + 9223372036854775808"]
    pos_mod_sign [of 18446744073709551616 "i + 9223372036854775808"]
  unfolding is_int64_def wrap64_def by linarith

lemma is_int64_time_sub [simp]: "is_int64 (time_sub t u)"
  by (simp add: time_sub_def is_int64_def)

lemma time_sub_less: "is_int64 d \<Longrightarrow> min_int64 < d \<Longrightarrow> time_sub t u < d \<longleftrightarrow> t - u < d"
  by (auto simp: time_sub_def is_int64_def)

lemma time_sub_self [simp]: "time_sub t t = 0"
  by (simp add: time_sub_def)

subsection \<open>Bounded histories\<close>

definition keep_last :: "nat \<Rightarrow> 'a list \<Rightarrow> 'a list" where
  "keep_last n xs = drop (length xs - n) xs"

lemma length_keep_last [simp]: "length (keep_last n xs) = min n (length xs)"
  by (simp add: keep_last_def)

lemma set_keep_last: "set (keep_last n xs) \<subseteq> set xs"
  by (simp add: keep_last_def set_drop_subset)

lemma keep_last_id [simp]: "length xs \<le> n \<Longrightarrow> keep_last n xs = xs"
  by (simp add: keep_last_def)

lemma keep_last_append: "n \<le> length ys \<Longrightarrow> keep_last n (xs @ ys) = keep_last n ys"
  by (simp add: keep_last_def)

text \<open>Truncating after every push is the same as truncating once at the end.\<close>

lemma keep_last_keep_last_append: "keep_last n (keep_last n xs @ ys) = keep_last n (xs @ ys)"
proof (cases "length xs \<le> n")
  case False
  then have "keep_last n (xs @ ys) = keep_last n (drop (length xs - n) xs @ ys)"
    by (simp add: keep_last_def add.commute)
  then show ?thesis by (simp add: keep_last_def [of n xs])
qed simp

lemma last_keep_last [simp]: "0 < n \<Longrightarrow> xs \<noteq> [] \<Longrightarrow> last (keep_last n xs) = last xs"
  by (cases "length xs \<le> n") (simp_all add: keep_last_def last_drop)

lemma keep_last_eq_Nil [simp]: "keep_last n xs = [] \<longleftrightarrow> n = 0 \<or> xs = []"
  by (cases "n = 0"; cases xs) (simp_all add: keep_last_def)

text \<open>A history that keeps its newest \<open>cap\<close> elements: the contract of every ring of the agent.\<close>

locale bounded_history =
  fixes push :: "'a \<Rightarrow> 's \<Rightarrow> 's"
    and hist :: "'s \<Rightarrow> 'a list"
    and cap :: "'s \<Rightarrow> nat"
  assumes hist_push: "hist (push x s) = keep_last (cap s) (hist s @ [x])"
    and cap_push: "cap (push x s) = cap s"
begin

lemma cap_fold: "cap (fold push xs s) = cap s"
  by (induction xs arbitrary: s) (simp_all add: cap_push)

lemma hist_fold: "length (hist s) \<le> cap s \<Longrightarrow> hist (fold push xs s) = keep_last (cap s) (hist s @ xs)"
proof (induction xs arbitrary: s)
  case (Cons x xs)
  have "hist (fold push xs (push x s)) = keep_last (cap s) (hist (push x s) @ xs)"
    using Cons.IH [of "push x s"] by (simp add: hist_push cap_push)
  then show ?case by (simp add: hist_push keep_last_keep_last_append)
qed simp

lemma hist_bounded: "length (hist s) \<le> cap s \<Longrightarrow> length (hist (fold push xs s)) \<le> cap s"
  by (simp add: hist_fold)

end

lemma nth_update_at: "j < length xs \<Longrightarrow> xs[i := x] ! j = (if i = j then x else xs ! j)"
  by (cases "i = j") simp_all

subsection \<open>Go maps as association lists\<close>

type_synonym ('k, 'v) gomap = "('k \<times> 'v) list"

definition gomap_ok :: "('k, 'v) gomap \<Rightarrow> bool" where
  "gomap_ok m \<longleftrightarrow> distinct (map fst m)"

abbreviation mput :: "'k \<Rightarrow> 'v \<Rightarrow> ('k, 'v) gomap \<Rightarrow> ('k, 'v) gomap" where
  "mput \<equiv> AList.update"

abbreviation mdel :: "'k \<Rightarrow> ('k, 'v) gomap \<Rightarrow> ('k, 'v) gomap" where
  "mdel \<equiv> AList.delete"

abbreviation keys :: "('k, 'v) gomap \<Rightarrow> 'k list" where
  "keys m \<equiv> map fst m"

text \<open>Reading a missing key of a Go map gives the zero value.\<close>

definition mget :: "'v \<Rightarrow> ('k, 'v) gomap \<Rightarrow> 'k \<Rightarrow> 'v" where
  "mget z m k = (case map_of m k of None \<Rightarrow> z | Some v \<Rightarrow> v)"

lemma gomap_ok_Nil [simp]: "gomap_ok []"
  by (simp add: gomap_ok_def)

lemma gomap_ok_mput [simp, wf_intros]: "gomap_ok m \<Longrightarrow> gomap_ok (mput k v m)"
  by (simp add: gomap_ok_def distinct_update)

lemma gomap_ok_mdel [simp, wf_intros]: "gomap_ok m \<Longrightarrow> gomap_ok (mdel k m)"
  by (simp add: gomap_ok_def distinct_delete)

lemma gomap_ok_filter [simp, wf_intros]: "gomap_ok m \<Longrightarrow> gomap_ok (filter P m)"
  unfolding gomap_ok_def by (induction m) auto

lemma map_of_mput [simp]: "map_of (mput k v m) = (map_of m)(k \<mapsto> v)"
  by (rule update_conv')

lemma map_of_mdel [simp]: "map_of (mdel k m) = (map_of m)(k := None)"
  by (rule delete_conv')

lemma keys_mput: "set (keys (mput k v m)) = insert k (set (keys m))"
  by (induction m) auto

lemma length_mput:
  "length (mput k v m) = (if k \<in> set (keys m) then length m else Suc (length m))"
  by (induction m) auto

lemma length_mdel_le: "length (mdel k m) \<le> length m"
  by (simp add: AList.delete_eq)

lemma length_mdel:
  "gomap_ok m \<Longrightarrow> length (mdel k m) = (if k \<in> set (keys m) then length m - 1 else length m)"
proof (induction m)
  case (Cons p m)
  then show ?case
    by (cases p; cases m) (auto simp: gomap_ok_def AList.delete_eq)
qed simp

lemma mget_mput [simp]: "mget z (mput k v m) j = (if j = k then v else mget z m j)"
  by (simp add: mget_def)

lemma mget_mdel [simp]: "mget z (mdel k m) j = (if j = k then z else mget z m j)"
  by (simp add: mget_def)

lemma keys_mdel: "set (keys (mdel k m)) = set (keys m) - {k}"
  by (auto simp: AList.delete_eq)

lemma fst_image_mput [simp]: "fst ` set (mput k v m) = insert k (fst ` set m)"
  using keys_mput [of k v m] by simp

lemma fst_image_mdel [simp]: "fst ` set (mdel k m) = fst ` set m - {k}"
  using keys_mdel [of k m] by simp

lemma map_of_None_keys: "map_of m k = None \<longleftrightarrow> k \<notin> set (keys m)"
  by (simp add: map_of_eq_None_iff)

lemma in_keys_iff: "k \<in> set (keys m) \<longleftrightarrow> map_of m k \<noteq> None"
  using map_of_None_keys [of m k] by auto

lemma map_of_eq_Some_iff_mem: "gomap_ok m \<Longrightarrow> map_of m k = Some v \<longleftrightarrow> (k, v) \<in> set m"
  by (simp add: gomap_ok_def)

lemma map_of_filter_key:
  "gomap_ok m \<Longrightarrow> map_of (filter P m) k =
     (case map_of m k of None \<Rightarrow> None | Some v \<Rightarrow> if P (k, v) then Some v else None)"
proof (induction m)
  case (Cons p m)
  then show ?case
    by (cases p) (auto simp: gomap_ok_def split: option.splits dest: map_of_SomeD
        intro!: rev_image_eqI)
qed simp

text \<open>An order in which a \<^verbatim>\<open>range\<close> may visit the keys it is given.\<close>

definition range_order :: "('k list \<Rightarrow> 'k list) \<Rightarrow> bool" where
  "range_order ord \<longleftrightarrow> (\<forall>ks. set (ord ks) = set ks \<and> length (ord ks) = length ks)"

lemma range_orderD:
  assumes "range_order ord"
  shows "set (ord ks) = set ks" and "length (ord ks) = length ks"
  using assms by (simp_all add: range_order_def)

lemma range_order_distinct: "range_order ord \<Longrightarrow> distinct ks \<Longrightarrow> distinct (ord ks)"
  by (metis card_distinct distinct_card range_orderD)

lemma range_order_id [simp]: "range_order (\<lambda>ks. ks)"
  by (simp add: range_order_def)

subsection \<open>Strings\<close>

text \<open>
  \<^verbatim>\<open>strings.HasPrefix(s, p)\<close> is \<open>prefix p s\<close>, \<^verbatim>\<open>strings.HasSuffix(s, p)\<close> is
  \<open>suffix p s\<close> and \<^verbatim>\<open>strings.Contains(s, p)\<close> is \<open>sublist p s\<close>.
\<close>

definition code :: "char \<Rightarrow> nat" where
  "code c = of_char c"

definition lower_char :: "char \<Rightarrow> char" where
  "lower_char c = (if 65 \<le> code c \<and> code c \<le> 90 then char_of (code c + 32) else c)"

definition to_lower :: "string \<Rightarrow> string" where
  "to_lower s = map lower_char s"

definition is_space :: "char \<Rightarrow> bool" where
  "is_space c \<longleftrightarrow> code c = 32 \<or> (9 \<le> code c \<and> code c \<le> 13)"

definition trim_space :: "string \<Rightarrow> string" where
  "trim_space s = rev (dropWhile is_space (rev (dropWhile is_space s)))"

fun join :: "string \<Rightarrow> string list \<Rightarrow> string" where
  "join sep [] = []"
| "join sep [x] = x"
| "join sep (x # y # zs) = x @ sep @ join sep (y # zs)"

lemma code_char_of [simp]: "n < 256 \<Longrightarrow> code (char_of n) = n"
  by (simp add: code_def)

lemma char_of_code [simp]: "char_of (code c) = c"
  by (simp add: code_def)

lemma code_less [simp]: "code c < 256"
  by (simp add: code_def)

lemma code_inject: "code c = code d \<longleftrightarrow> c = d"
  by (metis char_of_code)

lemma lower_char_idem [simp]: "lower_char (lower_char c) = lower_char c"
  by (simp add: lower_char_def)

lemma to_lower_idem [simp]: "to_lower (to_lower s) = to_lower s"
  by (simp add: to_lower_def)

lemma to_lower_simps [simp]:
  "to_lower [] = []" "to_lower (c # s) = lower_char c # to_lower s"
  "to_lower (s @ t) = to_lower s @ to_lower t" "length (to_lower s) = length s"
  by (simp_all add: to_lower_def)

text \<open>A separator that does not occur in the first parts makes a joined key unambiguous.\<close>

lemma sep_key_inject:
  "c \<notin> set a \<Longrightarrow> c \<notin> set a' \<Longrightarrow> a @ c # b = a' @ c # b' \<longleftrightarrow> a = a' \<and> b = b'"
proof (induction a arbitrary: a')
  case Nil
  then show ?case by (cases a') auto
next
  case (Cons x a)
  then show ?case by (cases a') auto
qed

subsection \<open>Decimal printing\<close>

text \<open>
  \<^verbatim>\<open>itoa\<close>: the digits are written from the end of a 20-byte buffer.  Negating the smallest
  int64 wraps to itself, so its loop writes no digit.
\<close>

definition digit_char :: "nat \<Rightarrow> char" where
  "digit_char d = char_of (48 + d)"

function itoa_loop :: "int \<Rightarrow> string \<Rightarrow> string" where
  "itoa_loop i b = (if 0 < i then itoa_loop (i div 10) (digit_char (nat (i mod 10)) # b) else b)"
  by pat_completeness auto
termination
  by (relation "measure (\<lambda>(i, b). nat i)") auto

declare itoa_loop.simps [simp del]

definition itoa :: "int \<Rightarrow> string" where
  "itoa i =
     (if i = 0 then ''0''
      else
        let neg = i < 0;
            j = (if neg then wrap64 (- i) else i);
            b = itoa_loop j []
        in if neg then CHR ''-'' # b else b)"

text \<open>The value a string of digits denotes.\<close>

fun digits_value :: "int \<Rightarrow> string \<Rightarrow> int" where
  "digits_value acc [] = acc"
| "digits_value acc (c # s) = digits_value (10 * acc + int (code c) - 48) s"

definition is_digit :: "char \<Rightarrow> bool" where
  "is_digit c \<longleftrightarrow> 48 \<le> code c \<and> code c \<le> 57"

lemma code_digit_char [simp]: "d < 10 \<Longrightarrow> code (digit_char d) = 48 + d"
  by (simp add: digit_char_def)

lemma is_digit_digit_char [simp]: "d < 10 \<Longrightarrow> is_digit (digit_char d)"
  by (simp add: is_digit_def)

lemma itoa_loop_nonpos [simp]: "i \<le> 0 \<Longrightarrow> itoa_loop i b = b"
  by (simp add: itoa_loop.simps)

lemma itoa_loop_pos:
  "0 < i \<Longrightarrow> itoa_loop i b = itoa_loop (i div 10) (digit_char (nat (i mod 10)) # b)"
  by (simp add: itoa_loop.simps [of i b])

lemma digits_value_itoa_loop:
  "0 \<le> i \<Longrightarrow> digits_value 0 (itoa_loop i b) = digits_value i b"
proof (induction i b rule: itoa_loop.induct)
  case (1 i b)
  show ?case
  proof (cases "0 < i")
    case True
    then have "digits_value 0 (itoa_loop i b)
        = digits_value (i div 10) (digit_char (nat (i mod 10)) # b)"
      using 1 by (simp add: itoa_loop_pos)
    then show ?thesis by (simp add: algebra_simps)
  next
    case False
    with 1 show ?thesis by simp
  qed
qed

lemma itoa_loop_digits: "(\<forall>c \<in> set b. is_digit c) \<Longrightarrow> (\<forall>c \<in> set (itoa_loop i b). is_digit c)"
proof (induction i b rule: itoa_loop.induct)
  case (1 i b)
  then show ?case by (cases "0 < i") (simp_all add: itoa_loop_pos)
qed

lemma length_itoa_loop: "i < 10 ^ n \<Longrightarrow> length (itoa_loop i b) \<le> n + length b"
proof (induction n arbitrary: i b)
  case (Suc n)
  show ?case
  proof (cases "0 < i")
    case True
    from Suc.prems have "i div 10 < 10 ^ n" by simp
    from Suc.IH [OF this, of "digit_char (nat (i mod 10)) # b"] show ?thesis
      using True by (simp add: itoa_loop_pos)
  qed simp
qed simp

lemma itoa_loop_chars: "c \<in> set (itoa_loop i []) \<Longrightarrow> is_digit c"
  using itoa_loop_digits [of "[]" i] by simp

lemma not_digit [simp]: "\<not> is_digit CHR ''-''" "\<not> is_digit CHR '':''"
  by (simp_all add: is_digit_def code_def)

lemma itoa_loop_value: "0 \<le> i \<Longrightarrow> digits_value 0 (itoa_loop i []) = i"
  by (simp add: digits_value_itoa_loop)

lemma itoa_loop_Nil: "itoa_loop i [] = [] \<longleftrightarrow> i \<le> 0"
  using itoa_loop_value [of i] by (cases "i \<le> 0") auto

text \<open>The three shapes of a printed int64.\<close>

lemma itoa_cases:
  assumes "is_int64 i"
  obtains (nonneg) "0 \<le> i" "\<forall>c \<in> set (itoa i). is_digit c" "digits_value 0 (itoa i) = i"
    | (neg) s where "i < 0" "itoa i = CHR ''-'' # s" "\<forall>c \<in> set s. is_digit c"
        "digits_value 0 s = (if i = min_int64 then 0 else - i)"
proof (cases "0 \<le> i")
  case True
  have "\<forall>c \<in> set (itoa i). is_digit c" and "digits_value 0 (itoa i) = i"
    using True itoa_loop_chars itoa_loop_value by (auto simp: itoa_def is_digit_def code_def)
  with True show ?thesis by (rule nonneg)
next
  case False
  let ?s = "itoa_loop (wrap64 (- i)) []"
  have w: "wrap64 (- i) = (if i = min_int64 then min_int64 else - i)"
    using assms False by (auto simp: is_int64_def wrap64_def)
  have "itoa i = CHR ''-'' # ?s" using False by (simp add: itoa_def)
  moreover have "digits_value 0 ?s = (if i = min_int64 then 0 else - i)"
    using False by (simp add: w itoa_loop_value)
  ultimately show ?thesis using False itoa_loop_chars neg by (metis not_le)
qed

lemma itoa_inject:
  assumes "is_int64 i" and "is_int64 j"
  shows "itoa i = itoa j \<longleftrightarrow> i = j"
proof
  assume eq: "itoa i = itoa j"
  show "i = j"
  proof (rule itoa_cases [OF assms(1)])
    assume i: "0 \<le> i" "\<forall>c \<in> set (itoa i). is_digit c" "digits_value 0 (itoa i) = i"
    show "i = j"
      by (rule itoa_cases [OF assms(2)]) (use i eq in \<open>auto\<close>)
  next
    fix s
    assume i: "i < 0" "itoa i = CHR ''-'' # s" "\<forall>c \<in> set s. is_digit c"
      "digits_value 0 s = (if i = min_int64 then 0 else - i)"
    show "i = j"
      by (rule itoa_cases [OF assms(2)]) (use i eq in \<open>auto split: if_splits\<close>)
  qed
qed simp

lemma colon_notin_itoa [simp]: "CHR '':'' \<notin> set (itoa i)"
  by (auto simp: itoa_def Let_def dest!: itoa_loop_chars)

lemma length_itoa: "is_int64 i \<Longrightarrow> length (itoa i) \<le> 20"
proof -
  assume i: "is_int64 i"
  have len: "length (itoa_loop j []) \<le> 19" if "j \<le> max_int64" for j
    using length_itoa_loop [of j 19 "[]"] that by simp
  have "wrap64 (- i) \<le> max_int64"
    using is_int64_wrap64 [of "- i"] by (simp add: is_int64_def)
  with i len [of i] len [of "wrap64 (- i)"] show ?thesis
    by (auto simp: itoa_def is_int64_def Let_def)
qed

text \<open>The three bytes of the dash that rule descriptions and messages contain.\<close>

definition em_dash :: string where
  "em_dash = [CHR 0xE2, CHR 0x80, CHR 0x94]"

end
