(* ===== verification/NetIP.thy ===== *)
theory NetIP
  imports Prelude
begin

text \<open>
  The part of Go's \<^verbatim>\<open>net\<close> package the detection rules use (\<^verbatim>\<open>src/pkg/correlate/rules.go\<close>):
  \<^verbatim>\<open>net.ParseIP\<close> on dotted-decimal and on colon-separated addresses, the \<^verbatim>\<open>net.IP\<close> class
  tests, and the rules' own \<^verbatim>\<open>isPublicIP\<close>.  An address is the list of its 16 bytes, as
  \<^verbatim>\<open>ParseIP\<close> returns it; an IPv4 address carries the prefix \<open>v4_prefix\<close>.
\<close>

type_synonym ip = "nat list"

definition v4_prefix :: ip where
  "v4_prefix = [0, 0, 0, 0, 0, 0, 0, 0, 0, 0, 255, 255]"

subsection \<open>Dotted decimal\<close>

text \<open>
  One pass over the bytes: \<open>fields\<close> the octets already closed by a dot, \<open>v\<close> and \<open>n\<close> the
  value and the number of digits of the current octet, as in \<^verbatim>\<open>parseIPv4Fields\<close>.
\<close>

fun parse_v4 :: "nat list \<Rightarrow> nat \<Rightarrow> nat \<Rightarrow> string \<Rightarrow> nat list option" where
  "parse_v4 fields v n [] = (if n = 0 \<or> length fields \<noteq> 3 then None else Some (fields @ [v]))"
| "parse_v4 fields v n (c # s) =
     (if is_digit c then
        if n = 1 \<and> v = 0 then None
        else let v' = 10 * v + (code c - 48)
             in if 255 < v' then None else parse_v4 fields v' (Suc n) s
      else if c = CHR ''.'' then
        if n = 0 \<or> length fields = 3 then None else parse_v4 (fields @ [v]) 0 0 s
      else None)"

subsection \<open>Colon-separated hexadecimal\<close>

definition hex_digit :: "char \<Rightarrow> nat option" where
  "hex_digit c =
     (if is_digit c then Some (code c - 48)
      else if 97 \<le> code c \<and> code c \<le> 102 then Some (code c - 87)
      else if 65 \<le> code c \<and> code c \<le> 70 then Some (code c - 55)
      else None)"

text \<open>A hexadecimal group: its value, its length and the rest; more than four digits fail.\<close>

fun hex_group :: "nat \<Rightarrow> nat \<Rightarrow> string \<Rightarrow> (nat \<times> nat \<times> string) option" where
  "hex_group acc off [] = Some (acc, off, [])"
| "hex_group acc off (c # s) =
     (case hex_digit c of
        None \<Rightarrow> Some (acc, off, c # s)
      | Some d \<Rightarrow> if 3 < off then None else hex_group (16 * acc + d) (Suc off) s)"

lemma hex_group_length:
  "hex_group acc off s = Some (a, n, r) \<Longrightarrow> off \<le> n \<and> n + length r = off + length s"
  by (induction acc off s rule: hex_group.induct) (auto split: option.splits if_splits)

text \<open>
  The main loop over \<open>bytes\<close> (the bytes parsed so far) and the position of the ellipsis.  It
  returns the bytes, the ellipsis and the unread rest.
\<close>

function parse_v6_loop :: "ip \<Rightarrow> nat option \<Rightarrow> string \<Rightarrow> (ip \<times> nat option \<times> string) option" where
  "parse_v6_loop bytes ell s =
     (if 16 \<le> length bytes then Some (bytes, ell, s)
      else case hex_group 0 0 s of
        None \<Rightarrow> None
      | Some (acc, off, r) \<Rightarrow>
          if off = 0 then None
          else if r \<noteq> [] \<and> hd r = CHR ''.'' then
            if (ell = None \<and> length bytes \<noteq> 12) \<or> 16 < length bytes + 4 then None
            else (case parse_v4 [] 0 0 s of None \<Rightarrow> None | Some f \<Rightarrow> Some (bytes @ f, ell, []))
          else
            let bytes' = bytes @ [acc div 256, acc mod 256] in
            if r = [] then Some (bytes', ell, [])
            else if hd r \<noteq> CHR '':'' \<or> tl r = [] then None
            else
              let r' = tl r in
              if hd r' = CHR '':'' then
                if ell \<noteq> None then None
                else if tl r' = [] then Some (bytes', Some (length bytes'), [])
                else parse_v6_loop bytes' (Some (length bytes')) (tl r')
              else parse_v6_loop bytes' ell r')"
  by pat_completeness auto
termination
  by (relation "measure (\<lambda>(bytes, ell, s). 16 - length bytes)") auto

declare parse_v6_loop.simps [simp del]

definition parse_v6 :: "string \<Rightarrow> ip option" where
  "parse_v6 s =
     (if CHR ''%'' \<in> set s then None
      else
        let lead = take 2 s = ''::''; s' = (if lead then drop 2 s else s) in
        if lead \<and> s' = [] then Some (replicate 16 0)
        else case parse_v6_loop [] (if lead then Some 0 else None) s' of
          None \<Rightarrow> None
        | Some (bytes, ell, r) \<Rightarrow>
            if r \<noteq> [] then None
            else (case ell of
                None \<Rightarrow> if length bytes < 16 then None else Some bytes
              | Some e \<Rightarrow>
                  if length bytes < 16
                  then Some (take e bytes @ replicate (16 - length bytes) 0 @ drop e bytes)
                  else None))"

text \<open>\<^verbatim>\<open>net.ParseIP\<close>: the first dot or colon decides the family; a zone is refused.\<close>

fun ip_family :: "string \<Rightarrow> char option" where
  "ip_family [] = None"
| "ip_family (c # s) = (if c = CHR ''.'' \<or> c = CHR '':'' \<or> c = CHR ''%'' then Some c else ip_family s)"

definition ParseIP :: "string \<Rightarrow> ip option" where
  "ParseIP s =
     (case ip_family s of
        None \<Rightarrow> None
      | Some c \<Rightarrow>
          if c = CHR ''.'' then map_option ((@) v4_prefix) (parse_v4 [] 0 0 s)
          else if c = CHR '':'' then parse_v6 s
          else None)"

subsection \<open>Address classes\<close>

definition To4 :: "ip \<Rightarrow> nat list option" where
  "To4 ip = (if take 12 ip = v4_prefix \<and> length ip = 16 then Some (drop 12 ip) else None)"

definition IsLoopback :: "ip \<Rightarrow> bool" where
  "IsLoopback ip = (case To4 ip of Some q \<Rightarrow> q ! 0 = 127 | None \<Rightarrow> ip = replicate 15 0 @ [1])"

definition IsLinkLocalUnicast :: "ip \<Rightarrow> bool" where
  "IsLinkLocalUnicast ip = (case To4 ip of
     Some q \<Rightarrow> q ! 0 = 169 \<and> q ! 1 = 254
   | None \<Rightarrow> length ip = 16 \<and> ip ! 0 = 254 \<and> ip ! 1 div 64 = 2)"

definition IsLinkLocalMulticast :: "ip \<Rightarrow> bool" where
  "IsLinkLocalMulticast ip = (case To4 ip of
     Some q \<Rightarrow> q ! 0 = 224 \<and> q ! 1 = 0 \<and> q ! 2 = 0
   | None \<Rightarrow> length ip = 16 \<and> ip ! 0 = 255 \<and> ip ! 1 mod 16 = 2)"

definition IsMulticast :: "ip \<Rightarrow> bool" where
  "IsMulticast ip = (case To4 ip of
     Some q \<Rightarrow> q ! 0 div 16 = 14
   | None \<Rightarrow> length ip = 16 \<and> ip ! 0 = 255)"

definition IsGlobalUnicast :: "ip \<Rightarrow> bool" where
  "IsGlobalUnicast ip \<longleftrightarrow>
     length ip = 16 \<and> ip \<noteq> v4_prefix @ [255, 255, 255, 255] \<and>
     ip \<noteq> v4_prefix @ [0, 0, 0, 0] \<and> ip \<noteq> replicate 16 0 \<and>
     \<not> IsLoopback ip \<and> \<not> IsMulticast ip \<and> \<not> IsLinkLocalUnicast ip"

definition isPublicIP :: "ip \<Rightarrow> bool" where
  "isPublicIP ip =
     (if IsLoopback ip \<or> IsLinkLocalUnicast ip \<or> IsLinkLocalMulticast ip then False
      else case To4 ip of
        Some q \<Rightarrow>
          if q ! 0 = 10 then False
          else if q ! 0 = 172 \<and> 16 \<le> q ! 1 \<and> q ! 1 \<le> 31 then False
          else if q ! 0 = 192 \<and> q ! 1 = 168 then False
          else if q ! 0 = 127 then False
          else True
      | None \<Rightarrow> IsGlobalUnicast ip)"

subsection \<open>Printing and parsing dotted decimal\<close>

text \<open>The canonical spelling of an octet: decimal digits without leading zeros.\<close>

definition octet :: "nat \<Rightarrow> string" where
  "octet v = itoa (int v)"

definition dotted :: "nat \<Rightarrow> nat \<Rightarrow> nat \<Rightarrow> nat \<Rightarrow> string" where
  "dotted a b c d = octet a @ ''.'' @ octet b @ ''.'' @ octet c @ ''.'' @ octet d"

lemma is_digit_dot [simp]: "\<not> is_digit CHR ''.''"
  by (simp add: is_digit_def code_def)

lemma digit_char_0: "digit_char 0 = CHR ''0''"
  by code_simp

text \<open>An octet is printed with one, two or three digits.\<close>

lemma octet_cases:
  assumes "v < 256"
  obtains (one) "v < 10" "octet v = [digit_char v]"
    | (two) "10 \<le> v" "v < 100" "octet v = [digit_char (v div 10), digit_char (v mod 10)]"
    | (three) "100 \<le> v" "octet v = [digit_char (v div 100), digit_char (v div 10 mod 10), digit_char (v mod 10)]"
proof -
  have d10: "int w div 10 = int (w div 10)" for w
    by (simp add: zdiv_int)
  have pos: "octet v = itoa_loop (int v) []" if "0 < v"
    using that by (simp add: octet_def itoa_def)
  consider "v = 0" | "0 < v" "v < 10" | "10 \<le> v" "v < 100" | "100 \<le> v" by linarith
  then show thesis
  proof cases
    case 1
    then show ?thesis by (intro one) (simp_all add: octet_def itoa_def digit_char_0)
  next
    case 2
    with pos show ?thesis by (intro one) (simp_all add: itoa_loop_pos)
  next
    case 3
    with pos d10 show ?thesis by (intro two) (simp_all add: itoa_loop_pos nat_mod_distrib)
  next
    case 4
    with pos d10 assms show ?thesis
      by (intro three) (simp_all add: itoa_loop_pos nat_mod_distrib flip: div_mult2_eq)
  qed
qed

lemma parse_v4_digit:
  "d < 10 \<Longrightarrow> \<not> (n = 1 \<and> v = 0) \<Longrightarrow> 10 * v + d \<le> 255 \<Longrightarrow>
     parse_v4 fs v n (digit_char d # s) = parse_v4 fs (10 * v + d) (Suc n) s"
  by (auto simp: Let_def)

lemma parse_v4_octet:
  assumes "v < 256"
  shows "parse_v4 fs 0 0 (octet v @ s) = parse_v4 fs v (length (octet v)) s"
proof (rule octet_cases [OF assms])
  assume v: "v < 10" "octet v = [digit_char v]"
  then show ?thesis
    using parse_v4_digit [of v 0 0] by (simp del: parse_v4.simps(2))
next
  assume v: "10 \<le> v" "v < 100" "octet v = [digit_char (v div 10), digit_char (v mod 10)]"
  have "10 * (v div 10) + v mod 10 = v" by simp
  with v show ?thesis by (simp add: parse_v4_digit del: parse_v4.simps(2))
next
  assume v: "100 \<le> v" "octet v = [digit_char (v div 100), digit_char (v div 10 mod 10), digit_char (v mod 10)]"
  have "v div 100 = v div 10 div 10" by (simp flip: div_mult2_eq)
  then have "10 * (v div 100) + v div 10 mod 10 = v div 10" by simp
  with v assms show ?thesis
    by (simp add: parse_v4_digit del: parse_v4.simps(2))
qed

lemma octet_nonempty [simp]: "v < 256 \<Longrightarrow> octet v \<noteq> []"
  by (erule octet_cases) simp_all

lemma parse_v4_dotted:
  assumes "a < 256" "b < 256" "c < 256" "d < 256"
  shows "parse_v4 [] 0 0 (dotted a b c d) = Some [a, b, c, d]"
  using assms parse_v4_octet [of d _ "[]"] by (simp add: dotted_def parse_v4_octet)

lemma ip_family_digits: "\<forall>c \<in> set t. is_digit c \<Longrightarrow> ip_family (t @ CHR ''.'' # s) = Some CHR ''.''"
  by (induction t) (auto simp: is_digit_def code_def)

lemma octet_is_digit: "\<forall>c \<in> set (octet v). is_digit c"
  using itoa_loop_chars by (auto simp: octet_def itoa_def is_digit_def code_def)

text \<open>Every address in canonical dotted form parses back to itself.\<close>

lemma ParseIP_dotted:
  assumes "a < 256" "b < 256" "c < 256" "d < 256"
  shows "ParseIP (dotted a b c d) = Some (v4_prefix @ [a, b, c, d])"
proof -
  have "ip_family (dotted a b c d) = Some CHR ''.''"
    using ip_family_digits [OF octet_is_digit] by (simp add: dotted_def)
  with assms show ?thesis by (simp add: ParseIP_def parse_v4_dotted)
qed

lemma To4_v4 [simp]: "length q = 4 \<Longrightarrow> To4 (v4_prefix @ q) = Some q"
  by (simp add: To4_def v4_prefix_def)

text \<open>The IPv4 addresses \<^verbatim>\<open>isPublicIP\<close> keeps out, written out as ranges.\<close>

definition v4_not_public :: "nat \<Rightarrow> nat \<Rightarrow> nat \<Rightarrow> bool" where
  "v4_not_public a b c \<longleftrightarrow>
     a = 10 \<or> a = 127 \<or> (a = 172 \<and> 16 \<le> b \<and> b \<le> 31) \<or> (a = 192 \<and> b = 168) \<or>
     (a = 169 \<and> b = 254) \<or> (a = 224 \<and> b = 0 \<and> c = 0)"

lemma isPublicIP_v4: "isPublicIP (v4_prefix @ [a, b, c, d]) \<longleftrightarrow> \<not> v4_not_public a b c"
  by (auto simp: isPublicIP_def IsLoopback_def IsLinkLocalUnicast_def IsLinkLocalMulticast_def
      v4_not_public_def)

end
