(* ===== verification/Rules.thy ===== *)
theory Rules
  imports Prelude NetIP
begin

text \<open>
  The correlation rules of \<^verbatim>\<open>src/pkg/correlate/rules.go\<close> and the signals they read
  (\<^verbatim>\<open>correlate.go\<close>): the data, the matcher, the windowed greedy evaluation of a rule, the
  attribute predicates and the built-in catalog.  \<open>fires_spec\<close> is the declarative reading of
  the rule's doc comment, against which \<open>evaluate\<close> is proved sound, and exact when no signal
  satisfies two matchers of an unordered rule.
\<close>

subsection \<open>Signals and findings\<close>

type_synonym layer = string

abbreviation (input) LayerAI :: layer where "LayerAI \<equiv> ''ai''"
abbreviation (input) LayerMCP :: layer where "LayerMCP \<equiv> ''mcp''"
abbreviation (input) LayerKernelFile :: layer where "LayerKernelFile \<equiv> ''kernel_file''"
abbreviation (input) LayerKernelNet :: layer where "LayerKernelNet \<equiv> ''kernel_net''"
abbreviation (input) LayerKernelProc :: layer where "LayerKernelProc \<equiv> ''kernel_proc''"
abbreviation (input) LayerModel :: layer where "LayerModel \<equiv> ''model''"

record signal =
  sTimestamp :: time
  sPID :: int
  sTenantID :: string
  sLayer :: layer
  sKind :: string
  sAttributes :: "(string, string) gomap"
  sSeverity :: string

definition Attr :: "signal \<Rightarrow> string \<Rightarrow> string" where
  "Attr s key = mget '''' (sAttributes s) key"

record finding =
  fTimestamp :: time
  fRuleID :: string
  fRule :: string
  fPID :: int
  fTenantID :: string
  fSeverity :: string
  fTechnique :: string
  fDescription :: string
  fChain :: "signal list"

subsection \<open>Matchers and rules\<close>

record matcher =
  mLayer :: layer
  mKind :: string
  mPred :: "(signal \<Rightarrow> bool) option"

definition matches :: "matcher \<Rightarrow> signal \<Rightarrow> bool" where
  "matches m s =
     (if mLayer m \<noteq> '''' \<and> sLayer s \<noteq> mLayer m then False
      else if mKind m \<noteq> '''' \<and> sKind s \<noteq> mKind m then False
      else case mPred m of None \<Rightarrow> True | Some p \<Rightarrow> p s)"

record matcher_spec =
  msLayer :: string
  msKind :: string
  msAttrKey :: string
  msAttrPattern :: string

record rule =
  rID :: string
  rName :: string
  rAll :: "matcher list"
  rWindow :: dur
  rOrdered :: bool
  rSeverity :: string
  rTechnique :: string
  rMitreAttack :: string
  rCategory :: string
  rReferences :: "string list"
  rDescription :: string
  rRationale :: string
  rRemediation :: "string list"
  rFalsePositives :: "string list"
  rMatchers :: "matcher_spec list"

definition matcherSpecs :: "rule \<Rightarrow> matcher_spec list" where
  "matcherSpecs r =
     (if 0 < length (rMatchers r) then rMatchers r
      else map (\<lambda>m. \<lparr>msLayer = mLayer m, msKind = mKind m, msAttrKey = '''', msAttrPattern = ''''\<rparr>) (rAll r))"

fun touched_loop :: "matcher list \<Rightarrow> signal \<Rightarrow> bool" where
  "touched_loop [] s = False"
| "touched_loop (m # ms) s = (if matches m s then True else touched_loop ms s)"

definition touchedBy :: "rule \<Rightarrow> signal \<Rightarrow> bool" where
  "touchedBy r s = touched_loop (rAll r) s"

subsection \<open>Evaluation\<close>

definition window :: "rule \<Rightarrow> signal list \<Rightarrow> time \<Rightarrow> signal list" where
  "window r signals now =
     (let cutoff = now - rWindow r in filter (\<lambda>s. \<not> sTimestamp s < cutoff) signals)"

text \<open>The inner loop: the first index not yet used whose signal the matcher accepts.\<close>

fun pick :: "matcher \<Rightarrow> signal list \<Rightarrow> bool list \<Rightarrow> nat \<Rightarrow> nat option" where
  "pick m (s # win) (u # used) si =
     (if u \<or> \<not> matches m s then pick m win used (Suc si) else Some si)"
| "pick m _ _ si = None"

text \<open>The outer loop over the matchers, with the \<^verbatim>\<open>used\<close> array.\<close>

fun assign :: "matcher list \<Rightarrow> signal list \<Rightarrow> bool list \<Rightarrow> signal list option" where
  "assign [] win used = Some []"
| "assign (m # ms) win used =
     (case pick m win used 0 of
        None \<Rightarrow> None
      | Some p \<Rightarrow> map_option ((#) (win ! p)) (assign ms win (used[p := True])))"

fun in_time_order :: "signal list \<Rightarrow> bool" where
  "in_time_order (s # t # ch) = (if sTimestamp t < sTimestamp s then False else in_time_order (t # ch))"
| "in_time_order _ = True"

definition evaluate :: "rule \<Rightarrow> signal list \<Rightarrow> time \<Rightarrow> signal list option" where
  "evaluate r signals now =
     (let win = window r signals now in
      case assign (rAll r) win (replicate (length win) False) of
        None \<Rightarrow> None
      | Some chain \<Rightarrow> if rOrdered r \<and> \<not> in_time_order chain then None else Some chain)"

text \<open>
  The rule's doc comment as a predicate: every matcher is satisfied by a distinct signal of the
  window and, for an ordered rule, in matcher order.  \<open>ks\<close> are the chosen positions.
\<close>

definition fires_spec :: "rule \<Rightarrow> signal list \<Rightarrow> time \<Rightarrow> bool" where
  "fires_spec r signals now \<longleftrightarrow>
     (\<exists>ks. length ks = length (rAll r) \<and> distinct ks \<and>
       (\<forall>k < length ks. ks ! k < length (window r signals now) \<and>
          matches (rAll r ! k) (window r signals now ! (ks ! k))) \<and>
       (rOrdered r \<longrightarrow> in_time_order (map ((!) (window r signals now)) ks)))"

definition disjoint_matchers :: "matcher list \<Rightarrow> bool" where
  "disjoint_matchers ms \<longleftrightarrow>
     (\<forall>i j s. i < j \<longrightarrow> j < length ms \<longrightarrow> matches (ms ! i) s \<longrightarrow> \<not> matches (ms ! j) s)"

subsection \<open>What the loops compute\<close>

lemma touchedBy_iff: "touchedBy r s \<longleftrightarrow> (\<exists>m \<in> set (rAll r). matches m s)"
proof -
  have "touched_loop ms s \<longleftrightarrow> (\<exists>m \<in> set ms. matches m s)" for ms
    by (induction ms) auto
  then show ?thesis by (simp add: touchedBy_def)
qed

lemma set_window: "s \<in> set (window r signals now) \<longleftrightarrow> s \<in> set signals \<and> now - rWindow r \<le> sTimestamp s"
  by (auto simp: window_def Let_def)

definition free_match :: "matcher \<Rightarrow> signal list \<Rightarrow> bool list \<Rightarrow> nat \<Rightarrow> bool" where
  "free_match m win used i \<longleftrightarrow> \<not> used ! i \<and> matches m (win ! i)"

lemma free_match_Cons [simp]:
  "free_match m (s # win) (u # used) 0 \<longleftrightarrow> \<not> u \<and> matches m s"
  "free_match m (s # win) (u # used) (Suc i) \<longleftrightarrow> free_match m win used i"
  by (simp_all add: free_match_def)

lemma pick_shift: "pick m win used (Suc si) = map_option Suc (pick m win used si)"
  by (induction m win used si rule: pick.induct) auto

lemma pick_Some:
  "pick m win used 0 = Some p \<Longrightarrow>
     p < length win \<and> p < length used \<and> free_match m win used p \<and> (\<forall>i < p. \<not> free_match m win used i)"
proof (induction win arbitrary: used p)
  case (Cons s win)
  then show ?case
    by (cases used) (auto simp: pick_shift less_Suc_eq_0_disj split: if_splits)
qed simp

lemma pick_None:
  "length used = length win \<Longrightarrow> pick m win used 0 = None \<Longrightarrow> i < length win \<Longrightarrow> \<not> free_match m win used i"
proof (induction win arbitrary: used i)
  case (Cons s win)
  then show ?case
    by (cases used; cases i) (auto simp: pick_shift split: if_splits)
qed simp

text \<open>The greedy loop picks distinct, unused positions whose signals match.\<close>

lemma assign_Some:
  "assign ms win used = Some ch \<Longrightarrow> length used = length win \<Longrightarrow>
     \<exists>ks. length ks = length ms \<and> distinct ks \<and> ch = map ((!) win) ks \<and>
       (\<forall>k < length ms. ks ! k < length win \<and> free_match (ms ! k) win used (ks ! k))"
proof (induction ms arbitrary: used ch)
  case (Cons m ms)
  from Cons.prems(1) obtain p ch' where p: "pick m win used 0 = Some p"
    and ch': "assign ms win (used[p := True]) = Some ch'" and ch: "ch = win ! p # ch'"
    by (auto split: option.splits)
  from pick_Some [OF p] Cons.prems(2)
  have pm: "p < length win" "free_match m win used p" by auto
  from Cons.IH [OF ch'] Cons.prems(2) obtain ks where
    ks: "length ks = length ms" "distinct ks" "ch' = map ((!) win) ks"
      "\<forall>k < length ms. ks ! k < length win \<and> free_match (ms ! k) win (used[p := True]) (ks ! k)"
    by auto
  have fresh: "p \<notin> set ks"
    using ks(1,4) pm(1) Cons.prems(2) by (auto simp: in_set_conv_nth free_match_def)
  have old: "free_match (ms ! k) win used (ks ! k)" if "k < length ms" for k
    using ks(1,4) fresh that
    by (metis free_match_def nth_list_update_neq nth_mem)
  show ?case
    by (rule exI [of _ "p # ks"])
      (use ks pm fresh old ch in \<open>auto simp: nth_Cons split: nat.splits\<close>)
qed simp

lemma evaluate_Some:
  assumes "evaluate r signals now = Some ch"
  obtains ks where "length ks = length (rAll r)" "distinct ks"
    "ch = map ((!) (window r signals now)) ks"
    "\<forall>k < length ks. ks ! k < length (window r signals now) \<and> matches (rAll r ! k) (ch ! k)"
    "rOrdered r \<longrightarrow> in_time_order ch"
proof -
  let ?win = "window r signals now"
  from assms have a: "assign (rAll r) ?win (replicate (length ?win) False) = Some ch"
    and o: "rOrdered r \<longrightarrow> in_time_order ch"
    by (auto simp: evaluate_def Let_def split: option.splits if_splits)
  from assign_Some [OF a] obtain ks where
    "length ks = length (rAll r)" "distinct ks" "ch = map ((!) ?win) ks"
    "\<forall>k < length (rAll r). ks ! k < length ?win \<and> free_match (rAll r ! k) ?win (replicate (length ?win) False) (ks ! k)"
    by auto
  with o show thesis by (intro that [of ks]) (auto simp: free_match_def)
qed

lemma evaluate_sound_lemma: "evaluate r signals now = Some ch \<Longrightarrow> fires_spec r signals now"
  by (erule evaluate_Some) (auto simp: fires_spec_def)

lemma evaluate_chain_subset: "evaluate r signals now = Some ch \<Longrightarrow> set ch \<subseteq> set (window r signals now)"
proof
  fix s assume ev: "evaluate r signals now = Some ch" and s: "s \<in> set ch"
  from ev obtain ks where ks: "ch = map ((!) (window r signals now)) ks"
    "\<forall>k < length ks. ks ! k < length (window r signals now)"
    by (rule evaluate_Some) auto
  with s obtain k where "k < length ks" "s = window r signals now ! (ks ! k)"
    by (auto simp: in_set_conv_nth)
  with ks show "s \<in> set (window r signals now)" by simp
qed

subsection \<open>The greedy choice is exact when matchers are disjoint\<close>

lemma find_conv_first:
  "p < length win \<Longrightarrow> matches m (win ! p) \<Longrightarrow> \<forall>i < p. \<not> matches m (win ! i) \<Longrightarrow>
     List.find (matches m) win = Some (win ! p)"
  by (auto simp: find_Some_iff)

lemma assign_disjoint:
  "disjoint_matchers ms \<Longrightarrow> length used = length win \<Longrightarrow>
   (\<forall>m \<in> set ms. \<forall>i < length win. used ! i \<longrightarrow> \<not> matches m (win ! i)) \<Longrightarrow>
     assign ms win used = those (map (\<lambda>m. List.find (matches m) win) ms)"
proof (induction ms arbitrary: used)
  case (Cons m ms)
  have free: "free_match m win used i \<longleftrightarrow> matches m (win ! i)" if "i < length win" for i
    using Cons.prems(3) that by (auto simp: free_match_def)
  show ?case
  proof (cases "pick m win used 0")
    case None
    then have "List.find (matches m) win = None"
      using pick_None [OF Cons.prems(2) None] free by (auto simp: find_None_iff in_set_conv_nth)
    with None show ?thesis by simp
  next
    case (Some p)
    from pick_Some [OF Some] free have p: "p < length win" "matches m (win ! p)"
      "\<forall>i < p. \<not> matches m (win ! i)" by auto
    have d: "disjoint_matchers ms"
      using Cons.prems(1) unfolding disjoint_matchers_def
      by (metis Suc_less_eq length_Cons nth_Cons_Suc)
    have "\<not> matches m' (win ! p)" if "m' \<in> set ms" for m'
      using Cons.prems(1) that p(2) unfolding disjoint_matchers_def
      by (metis in_set_conv_nth length_Cons nth_Cons_0 nth_Cons_Suc Suc_less_eq zero_less_Suc)
    then have "assign ms win (used[p := True]) = those (map (\<lambda>m. List.find (matches m) win) ms)"
      using Cons.prems(2,3) d p(1) by (intro Cons.IH) (auto simp: nth_list_update split: if_splits)
    with Some find_conv_first [OF p] show ?thesis by simp
  qed
qed simp

lemma those_Some_iff: "(\<exists>ys. those xs = Some ys) \<longleftrightarrow> None \<notin> set xs"
  by (induction xs) (auto split: option.splits)

lemma evaluate_disjoint:
  assumes "disjoint_matchers (rAll r)"
  shows "evaluate r signals now =
    (case those (map (\<lambda>m. List.find (matches m) (window r signals now)) (rAll r)) of
       None \<Rightarrow> None
     | Some ch \<Rightarrow> if rOrdered r \<and> \<not> in_time_order ch then None else Some ch)"
  using assign_disjoint [OF assms, of "replicate (length (window r signals now)) False"]
  by (simp add: evaluate_def Let_def)

lemma evaluate_complete_lemma:
  assumes "disjoint_matchers (rAll r)" and "\<not> rOrdered r" and "fires_spec r signals now"
  shows "\<exists>ch. evaluate r signals now = Some ch"
proof -
  let ?win = "window r signals now"
  have "\<exists>s \<in> set ?win. matches m s" if "m \<in> set (rAll r)" for m
  proof -
    from assms(3) obtain ks where ks: "length ks = length (rAll r)"
      "\<forall>k < length ks. ks ! k < length ?win \<and> matches (rAll r ! k) (?win ! (ks ! k))"
      by (auto simp: fires_spec_def)
    from that obtain k where "k < length (rAll r)" "m = rAll r ! k"
      by (auto simp: in_set_conv_nth)
    with ks show ?thesis by (intro bexI [of _ "?win ! (ks ! k)"]) auto
  qed
  then have "None \<notin> set (map (\<lambda>m. List.find (matches m) ?win) (rAll r))"
    by (fastforce simp: find_None_iff find_None_iff2)
  then obtain ys where "those (map (\<lambda>m. List.find (matches m) ?win) (rAll r)) = Some ys"
    using those_Some_iff by blast
  then show ?thesis
    using assms(2) by (simp add: evaluate_disjoint [OF assms(1)])
qed

end
