(* ===== verification/Float64.thy ===== *)
theory Float64
  imports Complex_Main Prelude
begin

text \<open>
  Go's float64 arithmetic on the finite values the agent uses: a value is its exact rational and
  every operation rounds its exact result to the nearest value with a 53-bit significand, ties to
  even (\<open>fround\<close>).  Infinities, NaN and the subnormal range are not modelled.
  \<open>seconds\<close> is \<^verbatim>\<open>Duration.Seconds\<close>, \<open>to_int64\<close> the conversion of a float64 to an int64.
\<close>

type_synonym float64 = rat

function bits :: "int \<Rightarrow> int" where
  "bits n = (if n \<le> 0 then 0 else 1 + bits (n div 2))"
  by pat_completeness auto
termination
  by (relation "measure nat") auto

declare bits.simps [simp del]

definition pow2 :: "int \<Rightarrow> rat" where
  "pow2 e = (if 0 \<le> e then 2 ^ nat e else 1 / 2 ^ nat (- e))"

text \<open>The exponent that scales a positive rational into \<open>[2 ^ 52, 2 ^ 53)\<close>.\<close>

definition scale_exp :: "rat \<Rightarrow> int" where
  "scale_exp x =
     (let (n, d) = quotient_of x; e = bits n - bits d - 53
      in if x < pow2 (e + 53) then e else e + 1)"

definition round_even :: "rat \<Rightarrow> int" where
  "round_even q =
     (let f = \<lfloor>q\<rfloor>; r = q - of_int f in
      if r < 1 / 2 \<or> (r = 1 / 2 \<and> even f) then f else f + 1)"

definition fround_pos :: "rat \<Rightarrow> rat" where
  "fround_pos x = (let e = scale_exp x in of_int (round_even (x / pow2 e)) * pow2 e)"

definition fround :: "rat \<Rightarrow> float64" where
  "fround x = (if x = 0 then 0 else if 0 < x then fround_pos x else - fround_pos (- x))"

definition seconds :: "dur \<Rightarrow> float64" where
  "seconds d =
     (let sec = sgn d * (\<bar>d\<bar> div second); nsec = d - sec * second
      in fround (fround (of_int sec) + fround (of_int nsec / 1000000000)))"

text \<open>Truncation towards zero; a value out of range converts to the smallest int64 (amd64).\<close>

definition to_int64 :: "float64 \<Rightarrow> int" where
  "to_int64 x =
     (let i = (if 0 \<le> x then \<lfloor>x\<rfloor> else \<lceil>x\<rceil>)
      in if is_int64 i then i else min_int64)"

lemma pow2_pos [simp]: "0 < pow2 e"
  by (simp add: pow2_def)

lemma fround_0 [simp]: "fround 0 = 0"
  by (simp add: fround_def)

lemma round_even_nonneg: "0 \<le> q \<Longrightarrow> 0 \<le> round_even q"
  by (auto simp: round_even_def Let_def)

lemma fround_nonneg: "0 \<le> x \<Longrightarrow> 0 \<le> fround x"
proof -
  assume "0 \<le> x"
  then have "0 \<le> round_even (x / pow2 (scale_exp x))"
    by (intro round_even_nonneg) (simp add: less_imp_le)
  with \<open>0 \<le> x\<close> show ?thesis
    by (auto simp: fround_def fround_pos_def Let_def intro!: mult_nonneg_nonneg less_imp_le [OF pow2_pos])
qed

lemma fround_nonpos: "x \<le> 0 \<Longrightarrow> fround x \<le> 0"
  using fround_nonneg [of "- x"] by (auto simp: fround_def split: if_splits)

lemma seconds_nonneg: "0 \<le> d \<Longrightarrow> 0 \<le> seconds d"
  by (auto simp: seconds_def Let_def sgn_if intro!: fround_nonneg add_nonneg_nonneg)

lemma is_int64_to_int64 [simp]: "is_int64 (to_int64 x)"
  by (simp add: to_int64_def Let_def is_int64_def)

text \<open>Rounding on concrete values: exact where representable, to even where not.\<close>

lemma fround_one [simp]: "fround 1 = 1"
  by code_simp

lemma fround_tie: "fround 9007199254740993 = 9007199254740992"
  by code_simp

lemma bits_bounds: "0 < n \<Longrightarrow> 1 \<le> bits n \<and> 2 ^ nat (bits n - 1) \<le> n \<and> n < 2 ^ nat (bits n)"
proof (induction n rule: bits.induct)
  case (1 n)
  show ?case
  proof (cases "n = 1")
    case True
    have "bits 1 = 1" by (simp add: bits.simps)
    with True show ?thesis by simp
  next
    case False
    with 1 have IH: "1 \<le> bits (n div 2) \<and> 2 ^ nat (bits (n div 2) - 1) \<le> n div 2 \<and> n div 2 < 2 ^ nat (bits (n div 2))" by simp
    have b: "bits n = 1 + bits (n div 2)" using 1(2) by (subst bits.simps) simp
    have e: "nat (bits n - 1) = Suc (nat (bits (n div 2) - 1))" "nat (bits n) = Suc (nat (bits (n div 2)))" using b IH by linarith+
    have "2 * 2 ^ nat (bits (n div 2) - 1) \<le> n" "n < 2 * 2 ^ nat (bits (n div 2))" using IH by linarith+
    then show ?thesis using b IH unfolding e by simp
  qed
qed

lemma round_even_of_int [simp]: "round_even (of_int n) = n"
  by (simp add: round_even_def Let_def)

lemma bits_le_53: "0 < n \<Longrightarrow> n < 2 ^ 53 \<Longrightarrow> bits n \<le> 53"
proof (rule ccontr)
  assume n: "0 < n" "n < 2 ^ 53" and "\<not> bits n \<le> 53"
  then have "53 \<le> nat (bits n - 1)" by linarith
  then have "(2::int) ^ 53 \<le> 2 ^ nat (bits n - 1)" by (intro power_increasing) auto
  with bits_bounds [OF n(1)] n(2) show False by linarith
qed

text \<open>Integers below \<open>2 ^ 53\<close> are exact.\<close>

lemma fround_of_int: assumes "0 \<le> n" "n < 2 ^ 53" shows "fround (of_int n) = of_int n"
proof (cases "n = 0")
  case False
  with assms have n: "0 < n" by simp
  note b = bits_bounds [OF n] bits_le_53 [OF n assms(2)]
  have q: "quotient_of (of_int n) = (n, 1)" by simp
  have b1: "bits 1 = 1" by (simp add: bits.simps)
  have p: "pow2 (bits n - 1) \<le> of_int n"
  proof -
    have "(of_int (2 ^ nat (bits n - 1)) :: rat) \<le> of_int n" using b(1) of_int_le_iff by blast
    then show ?thesis using b(1) by (simp add: pow2_def)
  qed
  then have s: "scale_exp (of_int n) = bits n - 53" by (simp add: scale_exp_def q b1)
  have e: "pow2 (bits n - 53) = 1 / 2 ^ nat (53 - bits n)" using b(2) by (auto simp: pow2_def)
  have "of_int n / pow2 (bits n - 53) = (of_int (n * 2 ^ nat (53 - bits n)) :: rat)" by (simp add: e)
  then have "fround_pos (of_int n) = of_int n"
    unfolding fround_pos_def s Let_def by (simp only: round_even_of_int) (simp add: e)
  with n show ?thesis by (simp add: fround_def)
qed simp

end
