(* ===== verification/Correlator.thy ===== *)
theory Correlator
  imports Rules Float64
begin

text \<open>
  The correlation engine of \<^verbatim>\<open>src/pkg/correlate\<close>: \<^verbatim>\<open>correlate.go\<close> (state, ingest, pruning,
  eviction, reaping), \<^verbatim>\<open>suppress.go\<close> (false-positive suppressions) and \<^verbatim>\<open>rulespec.go\<close> (rules
  authored at run time).  Each operation runs under the engine's mutex, so it is one state
  transformer.  Parameters stand for what the code does not define: \<open>re\<close> is \<^verbatim>\<open>regexp.Compile\<close>
  with \<^verbatim>\<open>MatchString\<close>, \<open>now\<close> the clock, \<open>fresh\<close> a random identifier, \<open>evo\<close> and \<open>sor\<close> the
  orders in which \<^verbatim>\<open>range\<close> visits the session and the suppression map.  Counters are unbounded.
\<close>

subsection \<open>State\<close>

type_synonym regexp = "string \<Rightarrow> (string \<Rightarrow> bool) option"

record pid_session =
  psSignals :: "signal list"
  psLastActive :: time

record suppression_spec =
  ssID :: string
  ssRuleID :: string
  ssAttrKey :: string
  ssAttrPattern :: string
  ssReason :: string

record suppression =
  suSpec :: suppression_spec
  suRe :: "string \<Rightarrow> bool"
  suMatched :: int

record correlator =
  cRules :: "rule list"
  cEnabled :: "(string, bool) gomap"
  cFireCount :: "(string, int) gomap"
  cCustom :: "(string, bool) gomap"
  cSuppressions :: "(string, suppression) gomap"
  cLearning :: bool
  cSessions :: "(int, pid_session) gomap"
  cMaxSessions :: nat
  cLastFired :: "(string, time) gomap"
  cMaxWindow :: dur
  cRecent :: "finding list"
  cMaxRecent :: nat
  cRecentSignals :: "signal list"
  cMaxRecentSignals :: nat

abbreviation (input) sessionSignalCap :: nat where "sessionSignalCap \<equiv> 256"
abbreviation (input) defaultMaxSessions :: nat where "defaultMaxSessions \<equiv> 8192"

datatype corr_error =
    NameRequired | MatcherRequired | InvalidPattern nat string
  | RuleExists string | ErrRuleNotFound | ErrRuleNotCustom | NotRemovable string
  | SuppressionIncomplete | SuppressionPattern string | SuppressionExists string
  | SuppressionNotFound string

subsection \<open>Construction and views\<close>

fun widest :: "dur \<Rightarrow> rule list \<Rightarrow> dur" where
  "widest w [] = w"
| "widest w (r # rs) = widest (if w < rWindow r then rWindow r else w) rs"

fun enable_all :: "rule list \<Rightarrow> (string, bool) gomap \<Rightarrow> (string, bool) gomap" where
  "enable_all [] m = m"
| "enable_all (r # rs) m = enable_all rs (mput (rID r) True m)"

definition NewCorrelator :: "rule list \<Rightarrow> correlator" where
  "NewCorrelator rules =
     \<lparr>cRules = rules, cEnabled = enable_all rules [], cFireCount = [], cCustom = [],
      cSuppressions = [], cLearning = False, cSessions = [], cMaxSessions = defaultMaxSessions,
      cLastFired = [], cMaxWindow = widest minute rules, cRecent = [], cMaxRecent = 5000,
      cRecentSignals = [], cMaxRecentSignals = 20000\<rparr>"

definition clamp_limit :: "int \<Rightarrow> 'a list \<Rightarrow> nat" where
  "clamp_limit limit xs = (if limit \<le> 0 \<or> int (length xs) < limit then length xs else nat limit)"

definition RecentSignals :: "correlator \<Rightarrow> int \<Rightarrow> signal list" where
  "RecentSignals c limit = keep_last (clamp_limit limit (cRecentSignals c)) (cRecentSignals c)"

definition RecentFindings :: "correlator \<Rightarrow> int \<Rightarrow> finding list" where
  "RecentFindings c limit = keep_last (clamp_limit limit (cRecent c)) (cRecent c)"

record detection_info =
  diID :: string
  diName :: string
  diCategory :: string
  diSeverity :: string
  diTechnique :: string
  diMitreAttack :: string
  diDescription :: string
  diReferences :: "string list"
  diEnabled :: bool
  diCustom :: bool
  diFireCount :: int
  diWindowSecs :: float64
  diOrdered :: bool
  diMatchers :: "matcher_spec list"
  diRationale :: string
  diRemediation :: "string list"
  diFalsePositives :: "string list"

definition Detections :: "correlator \<Rightarrow> detection_info list" where
  "Detections c = map (\<lambda>r.
     \<lparr>diID = rID r, diName = rName r, diCategory = rCategory r, diSeverity = rSeverity r,
      diTechnique = rTechnique r, diMitreAttack = rMitreAttack r, diDescription = rDescription r,
      diReferences = rReferences r, diEnabled = mget False (cEnabled c) (rID r),
      diCustom = mget False (cCustom c) (rID r), diFireCount = mget 0 (cFireCount c) (rID r),
      diWindowSecs = seconds (rWindow r), diOrdered = rOrdered r, diMatchers = matcherSpecs r,
      diRationale = rRationale r, diRemediation = rRemediation r,
      diFalsePositives = rFalsePositives r\<rparr>) (cRules c)"

definition SetEnabled :: "string \<Rightarrow> bool \<Rightarrow> correlator \<Rightarrow> correlator \<times> bool" where
  "SetEnabled i on c =
     (case map_of (cEnabled c) i of
        None \<Rightarrow> (c, False)
      | Some _ \<Rightarrow> (c\<lparr>cEnabled := mput i on (cEnabled c)\<rparr>, True))"

definition SetLearningMode :: "bool \<Rightarrow> correlator \<Rightarrow> correlator" where
  "SetLearningMode on c = c\<lparr>cLearning := on\<rparr>"

definition LearningMode :: "correlator \<Rightarrow> bool" where
  "LearningMode c = cLearning c"

subsection \<open>Keys, pruning, eviction\<close>

definition fireKey :: "int \<Rightarrow> string \<Rightarrow> string" where
  "fireKey pid rl = itoa pid @ '':'' @ rl"

definition fireKeyPrefix :: "int \<Rightarrow> string" where
  "fireKeyPrefix pid = itoa pid @ '':''"

definition pruneLocked :: "correlator \<Rightarrow> pid_session \<Rightarrow> time \<Rightarrow> pid_session" where
  "pruneLocked c sess now =
     (let cutoff = now - cMaxWindow c;
          kept = dropWhile (\<lambda>s. sTimestamp s < cutoff) (psSignals sess)
      in sess\<lparr>psSignals := keep_last sessionSignalCap kept\<rparr>)"

definition forget_pid :: "int \<Rightarrow> correlator \<Rightarrow> correlator" where
  "forget_pid pid c =
     c\<lparr>cSessions := mdel pid (cSessions c), cLastFired := mdel (fireKeyPrefix pid) (cLastFired c)\<rparr>"

definition evictLocked :: "(int list \<Rightarrow> int list) \<Rightarrow> correlator \<Rightarrow> correlator" where
  "evictLocked evo c =
     (let active = (\<lambda>pid. case map_of (cSessions c) pid of Some se \<Rightarrow> psLastActive se | None \<Rightarrow> 0);
          ages = sort_key active (evo (keys (cSessions c)));
          n = length ages div 4;
          n' = (if n = 0 then 1 else n)
      in fold forget_pid (take n' ages) c)"

definition Reap :: "int \<Rightarrow> correlator \<Rightarrow> correlator" where
  "Reap pid c = forget_pid pid c"

subsection \<open>Suppressions\<close>

definition sup_matches :: "suppression \<Rightarrow> finding \<Rightarrow> bool" where
  "sup_matches s f =
     (if ssRuleID (suSpec s) \<noteq> '''' \<and> ssRuleID (suSpec s) \<noteq> fRuleID f then False
      else list_ex (\<lambda>sig. suRe s (Attr sig (ssAttrKey (suSpec s)))) (fChain f))"

fun find_suppression :: "(string, suppression) gomap \<Rightarrow> finding \<Rightarrow> string list \<Rightarrow> string option" where
  "find_suppression m f [] = None"
| "find_suppression m f (k # ks) =
     (case map_of m k of
        None \<Rightarrow> find_suppression m f ks
      | Some s \<Rightarrow> if sup_matches s f then Some k else find_suppression m f ks)"

definition bump_match :: "string \<Rightarrow> (string, suppression) gomap \<Rightarrow> (string, suppression) gomap" where
  "bump_match k m =
     (case map_of m k of None \<Rightarrow> m | Some s \<Rightarrow> mput k (s\<lparr>suMatched := suMatched s + 1\<rparr>) m)"

definition suppressedLocked :: "(string list \<Rightarrow> string list) \<Rightarrow> finding \<Rightarrow> correlator \<Rightarrow> correlator \<times> bool" where
  "suppressedLocked sor f c =
     (case find_suppression (cSuppressions c) f (sor (keys (cSuppressions c))) of
        None \<Rightarrow> (c, False)
      | Some k \<Rightarrow> (c\<lparr>cSuppressions := bump_match k (cSuppressions c)\<rparr>, True))"

definition AddSuppression ::
  "regexp \<Rightarrow> string \<Rightarrow> suppression_spec \<Rightarrow> correlator \<Rightarrow> correlator \<times> (corr_error + string)" where
  "AddSuppression re fresh spec c =
     (if ssAttrKey spec = '''' \<or> ssAttrPattern spec = '''' then (c, Inl SuppressionIncomplete)
      else case re (ssAttrPattern spec) of
        None \<Rightarrow> (c, Inl (SuppressionPattern (ssAttrPattern spec)))
      | Some m \<Rightarrow>
          let spec' = (if ssID spec = '''' then spec\<lparr>ssID := ''NS-SUP-'' @ fresh\<rparr> else spec) in
          if map_of (cSuppressions c) (ssID spec') \<noteq> None
          then (c, Inl (SuppressionExists (ssID spec')))
          else (c\<lparr>cSuppressions :=
                   mput (ssID spec') \<lparr>suSpec = spec', suRe = m, suMatched = 0\<rparr> (cSuppressions c)\<rparr>,
                Inr (ssID spec')))"

definition RemoveSuppression :: "string \<Rightarrow> correlator \<Rightarrow> correlator \<times> (corr_error + unit)" where
  "RemoveSuppression i c =
     (case map_of (cSuppressions c) i of
        None \<Rightarrow> (c, Inl (SuppressionNotFound i))
      | Some _ \<Rightarrow> (c\<lparr>cSuppressions := mdel i (cSuppressions c)\<rparr>, Inr ()))"

definition Suppressions :: "correlator \<Rightarrow> (suppression_spec \<times> int) list" where
  "Suppressions c = map (\<lambda>(k, s). (suSpec s, suMatched s)) (cSuppressions c)"

subsection \<open>Ingest\<close>

definition finding_of :: "rule \<Rightarrow> signal \<Rightarrow> signal list \<Rightarrow> finding" where
  "finding_of r s chain =
     \<lparr>fTimestamp = sTimestamp s, fRuleID = rID r, fRule = rName r, fPID = sPID s,
      fTenantID = sTenantID s, fSeverity = rSeverity r, fTechnique = rTechnique r,
      fDescription = rDescription r, fChain = chain\<rparr>"

definition cooling :: "correlator \<Rightarrow> rule \<Rightarrow> signal \<Rightarrow> bool" where
  "cooling c r s =
     (case map_of (cLastFired c) (fireKey (sPID s) (rName r)) of
        None \<Rightarrow> False
      | Some t \<Rightarrow> time_sub (sTimestamp s) t < rWindow r)"

definition record_fire :: "rule \<Rightarrow> signal \<Rightarrow> finding \<Rightarrow> correlator \<Rightarrow> correlator" where
  "record_fire r s f c =
     c\<lparr>cLastFired := mput (fireKey (sPID s) (rName r)) (sTimestamp s) (cLastFired c),
       cFireCount := mput (rID r) (mget 0 (cFireCount c) (rID r) + 1) (cFireCount c),
       cRecent := keep_last (cMaxRecent c) (cRecent c @ [f])\<rparr>"

text \<open>One iteration of the loop over the rules; \<open>sigs\<close> is the session's pruned history.\<close>

definition ingest_rule ::
  "(string list \<Rightarrow> string list) \<Rightarrow> signal \<Rightarrow> signal list \<Rightarrow> rule \<Rightarrow> correlator \<Rightarrow> correlator \<times> finding list" where
  "ingest_rule sor s sigs r c =
     (if \<not> mget False (cEnabled c) (rID r) then (c, [])
      else if \<not> touchedBy r s then (c, [])
      else case evaluate r sigs (sTimestamp s) of
        None \<Rightarrow> (c, [])
      | Some chain \<Rightarrow>
          if cooling c r s then (c, [])
          else
            let f = finding_of r s chain; (c', silenced) = suppressedLocked sor f c in
            if silenced then (c', []) else (record_fire r s f c', [f]))"

fun ingest_rules ::
  "(nat \<Rightarrow> string list \<Rightarrow> string list) \<Rightarrow> signal \<Rightarrow> signal list \<Rightarrow> nat \<Rightarrow> rule list \<Rightarrow> correlator \<Rightarrow>
     correlator \<times> finding list" where
  "ingest_rules sor s sigs i [] c = (c, [])"
| "ingest_rules sor s sigs i (r # rs) c =
     (let (c', fs) = ingest_rule (sor i) s sigs r c;
          (c'', gs) = ingest_rules sor s sigs (Suc i) rs c'
      in (c'', fs @ gs))"

definition stamp :: "time \<Rightarrow> signal \<Rightarrow> signal" where
  "stamp now s = (if sTimestamp s = zero_time then s\<lparr>sTimestamp := now\<rparr> else s)"

definition remember_signal :: "signal \<Rightarrow> correlator \<Rightarrow> correlator" where
  "remember_signal s c =
     c\<lparr>cRecentSignals := keep_last (cMaxRecentSignals c) (cRecentSignals c @ [s])\<rparr>"

text \<open>The session of the signal's process after the signal is recorded, and the engine with it.\<close>

definition open_session :: "(int list \<Rightarrow> int list) \<Rightarrow> signal \<Rightarrow> correlator \<Rightarrow> pid_session \<times> correlator" where
  "open_session evo s c =
     (case map_of (cSessions c) (sPID s) of
        Some se \<Rightarrow> (se, c)
      | None \<Rightarrow>
          (\<lparr>psSignals = [], psLastActive = zero_time\<rparr>,
           if cMaxSessions c \<le> length (cSessions c) then evictLocked evo c else c))"

definition note_signal :: "(int list \<Rightarrow> int list) \<Rightarrow> signal \<Rightarrow> correlator \<Rightarrow> pid_session \<times> correlator" where
  "note_signal evo s c =
     (let (se, c') = open_session evo s c;
          se' = se\<lparr>psLastActive := sTimestamp s, psSignals := psSignals se @ [s]\<rparr>;
          se'' = pruneLocked c' se' (sTimestamp s)
      in (se'', c'\<lparr>cSessions := mput (sPID s) se'' (cSessions c')\<rparr>))"

text \<open>The result: the new engine, the findings, and the findings handed to the \<^verbatim>\<open>OnFinding\<close> sink.\<close>

definition Ingest ::
  "(int list \<Rightarrow> int list) \<Rightarrow> (nat \<Rightarrow> string list \<Rightarrow> string list) \<Rightarrow> time \<Rightarrow> signal \<Rightarrow> correlator \<Rightarrow>
     correlator \<times> finding list \<times> finding list" where
  "Ingest evo sor now s0 c =
     (let s = stamp now s0;
          (se, c1) = note_signal evo s (remember_signal s c);
          (c2, findings) = ingest_rules sor s (psSignals se) 0 (cRules c1) c1
      in (c2, findings, if cLearning c2 then [] else findings))"

subsection \<open>Rules authored at run time\<close>

record rule_spec =
  spID :: string
  spName :: string
  spCategory :: string
  spSeverity :: string
  spTechnique :: string
  spMitreAttack :: string
  spDescription :: string
  spWindowSecs :: float64
  spOrdered :: bool
  spMatchers :: "matcher_spec list"
  spRationale :: string
  spRemediation :: "string list"
  spFalsePositives :: "string list"
  spReferences :: "string list"

definition firstNonEmpty :: "string \<Rightarrow> string \<Rightarrow> string" where
  "firstNonEmpty a b = (if a \<noteq> '''' then a else b)"

definition compile_matcher :: "regexp \<Rightarrow> nat \<Rightarrow> matcher_spec \<Rightarrow> corr_error + matcher" where
  "compile_matcher re i ms =
     (let m = \<lparr>mLayer = msLayer ms, mKind = msKind ms, mPred = None\<rparr> in
      if msAttrKey ms \<noteq> '''' \<and> msAttrPattern ms \<noteq> '''' then
        (case re (msAttrPattern ms) of
           None \<Rightarrow> Inl (InvalidPattern i (msAttrPattern ms))
         | Some p \<Rightarrow> Inr (m\<lparr>mPred := Some (\<lambda>s. p (Attr s (msAttrKey ms)))\<rparr>))
      else Inr m)"

fun compile_matchers :: "regexp \<Rightarrow> nat \<Rightarrow> matcher_spec list \<Rightarrow> corr_error + matcher list" where
  "compile_matchers re i [] = Inr []"
| "compile_matchers re i (ms # mss) =
     (case compile_matcher re i ms of
        Inl e \<Rightarrow> Inl e
      | Inr m \<Rightarrow> (case compile_matchers re (Suc i) mss of Inl e \<Rightarrow> Inl e | Inr rest \<Rightarrow> Inr (m # rest)))"

definition compile :: "regexp \<Rightarrow> string \<Rightarrow> rule_spec \<Rightarrow> corr_error + rule" where
  "compile re fresh spec =
     (if spName spec = '''' then Inl NameRequired
      else if length (spMatchers spec) = 0 then Inl MatcherRequired
      else case compile_matchers re 0 (spMatchers spec) of
        Inl e \<Rightarrow> Inl e
      | Inr ms \<Rightarrow>
          let win = to_int64 (fround (spWindowSecs spec * 1000000000));
              win' = (if win \<le> 0 then 10 * second else win);
              sev = (if spSeverity spec = '''' then ''medium'' else spSeverity spec);
              i = (if spID spec = '''' then ''NS-CUSTOM-'' @ fresh else spID spec)
          in Inr \<lparr>rID = i, rName = spName spec, rAll = ms, rWindow = win', rOrdered = spOrdered spec,
               rSeverity = sev, rTechnique = spTechnique spec, rMitreAttack = spMitreAttack spec,
               rCategory = firstNonEmpty (spCategory spec) ''Custom'', rReferences = spReferences spec,
               rDescription = spDescription spec, rRationale = spRationale spec,
               rRemediation = spRemediation spec, rFalsePositives = spFalsePositives spec,
               rMatchers = spMatchers spec\<rparr>)"

definition widen :: "rule \<Rightarrow> correlator \<Rightarrow> correlator" where
  "widen r c = (if cMaxWindow c < rWindow r then c\<lparr>cMaxWindow := rWindow r\<rparr> else c)"

definition AddRule :: "regexp \<Rightarrow> string \<Rightarrow> rule_spec \<Rightarrow> correlator \<Rightarrow> correlator \<times> (corr_error + string)" where
  "AddRule re fresh spec c =
     (case compile re fresh spec of
        Inl e \<Rightarrow> (c, Inl e)
      | Inr r \<Rightarrow>
          if map_of (cEnabled c) (rID r) \<noteq> None then (c, Inl (RuleExists (rID r)))
          else (widen r (c\<lparr>cRules := cRules c @ [r], cEnabled := mput (rID r) True (cEnabled c),
                           cCustom := mput (rID r) True (cCustom c)\<rparr>),
                Inr (rID r)))"

fun replace_rule :: "string \<Rightarrow> rule \<Rightarrow> rule list \<Rightarrow> rule list" where
  "replace_rule i r [] = []"
| "replace_rule i r (x # xs) = (if rID x = i then r # xs else x # replace_rule i r xs)"

definition UpdateRule :: "regexp \<Rightarrow> string \<Rightarrow> rule_spec \<Rightarrow> correlator \<Rightarrow> correlator \<times> (corr_error + rule)" where
  "UpdateRule re fresh spec c =
     (if spID spec = '''' then (c, Inl ErrRuleNotFound)
      else if \<not> mget False (cCustom c) (spID spec) then
        (if map_of (cEnabled c) (spID spec) \<noteq> None then (c, Inl ErrRuleNotCustom)
         else (c, Inl ErrRuleNotFound))
      else case compile re fresh spec of
        Inl e \<Rightarrow> (c, Inl e)
      | Inr r0 \<Rightarrow>
          let r = r0\<lparr>rID := spID spec\<rparr>
          in (widen r (c\<lparr>cRules := replace_rule (spID spec) r (cRules c)\<rparr>), Inr r))"

fun drop_rule :: "string \<Rightarrow> rule list \<Rightarrow> rule list" where
  "drop_rule i [] = []"
| "drop_rule i (x # xs) = (if rID x = i then xs else x # drop_rule i xs)"

definition RemoveRule :: "string \<Rightarrow> correlator \<Rightarrow> correlator \<times> (corr_error + unit)" where
  "RemoveRule i c =
     (if \<not> mget False (cCustom c) i then (c, Inl (NotRemovable i))
      else (c\<lparr>cRules := drop_rule i (cRules c), cEnabled := mdel i (cEnabled c),
              cCustom := mdel i (cCustom c), cFireCount := mdel i (cFireCount c)\<rparr>, Inr ()))"

end
