(* ===== verification/Correlator_Inv.thy ===== *)
theory Correlator_Inv
  imports Correlator
begin

text \<open>
  The invariant of the correlation engine and its preservation: the memory bounds (every
  session, the session table and both rings stay within their caps), the session contents (a
  session holds signals of its own process only), and the catalog (rule identifiers are distinct
  and are exactly the keys of the enabled map, the retention window covers every rule window).
\<close>

subsection \<open>The invariant\<close>

definition session_ok :: "int \<times> pid_session \<Rightarrow> bool" where
  "session_ok p \<longleftrightarrow>
     length (psSignals (snd p)) \<le> sessionSignalCap \<and> (\<forall>s \<in> set (psSignals (snd p)). sPID s = fst p)"

definition bounds_ok :: "correlator \<Rightarrow> bool" where
  "bounds_ok c \<longleftrightarrow>
     gomap_ok (cSessions c) \<and> 1 \<le> cMaxSessions c \<and> length (cSessions c) \<le> cMaxSessions c \<and>
     (\<forall>p \<in> set (cSessions c). session_ok p) \<and>
     length (cRecent c) \<le> cMaxRecent c \<and> length (cRecentSignals c) \<le> cMaxRecentSignals c"

definition catalog_ok :: "correlator \<Rightarrow> bool" where
  "catalog_ok c \<longleftrightarrow>
     distinct (map rID (cRules c)) \<and> set (keys (cEnabled c)) = rID ` set (cRules c) \<and>
     (\<forall>i. mget False (cCustom c) i \<longrightarrow> i \<in> rID ` set (cRules c)) \<and>
     (\<forall>r \<in> set (cRules c). rName r \<noteq> '''' \<and> rWindow r \<le> cMaxWindow c)"

definition corr_wf :: "correlator \<Rightarrow> bool" where
  "corr_wf c \<longleftrightarrow> bounds_ok c \<and> catalog_ok c"

text \<open>Fields the invariant does not read may change freely.\<close>

lemma bounds_ok_frame [simp]:
  "bounds_ok (c\<lparr>cRules := x1\<rparr>) = bounds_ok c" "bounds_ok (c\<lparr>cEnabled := x2\<rparr>) = bounds_ok c"
  "bounds_ok (c\<lparr>cFireCount := x3\<rparr>) = bounds_ok c" "bounds_ok (c\<lparr>cCustom := x4\<rparr>) = bounds_ok c"
  "bounds_ok (c\<lparr>cSuppressions := x5\<rparr>) = bounds_ok c" "bounds_ok (c\<lparr>cLearning := x6\<rparr>) = bounds_ok c"
  "bounds_ok (c\<lparr>cLastFired := x7\<rparr>) = bounds_ok c" "bounds_ok (c\<lparr>cMaxWindow := x8\<rparr>) = bounds_ok c"
  by (simp_all add: bounds_ok_def)

lemma catalog_ok_frame [simp]:
  "catalog_ok (c\<lparr>cFireCount := y1\<rparr>) = catalog_ok c" "catalog_ok (c\<lparr>cSuppressions := y2\<rparr>) = catalog_ok c"
  "catalog_ok (c\<lparr>cLearning := y3\<rparr>) = catalog_ok c" "catalog_ok (c\<lparr>cSessions := y4\<rparr>) = catalog_ok c"
  "catalog_ok (c\<lparr>cLastFired := y5\<rparr>) = catalog_ok c" "catalog_ok (c\<lparr>cRecent := y6\<rparr>) = catalog_ok c"
  "catalog_ok (c\<lparr>cRecentSignals := y7\<rparr>) = catalog_ok c"
  by (simp_all add: catalog_ok_def)

subsection \<open>Construction\<close>

lemma widest_ge: "w \<le> widest w rs"
  by (induction rs arbitrary: w) (auto intro: order_trans less_imp_le)

lemma widest_all: "r \<in> set rs \<Longrightarrow> rWindow r \<le> widest w rs"
proof (induction rs arbitrary: w)
  case (Cons a rs)
  have "rWindow a \<le> (if w < rWindow a then rWindow a else w)" by simp
  also have "\<dots> \<le> widest w (a # rs)" using widest_ge by simp
  finally show ?case using Cons by auto
qed simp

lemma keys_enable_all: "set (keys (enable_all rs m)) = rID ` set rs \<union> set (keys m)"
  by (induction rs arbitrary: m) (auto simp: keys_mput simp del: set_map)

lemma NewCorrelator_wf:
  assumes "distinct (map rID rules)" and "\<forall>r \<in> set rules. rName r \<noteq> ''''"
  shows "corr_wf (NewCorrelator rules)"
  using assms keys_enable_all [of rules "[]"]
  by (auto simp: corr_wf_def bounds_ok_def catalog_ok_def NewCorrelator_def widest_all mget_def)

subsection \<open>Forgetting processes\<close>

lemma fold_forget_frame [simp]:
  "cRules (fold forget_pid ps c) = cRules c" "cEnabled (fold forget_pid ps c) = cEnabled c"
  "cCustom (fold forget_pid ps c) = cCustom c" "cMaxSessions (fold forget_pid ps c) = cMaxSessions c"
  "cMaxWindow (fold forget_pid ps c) = cMaxWindow c" "cRecent (fold forget_pid ps c) = cRecent c"
  "cMaxRecent (fold forget_pid ps c) = cMaxRecent c" "cSuppressions (fold forget_pid ps c) = cSuppressions c"
  "cRecentSignals (fold forget_pid ps c) = cRecentSignals c" "cLearning (fold forget_pid ps c) = cLearning c"
  "cMaxRecentSignals (fold forget_pid ps c) = cMaxRecentSignals c" "cFireCount (fold forget_pid ps c) = cFireCount c"
  by (induction ps arbitrary: c) (simp_all add: forget_pid_def)

lemma sessions_fold_forget:
  "cSessions (fold forget_pid ps c) = filter (\<lambda>p. fst p \<notin> set ps) (cSessions c)"
  by (induction ps arbitrary: c) (auto simp: forget_pid_def AList.delete_eq intro!: filter_cong)

lemma catalog_ok_fold_forget [simp]: "catalog_ok (fold forget_pid ps c) = catalog_ok c"
  by (simp add: catalog_ok_def)

lemma bounds_ok_fold_forget: "bounds_ok c \<Longrightarrow> bounds_ok (fold forget_pid ps c)"
  by (auto simp: bounds_ok_def sessions_fold_forget intro: le_trans [OF length_filter_le])

text \<open>The processes an eviction drops, in the order of their last activity.\<close>

definition last_active :: "correlator \<Rightarrow> int \<Rightarrow> time" where
  "last_active c pid = (case map_of (cSessions c) pid of Some se \<Rightarrow> psLastActive se | None \<Rightarrow> 0)"

definition victims :: "(int list \<Rightarrow> int list) \<Rightarrow> correlator \<Rightarrow> int list" where
  "victims evo c =
     take (if length (cSessions c) div 4 = 0 then 1 else length (cSessions c) div 4)
       (sort_key (last_active c) (evo (keys (cSessions c))))"

lemma evictLocked_victims:
  "range_order evo \<Longrightarrow> evictLocked evo c = fold forget_pid (victims evo c) c"
  by (simp add: evictLocked_def victims_def last_active_def [abs_def] range_orderD Let_def)

lemma victims_props:
  assumes "range_order evo" and "gomap_ok (cSessions c)"
  shows "set (victims evo c) \<subseteq> set (keys (cSessions c))"
    and "distinct (victims evo c)"
    and "length (victims evo c) = min (max 1 (length (cSessions c) div 4)) (length (cSessions c))"
    and "p \<in> set (victims evo c) \<Longrightarrow> q \<in> set (keys (cSessions c)) \<Longrightarrow> q \<notin> set (victims evo c) \<Longrightarrow>
      last_active c p \<le> last_active c q"
proof -
  let ?l = "sort_key (last_active c) (evo (keys (cSessions c)))"
  let ?n = "if length (cSessions c) div 4 = 0 then 1 else length (cSessions c) div 4"
  have l: "set ?l = set (keys (cSessions c))" "length ?l = length (cSessions c)"
    using range_orderD [OF assms(1), of "keys (cSessions c)"] by simp_all
  have v: "victims evo c = take ?n ?l" by (simp add: victims_def)
  show "set (victims evo c) \<subseteq> set (keys (cSessions c))"
    using l(1) set_take_subset v by metis
  show "distinct (victims evo c)"
    using range_order_distinct [OF assms(1)] assms(2) by (simp add: v gomap_ok_def)
  show "length (victims evo c) = min (max 1 (length (cSessions c) div 4)) (length (cSessions c))"
    using l(2) by (auto simp: v)
  assume p: "p \<in> set (victims evo c)" and q: "q \<in> set (keys (cSessions c))" "q \<notin> set (victims evo c)"
  have "sorted (map (last_active c) (take ?n ?l @ drop ?n ?l))" by simp
  then have "\<forall>x \<in> set (take ?n ?l). \<forall>y \<in> set (drop ?n ?l). last_active c x \<le> last_active c y"
    unfolding map_append sorted_append by auto
  moreover have "q \<in> set (drop ?n ?l)"
    using q l(1) v by (metis Un_iff append_take_drop_id set_append)
  ultimately show "last_active c p \<le> last_active c q" using p v by auto
qed

lemma evictLocked_shrinks:
  assumes "range_order evo" and "gomap_ok (cSessions c)" and "cSessions c \<noteq> []"
  shows "length (cSessions (evictLocked evo c)) < length (cSessions c)"
proof -
  from victims_props(3) [OF assms(1,2)] assms(3) have "victims evo c \<noteq> []"
    by (cases "cSessions c") auto
  then obtain p where "p \<in> set (victims evo c)" by (cases "victims evo c") auto
  moreover from this victims_props(1) [OF assms(1,2)] obtain se where "(p, se) \<in> set (cSessions c)"
    by fastforce
  ultimately show ?thesis
    unfolding evictLocked_victims [OF assms(1)] sessions_fold_forget
    by (intro length_filter_less [of "(p, se)"]) auto
qed

subsection \<open>Recording a signal\<close>

lemma pruneLocked_subset: "set (psSignals (pruneLocked c se t)) \<subseteq> set (psSignals se)"
  by (auto simp: pruneLocked_def Let_def dest!: subsetD [OF set_keep_last] set_dropWhileD)

lemma pruneLocked_ok:
  assumes "\<forall>s \<in> set (psSignals se). sPID s = pid"
  shows "session_ok (pid, pruneLocked c se t)"
proof -
  have "length (psSignals (pruneLocked c se t)) \<le> 256"
    by (simp add: pruneLocked_def Let_def)
  with assms pruneLocked_subset show ?thesis by (fastforce simp: session_ok_def)
qed

lemma bounds_ok_evictLocked: "range_order evo \<Longrightarrow> bounds_ok c \<Longrightarrow> bounds_ok (evictLocked evo c)"
  by (simp add: evictLocked_victims bounds_ok_fold_forget)

lemma catalog_ok_evictLocked [simp]: "range_order evo \<Longrightarrow> catalog_ok (evictLocked evo c) = catalog_ok c"
  by (simp add: evictLocked_victims)

lemma open_session_ok:
  assumes "range_order evo" and "bounds_ok c" and "open_session evo s c = (se, c')"
  shows "bounds_ok c'" and "catalog_ok c' = catalog_ok c" and "cRules c' = cRules c"
    and "\<forall>x \<in> set (psSignals se). sPID x = sPID s"
    and "length (mput (sPID s) y (cSessions c')) \<le> cMaxSessions c'"
proof -
  show "bounds_ok c'" "catalog_ok c' = catalog_ok c" "cRules c' = cRules c"
    using assms by (auto simp: open_session_def evictLocked_victims bounds_ok_fold_forget
        split: option.splits if_splits)
  show "\<forall>x \<in> set (psSignals se). sPID x = sPID s"
    using assms(2,3) by (auto simp: open_session_def bounds_ok_def session_ok_def
        split: option.splits dest!: map_of_SomeD)
  show "length (mput (sPID s) y (cSessions c')) \<le> cMaxSessions c'"
  proof (cases "map_of (cSessions c) (sPID s)")
    case (Some z)
    with assms(2,3) show ?thesis
      by (auto simp: open_session_def bounds_ok_def length_mput dest!: map_of_SomeD
          intro: rev_image_eqI)
  next
    case None
    show ?thesis
    proof (cases "cMaxSessions c \<le> length (cSessions c)")
      case True
      with assms(2) have "cSessions c \<noteq> []" by (auto simp: bounds_ok_def)
      with evictLocked_shrinks [OF assms(1)] assms(2)
      have "length (cSessions (evictLocked evo c)) < cMaxSessions c"
        by (auto simp: bounds_ok_def intro: less_le_trans)
      with True None assms(1,3) show ?thesis
        by (auto simp: open_session_def length_mput evictLocked_victims)
    next
      case False
      with None assms(3) show ?thesis by (auto simp: open_session_def length_mput)
    qed
  qed
qed

lemma mput_mem: "p \<in> set (mput k v m) \<Longrightarrow> p = (k, v) \<or> p \<in> set m"
  by (induction m) (auto split: if_splits)

lemma note_signal_ok:
  assumes "range_order evo" and "bounds_ok c" and "note_signal evo s c = (se, c')"
  shows "bounds_ok c'" and "catalog_ok c' = catalog_ok c" and "cRules c' = cRules c"
    and "\<forall>x \<in> set (psSignals se). sPID x = sPID s"
proof -
  obtain se0 c0 where o: "open_session evo s c = (se0, c0)" by fastforce
  note ok = open_session_ok [OF assms(1,2) o]
  let ?se' = "se0\<lparr>psLastActive := sTimestamp s, psSignals := psSignals se0 @ [s]\<rparr>"
  have se: "se = pruneLocked c0 ?se' (sTimestamp s)"
    and c': "c' = c0\<lparr>cSessions := mput (sPID s) se (cSessions c0)\<rparr>"
    using assms(3) o by (auto simp: note_signal_def Let_def)
  have sok: "session_ok (sPID s, se)"
    unfolding se using ok(4) by (intro pruneLocked_ok) auto
  then show "\<forall>x \<in> set (psSignals se). sPID x = sPID s" by (simp add: session_ok_def)
  show "bounds_ok c'"
    using ok(1) ok(5) [of se] sok by (auto simp: c' bounds_ok_def dest: mput_mem)
  show "catalog_ok c' = catalog_ok c" "cRules c' = cRules c"
    using ok(2,3) by (simp_all add: c')
qed

end
