(* ===== verification/Correlator_Trace.thy ===== *)
theory Correlator_Trace
  imports Correlator_Inv
begin

text \<open>
  What the engine emits: one rule, the loop over the rules, a whole ingest; then the operations
  as a labelled transition relation with the history of emitted findings, its reachable states,
  and the invariants that hold along every run.
\<close>

subsection \<open>One rule\<close>

lemma suppressedLocked_frame:
  assumes "suppressedLocked sor f c = (c', b)"
  shows "cRules c' = cRules c" "cEnabled c' = cEnabled c" "cSessions c' = cSessions c"
    "cLastFired c' = cLastFired c" "cRecent c' = cRecent c" "cFireCount c' = cFireCount c"
    "cLearning c' = cLearning c" "cRecentSignals c' = cRecentSignals c"
    "bounds_ok c' = bounds_ok c" "catalog_ok c' = catalog_ok c"
  using assms by (auto simp: suppressedLocked_def split: option.splits)

text \<open>The three outcomes of an iteration: skipped, silenced by a suppression, fired.\<close>

lemma ingest_rule_cases:
  assumes "ingest_rule sor s sigs r c = (c', fs)"
  obtains (skip) "c' = c" "fs = []"
    | (silenced) chain where "evaluate r sigs (sTimestamp s) = Some chain"
        "suppressedLocked sor (finding_of r s chain) c = (c', True)" "fs = []"
    | (fired) chain c1 where "mget False (cEnabled c) (rID r)"
        "evaluate r sigs (sTimestamp s) = Some chain" "\<not> cooling c r s"
        "suppressedLocked sor (finding_of r s chain) c = (c1, False)"
        "c' = record_fire r s (finding_of r s chain) c1" "fs = [finding_of r s chain]"
proof (cases "\<not> mget False (cEnabled c) (rID r) \<or> \<not> touchedBy r s \<or>
    evaluate r sigs (sTimestamp s) = None \<or> cooling c r s")
  case True
  with assms skip show ?thesis by (auto simp: ingest_rule_def split: option.splits if_splits)
next
  case False
  then obtain chain where ev: "evaluate r sigs (sTimestamp s) = Some chain" by auto
  obtain c1 b where su: "suppressedLocked sor (finding_of r s chain) c = (c1, b)" by fastforce
  show ?thesis
  proof (cases b)
    case True
    with False ev su assms show ?thesis
      by (intro silenced [of chain]) (auto simp: ingest_rule_def)
  next
    case b: False
    with False ev su assms show ?thesis
      by (intro fired [of chain c1]) (auto simp: ingest_rule_def Let_def)
  qed
qed

text \<open>An iteration keeps the engine's configuration; only a firing changes rings and counters.\<close>

definition same_config :: "correlator \<Rightarrow> correlator \<Rightarrow> bool" where
  "same_config c c' \<longleftrightarrow>
     cRules c' = cRules c \<and> cEnabled c' = cEnabled c \<and> cCustom c' = cCustom c \<and>
     cSessions c' = cSessions c \<and> cLearning c' = cLearning c \<and>
     cMaxSessions c' = cMaxSessions c \<and> cMaxWindow c' = cMaxWindow c \<and>
     cMaxRecent c' = cMaxRecent c \<and> cRecentSignals c' = cRecentSignals c \<and>
     cMaxRecentSignals c' = cMaxRecentSignals c"

lemma same_config_refl [simp]: "same_config c c"
  by (simp add: same_config_def)

lemma same_config_trans: "same_config a b \<Longrightarrow> same_config b c \<Longrightarrow> same_config a c"
  by (simp add: same_config_def)

lemma same_config_suppressed: "suppressedLocked sor f c = (c', b) \<Longrightarrow> same_config c c'"
  by (auto simp: suppressedLocked_def same_config_def split: option.splits)

lemma same_config_record_fire [simp]: "same_config c (record_fire r s f c)"
  by (simp add: record_fire_def same_config_def)

lemma ingest_rule_config: "ingest_rule sor s sigs r c = (c', fs) \<Longrightarrow> same_config c c'"
  by (erule ingest_rule_cases)
    (auto intro: same_config_suppressed same_config_trans [OF _ same_config_record_fire])

lemma ingest_rules_config:
  "ingest_rules sor s sigs i rs c = (c', fs) \<Longrightarrow> same_config c c'"
  by (induction rs arbitrary: i c c' fs)
    (auto split: prod.splits dest: ingest_rule_config intro: same_config_trans)

lemma same_config_catalog: "same_config c c' \<Longrightarrow> catalog_ok c' = catalog_ok c"
  by (simp add: same_config_def catalog_ok_def)

lemma same_config_bounds:
  "same_config c c' \<Longrightarrow> length (cRecent c') \<le> cMaxRecent c' \<Longrightarrow> bounds_ok c \<Longrightarrow> bounds_ok c'"
  by (simp add: same_config_def bounds_ok_def)

text \<open>A run of the loop appends its findings to the ring, as one push after the other.\<close>

lemma ingest_rule_recent:
  assumes "ingest_rule sor s sigs r c = (c', fs)" and "length (cRecent c) \<le> cMaxRecent c"
  shows "cRecent c' = keep_last (cMaxRecent c) (cRecent c @ fs)"
  using assms(1)
proof (cases rule: ingest_rule_cases)
  case (fired chain c1)
  from suppressedLocked_frame [OF fired(4)] same_config_suppressed [OF fired(4)] fired(5,6)
  show ?thesis by (simp add: record_fire_def same_config_def)
qed (use assms(2) suppressedLocked_frame(5) in \<open>auto\<close>)

lemma ingest_rules_recent:
  "ingest_rules sor s sigs i rs c = (c', fs) \<Longrightarrow> length (cRecent c) \<le> cMaxRecent c \<Longrightarrow>
     cRecent c' = keep_last (cMaxRecent c) (cRecent c @ fs)"
proof (induction rs arbitrary: i c c' fs)
  case (Cons r rs)
  obtain c1 f1 where 1: "ingest_rule (sor i) s sigs r c = (c1, f1)" by fastforce
  obtain f2 where 2: "ingest_rules sor s sigs (Suc i) rs c1 = (c', f2)" and fs: "fs = f1 @ f2"
    using Cons.prems(1) 1 by (auto split: prod.splits)
  have r1: "cRecent c1 = keep_last (cMaxRecent c) (cRecent c @ f1)"
    by (rule ingest_rule_recent [OF 1 Cons.prems(2)])
  have m: "cMaxRecent c1 = cMaxRecent c"
    using ingest_rule_config [OF 1] by (simp add: same_config_def)
  have "cRecent c' = keep_last (cMaxRecent c) (cRecent c1 @ f2)"
    using Cons.IH [OF 2] by (simp add: r1 m)
  then show ?case by (simp add: r1 fs keep_last_keep_last_append)
qed simp

text \<open>Every finding of the loop comes from an enabled rule whose pattern the session completes.\<close>

lemma ingest_rules_sound:
  "ingest_rules sor s sigs i rs c = (c', fs) \<Longrightarrow> f \<in> set fs \<Longrightarrow>
     \<exists>r chain. r \<in> set rs \<and> mget False (cEnabled c) (rID r) \<and> touchedBy r s \<and>
       evaluate r sigs (sTimestamp s) = Some chain \<and> f = finding_of r s chain"
proof (induction rs arbitrary: i c c' fs)
  case (Cons r rs)
  obtain c1 f1 where 1: "ingest_rule (sor i) s sigs r c = (c1, f1)" by fastforce
  obtain f2 where 2: "ingest_rules sor s sigs (Suc i) rs c1 = (c', f2)" and fs: "fs = f1 @ f2"
    using Cons.prems(1) 1 by (auto split: prod.splits)
  from fs Cons.prems(2) consider "f \<in> set f1" | "f \<in> set f2" by auto
  then show ?case
  proof cases
    case 1
    with \<open>ingest_rule (sor i) s sigs r c = (c1, f1)\<close> show ?thesis
      by (auto simp: ingest_rule_def Let_def split: if_splits option.splits prod.splits)
  next
    case 2
    from Cons.IH [OF \<open>ingest_rules sor s sigs (Suc i) rs c1 = (c', f2)\<close> this]
      ingest_rule_config [OF 1]
    show ?thesis by (auto simp: same_config_def)
  qed
qed simp

subsection \<open>A whole ingest\<close>

lemma Ingest_cases:
  assumes "Ingest evo sor now s0 c = (c', fs, ds)"
  obtains se c1 where "note_signal evo (stamp now s0) (remember_signal (stamp now s0) c) = (se, c1)"
    "ingest_rules sor (stamp now s0) (psSignals se) 0 (cRules c1) c1 = (c', fs)"
    "ds = (if cLearning c' then [] else fs)"
  using assms by (auto simp: Ingest_def Let_def split: prod.splits)

lemma bounds_ok_remember [simp]: "bounds_ok c \<Longrightarrow> bounds_ok (remember_signal s c)"
  by (simp add: remember_signal_def bounds_ok_def)

lemma remember_signal_frame [simp]:
  "catalog_ok (remember_signal s c) = catalog_ok c" "cRules (remember_signal s c) = cRules c"
  "cRecent (remember_signal s c) = cRecent c" "cLastFired (remember_signal s c) = cLastFired c"
  "cEnabled (remember_signal s c) = cEnabled c" "cMaxRecent (remember_signal s c) = cMaxRecent c"
  "cSuppressions (remember_signal s c) = cSuppressions c" "cFireCount (remember_signal s c) = cFireCount c"
  "cLearning (remember_signal s c) = cLearning c" "cMaxWindow (remember_signal s c) = cMaxWindow c"
  "cSessions (remember_signal s c) = cSessions c" "cMaxRecentSignals (remember_signal s c) = cMaxRecentSignals c"
  by (simp_all add: remember_signal_def)

lemma note_signal_frame:
  assumes "range_order evo" and "note_signal evo s c = (se, c')"
  shows "cRules c' = cRules c" "cRecent c' = cRecent c" "cEnabled c' = cEnabled c"
    "cMaxRecent c' = cMaxRecent c" "cSuppressions c' = cSuppressions c"
    "cFireCount c' = cFireCount c" "cLearning c' = cLearning c" "cMaxWindow c' = cMaxWindow c"
    "cRecentSignals c' = cRecentSignals c" "cMaxRecentSignals c' = cMaxRecentSignals c"
  using assms by (auto simp: note_signal_def open_session_def evictLocked_victims Let_def
      split: option.splits if_splits)

lemma Ingest_wf:
  assumes "corr_wf c" and "range_order evo" and "Ingest evo sor now s0 c = (c', fs, ds)"
  shows "corr_wf c'"
proof -
  let ?s = "stamp now s0"
  from assms(3) obtain se c1 where n: "note_signal evo ?s (remember_signal ?s c) = (se, c1)"
    and r: "ingest_rules sor ?s (psSignals se) 0 (cRules c1) c1 = (c', fs)"
    by (rule Ingest_cases)
  have b: "bounds_ok c1" and k: "catalog_ok c1"
    using note_signal_ok [OF assms(2) _ n] assms(1) by (simp_all add: corr_wf_def)
  from b have l: "length (cRecent c1) \<le> cMaxRecent c1" by (simp add: bounds_ok_def)
  have cfg: "same_config c1 c'" by (rule ingest_rules_config [OF r])
  have "length (cRecent c') \<le> cMaxRecent c'"
    using ingest_rules_recent [OF r l] cfg by (simp add: same_config_def)
  with cfg b k show ?thesis
    by (auto simp: corr_wf_def same_config_catalog intro: same_config_bounds)
qed

lemma Ingest_recent:
  assumes "bounds_ok c" and "range_order evo" and "Ingest evo sor now s0 c = (c', fs, ds)"
  shows "cRecent c' = keep_last (cMaxRecent c) (cRecent c @ fs)" and "cMaxRecent c' = cMaxRecent c"
    and "cRecentSignals c' = keep_last (cMaxRecentSignals c) (cRecentSignals c @ [stamp now s0])"
    and "cMaxRecentSignals c' = cMaxRecentSignals c"
proof -
  let ?s = "stamp now s0"
  from assms(3) obtain se c1 where n: "note_signal evo ?s (remember_signal ?s c) = (se, c1)"
    and r: "ingest_rules sor ?s (psSignals se) 0 (cRules c1) c1 = (c', fs)"
    by (rule Ingest_cases)
  note fr = note_signal_frame [OF assms(2) n]
  have l: "length (cRecent c1) \<le> cMaxRecent c1" using assms(1) fr by (simp add: bounds_ok_def)
  show "cRecent c' = keep_last (cMaxRecent c) (cRecent c @ fs)"
    using ingest_rules_recent [OF r l] fr by simp
  show "cMaxRecent c' = cMaxRecent c"
    "cRecentSignals c' = keep_last (cMaxRecentSignals c) (cRecentSignals c @ [?s])"
    "cMaxRecentSignals c' = cMaxRecentSignals c"
    using ingest_rules_config [OF r] fr by (simp_all add: same_config_def remember_signal_def)
qed

text \<open>What a finding certifies.\<close>

definition certified :: "correlator \<Rightarrow> signal \<Rightarrow> finding \<Rightarrow> bool" where
  "certified c s f \<longleftrightarrow>
     fTimestamp f = sTimestamp s \<and> fPID f = sPID s \<and> fTenantID f = sTenantID s \<and>
     (\<exists>r \<in> set (cRules c). mget False (cEnabled c) (rID r) \<and> touchedBy r s \<and> fRuleID f = rID r \<and> fRule f = rName r \<and>
        fSeverity f = rSeverity r \<and> list_all2 matches (rAll r) (fChain f) \<and>
        (\<forall>x \<in> set (fChain f). sPID x = sPID s \<and> sTimestamp s - rWindow r \<le> sTimestamp x) \<and>
        (rOrdered r \<longrightarrow> in_time_order (fChain f)))"

lemma Ingest_certified:
  assumes "bounds_ok c" and "range_order evo" and "Ingest evo sor now s0 c = (c', fs, ds)"
    and "f \<in> set fs"
  shows "certified c (stamp now s0) f"
proof -
  let ?s = "stamp now s0"
  from assms(3) obtain se c1 where n: "note_signal evo ?s (remember_signal ?s c) = (se, c1)"
    and r: "ingest_rules sor ?s (psSignals se) 0 (cRules c1) c1 = (c', fs)"
    by (rule Ingest_cases)
  have pid: "\<forall>x \<in> set (psSignals se). sPID x = sPID ?s"
    using note_signal_ok(4) [OF assms(2) _ n] assms(1) by simp
  from ingest_rules_sound [OF r assms(4)] note_signal_frame [OF assms(2) n]
  obtain rl chain where rl: "rl \<in> set (cRules c)" "mget False (cEnabled c) (rID rl)" "touchedBy rl ?s"
    and ev: "evaluate rl (psSignals se) (sTimestamp ?s) = Some chain" and f: "f = finding_of rl ?s chain"
    by auto
  from ev have "list_all2 matches (rAll rl) chain" "rOrdered rl \<longrightarrow> in_time_order chain"
    by (auto elim!: evaluate_Some simp: list_all2_conv_all_nth)
  moreover have "\<forall>x \<in> set chain. sPID x = sPID ?s \<and> sTimestamp ?s - rWindow rl \<le> sTimestamp x"
    using evaluate_chain_subset [OF ev] pid by (auto simp: set_window dest!: subsetD)
  ultimately show ?thesis
    using rl by (auto simp: certified_def f finding_of_def)
qed

subsection \<open>Suppressions\<close>

definition silenced :: "correlator \<Rightarrow> finding \<Rightarrow> bool" where
  "silenced c f \<longleftrightarrow> (\<exists>k s. map_of (cSuppressions c) k = Some s \<and> sup_matches s f)"

lemma find_suppression_Some:
  "find_suppression m f ks = Some k \<Longrightarrow> \<exists>s. map_of m k = Some s \<and> sup_matches s f"
  by (induction ks) (auto split: option.splits if_splits)

lemma find_suppression_None:
  "find_suppression m f ks = None \<Longrightarrow> k \<in> set ks \<Longrightarrow> map_of m k = Some s \<Longrightarrow> \<not> sup_matches s f"
  by (induction ks) (auto split: option.splits if_splits)

lemma suppressedLocked_iff:
  assumes "range_order sor" and "suppressedLocked sor f c = (c', b)"
  shows "b \<longleftrightarrow> silenced c f"
proof -
  have k: "k \<in> set (sor (keys (cSuppressions c)))" if "map_of (cSuppressions c) k = Some s" for k s
    using that map_of_None_keys [of "cSuppressions c" k] range_orderD(1) [OF assms(1)] by auto
  show ?thesis
  proof (cases "find_suppression (cSuppressions c) f (sor (keys (cSuppressions c)))")
    case None
    with assms(2) k find_suppression_None [OF None] show ?thesis
      by (auto simp: suppressedLocked_def silenced_def)
  next
    case (Some x)
    with assms(2) find_suppression_Some [OF Some] show ?thesis
      by (auto simp: suppressedLocked_def silenced_def)
  qed
qed

lemma sup_matches_bump [simp]: "sup_matches (s\<lparr>suMatched := n\<rparr>) f = sup_matches s f"
  by (simp add: sup_matches_def)

lemma silenced_bump:
  assumes "map_of (cSuppressions c) k = Some x"
  shows "silenced (c\<lparr>cSuppressions := mput k (x\<lparr>suMatched := n\<rparr>) (cSuppressions c)\<rparr>) g = silenced c g"
proof -
  have "(\<exists>s. (if j = k then Some (x\<lparr>suMatched := n\<rparr>) else map_of (cSuppressions c) j) = Some s \<and> sup_matches s g)
      \<longleftrightarrow> (\<exists>s. map_of (cSuppressions c) j = Some s \<and> sup_matches s g)" for j
    using assms by auto
  then show ?thesis by (simp add: silenced_def fun_upd_def)
qed

lemma silenced_suppressedLocked:
  "suppressedLocked sor f c = (c', b) \<Longrightarrow> silenced c' g = silenced c g"
  by (auto simp: suppressedLocked_def bump_match_def silenced_bump split: option.splits)

lemma silenced_record_fire [simp]: "silenced (record_fire r s f c) g = silenced c g"
  by (simp add: silenced_def record_fire_def)

lemma silenced_ingest_rule:
  "ingest_rule sor s sigs r c = (c', fs) \<Longrightarrow> silenced c' g = silenced c g"
  by (erule ingest_rule_cases) (auto dest: silenced_suppressedLocked)

lemma ingest_rule_silenced:
  assumes "range_order sor" and "mget False (cEnabled c) (rID r)" and "touchedBy r s"
    and "evaluate r sigs (sTimestamp s) = Some chain" and "\<not> cooling c r s"
    and "silenced c (finding_of r s chain)"
  shows "\<exists>k su. map_of (cSuppressions c) k = Some su \<and> sup_matches su (finding_of r s chain) \<and>
    ingest_rule sor s sigs r c =
      (c\<lparr>cSuppressions := mput k (su\<lparr>suMatched := suMatched su + 1\<rparr>) (cSuppressions c)\<rparr>, [])"
proof -
  obtain c' b where su: "suppressedLocked sor (finding_of r s chain) c = (c', b)" by fastforce
  with suppressedLocked_iff [OF assms(1) su] assms(6) have b by simp
  with su obtain k where k: "find_suppression (cSuppressions c) (finding_of r s chain)
      (sor (keys (cSuppressions c))) = Some k"
    by (auto simp: suppressedLocked_def split: option.splits)
  from find_suppression_Some [OF k] obtain x where
    "map_of (cSuppressions c) k = Some x" "sup_matches x (finding_of r s chain)" by blast
  with k assms(2-5) show ?thesis
    by (intro exI [of _ k] exI [of _ x]) (simp add: ingest_rule_def suppressedLocked_def bump_match_def)
qed

subsection \<open>A completed pattern fires\<close>

lemma fireKey_name_inject: "fireKey p n = fireKey p m \<longleftrightarrow> n = m"
  by (simp add: fireKey_def)

lemma cooling_ingest_rule:
  assumes "ingest_rule sor s sigs r c = (c', fs)" and "rName r' \<noteq> rName r"
  shows "cooling c' r' s = cooling c r' s"
  using assms(1)
proof (cases rule: ingest_rule_cases)
  case (fired chain c1)
  with assms(2) suppressedLocked_frame(4) [OF fired(4)] show ?thesis
    by (auto simp: cooling_def record_fire_def fireKey_name_inject)
qed (auto simp: cooling_def dest: suppressedLocked_frame(4))

text \<open>What one rule contributes to an ingest.\<close>

definition rule_result :: "signal \<Rightarrow> signal list \<Rightarrow> rule \<Rightarrow> correlator \<Rightarrow> finding set" where
  "rule_result s sigs r c =
     {finding_of r s chain | chain. mget False (cEnabled c) (rID r) \<and> touchedBy r s \<and>
        evaluate r sigs (sTimestamp s) = Some chain \<and> \<not> cooling c r s \<and> \<not> silenced c (finding_of r s chain)}"

lemma ingest_rule_exact:
  assumes "range_order sor" and "ingest_rule sor s sigs r c = (c', fs)"
  shows "set fs = rule_result s sigs r c"
proof (cases "evaluate r sigs (sTimestamp s)")
  case None
  with assms(2) show ?thesis by (auto simp: ingest_rule_def rule_result_def split: if_splits)
next
  case (Some chain)
  obtain c1 b where su: "suppressedLocked sor (finding_of r s chain) c = (c1, b)" by fastforce
  with suppressedLocked_iff [OF assms(1) su] Some assms(2) show ?thesis
    by (auto simp: ingest_rule_def rule_result_def Let_def split: if_splits)
qed

lemma rule_result_id: "f \<in> rule_result s sigs r c \<Longrightarrow> fRuleID f = rID r"
  by (auto simp: rule_result_def finding_of_def)

lemma rule_result_cong:
  assumes "cEnabled c' = cEnabled c" and "cooling c' r s = cooling c r s" and "\<And>g. silenced c' g = silenced c g"
  shows "rule_result s sigs r c' = rule_result s sigs r c"
  using assms by (simp add: rule_result_def)

text \<open>Over the whole catalog a rule that shares its name with no other contributes exactly its own result.\<close>

lemma ingest_rules_exact:
  "\<lbrakk>ingest_rules sor s sigs i rs c = (c', fs); \<forall>j. range_order (sor j); distinct (map rID rs);
    r \<in> set rs; \<forall>q \<in> set rs. rName q = rName r \<longrightarrow> q = r\<rbrakk>
     \<Longrightarrow> {f \<in> set fs. fRuleID f = rID r} = rule_result s sigs r c"
proof (induction rs arbitrary: i c c' fs)
  case (Cons x rs)
  obtain c1 f1 where 1: "ingest_rule (sor i) s sigs x c = (c1, f1)" by fastforce
  obtain f2 where 2: "ingest_rules sor s sigs (Suc i) rs c1 = (c', f2)" and fs: "fs = f1 @ f2"
    using Cons.prems(1) 1 by (auto split: prod.splits)
  have f1: "set f1 = rule_result s sigs x c" using ingest_rule_exact [OF _ 1] Cons.prems(2) by blast
  show ?case
  proof (cases "x = r")
    case True
    have "fRuleID f \<in> rID ` set rs" if "f \<in> set f2" for f
      using ingest_rules_sound [OF 2 that] by (auto simp: finding_of_def)
    then have "fRuleID f \<noteq> rID r" if "f \<in> set f2" for f
      using that Cons.prems(3) True by (metis distinct.simps(2) list.simps(9) set_map)
    with f1 True rule_result_id [of _ s sigs r c] show ?thesis by (auto simp: fs)
  next
    case False
    with Cons.prems(3-5) have r: "r \<in> set rs" "rName r \<noteq> rName x" "rID x \<noteq> rID r" by auto
    have "rule_result s sigs r c1 = rule_result s sigs r c"
      using ingest_rule_config [OF 1] cooling_ingest_rule [OF 1 r(2)] silenced_ingest_rule [OF 1]
      by (intro rule_result_cong) (auto simp: same_config_def)
    then have "{f \<in> set f2. fRuleID f = rID r} = rule_result s sigs r c"
      using Cons.IH [OF 2] Cons.prems r(1) by simp
    with f1 r(3) rule_result_id [of _ s sigs x c] show ?thesis by (auto simp: fs)
  qed
qed simp

text \<open>Pruning by age never starves a rule: the retention window covers every rule's window.\<close>

lemma filter_dropWhile: "(\<And>x. Q x \<Longrightarrow> \<not> P x) \<Longrightarrow> filter P (dropWhile Q xs) = filter P xs"
  by (induction xs) auto

lemma window_pruneLocked:
  assumes "rWindow r \<le> cMaxWindow c" and "length (psSignals se) \<le> sessionSignalCap"
  shows "window r (psSignals (pruneLocked c se t)) t = window r (psSignals se) t"
proof -
  let ?k = "dropWhile (\<lambda>s. sTimestamp s < t - cMaxWindow c) (psSignals se)"
  have "length ?k \<le> 256" using assms(2) by (rule le_trans [OF length_dropWhile_le])
  then have "psSignals (pruneLocked c se t) = ?k"
    by (simp add: pruneLocked_def Let_def)
  moreover have "filter (\<lambda>s. \<not> sTimestamp s < t - rWindow r) ?k
      = filter (\<lambda>s. \<not> sTimestamp s < t - rWindow r) (psSignals se)"
    using assms(1) by (intro filter_dropWhile) simp
  ultimately show ?thesis by (simp add: window_def Let_def)
qed

definition session_signals :: "correlator \<Rightarrow> int \<Rightarrow> signal list" where
  "session_signals c pid = (case map_of (cSessions c) pid of None \<Rightarrow> [] | Some se \<Rightarrow> psSignals se)"

lemma note_signal_session:
  assumes "note_signal evo s c = (se, c')"
  shows "\<exists>se0. psSignals se0 = session_signals c (sPID s) @ [s] \<and>
    se = pruneLocked (snd (open_session evo s c)) se0 (sTimestamp s)"
proof -
  obtain se1 c0 where o: "open_session evo s c = (se1, c0)" by fastforce
  then have "psSignals se1 = session_signals c (sPID s)"
    by (auto simp: open_session_def session_signals_def split: option.splits)
  with assms o show ?thesis
    by (intro exI [of _ "se1\<lparr>psLastActive := sTimestamp s, psSignals := psSignals se1 @ [s]\<rparr>"])
      (auto simp: note_signal_def Let_def)
qed

lemma lastFired_fold_forget:
  "map_of (cLastFired (fold forget_pid ps c)) k =
     (if k \<in> fireKeyPrefix ` set ps then None else map_of (cLastFired c) k)"
  by (induction ps arbitrary: c) (auto simp: forget_pid_def)

lemma fireKey_not_prefix: "n \<noteq> '''' \<Longrightarrow> fireKey p n \<noteq> fireKeyPrefix q"
  using sep_key_inject [of "CHR '':''" "itoa p" "itoa q" n "[]"] by (auto simp: fireKey_def fireKeyPrefix_def)

lemma cooling_note_signal:
  assumes "range_order evo" and "note_signal evo s c = (se, c')" and "rName r \<noteq> ''''"
  shows "cooling c' r x = cooling c r x"
proof -
  have "fireKey (sPID x) (rName r) \<notin> range fireKeyPrefix" using fireKey_not_prefix [OF assms(3)] by auto
  then have "map_of (cLastFired c') (fireKey (sPID x) (rName r)) = map_of (cLastFired c) (fireKey (sPID x) (rName r))"
    using assms(1,2) by (auto simp: note_signal_def open_session_def evictLocked_victims Let_def
        lastFired_fold_forget split: option.splits if_splits)
  then show ?thesis by (simp add: cooling_def)
qed

text \<open>
  When a process has room in its session, an ingest returns for a rule exactly what the rule makes of the retained
  history followed by the new signal.
\<close>

lemma Ingest_exact:
  assumes wf: "corr_wf c" and ord: "range_order evo" "\<forall>j. range_order (sor j)"
    and ing: "Ingest evo sor now s0 c = (c', fs, ds)"
    and r: "r \<in> set (cRules c)" "\<forall>q \<in> set (cRules c). rName q = rName r \<longrightarrow> q = r"
    and room: "length (session_signals c (sPID s0)) < sessionSignalCap"
  shows "{f \<in> set fs. fRuleID f = rID r} = rule_result (stamp now s0) (session_signals c (sPID s0) @ [stamp now s0]) r c"
proof -
  let ?s = "stamp now s0" and ?c = "remember_signal (stamp now s0) c"
  from ing obtain se c1 where n: "note_signal evo ?s ?c = (se, c1)"
    and l: "ingest_rules sor ?s (psSignals se) 0 (cRules c1) c1 = (c', fs)"
    by (rule Ingest_cases)
  note fr = note_signal_frame [OF ord(1) n]
  have pid: "sPID ?s = sPID s0" by (simp add: stamp_def)
  have cat: "distinct (map rID (cRules c))" "rName r \<noteq> ''''" "rWindow r \<le> cMaxWindow c"
    using wf r(1) by (auto simp: corr_wf_def catalog_ok_def)
  let ?opened = "snd (open_session evo ?s ?c)"
  from note_signal_session [OF n] obtain se0 where se0: "psSignals se0 = session_signals ?c (sPID ?s) @ [?s]"
    and se: "se = pruneLocked ?opened se0 (sTimestamp ?s)" by blast
  have sess: "session_signals ?c (sPID ?s) = session_signals c (sPID s0)" by (simp add: pid session_signals_def)
  have mw: "cMaxWindow ?opened = cMaxWindow c"
    using ord(1) by (auto simp: open_session_def evictLocked_victims split: option.splits)
  have "window r (psSignals se) (sTimestamp ?s) = window r (psSignals se0) (sTimestamp ?s)"
    unfolding se using cat(3) room by (intro window_pruneLocked) (simp_all add: mw se0 sess)
  then have ev: "evaluate r (psSignals se) (sTimestamp ?s) = evaluate r (session_signals c (sPID s0) @ [?s]) (sTimestamp ?s)"
    by (simp add: evaluate_def se0 sess)
  have cool: "cooling c1 r ?s = cooling c r ?s"
    using cooling_note_signal [OF ord(1) n cat(2)] by (simp add: cooling_def)
  have "{f \<in> set fs. fRuleID f = rID r} = rule_result ?s (psSignals se) r c1"
    using ingest_rules_exact [OF l ord(2)] cat(1) r by (simp add: fr)
  also have "\<dots> = rule_result ?s (session_signals c (sPID s0) @ [?s]) r c"
    by (simp add: rule_result_def ev cool fr silenced_def)
  finally show ?thesis .
qed

end
