(* ===== verification/Correlator_Runs.thy ===== *)
theory Correlator_Runs
  imports Correlator_Trace
begin

text \<open>
  The correlation engine as a state machine: its public operations as labels, runs from a fresh
  engine with the history of every finding it emitted, and the invariants that hold along every
  run.  The history refines the engine's memory: the ring of recent findings is the newest part
  of it, and the cooldown table holds the time of its last finding per process and rule.
\<close>

subsection \<open>Operations and runs\<close>

datatype corr_op =
    OpIngest "int list \<Rightarrow> int list" "nat \<Rightarrow> string list \<Rightarrow> string list" time signal
  | OpReap int
  | OpSetEnabled string bool
  | OpLearning bool
  | OpAddSuppression regexp string suppression_spec
  | OpRemoveSuppression string
  | OpAddRule regexp string rule_spec
  | OpUpdateRule regexp string rule_spec
  | OpRemoveRule string

fun corr_step :: "corr_op \<Rightarrow> correlator \<Rightarrow> correlator \<times> finding list" where
  "corr_step (OpIngest evo sor now s) c = (let (c', fs, ds) = Ingest evo sor now s c in (c', fs))"
| "corr_step (OpReap p) c = (Reap p c, [])"
| "corr_step (OpSetEnabled i b) c = (fst (SetEnabled i b c), [])"
| "corr_step (OpLearning b) c = (SetLearningMode b c, [])"
| "corr_step (OpAddSuppression re fresh sp) c = (fst (AddSuppression re fresh sp c), [])"
| "corr_step (OpRemoveSuppression i) c = (fst (RemoveSuppression i c), [])"
| "corr_step (OpAddRule re fresh sp) c = (fst (AddRule re fresh sp c), [])"
| "corr_step (OpUpdateRule re fresh sp) c = (fst (UpdateRule re fresh sp c), [])"
| "corr_step (OpRemoveRule i) c = (fst (RemoveRule i c), [])"

text \<open>What the language guarantees of an operation's arguments: process identifiers are int64
  values and map iteration visits every key once.\<close>

fun op_ok :: "corr_op \<Rightarrow> bool" where
  "op_ok (OpIngest evo sor now s) \<longleftrightarrow> range_order evo \<and> (\<forall>j. range_order (sor j)) \<and> is_int64 (sPID s)"
| "op_ok _ \<longleftrightarrow> True"

inductive corr_run :: "rule list \<Rightarrow> correlator \<Rightarrow> finding list \<Rightarrow> bool" for rules where
  corr_start: "corr_run rules (NewCorrelator rules) []"
| corr_next: "corr_run rules c h \<Longrightarrow> op_ok op \<Longrightarrow> corr_step op c = (c', fs) \<Longrightarrow> corr_run rules c' (h @ fs)"

text \<open>The time of the last finding of a history for a process and a rule name.\<close>

definition last_finding :: "finding list \<Rightarrow> int \<Rightarrow> string \<Rightarrow> time option" where
  "last_finding h p n =
     (let fs = filter (\<lambda>f. fPID f = p \<and> fRule f = n) h
      in if fs = [] then None else Some (fTimestamp (last fs)))"

definition cooldowns_ok :: "correlator \<Rightarrow> finding list \<Rightarrow> bool" where
  "cooldowns_ok c h \<longleftrightarrow>
     (\<forall>p n. is_int64 p \<longrightarrow> n \<noteq> '''' \<longrightarrow> map_of (cLastFired c) (fireKey p n) = last_finding h p n)"

subsection \<open>The rule catalog\<close>

lemma compile_name: "compile re fresh spec = Inr r \<Longrightarrow> rName r = spName spec \<and> spName spec \<noteq> ''''"
  by (auto simp: compile_def Let_def split: if_splits sum.splits)

lemma compile_window: "compile re fresh spec = Inr r \<Longrightarrow> 0 < rWindow r \<and> rWindow r \<le> max_int64"
  using is_int64_to_int64 [of "fround (spWindowSecs spec * 1000000000)"]
  by (auto simp: compile_def Let_def is_int64_def split: if_splits sum.splits)

lemma compile_id: "compile re fresh spec = Inr r \<Longrightarrow>
    rID r = (if spID spec = '''' then ''NS-CUSTOM-'' @ fresh else spID spec)"
  by (auto simp: compile_def Let_def split: if_splits sum.splits)

lemma widen_frame [simp]:
  "cRules (widen r c) = cRules c" "cEnabled (widen r c) = cEnabled c" "cCustom (widen r c) = cCustom c"
  "cFireCount (widen r c) = cFireCount c" "cLastFired (widen r c) = cLastFired c"
  "cRecent (widen r c) = cRecent c" "cMaxRecent (widen r c) = cMaxRecent c"
  "bounds_ok (widen r c) = bounds_ok c"
  "cMaxWindow (widen r c) = max (cMaxWindow c) (rWindow r)"
  by (simp_all add: widen_def)

lemma rIDs_replace_rule [simp]: "rID r = i \<Longrightarrow> map rID (replace_rule i r rs) = map rID rs"
  by (induction rs) auto

lemma set_replace_rule: "set (replace_rule i r rs) \<subseteq> insert r (set rs)"
  by (induction rs) auto

lemma rIDs_drop_rule: "map rID (drop_rule i rs) = remove1 i (map rID rs)"
  by (induction rs) auto

lemma set_drop_rule: "set (drop_rule i rs) \<subseteq> set rs"
  by (induction rs) auto

lemma AddRule_catalog:
  assumes "catalog_ok c"
  shows "catalog_ok (fst (AddRule re fresh spec c))"
proof (cases "compile re fresh spec")
  case (Inr r)
  show ?thesis
  proof (cases "map_of (cEnabled c) (rID r) = None")
    case True
    then have "rID r \<notin> rID ` set (cRules c)"
      using assms in_keys_iff [of "rID r" "cEnabled c"] by (auto simp: catalog_ok_def)
    with True assms compile_name [OF Inr] show ?thesis
      by (auto simp: AddRule_def Inr catalog_ok_def max.coboundedI1)
  qed (use assms in \<open>auto simp: AddRule_def Inr\<close>)
qed (use assms in \<open>simp add: AddRule_def\<close>)

lemma UpdateRule_catalog:
  assumes "catalog_ok c"
  shows "catalog_ok (fst (UpdateRule re fresh spec c))"
proof (cases "spID spec = '''' \<or> \<not> mget False (cCustom c) (spID spec)")
  case False
  show ?thesis
  proof (cases "compile re fresh spec")
    case (Inr r0)
    let ?r = "r0\<lparr>rID := spID spec\<rparr>" and ?rs = "replace_rule (spID spec) (r0\<lparr>rID := spID spec\<rparr>) (cRules c)"
    have ids: "map rID ?rs = map rID (cRules c)" by simp
    then have sids: "rID ` set ?rs = rID ` set (cRules c)" by (metis set_map)
    have "rName r \<noteq> '''' \<and> rWindow r \<le> max (cMaxWindow c) (rWindow r0)" if "r \<in> set ?rs" for r
    proof -
      from that set_replace_rule [of "spID spec" ?r "cRules c"] consider "r = ?r" | "r \<in> set (cRules c)"
        by auto
      then show ?thesis using assms compile_name [OF Inr] by cases (auto simp: catalog_ok_def max.coboundedI1)
    qed
    with assms ids sids have "catalog_ok (widen ?r (c\<lparr>cRules := ?rs\<rparr>))"
      by (simp add: catalog_ok_def)
    with False Inr show ?thesis by (simp add: UpdateRule_def Let_def)
  qed (use False assms in \<open>simp add: UpdateRule_def\<close>)
qed (use assms in \<open>auto simp: UpdateRule_def\<close>)

lemma RemoveRule_catalog:
  assumes "catalog_ok c"
  shows "catalog_ok (fst (RemoveRule i c))"
proof (cases "mget False (cCustom c) i")
  case True
  let ?rs = "drop_rule i (cRules c)"
  have d: "distinct (map rID (cRules c))" using assms by (simp add: catalog_ok_def)
  then have ids: "rID ` set ?rs = rID ` set (cRules c) - {i}" "distinct (map rID ?rs)"
    using rIDs_drop_rule [of i "cRules c"] by (metis set_map set_remove1_eq, metis distinct_remove1)
  with True assms set_drop_rule [of i "cRules c"] show ?thesis
    by (auto simp: RemoveRule_def catalog_ok_def)
qed (use assms in \<open>simp add: RemoveRule_def\<close>)

subsection \<open>The invariant along a step\<close>

lemma bounds_other_ops:
  "bounds_ok c \<Longrightarrow> bounds_ok (Reap p c)" "bounds_ok (fst (SetEnabled i b c)) = bounds_ok c"
  "bounds_ok (SetLearningMode b c) = bounds_ok c" "bounds_ok (fst (AddSuppression re fresh sp c)) = bounds_ok c"
  "bounds_ok (fst (RemoveSuppression i c)) = bounds_ok c" "bounds_ok (fst (AddRule re fresh spec c)) = bounds_ok c"
  "bounds_ok (fst (UpdateRule re fresh spec c)) = bounds_ok c" "bounds_ok (fst (RemoveRule i c)) = bounds_ok c"
  using bounds_ok_fold_forget [of c "[p]"]
  by (auto simp: Reap_def SetEnabled_def SetLearningMode_def AddSuppression_def RemoveSuppression_def
      AddRule_def UpdateRule_def RemoveRule_def Let_def split: option.splits sum.splits)

lemma catalog_other_ops:
  "catalog_ok (Reap p c) = catalog_ok c" "catalog_ok (SetLearningMode b c) = catalog_ok c"
  "catalog_ok (fst (AddSuppression re fresh sp c)) = catalog_ok c"
  "catalog_ok (fst (RemoveSuppression i c)) = catalog_ok c"
  using catalog_ok_fold_forget [of "[p]" c]
  by (auto simp: Reap_def SetLearningMode_def AddSuppression_def RemoveSuppression_def Let_def
      split: option.splits)

lemma SetEnabled_catalog: "catalog_ok c \<Longrightarrow> catalog_ok (fst (SetEnabled i b c))"
  using in_keys_iff [of i "cEnabled c"]
  by (auto simp: SetEnabled_def catalog_ok_def insert_absorb split: option.splits)

lemma corr_step_wf:
  assumes "corr_wf c" and "op_ok op" and "corr_step op c = (c', fs)"
  shows "corr_wf c'"
  using assms
  by (cases op)
    (auto simp: corr_wf_def bounds_other_ops catalog_other_ops
      intro: SetEnabled_catalog AddRule_catalog UpdateRule_catalog RemoveRule_catalog
      split: prod.splits dest: Ingest_wf [unfolded corr_wf_def, OF conjI])

text \<open>Operations other than an ingest leave the rings, their caps and the cooldowns alone.\<close>

lemma other_ops_frame:
  assumes "corr_step op c = (c', fs)" and "\<And>evo sor now s. op \<noteq> OpIngest evo sor now s"
  shows "cRecent c' = cRecent c" and "cMaxRecent c' = cMaxRecent c" and "fs = []"
    and "n \<noteq> '''' \<Longrightarrow> map_of (cLastFired c') (fireKey p n) = map_of (cLastFired c) (fireKey p n)"
proof -
  note k = fireKey_not_prefix
  show "cRecent c' = cRecent c" "cMaxRecent c' = cMaxRecent c" "fs = []"
    using assms by (cases op; auto simp: Reap_def forget_pid_def SetEnabled_def SetLearningMode_def
        AddSuppression_def RemoveSuppression_def AddRule_def UpdateRule_def RemoveRule_def Let_def
        split: option.splits sum.splits if_splits)+
  show "n \<noteq> '''' \<Longrightarrow> map_of (cLastFired c') (fireKey p n) = map_of (cLastFired c) (fireKey p n)"
    using assms by (cases op; auto simp: Reap_def forget_pid_def SetEnabled_def SetLearningMode_def k
        AddSuppression_def RemoveSuppression_def AddRule_def UpdateRule_def RemoveRule_def Let_def
        split: option.splits sum.splits if_splits)+
qed

subsection \<open>Cooldowns\<close>

lemma fireKey_inject:
  "is_int64 p \<Longrightarrow> is_int64 q \<Longrightarrow> fireKey p n = fireKey q m \<longleftrightarrow> p = q \<and> n = m"
  using sep_key_inject [of "CHR '':''" "itoa p" "itoa q" n m] by (simp add: fireKey_def itoa_inject)

lemma last_finding_Nil [simp]: "last_finding [] p n = None"
  by (simp add: last_finding_def)

lemma last_finding_snoc [simp]:
  "last_finding (h @ [f]) p n =
     (if fPID f = p \<and> fRule f = n then Some (fTimestamp f) else last_finding h p n)"
  by (auto simp: last_finding_def)

lemma cooldowns_ok_suppressed:
  "suppressedLocked sor f c = (c', b) \<Longrightarrow> cooldowns_ok c' h = cooldowns_ok c h"
  by (simp add: cooldowns_ok_def suppressedLocked_frame)

lemma cooldowns_ok_record_fire:
  assumes "is_int64 (sPID s)" and "cooldowns_ok c h"
  shows "cooldowns_ok (record_fire r s (finding_of r s chain) c) (h @ [finding_of r s chain])"
  using assms by (auto simp: cooldowns_ok_def record_fire_def finding_of_def fireKey_inject)

lemma ingest_rule_cooldowns:
  assumes "ingest_rule sor s sigs r c = (c', fs)" and "is_int64 (sPID s)" and "cooldowns_ok c h"
  shows "cooldowns_ok c' (h @ fs)"
  using assms(1)
proof (cases rule: ingest_rule_cases)
  case (fired chain c1)
  with cooldowns_ok_suppressed [OF fired(4)] assms(2,3) show ?thesis
    by (auto intro: cooldowns_ok_record_fire)
qed (use assms(3) cooldowns_ok_suppressed in \<open>auto\<close>)

text \<open>The gap before a finding, measured against the history it is appended to.\<close>

definition gap_ok :: "rule list \<Rightarrow> finding list \<Rightarrow> finding \<Rightarrow> bool" where
  "gap_ok rs h f \<longleftrightarrow>
     (\<exists>r \<in> set rs. rID r = fRuleID f \<and> rName r = fRule f \<and>
        (case last_finding h (fPID f) (fRule f) of
           None \<Rightarrow> True | Some t \<Rightarrow> rWindow r \<le> time_sub (fTimestamp f) t))"

lemma ingest_rule_gap:
  assumes "ingest_rule sor s sigs r c = (c', fs)" and "is_int64 (sPID s)" and "cooldowns_ok c h"
    and "rName r \<noteq> ''''" and "f \<in> set fs"
  shows "fs = [f]" and "gap_ok [r] h f"
proof -
  from assms(1,5) obtain chain where "fs = [finding_of r s chain]" "\<not> cooling c r s"
    by (auto elim: ingest_rule_cases)
  moreover from assms(2-4) have "map_of (cLastFired c) (fireKey (sPID s) (rName r))
      = last_finding h (sPID s) (rName r)"
    by (simp add: cooldowns_ok_def)
  ultimately show "fs = [f]" "gap_ok [r] h f"
    using assms(5) by (auto simp: gap_ok_def cooling_def finding_of_def split: option.splits)
qed

lemma gap_ok_mono: "gap_ok rs h f \<Longrightarrow> set rs \<subseteq> set rs' \<Longrightarrow> gap_ok rs' h f"
  unfolding gap_ok_def by blast

lemma ingest_rules_gap:
  "\<lbrakk>ingest_rules sor s sigs i rs c = (c', fs); is_int64 (sPID s); cooldowns_ok c h;
    \<forall>r \<in> set rs. rName r \<noteq> ''''\<rbrakk> \<Longrightarrow>
     cooldowns_ok c' (h @ fs) \<and> (\<forall>k < length fs. gap_ok rs (h @ take k fs) (fs ! k))"
proof (induction rs arbitrary: i c c' fs h)
  case (Cons r rs)
  obtain c1 f1 where 1: "ingest_rule (sor i) s sigs r c = (c1, f1)" by fastforce
  obtain f2 where 2: "ingest_rules sor s sigs (Suc i) rs c1 = (c', f2)" and fs: "fs = f1 @ f2"
    using Cons.prems(1) 1 by (auto split: prod.splits)
  have c1: "cooldowns_ok c1 (h @ f1)"
    by (rule ingest_rule_cooldowns [OF 1 Cons.prems(2,3)])
  have IH: "cooldowns_ok c' ((h @ f1) @ f2)"
      "\<forall>k < length f2. gap_ok rs ((h @ f1) @ take k f2) (f2 ! k)"
    using Cons.IH [OF 2 Cons.prems(2) c1] Cons.prems(4) by auto
  have "gap_ok (r # rs) (h @ take k fs) (fs ! k)" if k: "k < length fs" for k
  proof (cases "k < length f1")
    case True
    then have "f1 ! k \<in> set f1" by simp
    from ingest_rule_gap [OF 1 Cons.prems(2,3) _ this] Cons.prems(4) True
    have "f1 = [f1 ! k]" "gap_ok [r] h (f1 ! k)" by auto
    moreover from this(1) True have "k = 0" by (metis length_Cons less_one list.size(3) One_nat_def)
    ultimately show ?thesis using True by (auto simp: fs nth_append intro: gap_ok_mono)
  next
    case False
    with k IH(2) have "gap_ok rs ((h @ f1) @ take (k - length f1) f2) (f2 ! (k - length f1))"
      by (auto simp: fs)
    with False show ?thesis by (auto simp: fs nth_append take_append intro: gap_ok_mono)
  qed
  with IH(1) show ?case by (simp add: fs)
qed simp

lemma cooldowns_note_signal:
  assumes "range_order evo" and "note_signal evo s (remember_signal s c) = (se, c1)"
  shows "cooldowns_ok c1 h = cooldowns_ok c h"
proof -
  note fireKey_not_prefix
  then have "map_of (cLastFired c1) (fireKey p n) = map_of (cLastFired c) (fireKey p n)"
    if "n \<noteq> ''''" for p n
    using assms that by (auto simp: note_signal_def open_session_def evictLocked_victims Let_def
        lastFired_fold_forget split: option.splits if_splits)
  then show ?thesis by (simp add: cooldowns_ok_def)
qed

lemma Ingest_cooldowns:
  assumes "corr_wf c" and "range_order evo" and "is_int64 (sPID s0)" and "cooldowns_ok c h"
    and "Ingest evo sor now s0 c = (c', fs, ds)"
  shows "cooldowns_ok c' (h @ fs) \<and> (\<forall>k < length fs. gap_ok (cRules c) (h @ take k fs) (fs ! k))"
proof -
  let ?s = "stamp now s0"
  from assms(5) obtain se c1 where n: "note_signal evo ?s (remember_signal ?s c) = (se, c1)"
    and l: "ingest_rules sor ?s (psSignals se) 0 (cRules c1) c1 = (c', fs)"
    by (rule Ingest_cases)
  have r: "cRules c1 = cRules c" using note_signal_frame [OF assms(2) n] by simp
  have "cooldowns_ok c1 h" using assms(4) cooldowns_note_signal [OF assms(2) n] by simp
  moreover have "\<forall>r \<in> set (cRules c1). rName r \<noteq> ''''"
    using assms(1) by (simp add: r corr_wf_def catalog_ok_def)
  ultimately show ?thesis
    using ingest_rules_gap [OF l, of h] assms(3) by (simp add: r stamp_def)
qed

subsection \<open>Every run\<close>

definition rules_ok :: "rule list \<Rightarrow> bool" where
  "rules_ok rules \<longleftrightarrow> distinct (map rID rules) \<and> (\<forall>r \<in> set rules. rName r \<noteq> '''')"

lemma corr_run_inv:
  assumes "corr_run rules c h" and "rules_ok rules"
  shows "corr_wf c \<and> cooldowns_ok c h \<and> cMaxRecent c = 5000 \<and> cRecent c = keep_last 5000 h"
  using assms(1)
proof (induction rule: corr_run.induct)
  case corr_start
  then show ?case
    using assms(2) NewCorrelator_wf [of rules]
    by (simp add: rules_ok_def cooldowns_ok_def NewCorrelator_def)
next
  case (corr_next c h op c' fs)
  have wf: "corr_wf c'" using corr_step_wf corr_next by blast
  show ?case
  proof (cases "\<exists>evo sor now s. op = OpIngest evo sor now s")
    case True
    then obtain evo sor now s where op: "op = OpIngest evo sor now s" by blast
    with corr_next.hyps obtain ds where i: "Ingest evo sor now s c = (c', fs, ds)"
      and ok: "range_order evo" "is_int64 (sPID s)"
      by (auto split: prod.splits)
    have b: "bounds_ok c" using corr_next.IH by (simp add: corr_wf_def)
    show ?thesis
      using wf Ingest_cooldowns [OF _ ok _ i, of h] Ingest_recent [OF b ok(1) i] corr_next.IH
      by (simp add: keep_last_keep_last_append)
  next
    case False
    then have "\<And>evo sor now s. op \<noteq> OpIngest evo sor now s" by blast
    note fr = other_ops_frame [OF corr_next.hyps(3) this]
    then show ?thesis using wf corr_next.IH by (simp add: cooldowns_ok_def)
  qed
qed

end
