(* ===== verification/Builtin.thy ===== *)
theory Builtin
  imports Rules
begin

text \<open>
  The attribute predicates and the built-in detection catalog of
  \<^verbatim>\<open>src/pkg/correlate/rules.go\<close>, and what they decide: which destinations count as external,
  and which rules have matchers no signal can satisfy twice.
\<close>

subsection \<open>Predicates\<close>

definition secretPathHints :: "string list" where
  "secretPathHints =
     [''shadow'', ''/.ssh/'', ''id_rsa'', ''id_ed25519'', ''.aws/credentials'',
      ''.env'', ''/etc/passwd'', ''.pem'', ''.pgpass'', ''kubeconfig'', ''.netrc'']"

definition modelExtHints :: "string list" where
  "modelExtHints = [''.safetensors'', ''.gguf'', ''.pth'', ''.pt'', ''.onnx'', ''.h5'', ''.ckpt'', ''.bin'']"

definition pathIsModel :: "signal \<Rightarrow> bool" where
  "pathIsModel s = (let p = to_lower (Attr s ''path'') in list_ex (\<lambda>e. suffix e p) modelExtHints)"

definition shellComms :: "string list" where
  "shellComms = [''sh'', ''bash'', ''zsh'', ''dash'', ''ash'', ''ksh'', ''csh'', ''nc'', ''ncat'', ''socat'']"

definition commIsShell :: "signal \<Rightarrow> bool" where
  "commIsShell s = (let c = to_lower (Attr s ''comm'') in list_ex (\<lambda>sh. c = sh) shellComms)"

definition containerEscapeHints :: "string list" where
  "containerEscapeHints =
     [''docker.sock'', ''/proc/1/root'', ''/var/run/docker'', ''/run/containerd'', ''/host/'', ''.dockerenv'']"

definition pathIsContainerEscape :: "signal \<Rightarrow> bool" where
  "pathIsContainerEscape s =
     (let p = to_lower (Attr s ''path'') in list_ex (\<lambda>h. sublist h p) containerEscapeHints)"

definition isUnsanctionedAI :: "signal \<Rightarrow> bool" where
  "isUnsanctionedAI s \<longleftrightarrow> sLayer s = LayerKernelNet \<and> Attr s ''shadow_ai'' = ''true''"

definition pathIsSecret :: "signal \<Rightarrow> bool" where
  "pathIsSecret s =
     (let p = to_lower (Attr s ''path'') in
      if p = '''' then False else list_ex (\<lambda>h. sublist h p) secretPathHints)"

definition isLLMBound :: "signal \<Rightarrow> bool" where
  "isLLMBound s =
     (if sLayer s = LayerAI then True
      else if sLayer s = LayerKernelNet \<and> Attr s ''ai_provider'' \<noteq> '''' then True
      else False)"

definition dstIsExternal :: "signal \<Rightarrow> bool" where
  "dstIsExternal s =
     (if Attr s ''external'' = ''true'' then True
      else
        let dst = Attr s ''dst'' in
        if dst = '''' then False
        else case ParseIP dst of None \<Rightarrow> False | Some ip \<Rightarrow> isPublicIP ip)"

definition isInjectionFlagged :: "signal \<Rightarrow> bool" where
  "isInjectionFlagged s =
     (let v = Attr s ''injection'' in v = ''malicious'' \<or> v = ''suspicious'')"

definition isKernelSideEffect :: "signal \<Rightarrow> bool" where
  "isKernelSideEffect s \<longleftrightarrow> sLayer s = LayerKernelProc \<or> sLayer s = LayerKernelNet"

definition modelUnverified :: "signal \<Rightarrow> bool" where
  "modelUnverified s \<longleftrightarrow> Attr s ''verified'' = ''false''"

subsection \<open>The catalog\<close>

definition NS_CORR_001 :: rule where
  "NS_CORR_001 = \<lparr>
     rID = ''NS-CORR-001'', rName = ''secret-read-then-llm'',
     rAll =
       [\<lparr>mLayer = LayerKernelFile, mKind = ''file_read'', mPred = Some pathIsSecret\<rparr>,
        \<lparr>mLayer = '''', mKind = '''', mPred = Some isLLMBound\<rparr>],
     rWindow = 10 * second, rOrdered = True, rSeverity = ''critical'',
     rTechnique = ''LLM02'', rMitreAttack = ''T1041'', rCategory = ''Data Exfiltration'',
     rReferences = [''https://owasp.org/www-project-top-10-for-large-language-model-applications/''],
     rDescription = ''a credential/secret file was read and then traffic went toward an LLM '' @ em_dash @ '' likely secret exfiltration to an AI provider'',
     rRationale = [], rRemediation = [], rFalsePositives = [], rMatchers = []\<rparr>"

definition NS_CORR_002 :: rule where
  "NS_CORR_002 = \<lparr>
     rID = ''NS-CORR-002'', rName = ''tool-triggered-exfil'',
     rAll =
       [\<lparr>mLayer = LayerMCP, mKind = ''tool_call'', mPred = None\<rparr>,
        \<lparr>mLayer = LayerKernelNet, mKind = ''net_connect'', mPred = Some dstIsExternal\<rparr>],
     rWindow = 5 * second, rOrdered = True, rSeverity = ''high'',
     rTechnique = ''LLM06'', rMitreAttack = ''T1567'', rCategory = ''Data Exfiltration'',
     rReferences = [],
     rDescription = ''an MCP tool call was immediately followed by an outbound connection to an external host '' @ em_dash @ '' possible data exfiltration via a tool'',
     rRationale = [], rRemediation = [], rFalsePositives = [], rMatchers = []\<rparr>"

definition NS_CORR_003 :: rule where
  "NS_CORR_003 = \<lparr>
     rID = ''NS-CORR-003'', rName = ''tool-spawned-process'',
     rAll =
       [\<lparr>mLayer = LayerMCP, mKind = ''tool_call'', mPred = None\<rparr>,
        \<lparr>mLayer = LayerKernelProc, mKind = ''exec'', mPred = None\<rparr>],
     rWindow = 3 * second, rOrdered = True, rSeverity = ''high'',
     rTechnique = ''LLM06'', rMitreAttack = ''T1059'', rCategory = ''Excessive Agency'',
     rReferences = [],
     rDescription = ''an MCP tool call spawned a new process '' @ em_dash @ '' excessive agency / possible command execution'',
     rRationale = [], rRemediation = [], rFalsePositives = [], rMatchers = []\<rparr>"

definition NS_CORR_004 :: rule where
  "NS_CORR_004 = \<lparr>
     rID = ''NS-CORR-004'', rName = ''injection-then-action'',
     rAll =
       [\<lparr>mLayer = '''', mKind = '''', mPred = Some isInjectionFlagged\<rparr>,
        \<lparr>mLayer = '''', mKind = '''', mPred = Some isKernelSideEffect\<rparr>],
     rWindow = 8 * second, rOrdered = True, rSeverity = ''critical'',
     rTechnique = ''LLM01'', rMitreAttack = ''T1059'', rCategory = ''Prompt Injection'',
     rReferences = [],
     rDescription = ''a prompt-injection attempt was followed by a real system action '' @ em_dash @ '' the injection may have succeeded'',
     rRationale = [], rRemediation = [], rFalsePositives = [], rMatchers = []\<rparr>"

definition NS_CORR_005 :: rule where
  "NS_CORR_005 = \<lparr>
     rID = ''NS-CORR-005'', rName = ''unverified-model-load'',
     rAll =
       [\<lparr>mLayer = LayerModel, mKind = ''load'', mPred = Some modelUnverified\<rparr>],
     rWindow = 1 * second, rOrdered = False, rSeverity = ''medium'',
     rTechnique = ''LLM03'', rMitreAttack = ''T1195'', rCategory = ''Supply Chain'',
     rReferences = [],
     rDescription = ''a model was loaded without integrity verification '' @ em_dash @ '' supply-chain risk'',
     rRationale = [], rRemediation = [], rFalsePositives = [], rMatchers = []\<rparr>"

definition NS_CORR_006 :: rule where
  "NS_CORR_006 = \<lparr>
     rID = ''NS-CORR-006'', rName = ''pickle-deserialization-rce'',
     rAll =
       [\<lparr>mLayer = LayerModel, mKind = ''pickle_load'', mPred = None\<rparr>,
        \<lparr>mLayer = LayerKernelProc, mKind = ''exec'', mPred = None\<rparr>],
     rWindow = 4 * second, rOrdered = True, rSeverity = ''critical'',
     rTechnique = ''LLM03'', rMitreAttack = ''T1059'', rCategory = ''Supply Chain'',
     rReferences = [],
     rDescription = ''a pickle/model deserialization was followed by process execution '' @ em_dash @ '' classic deserialization RCE'',
     rRationale = [], rRemediation = [], rFalsePositives = [], rMatchers = []\<rparr>"

definition NS_CORR_007 :: rule where
  "NS_CORR_007 = \<lparr>
     rID = ''NS-CORR-007'', rName = ''model-theft-staging'',
     rAll =
       [\<lparr>mLayer = LayerKernelFile, mKind = ''file_read'', mPred = Some pathIsModel\<rparr>,
        \<lparr>mLayer = LayerKernelNet, mKind = ''net_connect'', mPred = Some dstIsExternal\<rparr>],
     rWindow = 15 * second, rOrdered = True, rSeverity = ''high'',
     rTechnique = ''LLM10'', rMitreAttack = ''T1030'', rCategory = ''Model Theft'',
     rReferences = [],
     rDescription = ''a protected model file was read and then large egress went to an external host '' @ em_dash @ '' possible model weight exfiltration'',
     rRationale = [], rRemediation = [], rFalsePositives = [], rMatchers = []\<rparr>"

definition NS_CORR_008 :: rule where
  "NS_CORR_008 = \<lparr>
     rID = ''NS-CORR-008'', rName = ''reverse-shell-indicator'',
     rAll =
       [\<lparr>mLayer = LayerKernelProc, mKind = ''exec'', mPred = Some commIsShell\<rparr>,
        \<lparr>mLayer = LayerKernelNet, mKind = ''net_connect'', mPred = Some dstIsExternal\<rparr>],
     rWindow = 3 * second, rOrdered = False, rSeverity = ''critical'',
     rTechnique = '''', rMitreAttack = ''T1059.004'', rCategory = ''Command & Control'',
     rReferences = [],
     rDescription = ''a shell process opened an outbound connection to an external host '' @ em_dash @ '' reverse-shell / C2 pattern'',
     rRationale = [], rRemediation = [], rFalsePositives = [], rMatchers = []\<rparr>"

definition NS_CORR_009 :: rule where
  "NS_CORR_009 = \<lparr>
     rID = ''NS-CORR-009'', rName = ''container-escape-probe'',
     rAll =
       [\<lparr>mLayer = LayerKernelFile, mKind = '''', mPred = Some pathIsContainerEscape\<rparr>],
     rWindow = 1 * second, rOrdered = False, rSeverity = ''high'',
     rTechnique = '''', rMitreAttack = ''T1611'', rCategory = ''Privilege Escalation'',
     rReferences = [],
     rDescription = ''access to a container-escape sensitive path (docker.sock, /proc/1/root, host mounts) '' @ em_dash @ '' container breakout attempt'',
     rRationale = [], rRemediation = [], rFalsePositives = [], rMatchers = []\<rparr>"

definition NS_CORR_010 :: rule where
  "NS_CORR_010 = \<lparr>
     rID = ''NS-CORR-010'', rName = ''shadow-ai-egress'',
     rAll =
       [\<lparr>mLayer = LayerKernelNet, mKind = ''net_connect'', mPred = Some isUnsanctionedAI\<rparr>],
     rWindow = 1 * second, rOrdered = False, rSeverity = ''medium'',
     rTechnique = ''LLM02'', rMitreAttack = ''T1567'', rCategory = ''Shadow AI'',
     rReferences = [],
     rDescription = ''outbound traffic to an unsanctioned AI provider '' @ em_dash @ '' shadow-AI usage that may leak data or bypass the gateway'',
     rRationale = [], rRemediation = [], rFalsePositives = [], rMatchers = []\<rparr>"

definition NS_CORR_011 :: rule where
  "NS_CORR_011 = \<lparr>
     rID = ''NS-CORR-011'', rName = ''tool-then-secret-read'',
     rAll =
       [\<lparr>mLayer = LayerMCP, mKind = ''tool_call'', mPred = None\<rparr>,
        \<lparr>mLayer = LayerKernelFile, mKind = ''file_read'', mPred = Some pathIsSecret\<rparr>],
     rWindow = 5 * second, rOrdered = True, rSeverity = ''high'',
     rTechnique = ''LLM06'', rMitreAttack = ''T1552'', rCategory = ''Credential Access'',
     rReferences = [],
     rDescription = ''an MCP tool call was followed by a read of a credential/secret file '' @ em_dash @ '' a tool reaching for secrets it should not touch'',
     rRationale = [], rRemediation = [], rFalsePositives = [], rMatchers = []\<rparr>"

definition BuiltinRules :: "rule list" where
  "BuiltinRules =
     [NS_CORR_001, NS_CORR_002, NS_CORR_003, NS_CORR_004, NS_CORR_005, NS_CORR_006,
      NS_CORR_007, NS_CORR_008, NS_CORR_009, NS_CORR_010, NS_CORR_011]"

lemmas builtin_rule_defs =
  NS_CORR_001_def NS_CORR_002_def NS_CORR_003_def NS_CORR_004_def NS_CORR_005_def NS_CORR_006_def
  NS_CORR_007_def NS_CORR_008_def NS_CORR_009_def NS_CORR_010_def NS_CORR_011_def

subsection \<open>External destinations\<close>

lemma dotted_nonempty: "a < 256 \<Longrightarrow> dotted a b c d \<noteq> []"
  by (simp add: dotted_def)

lemma dstIsExternal_dotted_lemma:
  assumes "Attr s ''external'' \<noteq> ''true''" and "Attr s ''dst'' = dotted a b c d"
    and "a < 256" "b < 256" "c < 256" "d < 256"
  shows "dstIsExternal s \<longleftrightarrow> \<not> v4_not_public a b c"
  using assms by (simp add: dstIsExternal_def Let_def dotted_nonempty ParseIP_dotted isPublicIP_v4)

subsection \<open>Matchers that exclude each other\<close>

lemma disjoint_matchers_1 [simp]: "disjoint_matchers [m]"
  by (simp add: disjoint_matchers_def)

lemma disjoint_matchers_2:
  "disjoint_matchers [m, n] \<longleftrightarrow> (\<forall>s. matches m s \<longrightarrow> \<not> matches n s)"
  by (auto simp: disjoint_matchers_def less_Suc_eq nth_Cons split: nat.splits)

lemma matches_layer: "matches m s \<Longrightarrow> mLayer m \<noteq> '''' \<Longrightarrow> sLayer s = mLayer m"
  by (auto simp: matches_def split: if_splits)

lemma BuiltinRules_disjoint_lemma:
  assumes "r \<in> set BuiltinRules" and "r \<noteq> NS_CORR_004"
  shows "disjoint_matchers (rAll r)"
proof -
  have layers: "disjoint_matchers [m, n]"
    if "mLayer m \<noteq> ''''" "mLayer n \<noteq> ''''" "mLayer m \<noteq> mLayer n" for m n
    using that by (auto simp: disjoint_matchers_2 dest!: matches_layer)
  have "disjoint_matchers (rAll NS_CORR_001)"
    by (auto simp: NS_CORR_001_def disjoint_matchers_2 matches_def isLLMBound_def split: if_splits)
  moreover have "\<forall>r \<in> {NS_CORR_002, NS_CORR_003, NS_CORR_005, NS_CORR_006, NS_CORR_007, NS_CORR_008,
      NS_CORR_009, NS_CORR_010, NS_CORR_011}. disjoint_matchers (rAll r)"
    by (auto simp: builtin_rule_defs intro!: layers)
  ultimately show ?thesis using assms by (auto simp: BuiltinRules_def)
qed

end
