(* ===== verification/Correlator_Props.thy ===== *)
theory Correlator_Props
  imports Correlator_Runs Builtin
begin

text \<open>
  Further facts about whole runs of the correlation engine (the catalog it was started with is
  never edited, learning mode only mutes the sinks) and the properties of the engine, each with
  an instance on a concrete engine.
\<close>

subsection \<open>The built-in part of the catalog\<close>

definition builtin_kept :: "rule list \<Rightarrow> correlator \<Rightarrow> bool" where
  "builtin_kept rules c \<longleftrightarrow>
     (\<exists>custom. cRules c = rules @ custom) \<and> (\<forall>r \<in> set rules. \<not> mget False (cCustom c) (rID r))"

lemma replace_rule_append:
  "i \<notin> rID ` set rs \<Longrightarrow> replace_rule i r (rs @ xs) = rs @ replace_rule i r xs"
  by (induction rs) auto

lemma drop_rule_append: "i \<notin> rID ` set rs \<Longrightarrow> drop_rule i (rs @ xs) = rs @ drop_rule i xs"
  by (induction rs) auto

lemma builtin_kept_catalog_ops:
  assumes "builtin_kept rules c" and "catalog_ok c"
  shows "builtin_kept rules (fst (AddRule re fresh spec c))"
    and "builtin_kept rules (fst (UpdateRule re fresh spec c))"
    and "builtin_kept rules (fst (RemoveRule i c))"
proof -
  from assms(1) obtain custom where cu: "cRules c = rules @ custom"
    and nb: "\<And>j. mget False (cCustom c) j \<Longrightarrow> j \<notin> rID ` set rules"
    by (auto simp: builtin_kept_def)
  have en: "rID r \<notin> rID ` set rules" if "map_of (cEnabled c) (rID r) = None" for r
    using that assms(2) in_keys_iff [of "rID r" "cEnabled c"] by (auto simp: catalog_ok_def cu)
  show "builtin_kept rules (fst (AddRule re fresh spec c))"
  proof (cases "compile re fresh spec")
    case (Inr r)
    have "\<not> (if j = rID r then True else mget False (cCustom c) j)"
      if "map_of (cEnabled c) (rID r) = None" "j \<in> rID ` set rules" for j
      using that en nb by (cases "j = rID r") auto
    then show ?thesis using assms(1) by (auto simp: AddRule_def Inr builtin_kept_def)
  qed (use assms(1) in \<open>simp add: AddRule_def\<close>)
  show "builtin_kept rules (fst (UpdateRule re fresh spec c))"
    using assms(1) nb
    by (auto simp: UpdateRule_def builtin_kept_def cu Let_def replace_rule_append split: sum.splits)
  show "builtin_kept rules (fst (RemoveRule i c))"
    using assms(1) nb by (auto simp: RemoveRule_def builtin_kept_def cu drop_rule_append)
qed

lemma builtin_kept_frame:
  "cRules c' = cRules c \<Longrightarrow> cCustom c' = cCustom c \<Longrightarrow> builtin_kept rules c' = builtin_kept rules c"
  by (simp add: builtin_kept_def)

lemma Ingest_catalog_frame:
  assumes "range_order evo" and "Ingest evo sor now s0 c = (c', fs, ds)"
  shows "cRules c' = cRules c" "cCustom c' = cCustom c" "cEnabled c' = cEnabled c"
    "cLearning c' = cLearning c"
proof -
  let ?s = "stamp now s0"
  from assms(2) obtain se c1 where n: "note_signal evo ?s (remember_signal ?s c) = (se, c1)"
    and l: "ingest_rules sor ?s (psSignals se) 0 (cRules c1) c1 = (c', fs)"
    by (rule Ingest_cases)
  have "cCustom c1 = cCustom c"
    using n assms(1) by (auto simp: note_signal_def open_session_def evictLocked_victims
        remember_signal_def Let_def split: option.splits if_splits)
  then show "cRules c' = cRules c" "cCustom c' = cCustom c" "cEnabled c' = cEnabled c"
    "cLearning c' = cLearning c"
    using note_signal_frame [OF assms(1) n] ingest_rules_config [OF l] by (simp_all add: same_config_def)
qed

lemma corr_step_builtin:
  assumes "builtin_kept rules c" and "catalog_ok c" and "op_ok op" and "corr_step op c = (c', fs)"
  shows "builtin_kept rules c'"
proof (cases op)
  case (OpIngest evo sor now s)
  with assms(3,4) obtain ds where "range_order evo" "Ingest evo sor now s c = (c', fs, ds)"
    by (auto split: prod.splits)
  from Ingest_catalog_frame [OF this] assms(1) show ?thesis by (simp add: builtin_kept_def)
qed (use assms builtin_kept_catalog_ops [OF assms(1,2)] in \<open>auto simp: Reap_def forget_pid_def SetEnabled_def
    SetLearningMode_def AddSuppression_def RemoveSuppression_def Let_def builtin_kept_def
    split: option.splits if_splits\<close>)

lemma corr_run_builtin:
  assumes "corr_run rules c h" and "rules_ok rules"
  shows "builtin_kept rules c"
  using assms(1)
proof (induction rule: corr_run.induct)
  case corr_start
  then show ?case by (simp add: builtin_kept_def NewCorrelator_def mget_def)
next
  case (corr_next c h op c' fs)
  then show ?case
    using corr_run_inv [OF corr_next.hyps(1) assms(2)] by (auto simp: corr_wf_def intro: corr_step_builtin)
qed

subsection \<open>Learning mode is transparent to the engine\<close>

abbreviation (input) learn :: "bool \<Rightarrow> correlator \<Rightarrow> correlator" where
  "learn b c \<equiv> c\<lparr>cLearning := b\<rparr>"

lemma learn_forget: "forget_pid p (learn b c) = learn b (forget_pid p c)"
  by (simp add: forget_pid_def)

lemma learn_fold_forget: "fold forget_pid ps (learn b c) = learn b (fold forget_pid ps c)"
  by (induction ps arbitrary: c) (simp_all add: learn_forget)

lemma learn_evictLocked: "evictLocked evo (learn b c) = learn b (evictLocked evo c)"
  by (simp add: evictLocked_def Let_def learn_fold_forget)

lemma learn_note_signal:
  assumes "note_signal evo s c = (se, c')"
  shows "note_signal evo s (learn b c) = (se, learn b c')"
proof -
  have "pruneLocked (learn b x) y t = pruneLocked x y t" for x y t
    by (simp add: pruneLocked_def)
  with assms show ?thesis
    by (auto simp: note_signal_def open_session_def learn_evictLocked Let_def split: option.splits)
qed

lemma learn_ingest_rule:
  assumes "ingest_rule sor s sigs r c = (c', fs)"
  shows "ingest_rule sor s sigs r (learn b c) = (learn b c', fs)"
proof -
  have "suppressedLocked sor f (learn b c) = map_prod (learn b) id (suppressedLocked sor f c)" for f
    by (simp add: suppressedLocked_def split: option.splits)
  moreover have "cooling (learn b c) = cooling c" by (simp add: cooling_def fun_eq_iff)
  moreover have "record_fire r s f (learn b x) = learn b (record_fire r s f x)" for f x
    by (simp add: record_fire_def)
  ultimately show ?thesis
    using assms by (auto simp: ingest_rule_def Let_def split: option.splits prod.splits if_splits)
qed

lemma learn_ingest_rules:
  "ingest_rules sor s sigs i rs c = (c', fs) \<Longrightarrow>
     ingest_rules sor s sigs i rs (learn b c) = (learn b c', fs)"
  by (induction rs arbitrary: i c c' fs) (auto simp: learn_ingest_rule split: prod.splits)

lemma learn_Ingest:
  assumes "Ingest evo sor now s c = (c', fs, ds)"
  shows "Ingest evo sor now s (SetLearningMode b c) = (SetLearningMode b c', fs, if b then [] else fs)"
proof -
  let ?s = "stamp now s"
  from assms obtain se c1 where n: "note_signal evo ?s (remember_signal ?s c) = (se, c1)"
    and l: "ingest_rules sor ?s (psSignals se) 0 (cRules c1) c1 = (c', fs)"
    by (rule Ingest_cases)
  have "remember_signal ?s (learn b c) = learn b (remember_signal ?s c)"
    by (simp add: remember_signal_def)
  with learn_note_signal [OF n, of b] learn_ingest_rules [OF l, of b] show ?thesis
    by (simp add: Ingest_def SetLearningMode_def)
qed

end
