(* ===== verification/Scenarios.thy ===== *)
theory Scenarios
  imports Correlator_Props
begin

text \<open>
  The purple-team validation suite of \<^verbatim>\<open>src/pkg/correlate/validation.go\<close>: one replayable attack
  per built-in rule, run against a fresh engine.  The suite never fills the session table and
  registers no suppression, so the map orders an ingest takes are fixed to the identity here;
  every signal carries a timestamp, so the clock is not read.
\<close>

record attack_scenario =
  asName :: string
  asWantRuleID :: string
  asSignals :: "signal list"

record validation_result =
  vrScenario :: string
  vrRuleID :: string
  vrFired :: bool

text \<open>The sink of \<^verbatim>\<open>OnFinding\<close> marks the rule of every finding it is handed.\<close>

fun mark_fired :: "finding list \<Rightarrow> (string, bool) gomap \<Rightarrow> (string, bool) gomap" where
  "mark_fired [] m = m"
| "mark_fired (f # fs) m = mark_fired fs (mput (fRuleID f) True m)"

fun replay_signals :: "signal list \<Rightarrow> correlator \<Rightarrow> (string, bool) gomap \<Rightarrow> (string, bool) gomap" where
  "replay_signals [] c fired = fired"
| "replay_signals (s # ss) c fired =
     (let (c', fs, delivered) = Ingest (\<lambda>ks. ks) (\<lambda>_ ks. ks) 0 s c
      in replay_signals ss c' (mark_fired delivered fired))"

definition ValidateRules :: "attack_scenario list \<Rightarrow> validation_result list" where
  "ValidateRules scs =
     map (\<lambda>sc.
       let fired = replay_signals (asSignals sc) (NewCorrelator BuiltinRules) []
       in \<lparr>vrScenario = asName sc, vrRuleID = asWantRuleID sc,
           vrFired = mget False fired (asWantRuleID sc)\<rparr>) scs"

text \<open>\<^verbatim>\<open>time.Unix(1_700_000_000, 0)\<close> as nanoseconds since the zero time.\<close>

abbreviation (input) base_time :: time where "base_time \<equiv> 63835596800000000000"

definition at_base :: "dur \<Rightarrow> time" where
  "at_base d = base_time + d"

definition sig :: "int \<Rightarrow> layer \<Rightarrow> string \<Rightarrow> (string, string) gomap \<Rightarrow> time \<Rightarrow> signal" where
  "sig pid lay kind attrs t =
     \<lparr>sTimestamp = t, sPID = pid, sTenantID = '''', sLayer = lay, sKind = kind,
      sAttributes = attrs, sSeverity = ''''\<rparr>"

definition scenario_001 :: attack_scenario where
  "scenario_001 =
    \<lparr>asName = ''secret read then LLM egress'', asWantRuleID = ''NS-CORR-001'',
     asSignals =
      [sig 10 LayerKernelFile ''file_read'' [(''path'', ''/etc/shadow'')] (at_base 0),
       sig 10 LayerKernelNet ''net_connect'' [(''ai_provider'', ''openai'')] (at_base second)]\<rparr>"

definition scenario_002 :: attack_scenario where
  "scenario_002 =
    \<lparr>asName = ''tool call then external egress'', asWantRuleID = ''NS-CORR-002'',
     asSignals =
      [sig 11 LayerMCP ''tool_call'' [(''tool'', ''fetch'')] (at_base 0),
       sig 11 LayerKernelNet ''net_connect'' [(''dst'', ''203.0.113.7'')] (at_base second)]\<rparr>"

definition scenario_003 :: attack_scenario where
  "scenario_003 =
    \<lparr>asName = ''tool call then process exec'', asWantRuleID = ''NS-CORR-003'',
     asSignals =
      [sig 12 LayerMCP ''tool_call'' [(''tool'', ''run'')] (at_base 0),
       sig 12 LayerKernelProc ''exec'' [(''comm'', ''python'')] (at_base second)]\<rparr>"

definition scenario_004 :: attack_scenario where
  "scenario_004 =
    \<lparr>asName = ''prompt injection then kernel side effect'', asWantRuleID = ''NS-CORR-004'',
     asSignals =
      [sig 13 LayerAI ''prompt'' [(''injection'', ''malicious'')] (at_base 0),
       sig 13 LayerKernelProc ''exec'' [(''comm'', ''sh'')] (at_base (2 * second))]\<rparr>"

definition scenario_005 :: attack_scenario where
  "scenario_005 =
    \<lparr>asName = ''unverified model load'', asWantRuleID = ''NS-CORR-005'',
     asSignals = [sig 14 LayerModel ''load'' [(''verified'', ''false'')] (at_base 0)]\<rparr>"

definition scenario_006 :: attack_scenario where
  "scenario_006 =
    \<lparr>asName = ''pickle load then exec (deserialization RCE)'', asWantRuleID = ''NS-CORR-006'',
     asSignals =
      [sig 15 LayerModel ''pickle_load'' [(''path'', ''model.pkl'')] (at_base 0),
       sig 15 LayerKernelProc ''exec'' [(''comm'', ''bash'')] (at_base second)]\<rparr>"

definition scenario_007 :: attack_scenario where
  "scenario_007 =
    \<lparr>asName = ''model read then external egress (weight theft)'', asWantRuleID = ''NS-CORR-007'',
     asSignals =
      [sig 16 LayerKernelFile ''file_read'' [(''path'', ''/models/llama.safetensors'')] (at_base 0),
       sig 16 LayerKernelNet ''net_connect'' [(''dst'', ''198.51.100.9'')] (at_base (3 * second))]\<rparr>"

definition scenario_008 :: attack_scenario where
  "scenario_008 =
    \<lparr>asName = ''shell process opens external connection (C2)'', asWantRuleID = ''NS-CORR-008'',
     asSignals =
      [sig 17 LayerKernelProc ''exec'' [(''comm'', ''nc'')] (at_base 0),
       sig 17 LayerKernelNet ''net_connect'' [(''dst'', ''203.0.113.42'')] (at_base second)]\<rparr>"

definition scenario_009 :: attack_scenario where
  "scenario_009 =
    \<lparr>asName = ''container-escape path access'', asWantRuleID = ''NS-CORR-009'',
     asSignals = [sig 18 LayerKernelFile ''file_open'' [(''path'', ''/var/run/docker.sock'')] (at_base 0)]\<rparr>"

definition scenario_010 :: attack_scenario where
  "scenario_010 =
    \<lparr>asName = ''shadow-AI egress'', asWantRuleID = ''NS-CORR-010'',
     asSignals =
      [sig 19 LayerKernelNet ''net_connect'' [(''shadow_ai'', ''true''), (''dst'', ''104.18.0.1'')] (at_base 0)]\<rparr>"

definition scenario_011 :: attack_scenario where
  "scenario_011 =
    \<lparr>asName = ''tool call then secret read'', asWantRuleID = ''NS-CORR-011'',
     asSignals =
      [sig 20 LayerMCP ''tool_call'' [(''tool'', ''read_file'')] (at_base 0),
       sig 20 LayerKernelFile ''file_read'' [(''path'', ''/home/u/.aws/credentials'')] (at_base second)]\<rparr>"

definition BuiltinScenarios :: "attack_scenario list" where
  "BuiltinScenarios =
     [scenario_001, scenario_002, scenario_003, scenario_004, scenario_005, scenario_006,
      scenario_007, scenario_008, scenario_009, scenario_010, scenario_011]"

subsection \<open>Every scenario fires its rule\<close>

definition proof_of_fire :: "attack_scenario \<Rightarrow> rule \<Rightarrow> bool" where
  "proof_of_fire sc r \<longleftrightarrow>
     asWantRuleID sc = rID r \<and>
     mget False (replay_signals (asSignals sc) (NewCorrelator BuiltinRules) []) (asWantRuleID sc)"

lemma fires_001: "proof_of_fire scenario_001 NS_CORR_001"
  by code_simp

lemma fires_002: "proof_of_fire scenario_002 NS_CORR_002"
  by code_simp

lemma fires_003: "proof_of_fire scenario_003 NS_CORR_003"
  by code_simp

lemma fires_004: "proof_of_fire scenario_004 NS_CORR_004"
  by code_simp

lemma fires_005: "proof_of_fire scenario_005 NS_CORR_005"
  by code_simp

lemma fires_006: "proof_of_fire scenario_006 NS_CORR_006"
  by code_simp

lemma fires_007: "proof_of_fire scenario_007 NS_CORR_007"
  by code_simp

lemma fires_008: "proof_of_fire scenario_008 NS_CORR_008"
  by code_simp

lemma fires_009: "proof_of_fire scenario_009 NS_CORR_009"
  by code_simp

lemma fires_010: "proof_of_fire scenario_010 NS_CORR_010"
  by code_simp

lemma fires_011: "proof_of_fire scenario_011 NS_CORR_011"
  by code_simp

lemmas scenarios_fire = fires_001 fires_002 fires_003 fires_004 fires_005 fires_006 fires_007
  fires_008 fires_009 fires_010 fires_011

lemma ValidateRules_fires:
  "list_all2 proof_of_fire scs rs \<Longrightarrow>
     map (\<lambda>v. (vrRuleID v, vrFired v)) (ValidateRules scs) = map (\<lambda>r. (rID r, True)) rs"
  by (induction scs rs rule: list_all2_induct)
    (auto simp: ValidateRules_def proof_of_fire_def Let_def)

subsection \<open>A scenario fires only on its own evidence\<close>

lemma BuiltinRules_ok: "rules_ok BuiltinRules"
  by (simp add: rules_ok_def BuiltinRules_def builtin_rule_defs)

definition all_signals :: "correlator \<Rightarrow> signal set" where
  "all_signals c = (\<Union>p \<in> set (cSessions c). set (psSignals (snd p)))"

lemma set_mput: "set (mput k v m) \<subseteq> insert (k, v) (set m)"
  by (induction m) auto

lemma pruneLocked_signals: "set (psSignals (pruneLocked c se t)) \<subseteq> set (psSignals se)"
  using set_keep_last set_dropWhileD by (fastforce simp: pruneLocked_def Let_def)

lemma note_signal_signals:
  assumes "range_order evo" and "note_signal evo s c = (se, c')"
  shows "set (psSignals se) \<subseteq> insert s (all_signals c)" and "all_signals c' \<subseteq> insert s (all_signals c)"
proof -
  obtain se1 c0 where o: "open_session evo s c = (se1, c0)" by fastforce
  have "set (psSignals se1) \<subseteq> all_signals c \<and> all_signals c0 \<subseteq> all_signals c"
  proof (cases "map_of (cSessions c) (sPID s)")
    case None
    then show ?thesis using o assms(1)
      by (auto simp: open_session_def all_signals_def evictLocked_victims sessions_fold_forget split: if_splits)
  next
    case (Some se2)
    then show ?thesis using o map_of_SomeD [OF Some] by (force simp: open_session_def all_signals_def)
  qed
  then have se1: "set (psSignals se1) \<subseteq> all_signals c" and c0: "all_signals c0 \<subseteq> all_signals c" by auto
  let ?se = "se1\<lparr>psLastActive := sTimestamp s, psSignals := psSignals se1 @ [s]\<rparr>"
  have se: "se = pruneLocked c0 ?se (sTimestamp s)" and c': "c' = c0\<lparr>cSessions := mput (sPID s) se (cSessions c0)\<rparr>"
    using assms(2) o by (auto simp: note_signal_def Let_def)
  show 1: "set (psSignals se) \<subseteq> insert s (all_signals c)"
    using pruneLocked_signals [of c0 ?se "sTimestamp s"] se1 unfolding se by auto
  have "all_signals c' \<subseteq> set (psSignals se) \<union> all_signals c0"
    using set_mput [of "sPID s" se "cSessions c0"] unfolding c' all_signals_def by auto
  with 1 c0 show "all_signals c' \<subseteq> insert s (all_signals c)" by blast
qed

text \<open>What a fired rule rests on: signals of one process within the rule's window of the signal that completed it.\<close>

definition evidence :: "rule \<Rightarrow> signal set \<Rightarrow> bool" where
  "evidence r S \<longleftrightarrow> (\<exists>s \<in> S. \<exists>chain. (\<exists>m \<in> set (rAll r). matches m s) \<and> list_all2 matches (rAll r) chain \<and>
     (\<forall>x \<in> set chain. x \<in> S \<and> sPID x = sPID s \<and> sTimestamp s - rWindow r \<le> sTimestamp x) \<and>
     (rOrdered r \<longrightarrow> in_time_order chain))"

lemma Ingest_evidence:
  assumes "corr_wf c" and "range_order evo" and "Ingest evo sor now s c = (c', fs, ds)"
    and "insert (stamp now s) (all_signals c) \<subseteq> S"
  shows "all_signals c' \<subseteq> S" and "f \<in> set fs \<Longrightarrow> \<exists>r \<in> set (cRules c). rID r = fRuleID f \<and> evidence r S"
proof -
  let ?s = "stamp now s" and ?c = "remember_signal (stamp now s) c"
  obtain se c1 where n: "note_signal evo ?s ?c = (se, c1)"
    and l: "ingest_rules sor ?s (psSignals se) 0 (cRules c1) c1 = (c', fs)"
    using assms(3) by (rule Ingest_cases)
  have a: "all_signals ?c = all_signals c" by (simp add: all_signals_def remember_signal_def)
  note g = note_signal_signals [OF assms(2) n, unfolded a]
  show "all_signals c' \<subseteq> S"
    using ingest_rules_config [OF l] g(2) assms(4) by (auto simp: same_config_def all_signals_def)
  assume f: "f \<in> set fs"
  obtain r chain where r: "r \<in> set (cRules c)" "touchedBy r ?s" "f = finding_of r ?s chain"
    and ev: "evaluate r (psSignals se) (sTimestamp ?s) = Some chain"
    using ingest_rules_sound [OF l f] note_signal_frame(1) [OF assms(2) n] by (auto simp: remember_signal_def)
  have w: "list_all2 matches (rAll r) chain" "rOrdered r \<longrightarrow> in_time_order chain"
    using ev by (auto elim!: evaluate_Some simp: list_all2_conv_all_nth)
  have "\<forall>x \<in> set (psSignals se). sPID x = sPID ?s"
    using note_signal_ok(4) [OF assms(2) _ n] assms(1) by (simp add: corr_wf_def)
  then have "\<forall>x \<in> set chain. x \<in> S \<and> sPID x = sPID ?s \<and> sTimestamp ?s - rWindow r \<le> sTimestamp x"
    using evaluate_chain_subset [OF ev] g(1) assms(4) by (auto simp: set_window dest!: subsetD)
  with w r assms(4) have "evidence r S" unfolding evidence_def touchedBy_iff by blast
  with r show "\<exists>r \<in> set (cRules c). rID r = fRuleID f \<and> evidence r S" by (auto simp: finding_of_def)
qed

lemma mark_fired_iff: "mget False (mark_fired fs m) i \<longleftrightarrow> mget False m i \<or> (\<exists>f \<in> set fs. fRuleID f = i)"
  by (induction fs arbitrary: m) (auto simp: mget_def)

lemma replay_evidence:
  "\<lbrakk>corr_wf c; cRules c = rules; all_signals c \<subseteq> S; stamp 0 ` set ss \<subseteq> S;
    mget False (replay_signals ss c fired) i\<rbrakk> \<Longrightarrow> mget False fired i \<or> (\<exists>r \<in> set rules. rID r = i \<and> evidence r S)"
proof (induction ss arbitrary: c fired)
  case (Cons s ss)
  obtain c' fs ds where 1: "Ingest (\<lambda>ks. ks) (\<lambda>_ ks. ks) 0 s c = (c', fs, ds)" by (metis prod_cases3)
  have sub: "insert (stamp 0 s) (all_signals c) \<subseteq> S" using Cons.prems(3,4) by simp
  note e = Ingest_evidence [OF Cons.prems(1) range_order_id 1 sub]
  have d: "set ds \<subseteq> set fs" using 1 by (rule Ingest_cases) auto
  have "mget False (mark_fired ds fired) i \<or> (\<exists>r \<in> set rules. rID r = i \<and> evidence r S)"
    using Cons.prems(4,5) e(1) Ingest_wf [OF Cons.prems(1) range_order_id 1]
      Ingest_catalog_frame(1) [OF range_order_id 1] Cons.prems(2)
    by (intro Cons.IH [of c']) (simp_all add: 1)
  then show ?case using e(2) d Cons.prems(2) by (auto simp: mark_fired_iff)
qed simp



end
