(* ===== verification/Correlator_Claims.thy ===== *)
theory Correlator_Claims
  imports Scenarios
begin

text \<open>
  The properties of the correlation engine along its runs, each with an instance on the engine
  the agent starts: the built-in catalog, fed with a tool call and the egress that follows it.
\<close>

subsection \<open>A concrete run\<close>

definition tool_sig :: signal where
  "tool_sig = sig 11 LayerMCP ''tool_call'' [(''tool'', ''fetch'')] (at_base 0)"

definition egress_sig :: signal where
  "egress_sig = sig 11 LayerKernelNet ''net_connect'' [(''dst'', ''203.0.113.7'')] (at_base second)"

abbreviation (input) any_order :: "'a list \<Rightarrow> 'a list" where "any_order \<equiv> (\<lambda>ks. ks)"

definition demo0 :: correlator where
  "demo0 = NewCorrelator BuiltinRules"

definition demo1 :: correlator where
  "demo1 = fst (Ingest any_order (\<lambda>_. any_order) 0 tool_sig demo0)"

definition demo_finding :: finding where
  "demo_finding = finding_of NS_CORR_002 egress_sig [tool_sig, egress_sig]"

definition demo2 :: correlator where
  "demo2 = fst (Ingest any_order (\<lambda>_. any_order) 0 egress_sig demo1)"

definition early_egress_sig :: signal where
  "early_egress_sig = sig 11 LayerKernelNet ''net_connect'' [(''dst'', ''203.0.113.7'')] (at_base (- second))"

definition demo_suppression :: suppression where
  "demo_suppression =
     \<lparr>suSpec = \<lparr>ssID = ''s1'', ssRuleID = '''', ssAttrKey = ''tool'', ssAttrPattern = ''^fetch$'', ssReason = ''''\<rparr>,
      suRe = (\<lambda>v. v = ''fetch''), suMatched = 0\<rparr>"

lemma demo1_step: "Ingest any_order (\<lambda>_. any_order) 0 tool_sig demo0 = (demo1, [], [])"
proof -
  have "snd (Ingest any_order (\<lambda>_. any_order) 0 tool_sig demo0) = ([], [])" by code_simp
  then show ?thesis by (simp add: demo1_def prod_eq_iff)
qed

lemma demo2_findings:
  "snd (Ingest any_order (\<lambda>_. any_order) 0 egress_sig demo1) = ([demo_finding], [demo_finding])"
  by code_simp

lemma demo2_step:
  "Ingest any_order (\<lambda>_. any_order) 0 egress_sig demo1 = (demo2, [demo_finding], [demo_finding])"
  using demo2_findings by (simp add: demo2_def prod_eq_iff)

lemma demo_pids [simp]: "is_int64 (sPID tool_sig)" "is_int64 (sPID egress_sig)"
  by (simp_all add: tool_sig_def egress_sig_def sig_def is_int64_def)

lemma demo1_run: "corr_run BuiltinRules demo1 []"
  using corr_run.corr_next [OF corr_run.corr_start, of "OpIngest any_order (\<lambda>_. any_order) 0 tool_sig" BuiltinRules demo1 "[]"]
    demo1_step
  by (simp add: demo0_def)

lemma demo2_run: "corr_run BuiltinRules demo2 [demo_finding]"
  using corr_run.corr_next [OF demo1_run, of "OpIngest any_order (\<lambda>_. any_order) 0 egress_sig" demo2 "[demo_finding]"]
    demo2_step
  by simp

subsection \<open>Properties\<close>

text \<open>
  C4: in every state a run of the engine can reach, every finding an ingest returns is backed by
  evidence: it names an enabled rule of the catalog that the new signal touches, its chain
  satisfies the rule's matchers one by one with signals of the same process inside the rule's
  window and, for an ordered rule, in time order; it carries the signal's time, process and tenant.
\<close>

theorem findings_certified:
  assumes "corr_run rules c h" and "rules_ok rules" and "range_order evo"
    and "Ingest evo sor now s c = (c', fs, ds)" and "f \<in> set fs"
  shows "certified c (stamp now s) f"
  using Ingest_certified [OF _ assms(3-5)] corr_run_inv [OF assms(1,2)] by (simp add: corr_wf_def)

theorem findings_certified_witness: "certified demo1 egress_sig demo_finding"
proof -
  have "stamp 0 egress_sig = egress_sig"
    by (simp add: stamp_def egress_sig_def sig_def at_base_def)
  with findings_certified [OF demo1_run BuiltinRules_ok range_order_id demo2_step, of demo_finding]
  show ?thesis by simp
qed

text \<open>
  The signals that complete a rule in a window: for each matcher the first signal it accepts, in the order of the
  matchers, and in time order when the rule is ordered.
\<close>

definition completes :: "rule \<Rightarrow> signal list \<Rightarrow> signal list \<Rightarrow> bool" where
  "completes r win chain \<longleftrightarrow>
     list_all2 (\<lambda>m s. \<exists>pre post. win = pre @ s # post \<and> matches m s \<and> (\<forall>x \<in> set pre. \<not> matches m x)) (rAll r) chain \<and>
     (rOrdered r \<longrightarrow> sorted (map sTimestamp chain))"

lemma find_first: "List.find P xs = Some s \<longleftrightarrow> (\<exists>pre post. xs = pre @ s # post \<and> P s \<and> (\<forall>x \<in> set pre. \<not> P x))"
proof (induction xs)
  case (Cons a xs)
  show ?case
  proof (cases "P a")
    case True
    show ?thesis using True by (auto simp: Cons_eq_append_conv)
  next
    case False
    have "(\<exists>pre post. a # xs = pre @ s # post \<and> P s \<and> (\<forall>x \<in> set pre. \<not> P x)) \<longleftrightarrow>
        (\<exists>pre post. xs = pre @ s # post \<and> P s \<and> (\<forall>x \<in> set pre. \<not> P x))"
    proof
      assume "\<exists>pre post. a # xs = pre @ s # post \<and> P s \<and> (\<forall>x \<in> set pre. \<not> P x)"
      then show "\<exists>pre post. xs = pre @ s # post \<and> P s \<and> (\<forall>x \<in> set pre. \<not> P x)"
        using False by (auto simp: Cons_eq_append_conv)
    next
      assume "\<exists>pre post. xs = pre @ s # post \<and> P s \<and> (\<forall>x \<in> set pre. \<not> P x)"
      then obtain pre post where "a # xs = (a # pre) @ s # post" "P s" "\<forall>x \<in> set (a # pre). \<not> P x" using False by auto
      then show "\<exists>pre post. a # xs = pre @ s # post \<and> P s \<and> (\<forall>x \<in> set pre. \<not> P x)" by blast
    qed
    with Cons False show ?thesis by simp
  qed
qed simp

lemma those_list_all2: "those (map f xs) = Some ys \<longleftrightarrow> list_all2 (\<lambda>x y. f x = Some y) xs ys"
proof (induction xs arbitrary: ys)
  case (Cons x xs)
  then show ?case by (cases ys) (auto split: option.splits)
qed (auto simp: list_all2_Nil)

lemma in_time_order_sorted: "in_time_order ch \<longleftrightarrow> sorted (map sTimestamp ch)"
  by (induction ch rule: in_time_order.induct) (auto simp: sorted2)

lemma evaluate_completes:
  assumes "disjoint_matchers (rAll r)"
  shows "evaluate r signals now = Some chain \<longleftrightarrow> completes r (window r signals now) chain"
  using those_list_all2 [of "\<lambda>m. List.find (matches m) (window r signals now)" "rAll r" chain]
  unfolding evaluate_disjoint [OF assms] completes_def find_first [symmetric] in_time_order_sorted [symmetric]
  by (auto split: option.splits)

text \<open>
  C5: exactly the completed patterns fire.  In every reachable state, for every rule of the catalog whose matchers no signal
  satisfies twice and whose name no other rule has, and for every process with fewer than 256 retained signals, an ingest
  returns the rule's finding if and only if the rule is enabled, the new signal matches one of its matchers, the first signals
  that its matchers accept among the retained signals of the process and the new one within the rule's window all exist (and
  are in time order when the rule is ordered), the rule is not cooling down for the process and no suppression matches
  the finding; the finding carries those signals, and there is at most one.  For an unordered rule the pattern is complete
  exactly when distinct signals of the window satisfy all the matchers.
\<close>

theorem completed_pattern_fires:
  assumes "corr_run rules c h" and "rules_ok rules" and "range_order evo" "\<forall>j. range_order (sor j)"
    and "Ingest evo sor now s c = (c', fs, ds)"
    and "r \<in> set (cRules c)" and "disjoint_matchers (rAll r)"
    and "\<forall>q \<in> set (cRules c). rName q = rName r \<longrightarrow> q = r"
    and "length (session_signals c (sPID s)) < 256"
    and "sg = stamp now s" and "hist = session_signals c (sPID s) @ [sg]"
  shows "{f \<in> set fs. fRuleID f = rID r} =
      {finding_of r sg chain | chain.
         mget False (cEnabled c) (rID r) \<and> (\<exists>m \<in> set (rAll r). matches m sg) \<and>
         completes r (filter (\<lambda>x. sTimestamp sg - rWindow r \<le> sTimestamp x) hist) chain \<and>
         \<not> cooling c r sg \<and> \<not> silenced c (finding_of r sg chain)} \<and>
    (\<not> rOrdered r \<longrightarrow>
       (\<exists>chain. completes r (filter (\<lambda>x. sTimestamp sg - rWindow r \<le> sTimestamp x) hist) chain) \<longleftrightarrow>
       fires_spec r hist (sTimestamp sg))"
proof -
  have w: "window r hist (sTimestamp sg) = filter (\<lambda>x. sTimestamp sg - rWindow r \<le> sTimestamp x) hist"
    by (simp add: window_def Let_def not_less)
  note e = evaluate_completes [OF assms(7), of hist "sTimestamp sg", unfolded w]
  have "corr_wf c" using corr_run_inv [OF assms(1,2)] by simp
  from Ingest_exact [OF this assms(3-6,8)] assms(9) have "{f \<in> set fs. fRuleID f = rID r} = rule_result sg hist r c"
    unfolding assms(10,11) by simp
  then show ?thesis
    using evaluate_sound_lemma [of r hist "sTimestamp sg"] evaluate_complete_lemma [OF assms(7), of hist "sTimestamp sg"]
    unfolding rule_result_def touchedBy_iff e by blast
qed

theorem completed_pattern_fires_witness:
  "finding_of NS_CORR_002 egress_sig [tool_sig, egress_sig] \<in>
     set (fst (snd (Ingest any_order (\<lambda>_. any_order) 0 egress_sig demo1)))"
proof -
  let ?hist = "session_signals demo1 (sPID egress_sig) @ [egress_sig]"
  have st: "stamp 0 egress_sig = egress_sig"
    by (simp add: stamp_def egress_sig_def sig_def at_base_def)
  have rs: "cRules demo1 = BuiltinRules"
    using Ingest_catalog_frame(1) [OF range_order_id demo1_step] by (simp add: demo0_def NewCorrelator_def)
  have r: "NS_CORR_002 \<in> set (cRules demo1)" "\<forall>q \<in> set (cRules demo1). rName q = rName NS_CORR_002 \<longrightarrow> q = NS_CORR_002"
    by (simp_all add: rs BuiltinRules_def builtin_rule_defs)
  have d: "disjoint_matchers (rAll NS_CORR_002)"
    by (rule BuiltinRules_disjoint_lemma) (simp_all add: BuiltinRules_def builtin_rule_defs)
  have n: "length (session_signals demo1 (sPID egress_sig)) < 256" by code_simp
  have "evaluate NS_CORR_002 ?hist (sTimestamp egress_sig) = Some [tool_sig, egress_sig]" by code_simp
  then have "completes NS_CORR_002 (filter (\<lambda>x. sTimestamp egress_sig - rWindow NS_CORR_002 \<le> sTimestamp x) ?hist)
      [tool_sig, egress_sig]"
    unfolding evaluate_completes [OF d] by (simp add: window_def Let_def not_less)
  moreover have "mget False (cEnabled demo1) (rID NS_CORR_002)" by code_simp
  moreover have "touchedBy NS_CORR_002 egress_sig" by code_simp
  moreover have "\<not> cooling demo1 NS_CORR_002 egress_sig" by code_simp
  moreover have "cSuppressions demo1 = []" by code_simp
  then have "\<not> silenced demo1 (finding_of NS_CORR_002 egress_sig [tool_sig, egress_sig])" by (simp add: silenced_def)
  ultimately have "finding_of NS_CORR_002 egress_sig [tool_sig, egress_sig] \<in> {f \<in> set [demo_finding]. fRuleID f = rID NS_CORR_002}"
    using completed_pattern_fires [OF demo1_run BuiltinRules_ok range_order_id allI [OF range_order_id] demo2_step r(1) d r(2) n refl refl]
    unfolding st touchedBy_iff by blast
  then show ?thesis by (simp add: demo2_step)
qed

text \<open>
  C6: cooldown.  Along every run, when an ingest emits a finding for a process and a rule that
  already has findings in the run's history (the findings of the same ingest before it included),
  the time since the last of them is at least the rule's window.
\<close>

theorem findings_spaced:
  assumes "corr_run rules c h" and "rules_ok rules" and "range_order evo" and "is_int64 (sPID s)"
    and "Ingest evo sor now s c = (c', fs, ds)" and "k < length fs"
  shows "gap_ok (cRules c) (h @ take k fs) (fs ! k)"
  using Ingest_cooldowns [OF _ assms(3,4) _ assms(5), of h] corr_run_inv [OF assms(1,2)] assms(6) by simp

theorem findings_spaced_witness: "gap_ok (cRules demo1) [] demo_finding"
  using findings_spaced [OF demo1_run BuiltinRules_ok range_order_id _ demo2_step, of 0] by simp

text \<open>
  C20: the engine's memory is bounded and its tables consistent in every reachable state: at most
  8192 sessions of at most 256 signals each, every signal in the session of its own process,
  both rings within their caps, rule identifiers distinct and exactly the keys of the enabled
  map, and no rule window wider than the retention window.
\<close>

theorem engine_invariant:
  assumes "corr_run rules c h" and "rules_ok rules"
  shows "corr_wf c"
  using corr_run_inv [OF assms] by simp

theorem engine_invariant_witness: "corr_wf demo2"
  by (rule engine_invariant [OF demo2_run BuiltinRules_ok])

text \<open>
  C21: the ring behind the findings view refines the run's history: it returns the newest findings
  of everything ever emitted, up to the requested limit and 5000, oldest first, whatever
  operations were interleaved.
\<close>

theorem RecentFindings_history:
  assumes "corr_run rules c h" and "rules_ok rules"
  shows "RecentFindings c limit = keep_last (if limit \<le> 0 then 5000 else min 5000 (nat limit)) h"
proof -
  have "cRecent c = keep_last 5000 h" using corr_run_inv [OF assms] by simp
  then show ?thesis
    by (simp add: RecentFindings_def clamp_limit_def) (simp add: keep_last_def min_def)
qed

theorem RecentFindings_history_witness: "RecentFindings demo2 10 = [demo_finding]"
  using RecentFindings_history [OF demo2_run BuiltinRules_ok, of 10] by simp

text \<open>
  the catalog the engine was started with is immutable: in every reachable state the rule
  list still begins with the built-in rules, unchanged and in order, and none of them is marked
  custom, so neither an update nor a removal can touch them.
\<close>

theorem builtin_rules_immutable:
  assumes "corr_run rules c h" and "rules_ok rules"
  shows "builtin_kept rules c"
  by (rule corr_run_builtin [OF assms])

theorem builtin_rules_immutable_witness: "builtin_kept BuiltinRules demo2"
  by (rule builtin_rules_immutable [OF demo2_run BuiltinRules_ok])

text \<open>
  C22: learning mode changes nothing but the delivery.  An ingest under either setting of the mode
  returns the same findings and leaves the same engine, the mode apart; the sinks receive all the
  findings when the mode is off and none when it is on.
\<close>

theorem learning_mode_transparent:
  assumes "Ingest evo sor now s c = (c', fs, ds)"
  shows "Ingest evo sor now s (SetLearningMode b c) = (SetLearningMode b c', fs, if b then [] else fs)"
  by (rule learn_Ingest [OF assms])

theorem learning_mode_transparent_witness:
  "Ingest any_order (\<lambda>_. any_order) 0 egress_sig (SetLearningMode True demo1) =
     (SetLearningMode True demo2, [demo_finding], [])"
  using learning_mode_transparent [OF demo2_step, of True] by simp

text \<open>
  a suppressed match does not fire, is not recorded and starts no cooldown: the rule's
  iteration returns no finding, and the only change of the engine is the match counter of one
  suppression, which does match the finding.
\<close>

theorem suppressed_match:
  assumes "range_order sor" and "mget False (cEnabled c) (rID r)" and "touchedBy r s"
    and "evaluate r sigs (sTimestamp s) = Some chain" and "\<not> cooling c r s"
    and "silenced c (finding_of r s chain)"
  shows "\<exists>k su. map_of (cSuppressions c) k = Some su \<and> sup_matches su (finding_of r s chain) \<and>
    ingest_rule sor s sigs r c =
      (c\<lparr>cSuppressions := mput k (su\<lparr>suMatched := suMatched su + 1\<rparr>) (cSuppressions c)\<rparr>, [])"
  by (rule ingest_rule_silenced [OF assms])

theorem suppressed_match_witness:
  "snd (ingest_rule any_order egress_sig [tool_sig, egress_sig] NS_CORR_002
     (demo0\<lparr>cSuppressions := [(''s1'', demo_suppression)]\<rparr>)) = []"
proof -
  let ?c = "demo0\<lparr>cSuppressions := [(''s1'', demo_suppression)]\<rparr>"
  have "mget False (cEnabled ?c) (rID NS_CORR_002)" by code_simp
  moreover have "touchedBy NS_CORR_002 egress_sig" by code_simp
  moreover have "evaluate NS_CORR_002 [tool_sig, egress_sig] (sTimestamp egress_sig) = Some [tool_sig, egress_sig]"
    by code_simp
  moreover have "\<not> cooling ?c NS_CORR_002 egress_sig" by code_simp
  moreover have "sup_matches demo_suppression (finding_of NS_CORR_002 egress_sig [tool_sig, egress_sig])"
    by code_simp
  then have "silenced ?c (finding_of NS_CORR_002 egress_sig [tool_sig, egress_sig])"
    by (auto simp: silenced_def)
  ultimately show ?thesis
    using suppressed_match [OF range_order_id, of ?c NS_CORR_002 egress_sig "[tool_sig, egress_sig]"] by fastforce
qed

text \<open>
  when the session table overflows, the eviction forgets the least recently active quarter
  of the sessions (at least one): the sessions kept are exactly those outside the chosen victims,
  the victims number a quarter of the table, and none of them was active after a kept session.
\<close>

theorem eviction_lru:
  assumes "range_order evo" and "gomap_ok (cSessions c)"
  shows "cSessions (evictLocked evo c) = filter (\<lambda>p. fst p \<notin> set (victims evo c)) (cSessions c) \<and>
    length (victims evo c) = min (max 1 (length (cSessions c) div 4)) (length (cSessions c)) \<and>
    (\<forall>p \<in> set (victims evo c). p \<in> set (keys (cSessions c))) \<and>
    (\<forall>p \<in> set (victims evo c). \<forall>q \<in> set (keys (cSessions (evictLocked evo c))).
       last_active c p \<le> last_active c q)"
  using victims_props [OF assms]
  by (auto simp: evictLocked_victims [OF assms(1)] sessions_fold_forget)

theorem eviction_lru_witness: "length (victims any_order demo2) = 1"
proof -
  have "gomap_ok (cSessions demo2)"
    using corr_run_inv [OF demo2_run BuiltinRules_ok] by (simp add: corr_wf_def bounds_ok_def)
  moreover have "length (cSessions demo2) = 1" by code_simp
  ultimately show ?thesis using eviction_lru [OF range_order_id, of demo2] by simp
qed

text \<open>
  C23: for an unordered rule whose matchers no signal satisfies twice, the greedy evaluation is
  exact: it succeeds if and only if every matcher is satisfied by a distinct signal of the window.
\<close>

theorem evaluate_exact:
  assumes "disjoint_matchers (rAll r)" and "\<not> rOrdered r"
  shows "(\<exists>chain. evaluate r signals now = Some chain) \<longleftrightarrow> fires_spec r signals now"
  using evaluate_sound_lemma evaluate_complete_lemma [OF assms] by blast

theorem evaluate_exact_witness:
  "(\<exists>chain. evaluate NS_CORR_008 [egress_sig] (at_base second) = Some chain)
     \<longleftrightarrow> fires_spec NS_CORR_008 [egress_sig] (at_base second)"
  using evaluate_exact [of NS_CORR_008] BuiltinRules_disjoint_lemma [of NS_CORR_008]
  by (simp add: BuiltinRules_def builtin_rule_defs)

text \<open>
  an ordered rule can miss a pattern its documentation promises: a connection, a tool call
  and a second connection inside the window contain the ordered pair, but the evaluation picks
  the first connection and then rejects the order.
\<close>

theorem ordered_rule_misses:
  "evaluate NS_CORR_002 [early_egress_sig, tool_sig, egress_sig] (at_base second) = None \<and>
   fires_spec NS_CORR_002 [early_egress_sig, tool_sig, egress_sig] (at_base second)"
proof
  show "evaluate NS_CORR_002 [early_egress_sig, tool_sig, egress_sig] (at_base second) = None"
    by code_simp
  have "window NS_CORR_002 [early_egress_sig, tool_sig, egress_sig] (at_base second)
      = [early_egress_sig, tool_sig, egress_sig]" by code_simp
  moreover have "matches (rAll NS_CORR_002 ! 0) tool_sig" "matches (rAll NS_CORR_002 ! 1) egress_sig"
    "in_time_order [tool_sig, egress_sig]" "length (rAll NS_CORR_002) = 2" by code_simp+
  ultimately show "fires_spec NS_CORR_002 [early_egress_sig, tool_sig, egress_sig] (at_base second)"
    unfolding fires_spec_def by (intro exI [of _ "[1, 2]"]) (auto simp: less_Suc_eq numeral_2_eq_2)
qed

text \<open>
  reaping a process does not end its cooldowns: the entry of every named rule survives, so
  a process that reuses the identifier starts with the cooldowns of the dead one.
\<close>

theorem reap_keeps_cooldowns:
  assumes "n \<noteq> ''''"
  shows "map_of (cLastFired (Reap p c)) (fireKey p n) = map_of (cLastFired c) (fireKey p n)"
  by (rule other_ops_frame(4) [of "OpReap p" c "Reap p c" "[]"]) (simp_all add: assms)

theorem reap_keeps_cooldowns_witness:
  "map_of (cLastFired (Reap 11 demo2)) (fireKey 11 ''tool-triggered-exfil'') =
   map_of (cLastFired demo2) (fireKey 11 ''tool-triggered-exfil'')"
  by (rule reap_keeps_cooldowns) simp

end
