(* ===== verification/AuditTrail.thy ===== *)
theory AuditTrail
  imports Prelude
begin

text \<open>
  The tamper-evident audit trail of \<^verbatim>\<open>src/pkg/audit\<close>: \<^verbatim>\<open>audit.go\<close> (entries, the in-memory hash
  chain, its durable sink), \<^verbatim>\<open>sqlite_store.go\<close> (the relational store) and \<^verbatim>\<open>store.go\<close> (the JSON
  lines file).  What the code takes from its libraries is the record \<open>codec\<close>: SHA-256 (32 bytes,
  a 256-bit word), \<^verbatim>\<open>json.Marshal\<close> and \<^verbatim>\<open>json.Unmarshal\<close> of the details map (whose type is the
  parameter \<open>'d\<close>), the RFC 3339 rendering of a time in its zone, and the zone
  \<^verbatim>\<open>time.Unix\<close> gives.  A table is the list of its rows; \<open>None\<close> as the result of an
  operation is the nil error.
\<close>

subsection \<open>Entries\<close>

record etime =
  tInstant :: time
  tZone :: string

record actor =
  aPID :: int
  aUID :: int
  aComm :: string

record entry_metadata =
  emProduct :: string
  emVersion :: string

record 'd entry =
  enID :: string
  enSequenceNum :: "64 word"
  enTimestamp :: etime
  enEventType :: string
  enSeverity :: string
  enSeverityID :: int
  enCategoryUID :: int
  enClassUID :: int
  enActor :: "actor option"
  enDetails :: "'d option"
  enMetadata :: "entry_metadata option"
  enPrevHash :: string
  enHash :: string

record 'd codec =
  kSha :: "string \<Rightarrow> 256 word"
  kMarshal :: "'d \<Rightarrow> string"
  kUnmarshal :: "string \<Rightarrow> 'd option"
  kFormat :: "etime \<Rightarrow> string"
  kLocal :: string

definition GenesisHash :: string where
  "GenesisHash = replicate 64 CHR ''0''"

definition severityIDMap :: "(string, int) gomap" where
  "severityIDMap = [(''info'', 1), (''low'', 2), (''medium'', 3), (''high'', 4), (''critical'', 5)]"

definition NewEntry :: "string \<Rightarrow> etime \<Rightarrow> string \<Rightarrow> string \<Rightarrow> 'd option \<Rightarrow> 'd entry" where
  "NewEntry fresh now eventType severity details =
     \<lparr>enID = fresh, enSequenceNum = 0, enTimestamp = now, enEventType = eventType,
      enSeverity = severity, enSeverityID = mget 0 severityIDMap severity, enCategoryUID = 0,
      enClassUID = 0, enActor = None, enDetails = details,
      enMetadata = Some \<lparr>emProduct = ''neurosentry'', emVersion = ''0.2.0''\<rparr>,
      enPrevHash = '''', enHash = ''''\<rparr>"

definition SetActor :: "int \<Rightarrow> int \<Rightarrow> string \<Rightarrow> 'd entry \<Rightarrow> 'd entry" where
  "SetActor pid uid comm e = e\<lparr>enActor := Some \<lparr>aPID = pid, aUID = uid, aComm = comm\<rparr>\<rparr>"

definition SetCategory :: "int \<Rightarrow> int \<Rightarrow> 'd entry \<Rightarrow> 'd entry" where
  "SetCategory category cls e = e\<lparr>enCategoryUID := category, enClassUID := cls\<rparr>"

text \<open>\<^verbatim>\<open>binary.BigEndian.PutUint64\<close> into eight bytes.\<close>

definition be64 :: "64 word \<Rightarrow> string" where
  "be64 w = map (\<lambda>i. char_of (unat w div 256 ^ i mod 256)) [7, 6, 5, 4, 3, 2, 1, 0]"

text \<open>What \<^verbatim>\<open>computeHash\<close> writes into the digest.\<close>

definition preimage :: "'d codec \<Rightarrow> 'd entry \<Rightarrow> string" where
  "preimage k e =
     enID e @ be64 (enSequenceNum e) @ kFormat k (enTimestamp e) @ enEventType e @ enSeverity e @
     (case enDetails e of None \<Rightarrow> '''' | Some d \<Rightarrow> kMarshal k d) @ enPrevHash e"

text \<open>\<^verbatim>\<open>hex.EncodeToString\<close> of the 32 bytes of a digest.\<close>

definition hex_char :: "nat \<Rightarrow> char" where
  "hex_char d = (if d < 10 then char_of (48 + d) else char_of (87 + d))"

definition hex256 :: "256 word \<Rightarrow> string" where
  "hex256 w = map (\<lambda>i. hex_char (unat w div 16 ^ i mod 16)) (rev [0..<64])"

definition computeHash :: "'d codec \<Rightarrow> 'd entry \<Rightarrow> string" where
  "computeHash k e = hex256 (kSha k (preimage k e))"

subsection \<open>The in-memory chain\<close>

datatype audit_error =
    DurableWrite string
  | HashMismatch nat | NotGenesis | PrevHashMismatch nat
  | HashMismatchAtRest "64 word" | BrokenChain "64 word"

record ('d, 's) chain =
  chEntries :: "'d entry list"
  chNextSeq :: "64 word"
  chMaxEntries :: nat
  chTotalCount :: int
  chSink :: "'s option"
  chResumedHash :: string

abbreviation (input) DefaultMaxEntries :: nat where "DefaultMaxEntries \<equiv> 10000"

definition NewChain :: "('d, 's) chain" where
  "NewChain =
     \<lparr>chEntries = [], chNextSeq = 0, chMaxEntries = DefaultMaxEntries, chTotalCount = 0,
      chSink = None, chResumedHash = ''''\<rparr>"

definition NewChainWithCapacity :: "int \<Rightarrow> ('d, 's) chain" where
  "NewChainWithCapacity mx =
     \<lparr>chEntries = [], chNextSeq = 0, chMaxEntries = (if mx \<le> 0 then DefaultMaxEntries else nat mx),
      chTotalCount = 0, chSink = None, chResumedHash = ''''\<rparr>"

text \<open>A sink is its state and its \<^verbatim>\<open>Write\<close>, which returns the new state and the error, if any.\<close>

type_synonym ('d, 's) sink_write = "'d entry \<Rightarrow> 's \<Rightarrow> 's \<times> string option"

fun replay_entries :: "('d, 's) sink_write \<Rightarrow> 'd entry list \<Rightarrow> 's \<Rightarrow> 's" where
  "replay_entries wr [] s = s"
| "replay_entries wr (e # es) s = replay_entries wr es (fst (wr e s))"

text \<open>\<open>res\<close> is the optional \<^verbatim>\<open>LastSeqHash\<close> of the sink, \<open>None\<close> also when it returns an error.\<close>

definition AttachSink ::
  "('d, 's) sink_write \<Rightarrow> ('s \<Rightarrow> (64 word \<times> string) option) option \<Rightarrow> 's \<Rightarrow> ('d, 's) chain \<Rightarrow> ('d, 's) chain" where
  "AttachSink wr res s c =
     (let c1 =
        (if length (chEntries c) = 0 \<and> chNextSeq c = 0 then
           (case res of
              None \<Rightarrow> c
            | Some lsh \<Rightarrow>
                (case lsh s of
                   None \<Rightarrow> c
                 | Some (sq, h) \<Rightarrow>
                     c\<lparr>chNextSeq := sq + 1, chResumedHash := h, chTotalCount := sint (sq + 1)\<rparr>))
         else c)
      in c1\<lparr>chSink := Some (replay_entries wr (chEntries c1) s)\<rparr>)"

definition prev_hash :: "('d, 's) chain \<Rightarrow> string" where
  "prev_hash c =
     (if length (chEntries c) = 0 then
        (if chResumedHash c \<noteq> '''' then chResumedHash c else GenesisHash)
      else enHash (chEntries c ! (length (chEntries c) - 1)))"

definition seal :: "'d codec \<Rightarrow> 'd entry \<Rightarrow> ('d, 's) chain \<Rightarrow> 'd entry" where
  "seal k e c =
     (let e1 = e\<lparr>enSequenceNum := chNextSeq c, enPrevHash := prev_hash c\<rparr>
      in e1\<lparr>enHash := computeHash k e1\<rparr>)"

definition push_entry :: "'d entry \<Rightarrow> ('d, 's) chain \<Rightarrow> ('d, 's) chain" where
  "push_entry e c =
     c\<lparr>chNextSeq := chNextSeq c + 1, chTotalCount := chTotalCount c + 1,
       chEntries := keep_last (chMaxEntries c) (chEntries c @ [e])\<rparr>"

definition Append ::
  "'d codec \<Rightarrow> ('d, 's) sink_write \<Rightarrow> 'd entry \<Rightarrow> ('d, 's) chain \<Rightarrow> ('d, 's) chain \<times> audit_error option" where
  "Append k wr e c =
     (let e' = seal k e c; c1 = push_entry e' c in
      case chSink c1 of
        None \<Rightarrow> (c1, None)
      | Some s \<Rightarrow>
          (case wr e' s of
             (s', None) \<Rightarrow> (c1\<lparr>chSink := Some s'\<rparr>, None)
           | (s', Some err) \<Rightarrow> (c1\<lparr>chSink := Some s'\<rparr>, Some (DurableWrite err))))"

definition TotalCount :: "('d, 's) chain \<Rightarrow> int" where
  "TotalCount c = chTotalCount c"

fun verify_loop :: "'d codec \<Rightarrow> nat \<Rightarrow> string \<Rightarrow> 'd entry list \<Rightarrow> audit_error option" where
  "verify_loop k i prev [] = None"
| "verify_loop k i prev (e # es) =
     (if enHash e \<noteq> computeHash k e then Some (HashMismatch i)
      else if i = 0 then
        (if enSequenceNum e = 0 \<and> enPrevHash e \<noteq> GenesisHash then Some NotGenesis
         else verify_loop k (Suc i) (enHash e) es)
      else if enPrevHash e \<noteq> prev then Some (PrevHashMismatch i)
      else verify_loop k (Suc i) (enHash e) es)"

definition Verify :: "'d codec \<Rightarrow> ('d, 's) chain \<Rightarrow> audit_error option" where
  "Verify k c = verify_loop k 0 '''' (chEntries c)"

definition Len :: "('d, 's) chain \<Rightarrow> nat" where
  "Len c = length (chEntries c)"

definition Entries :: "('d, 's) chain \<Rightarrow> 'd entry list" where
  "Entries c = chEntries c"

subsection \<open>The relational store\<close>

text \<open>The integer column of a sequence number is the 64-bit word; the database orders it signed.\<close>

record row =
  roSeq :: "64 word"
  roID :: string
  roTs :: int
  roEventType :: string
  roSeverity :: string
  roSeverityID :: int
  roActorPid :: int
  roActorComm :: string
  roDetails :: string
  roPrevHash :: string
  roHash :: string

record db =
  dbEntries :: "row list"
  dbSnapshots :: "(string, string \<times> int) gomap"

definition UnixNano :: "time \<Rightarrow> int" where
  "UnixNano t = wrap64 (t - unix_epoch)"

definition row_of :: "'d codec \<Rightarrow> 'd entry \<Rightarrow> row" where
  "row_of k e =
     \<lparr>roSeq = enSequenceNum e, roID = enID e, roTs = UnixNano (tInstant (enTimestamp e)),
      roEventType = enEventType e, roSeverity = enSeverity e, roSeverityID = enSeverityID e,
      roActorPid = (case enActor e of None \<Rightarrow> 0 | Some a \<Rightarrow> aPID a),
      roActorComm = (case enActor e of None \<Rightarrow> '''' | Some a \<Rightarrow> aComm a),
      roDetails = (case enDetails e of None \<Rightarrow> '''' | Some d \<Rightarrow> kMarshal k d),
      roPrevHash = enPrevHash e, roHash = enHash e\<rparr>"

text \<open>The insertion ignores a row whose primary key exists; \<open>err\<close> is the driver's error, if any.\<close>

definition db_write :: "'d codec \<Rightarrow> ('d entry \<Rightarrow> string option) \<Rightarrow> ('d, db) sink_write" where
  "db_write k err e d =
     (case err e of
        Some er \<Rightarrow> (d, Some er)
      | None \<Rightarrow>
          ((if roSeq (row_of k e) \<in> roSeq ` set (dbEntries d) then d
            else d\<lparr>dbEntries := dbEntries d @ [row_of k e]\<rparr>), None))"

definition scanEntry :: "'d codec \<Rightarrow> row \<Rightarrow> 'd entry" where
  "scanEntry k r =
     \<lparr>enID = roID r, enSequenceNum = roSeq r,
      enTimestamp = \<lparr>tInstant = roTs r + unix_epoch, tZone = kLocal k\<rparr>,
      enEventType = roEventType r, enSeverity = roSeverity r, enSeverityID = roSeverityID r,
      enCategoryUID = 0, enClassUID = 0,
      enActor = (if roActorPid r \<noteq> 0 \<or> roActorComm r \<noteq> ''''
                 then Some \<lparr>aPID = roActorPid r, aUID = 0, aComm = roActorComm r\<rparr> else None),
      enDetails = (if roDetails r \<noteq> '''' then kUnmarshal k (roDetails r) else None),
      enMetadata = None, enPrevHash = roPrevHash r, enHash = roHash r\<rparr>"

definition LastSeqHash :: "db \<Rightarrow> (64 word \<times> string) option" where
  "LastSeqHash d =
     (case sort_key (\<lambda>r. - sint (roSeq r)) (dbEntries d) of
        [] \<Rightarrow> None | r # _ \<Rightarrow> Some (roSeq r, roHash r))"

record query_filter =
  qfSince :: time
  qfUntil :: time
  qfSeverity :: string
  qfTypePrefix :: string
  qfLimit :: int
  qfOffset :: int

definition query_where :: "(string \<Rightarrow> string \<Rightarrow> bool) \<Rightarrow> query_filter \<Rightarrow> row \<Rightarrow> bool" where
  "query_where like f r \<longleftrightarrow>
     (qfSince f \<noteq> zero_time \<longrightarrow> UnixNano (qfSince f) \<le> roTs r) \<and>
     (qfUntil f \<noteq> zero_time \<longrightarrow> roTs r \<le> UnixNano (qfUntil f)) \<and>
     (qfSeverity f \<noteq> '''' \<longrightarrow> roSeverity r = qfSeverity f) \<and>
     (qfTypePrefix f \<noteq> '''' \<longrightarrow> like (roEventType r) (qfTypePrefix f @ ''%''))"

definition query_limit :: "query_filter \<Rightarrow> nat" where
  "query_limit f = (if qfLimit f \<le> 0 \<or> 10000 < qfLimit f then 500 else nat (qfLimit f))"

definition Query :: "'d codec \<Rightarrow> (string \<Rightarrow> string \<Rightarrow> bool) \<Rightarrow> query_filter \<Rightarrow> db \<Rightarrow> 'd entry list" where
  "Query k like f d =
     map (scanEntry k)
       (take (query_limit f) (drop (nat (qfOffset f))
          (sort_key (\<lambda>r. - sint (roSeq r)) (filter (query_where like f) (dbEntries d)))))"

definition Count :: "db \<Rightarrow> int" where
  "Count d = int (length (dbEntries d))"

fun verify_rows :: "'d codec \<Rightarrow> nat \<Rightarrow> string \<Rightarrow> row list \<Rightarrow> nat \<times> audit_error option" where
  "verify_rows k n prev [] = (n, None)"
| "verify_rows k n prev (r # rs) =
     (let e = scanEntry k r in
      if computeHash k e \<noteq> enHash e then (n, Some (HashMismatchAtRest (enSequenceNum e)))
      else if enPrevHash e \<noteq> prev then (n, Some (BrokenChain (enSequenceNum e)))
      else verify_rows k (Suc n) (enHash e) rs)"

definition VerifyChain :: "'d codec \<Rightarrow> db \<Rightarrow> nat \<times> audit_error option" where
  "VerifyChain k d = verify_rows k 0 GenesisHash (sort_key (\<lambda>r. sint (roSeq r)) (dbEntries d))"

definition SaveSnapshot :: "string \<Rightarrow> string \<Rightarrow> time \<Rightarrow> db \<Rightarrow> db" where
  "SaveSnapshot key data at d = d\<lparr>dbSnapshots := mput key (data, UnixNano at) (dbSnapshots d)\<rparr>"

definition LoadSnapshot :: "string \<Rightarrow> db \<Rightarrow> string option" where
  "LoadSnapshot key d = map_option fst (map_of (dbSnapshots d) key)"

text \<open>Placeholders: \<^verbatim>\<open>?\<close> becomes \<^verbatim>\<open>$1\<close>, \<^verbatim>\<open>$2\<close>, ... for Postgres.\<close>

fun rebind_loop :: "nat \<Rightarrow> string \<Rightarrow> string" where
  "rebind_loop n [] = []"
| "rebind_loop n (c # s) =
     (if c = CHR ''?'' then CHR ''$'' # itoa (int (Suc n)) @ rebind_loop (Suc n) s
      else c # rebind_loop n s)"

definition rebind :: "bool \<Rightarrow> string \<Rightarrow> string" where
  "rebind pg query = (if \<not> pg then query else rebind_loop 0 query)"

datatype store_kind = SQLite | Postgres

definition OpenStore :: "string \<Rightarrow> store_kind option" where
  "OpenStore driver =
     (let d = to_lower (trim_space driver) in
      if d \<in> {'''', ''sqlite'', ''sqlite3''} then Some SQLite
      else if d \<in> {''postgres'', ''postgresql'', ''pg'', ''pgx''} then Some Postgres
      else None)"

subsection \<open>The JSON-lines file\<close>

text \<open>
  \<open>decode\<close> is \<^verbatim>\<open>json.Unmarshal\<close> into an entry, \<open>None\<close> for a corrupt line; the lines are
  those the scanner yields.
\<close>

fun load_lines ::
  "(string \<Rightarrow> 'd entry option) \<Rightarrow> string list \<Rightarrow> 'd entry list \<times> 64 word \<Rightarrow> 'd entry list \<times> 64 word" where
  "load_lines decode [] acc = acc"
| "load_lines decode (l # ls) (es, nxt) =
     (if length l = 0 then load_lines decode ls (es, nxt)
      else case decode l of
        None \<Rightarrow> load_lines decode ls (es, nxt)
      | Some e \<Rightarrow>
          load_lines decode ls
            (es @ [e], if nxt \<le> enSequenceNum e then enSequenceNum e + 1 else nxt))"

definition LoadFromFile :: "(string \<Rightarrow> 'd entry option) \<Rightarrow> string list \<Rightarrow> ('d, 's) chain" where
  "LoadFromFile decode ls =
     (let (es, nxt) = load_lines decode ls ([], 0)
      in \<lparr>chEntries = es, chNextSeq = nxt, chMaxEntries = 0, chTotalCount = int (length es),
          chSink = None, chResumedHash = ''''\<rparr>)"

end
