(* ===== verification/Audit_Props.thy ===== *)
theory Audit_Props
  imports AuditTrail
begin

text \<open>
  Correctness of the audit trail.  \<open>linked\<close> says that a list of entries is a hash chain.
  The locale \<open>durable_sink\<close> is what the chain relies on in a sink it can resume from: a write
  appends to the sink's log, the last sequence number and hash are those of the log's end.  The
  chain's contract is proved once from it, across appends and restarts, and holds for the
  relational store by interpretation.
\<close>

subsection \<open>Hash chains\<close>

fun linked :: "'d codec \<Rightarrow> string \<Rightarrow> 'd entry list \<Rightarrow> bool" where
  "linked k prev [] \<longleftrightarrow> True"
| "linked k prev (e # es) \<longleftrightarrow>
     enHash e = computeHash k e \<and> enPrevHash e = prev \<and> linked k (enHash e) es"

definition head_hash :: "string \<Rightarrow> 'd entry list \<Rightarrow> string" where
  "head_hash prev es = (if es = [] then prev else enHash (last es))"

lemma head_hash_simps [simp]:
  "head_hash prev [] = prev" "head_hash prev (es @ [e]) = enHash e"
  "head_hash prev (e # es) = head_hash (enHash e) es"
  by (simp_all add: head_hash_def)

lemma linked_append: "linked k prev (es @ fs) \<longleftrightarrow> linked k prev es \<and> linked k (head_hash prev es) fs"
  by (induction es arbitrary: prev) auto

lemma linked_snoc:
  "linked k prev (es @ [e]) \<longleftrightarrow>
     linked k prev es \<and> enHash e = computeHash k e \<and> enPrevHash e = head_hash prev es"
  by (simp add: linked_append)

lemma linked_drop: "linked k prev es \<Longrightarrow> linked k (head_hash prev (take n es)) (drop n es)"
  using linked_append [of k prev "take n es" "drop n es"] by simp

lemma verify_rows_linked:
  "verify_rows k n prev rs = (m, None) \<longleftrightarrow> linked k prev (map (scanEntry k) rs) \<and> m = n + length rs"
  by (induction rs arbitrary: n prev) (auto simp: Let_def)

lemma VerifyChain_linked:
  "VerifyChain k d = (m, None) \<longleftrightarrow>
     linked k GenesisHash (map (scanEntry k) (sort_key (\<lambda>r. sint (roSeq r)) (dbEntries d))) \<and> m = length (dbEntries d)"
  by (auto simp: VerifyChain_def verify_rows_linked)

lemma verify_loop_linked:
  "0 < i \<Longrightarrow> verify_loop k i prev es = None \<longleftrightarrow> linked k prev es"
  by (induction es arbitrary: i prev) auto

lemma Verify_linked:
  "Verify k c = None \<longleftrightarrow>
     (case chEntries c of [] \<Rightarrow> True
      | e # _ \<Rightarrow> linked k (enPrevHash e) (chEntries c) \<and>
          (enSequenceNum e = 0 \<longrightarrow> enPrevHash e = GenesisHash))"
  by (auto simp: Verify_def verify_loop_linked split: list.splits)

lemma hex256_nonempty [simp]: "hex256 w \<noteq> ''''" "'''' \<noteq> hex256 w"
  by (auto simp: hex256_def)

lemma length_hex256 [simp]: "length (hex256 w) = 64"
  by (simp add: hex256_def)

lemma digits_eq_mod:
  "\<forall>i < j. n div 16 ^ i mod 16 = m div 16 ^ i mod (16 :: nat) \<Longrightarrow> n mod 16 ^ j = m mod 16 ^ j"
proof (induction j)
  case (Suc j)
  have "x mod 16 ^ Suc j = 16 ^ j * (x div 16 ^ j mod 16) + x mod 16 ^ j" for x :: nat
    using mod_mult2_eq [of x "16 ^ j" 16] by (simp add: mult.commute)
  with Suc show ?case by (simp only: less_Suc_eq) auto
qed simp

lemma hex_char_inject: "a < 16 \<Longrightarrow> b < 16 \<Longrightarrow> hex_char a = hex_char b \<longleftrightarrow> a = b"
  by (auto simp: hex_char_def split: if_splits dest!: arg_cong [of _ _ code])

lemma hex256_inject: "hex256 v = hex256 w \<longleftrightarrow> v = w"
proof
  assume "hex256 v = hex256 w"
  then have "\<forall>i < 64. unat v div 16 ^ i mod 16 = unat w div 16 ^ i mod 16"
    by (simp add: hex256_def hex_char_inject)
  then have "unat v mod 16 ^ 64 = unat w mod 16 ^ 64" by (rule digits_eq_mod)
  moreover have "unat x < 16 ^ 64" for x :: "256 word"
    using unsigned_less [of x, where ?'a = nat] by simp
  ultimately show "v = w" by (simp add: word_unat_eq_iff)
qed simp

lemma computeHash_nonempty [simp]: "computeHash k e \<noteq> ''''"
  by (simp add: computeHash_def)

subsection \<open>Sequence numbers\<close>

lemma sint_of_nat_small: "n < 2 ^ 63 \<Longrightarrow> sint (of_nat n :: 64 word) = int n"
  by (simp add: signed_of_nat signed_take_bit_int_eq_self)

lemma of_nat_eq_0_small:
  assumes "n < 2 ^ 63"
  shows "(of_nat n :: 64 word) = 0 \<longleftrightarrow> n = 0"
proof
  assume "(of_nat n :: 64 word) = 0"
  then have "sint (of_nat n :: 64 word) = 0" by (simp only: sint_0)
  then show "n = 0" using sint_of_nat_small [OF assms] by linarith
qed simp

definition seq_range :: "nat \<Rightarrow> nat \<Rightarrow> 'd entry list \<Rightarrow> bool" where
  "seq_range m n es \<longleftrightarrow> map enSequenceNum es = map of_nat [m..<n]"

lemma seq_range_snoc:
  "seq_range m n es \<Longrightarrow> m \<le> n \<Longrightarrow> enSequenceNum e = of_nat n \<Longrightarrow> seq_range m (Suc n) (es @ [e])"
  by (simp add: seq_range_def)

lemma seq_range_drop: "seq_range m n es \<Longrightarrow> seq_range (m + j) n (drop j es)"
  by (simp add: seq_range_def drop_map [symmetric] del: drop_map) (simp add: drop_map)

lemma seq_range_hd: "seq_range m n (e # es) \<Longrightarrow> enSequenceNum e = of_nat m \<and> m < n"
  by (cases "m < n") (auto simp: seq_range_def upt_conv_Cons)

lemma seq_range_mem:
  assumes "seq_range 0 n es" and "x \<in> set es"
  shows "\<exists>i < n. enSequenceNum x = of_nat i"
proof -
  from assms(2) have "enSequenceNum x \<in> set (map enSequenceNum es)" by simp
  also have "\<dots> = set (map of_nat [0..<n])" using assms(1) by (simp only: seq_range_def)
  finally show ?thesis by auto
qed

lemma seq_range_length: "seq_range m n es \<Longrightarrow> length es = n - m"
  unfolding seq_range_def by (metis length_map length_upt)

subsection \<open>The chain over a durable sink\<close>

text \<open>
  The life of a trail: entries are appended by a process, and a restart replaces the chain by a
  fresh one attached to the sink the previous process left.
\<close>

datatype 'd audit_op = AppendEntry "'d entry" | Restart int

fun audit_step ::
  "'d codec \<Rightarrow> ('d, 's) sink_write \<Rightarrow> ('s \<Rightarrow> (64 word \<times> string) option) \<Rightarrow> 'd audit_op \<Rightarrow> ('d, 's) chain \<Rightarrow> ('d, 's) chain" where
  "audit_step k wr lsh (AppendEntry e) c = fst (Append k wr e c)"
| "audit_step k wr lsh (Restart cap) c =
     (case chSink c of
        None \<Rightarrow> NewChainWithCapacity cap
      | Some s \<Rightarrow> AttachSink wr (Some lsh) s (NewChainWithCapacity cap))"

fun audit_runs ::
  "'d codec \<Rightarrow> ('d, 's) sink_write \<Rightarrow> ('s \<Rightarrow> (64 word \<times> string) option) \<Rightarrow> 'd audit_op list \<Rightarrow> ('d, 's) chain \<Rightarrow> ('d, 's) chain" where
  "audit_runs k wr lsh [] c = c"
| "audit_runs k wr lsh (op # ops) c = audit_runs k wr lsh ops (audit_step k wr lsh op c)"

fun appended :: "'d audit_op list \<Rightarrow> 'd entry list" where
  "appended [] = []"
| "appended (AppendEntry e # ops) = e # appended ops"
| "appended (Restart cap # ops) = appended ops"

text \<open>
  \<open>good\<close> is a condition on the content of an entry and \<open>same e r\<close> says what of the entry the stored \<open>r\<close> keeps: for
  both the position of the entry in the chain does not matter.
\<close>

locale durable_sink =
  fixes k :: "'d codec"
    and wr :: "('d, 's) sink_write"
    and lsh :: "'s \<Rightarrow> (64 word \<times> string) option"
    and log :: "'s \<Rightarrow> 'd entry list"
    and ok :: "'s \<Rightarrow> bool"
    and persist :: "'d entry \<Rightarrow> 'd entry"
    and good :: "'d entry \<Rightarrow> bool"
    and same :: "'d entry \<Rightarrow> 'd entry \<Rightarrow> bool"
  assumes log_write:
      "ok s \<Longrightarrow> good e \<Longrightarrow> \<forall>x \<in> set (log s). sint (enSequenceNum x) < sint (enSequenceNum e) \<Longrightarrow>
         log (fst (wr e s)) = log s @ [persist e] \<and> snd (wr e s) = None \<and> ok (fst (wr e s))"
    and lsh_log: "ok s \<Longrightarrow> lsh s = (if log s = [] then None
         else Some (enSequenceNum (last (log s)), enHash (last (log s))))"
    and persist_keeps: "enSequenceNum (persist e) = enSequenceNum e"
      "enPrevHash (persist e) = enPrevHash e" "enHash (persist e) = enHash e"
    and persist_hash: "good e \<Longrightarrow> computeHash k (persist e) = computeHash k e"
    and good_position: "good (e\<lparr>enSequenceNum := q, enPrevHash := p, enHash := h\<rparr>) = good e"
    and persist_same: "good e \<Longrightarrow> same e (persist e)"
    and same_position: "same (e\<lparr>enSequenceNum := q, enPrevHash := p, enHash := h\<rparr>) r = same e r"
begin

text \<open>The retained window is a chain of consecutive entries; from the start of the trail it begins at genesis.\<close>

definition window_inv :: "nat \<Rightarrow> ('d, 's) chain \<Rightarrow> bool" where
  "window_inv n c \<longleftrightarrow> (\<exists>m prev. m \<le> n \<and> seq_range m n (chEntries c) \<and> linked k prev (chEntries c) \<and>
     (m = 0 \<longrightarrow> chEntries c \<noteq> [] \<longrightarrow> prev = GenesisHash))"

definition trail_inv :: "'d entry list \<Rightarrow> ('d, 's) chain \<Rightarrow> bool" where
  "trail_inv added c \<longleftrightarrow> (\<exists>s.
     chSink c = Some s \<and> ok s \<and> list_all2 same added (log s) \<and> linked k GenesisHash (log s) \<and>
     seq_range 0 (length added) (log s) \<and> chNextSeq c = of_nat (length added) \<and> 0 < chMaxEntries c \<and>
     prev_hash c = head_hash GenesisHash (log s) \<and> window_inv (length added) c)"

lemma sink_frame [simp]:
  "prev_hash (c\<lparr>chSink := x\<rparr>) = prev_hash c" "window_inv n (c\<lparr>chSink := x\<rparr>) = window_inv n c"
  by (simp_all add: prev_hash_def window_inv_def)

lemma window_empty: "chEntries c = [] \<Longrightarrow> window_inv n c"
  by (auto simp: window_inv_def seq_range_def intro!: exI [of _ n])

lemma trail_start:
  assumes "ok s" and "log s = []" and "added = []"
  shows "trail_inv added (AttachSink wr (Some lsh) s (NewChainWithCapacity cap))"
  using assms lsh_log [of s]
  by (auto simp: trail_inv_def AttachSink_def NewChainWithCapacity_def prev_hash_def Let_def seq_range_def
      split: option.splits intro!: window_empty)

lemma trail_restart:
  assumes "trail_inv added c"
  shows "trail_inv added (audit_step k wr lsh (Restart cap) c)"
proof -
  from assms obtain s where s: "chSink c = Some s" "list_all2 same added (log s)" "linked k GenesisHash (log s)"
    "seq_range 0 (length added) (log s)" and ok: "ok s"
    unfolding trail_inv_def by blast
  show ?thesis
  proof (cases "log s = []")
    case True
    with s(2) have "added = []" by simp
    from trail_start [OF ok True this, of cap] s(1) show ?thesis by simp
  next
    case False
    then have added: "0 < length added" using list_all2_lengthD [OF s(2)] by auto
    from False obtain es e where l: "log s = es @ [e]" by (metis rev_exhaust)
    have len: "length added = Suc (length es)" using list_all2_lengthD [OF s(2)] l by simp
    have q: "enSequenceNum e = of_nat (length es)"
      using s(4) by (auto simp: seq_range_def l len)
    have "enHash e \<noteq> ''''"
      using s(3) by (auto simp: l linked_snoc)
    moreover have "lsh s = Some (of_nat (length es), enHash e)"
      using lsh_log [OF ok] l q by simp
    ultimately have "trail_inv added (AttachSink wr (Some lsh) s (NewChainWithCapacity cap))"
      unfolding trail_inv_def
      by (intro exI [of _ s])
        (use s ok l len in \<open>auto simp: AttachSink_def NewChainWithCapacity_def prev_hash_def Let_def
          add.commute intro!: window_empty\<close>)
    with s(1) show ?thesis by simp
  qed
qed

lemma seal_props:
  "same (seal k e c) r = same e r" "enSequenceNum (seal k e c) = chNextSeq c" "enPrevHash (seal k e c) = prev_hash c"
  "enHash (seal k e c) = computeHash k (seal k e c)" "good (seal k e c) = good e"
proof -
  show "enSequenceNum (seal k e c) = chNextSeq c"
    "enPrevHash (seal k e c) = prev_hash c" "enHash (seal k e c) = computeHash k (seal k e c)"
    by (simp_all add: seal_def Let_def computeHash_def preimage_def)
  have "seal k e c = e\<lparr>enSequenceNum := chNextSeq c, enPrevHash := prev_hash c, enHash := enHash (seal k e c)\<rparr>"
    by (simp add: seal_def Let_def)
  then show "good (seal k e c) = good e" "same (seal k e c) r = same e r" by (metis good_position, metis same_position)
qed

lemma window_push:
  assumes "window_inv n c" and "chNextSeq c = of_nat n" and "n = 0 \<longrightarrow> prev_hash c = GenesisHash"
  shows "window_inv (Suc n) (push_entry (seal k e c) c)"
proof -
  from assms(1) obtain m prev where m: "m \<le> n" "seq_range m n (chEntries c)" "linked k prev (chEntries c)"
    "m = 0 \<longrightarrow> chEntries c \<noteq> [] \<longrightarrow> prev = GenesisHash"
    unfolding window_inv_def by blast
  let ?e = "seal k e c"
  let ?es = "chEntries c @ [?e]" and ?j = "length (chEntries c @ [?e]) - chMaxEntries c"
  have mem: "enHash ?e = computeHash k ?e"
    "chEntries c \<noteq> [] \<Longrightarrow> enPrevHash ?e = head_hash prev (chEntries c)"
    by (simp add: seal_props, simp add: seal_props prev_hash_def head_hash_def last_conv_nth)
  obtain prev1 where l1: "linked k prev1 ?es" "m = 0 \<longrightarrow> prev1 = GenesisHash"
  proof (cases "chEntries c = []")
    case True
    have "n = 0" if "m = 0" using that m(2) True by (auto simp: seq_range_def)
    then show ?thesis
      using True mem(1) assms(3) by (intro that [of "enPrevHash ?e"]) (auto simp: seal_props)
  next
    case False
    then show ?thesis using m mem by (intro that [of prev]) (auto simp: linked_snoc)
  qed
  have sr: "seq_range m (Suc n) ?es"
    using m(1,2) assms(2) by (intro seq_range_snoc) (simp_all add: seal_props)
  have es: "chEntries (push_entry ?e c) = drop ?j ?es"
    by (simp add: push_entry_def keep_last_def)
  have le: "m + ?j \<le> Suc n" using seq_range_length [OF sr] m(1) by simp
  have "m + ?j = 0 \<longrightarrow> head_hash prev1 (take ?j ?es) = GenesisHash" using l1(2) by simp
  then show ?thesis
    unfolding window_inv_def es
    by (intro exI [of _ "m + ?j"] exI [of _ "head_hash prev1 (take ?j ?es)"] conjI
        le seq_range_drop [OF sr] linked_drop [OF l1(1)]) simp
qed

lemma trail_append:
  assumes "trail_inv added c" and "good e" and "length added < 2 ^ 63"
  shows "trail_inv (added @ [e]) (audit_step k wr lsh (AppendEntry e) c)"
    and "snd (Append k wr e c) = None"
proof -
  from assms(1) obtain s where
    s: "chSink c = Some s" "list_all2 same added (log s)" "linked k GenesisHash (log s)"
      "seq_range 0 (length added) (log s)" "chNextSeq c = of_nat (length added)" "0 < chMaxEntries c"
      "prev_hash c = head_hash GenesisHash (log s)" "window_inv (length added) c" and ok: "ok s"
    unfolding trail_inv_def by blast
  let ?e = "seal k e c"
  obtain s' err where w': "wr ?e s = (s', err)" by fastforce
  have "\<forall>x \<in> set (log s). sint (enSequenceNum x) < sint (enSequenceNum ?e)"
    using seq_range_mem [OF s(4)] assms(3) s(5) by (fastforce simp: seal_props sint_of_nat_small)
  then have w: "log s' = log s @ [persist ?e]" "err = None" and ok': "ok s'"
    using log_write [of s ?e] ok assms(2) w' by (simp_all add: seal_props)
  show "snd (Append k wr e c) = None"
    using w' w(2) s(1) by (simp add: Append_def push_entry_def Let_def)
  have step: "audit_step k wr lsh (AppendEntry e) c = (push_entry ?e c)\<lparr>chSink := Some s'\<rparr>"
    using w' w(2) s(1) by (simp add: Append_def push_entry_def Let_def)
  have log: "list_all2 same (added @ [e]) (log s')" "linked k GenesisHash (log s')"
    "seq_range 0 (Suc (length added)) (log s')" "head_hash GenesisHash (log s') = enHash ?e"
    using s(2-5,7) assms(2) persist_hash [of ?e] persist_same [of ?e] list_all2_lengthD [OF s(2)]
    by (auto simp: w(1) linked_snoc persist_keeps seal_props seq_range_def list_all2_appendI)
  have "window_inv (Suc (length added)) (push_entry ?e c)"
    using s(2,5,7,8) by (intro window_push) auto
  moreover have "prev_hash (push_entry ?e c) = enHash ?e"
  proof -
    let ?w = "keep_last (chMaxEntries c) (chEntries c @ [?e])"
    have w: "?w \<noteq> []" "last ?w = ?e" using s(6) by simp_all
    have "?w ! (length ?w - 1) = ?e" using last_conv_nth [OF w(1)] w(2) by metis
    moreover have "length ?w \<noteq> 0" using w(1) by blast
    ultimately show ?thesis unfolding prev_hash_def push_entry_def by (simp add: min_def)
  qed
  ultimately show "trail_inv (added @ [e]) (audit_step k wr lsh (AppendEntry e) c)"
    unfolding trail_inv_def step using s(5,6) log ok'
    by (intro exI [of _ s']) (simp add: push_entry_def add.commute)
qed

lemma trail_runs:
  "trail_inv added c \<Longrightarrow> \<forall>e \<in> set (appended ops). good e \<Longrightarrow>
   length added + length (appended ops) \<le> 2 ^ 63 \<Longrightarrow>
     trail_inv (added @ appended ops) (audit_runs k wr lsh ops c)"
proof (induction ops arbitrary: added c)
  case (Cons op ops)
  show ?case
  proof (cases op)
    case (AppendEntry e)
    then show ?thesis
      using Cons.IH [OF trail_append(1) [OF Cons.prems(1), of e]] Cons.prems by simp
  next
    case (Restart cap)
    then show ?thesis using Cons.IH [OF trail_restart [OF Cons.prems(1), of cap]] Cons.prems by simp
  qed
qed simp

lemma trail_verified:
  assumes "trail_inv added c" and "length added \<le> 2 ^ 63"
  shows "Verify k c = None" and "length (chEntries c) \<le> length added"
proof -
  from assms(1) obtain m prev where m: "m \<le> length added" "seq_range m (length added) (chEntries c)"
    "linked k prev (chEntries c)" "m = 0 \<longrightarrow> chEntries c \<noteq> [] \<longrightarrow> prev = GenesisHash"
    unfolding trail_inv_def window_inv_def by blast
  show "length (chEntries c) \<le> length added" using seq_range_length [OF m(2)] by simp
  show "Verify k c = None"
  proof (cases "chEntries c")
    case (Cons e es)
    with m(2) have "enSequenceNum e = of_nat m" "m < length added" using seq_range_hd by auto
    with of_nat_eq_0_small [of m] assms(2) m(3,4) Cons show ?thesis by (auto simp: Verify_linked)
  qed (simp add: Verify_linked)
qed

end

end
