(* ===== verification/Audit_Claims.thy ===== *)
theory Audit_Claims
  imports Audit_Props
begin

text \<open>
  The relational store as a durable sink, what the head of a verified trail commits to, and the
  properties of the audit trail with instances on a concrete codec.
\<close>

subsection \<open>The store is a durable sink\<close>

definition db_log :: "'d codec \<Rightarrow> db \<Rightarrow> 'd entry list" where
  "db_log k d = map (scanEntry k) (sort_key (\<lambda>r. sint (roSeq r)) (dbEntries d))"

definition db_ok :: "db \<Rightarrow> bool" where
  "db_ok d \<longleftrightarrow> distinct (map roSeq (dbEntries d))"

text \<open>
  The content an entry must have to read back with the same hash input: its time is in the local
  zone and in the range of \<^verbatim>\<open>UnixNano\<close>, and its details survive the JSON round trip.
\<close>

definition round_trips :: "'d codec \<Rightarrow> 'd entry \<Rightarrow> bool" where
  "round_trips k e \<longleftrightarrow>
     tZone (enTimestamp e) = kLocal k \<and> is_int64 (tInstant (enTimestamp e) - unix_epoch) \<and>
     (case enDetails e of
        None \<Rightarrow> True
      | Some d \<Rightarrow> kMarshal k d \<noteq> '''' \<and>
          (case kUnmarshal k (kMarshal k d) of None \<Rightarrow> False | Some d' \<Rightarrow> kMarshal k d' = kMarshal k d))"

definition details_json :: "'d codec \<Rightarrow> 'd entry \<Rightarrow> string" where
  "details_json k e = (case enDetails e of None \<Rightarrow> '''' | Some d \<Rightarrow> kMarshal k d)"

text \<open>
  What a stored entry keeps of the entry it was written for: everything but its place in the chain, the category, the
  product metadata and the user of the actor, which have no column.
\<close>

definition stored_as :: "'d codec \<Rightarrow> 'd entry \<Rightarrow> 'd entry \<Rightarrow> bool" where
  "stored_as k e r \<longleftrightarrow>
     enID r = enID e \<and> enTimestamp r = enTimestamp e \<and> enEventType r = enEventType e \<and> enSeverity r = enSeverity e \<and>
     enSeverityID r = enSeverityID e \<and> details_json k r = details_json k e \<and>
     enActor r = (case enActor e of
        None \<Rightarrow> None
      | Some a \<Rightarrow> if aPID a = 0 \<and> aComm a = '''' then None else Some (a\<lparr>aUID := 0\<rparr>))"

lemma insort_key_snoc: "f y \<le> f x \<Longrightarrow> insort_key f y (zs @ [x]) = insort_key f y zs @ [x]"
  by (induction zs) auto

lemma sort_key_snoc: "\<forall>y \<in> set xs. f y \<le> f x \<Longrightarrow> sort_key f (xs @ [x]) = sort_key f xs @ [x]"
  by (induction xs) (simp_all add: insort_key_snoc)

lemma hd_sort_key:
  "xs \<noteq> [] \<Longrightarrow> hd (sort_key f xs) \<in> set xs \<and> (\<forall>y \<in> set xs. f (hd (sort_key f xs)) \<le> f y)"
proof -
  assume "xs \<noteq> []"
  then obtain a as where s: "sort_key f xs = a # as"
    by (metis list.exhaust set_empty set_sort)
  then have "set xs = insert a (set as)" by (metis list.simps(15) set_sort)
  moreover have "sorted (map f (a # as))" by (metis s sorted_sort_key)
  ultimately show ?thesis by (auto simp: s)
qed

lemma last_sort_key:
  "xs \<noteq> [] \<Longrightarrow> last (sort_key f xs) \<in> set xs \<and> (\<forall>y \<in> set xs. f y \<le> f (last (sort_key f xs)))"
proof -
  assume "xs \<noteq> []"
  then obtain a as where s: "sort_key f xs = as @ [a]"
    by (metis rev_exhaust set_empty set_sort)
  then have "set xs = insert a (set as)" by (metis set_append set_sort Un_insert_right append.right_neutral list.simps(15) empty_set sup_bot_right)
  moreover have "sorted (map f (as @ [a]))" by (metis s sorted_sort_key)
  ultimately show ?thesis by (auto simp: s sorted_append)
qed

lemma round_trips_hash:
  assumes "round_trips k e"
  shows "computeHash k (scanEntry k (row_of k e)) = computeHash k e"
proof -
  have "enTimestamp (scanEntry k (row_of k e)) = enTimestamp e"
    using assms by (simp add: scanEntry_def row_of_def round_trips_def UnixNano_def)
  moreover have "(case enDetails (scanEntry k (row_of k e)) of None \<Rightarrow> '''' | Some d \<Rightarrow> kMarshal k d) =
      (case enDetails e of None \<Rightarrow> '''' | Some d \<Rightarrow> kMarshal k d)"
    using assms by (auto simp: scanEntry_def row_of_def round_trips_def split: option.splits)
  ultimately show ?thesis
    by (simp add: computeHash_def preimage_def) (simp add: scanEntry_def row_of_def)
qed

lemma round_trips_stored:
  assumes "round_trips k e"
  shows "stored_as k e (scanEntry k (row_of k e))"
proof -
  have "enTimestamp (scanEntry k (row_of k e)) = enTimestamp e"
    using assms by (simp add: scanEntry_def row_of_def round_trips_def UnixNano_def)
  moreover have "details_json k (scanEntry k (row_of k e)) = details_json k e"
    using assms by (auto simp: details_json_def scanEntry_def row_of_def round_trips_def split: option.splits)
  ultimately show ?thesis
    unfolding stored_as_def by (simp add: scanEntry_def row_of_def split: option.splits)
qed

lemma LastSeqHash_log:
  assumes "db_ok d"
  shows "LastSeqHash d = (if db_log k d = [] then None
    else Some (enSequenceNum (last (db_log k d)), enHash (last (db_log k d))))"
proof (cases "dbEntries d = []")
  case True
  then show ?thesis by (simp add: LastSeqHash_def db_log_def)
next
  case False
  let ?a = "hd (sort_key (\<lambda>r. - sint (roSeq r)) (dbEntries d))"
  let ?b = "last (sort_key (\<lambda>r. sint (roSeq r)) (dbEntries d))"
  have "?a \<in> set (dbEntries d)" "?b \<in> set (dbEntries d)" "sint (roSeq ?a) = sint (roSeq ?b)"
    using hd_sort_key [OF False, of "\<lambda>r. - sint (roSeq r)"] last_sort_key [OF False, of "\<lambda>r. sint (roSeq r)"]
    by (auto intro: antisym)
  moreover from this(3) have "roSeq ?a = roSeq ?b" by (rule signed_word_eqI)
  ultimately have ab: "?a = ?b"
    using assms by (auto simp: db_ok_def distinct_map dest: inj_onD)
  have ne: "sort_key (\<lambda>r. - sint (roSeq r)) (dbEntries d) \<noteq> []" "sort_key (\<lambda>r. sint (roSeq r)) (dbEntries d) \<noteq> []"
    using False by (metis set_empty set_sort)+
  then have "LastSeqHash d = Some (roSeq ?a, roHash ?a)"
    by (cases "sort_key (\<lambda>r. - sint (roSeq r)) (dbEntries d)") (simp_all add: LastSeqHash_def)
  with ab ne(2) show ?thesis by (simp add: db_log_def last_map scanEntry_def)
qed

lemma db_write_log:
  assumes "db_ok d" and "\<forall>x \<in> set (db_log k d). sint (enSequenceNum x) < sint (enSequenceNum e)"
  shows "db_log k (fst (db_write k (\<lambda>_. None) e d)) = db_log k d @ [scanEntry k (row_of k e)]"
    and "db_ok (fst (db_write k (\<lambda>_. None) e d))" and "snd (db_write k (\<lambda>_. None) e d) = None"
proof -
  have lt: "sint (roSeq r) < sint (enSequenceNum e)" if "r \<in> set (dbEntries d)" for r
    using assms(2) that by (auto simp: db_log_def scanEntry_def)
  then have fresh: "enSequenceNum e \<notin> roSeq ` set (dbEntries d)" by fastforce
  show "db_log k (fst (db_write k (\<lambda>_. None) e d)) = db_log k d @ [scanEntry k (row_of k e)]"
    using lt fresh by (simp add: db_write_def db_log_def row_of_def sort_key_snoc less_imp_le)
  show "db_ok (fst (db_write k (\<lambda>_. None) e d))" "snd (db_write k (\<lambda>_. None) e d) = None"
    using assms(1) fresh by (simp_all add: db_write_def db_ok_def row_of_def)
qed

interpretation db_sink: durable_sink k "db_write k (\<lambda>_. None)" LastSeqHash "db_log k" db_ok
  "\<lambda>e. scanEntry k (row_of k e)" "round_trips k" "stored_as k" for k
proof unfold_locales
  fix e r :: "'a entry" and d q p h
  show "LastSeqHash d = (if db_log k d = [] then None
      else Some (enSequenceNum (last (db_log k d)), enHash (last (db_log k d))))" if "db_ok d"
    by (rule LastSeqHash_log [OF that])
  show "computeHash k (scanEntry k (row_of k e)) = computeHash k e" if "round_trips k e"
    by (rule round_trips_hash [OF that])
  show "round_trips k (e\<lparr>enSequenceNum := q, enPrevHash := p, enHash := h\<rparr>) = round_trips k e"
    by (simp add: round_trips_def)
  show "stored_as k e (scanEntry k (row_of k e))" if "round_trips k e"
    by (rule round_trips_stored [OF that])
  show "stored_as k (e\<lparr>enSequenceNum := q, enPrevHash := p, enHash := h\<rparr>) r = stored_as k e r"
    by (simp add: stored_as_def details_json_def)
qed (simp_all add: db_write_log, simp_all add: scanEntry_def row_of_def)

subsection \<open>What the head hash commits to\<close>

text \<open>
  Two entries of the trails that break the digest: different hash inputs with one digest, or an input whose digest is the
  hash that stands for the empty trail.
\<close>

definition colliding :: "'d codec \<Rightarrow> 'd entry \<Rightarrow> 'd entry \<Rightarrow> bool" where
  "colliding k e f \<longleftrightarrow> preimage k e \<noteq> preimage k f \<and> kSha k (preimage k e) = kSha k (preimage k f)"

definition genesis_digest :: "'d codec \<Rightarrow> 'd entry \<Rightarrow> bool" where
  "genesis_digest k e \<longleftrightarrow> computeHash k e = GenesisHash"

lemma length_head_hash: "linked k GenesisHash es \<Longrightarrow> length (head_hash GenesisHash es) = 64"
proof (cases es rule: rev_cases)
  case (snoc as a)
  moreover assume "linked k GenesisHash es"
  ultimately show ?thesis by (simp add: linked_snoc computeHash_def)
qed (simp add: GenesisHash_def)

lemma preimage_prev:
  assumes "length (enPrevHash e) = length (enPrevHash g)" and "preimage k e = preimage k g"
  shows "enPrevHash e = enPrevHash g"
proof -
  have "\<exists>b. preimage k x = b @ enPrevHash x" for x
    unfolding preimage_def append_assoc [symmetric] by blast
  then show ?thesis using assms by (metis append_eq_append_conv)
qed

lemma head_commits_lemma:
  "\<lbrakk>linked k GenesisHash es; linked k GenesisHash fs; head_hash GenesisHash es = head_hash GenesisHash fs;
    \<forall>e \<in> set es. \<forall>f \<in> set fs. \<not> colliding k e f; \<forall>e \<in> set es \<union> set fs. \<not> genesis_digest k e\<rbrakk>
     \<Longrightarrow> map (preimage k) es = map (preimage k) fs"
proof (induction es arbitrary: fs rule: rev_induct)
  case Nil
  show ?case
  proof (cases fs rule: rev_cases)
    case (snoc gs g)
    with Nil have "computeHash k g = GenesisHash" by (simp add: linked_snoc)
    with Nil(5) snoc show ?thesis by (simp add: genesis_digest_def)
  qed simp
next
  case (snoc e es)
  show ?case
  proof (cases fs rule: rev_cases)
    case Nil
    with snoc.prems have "computeHash k e = GenesisHash" by (simp add: linked_snoc)
    with snoc.prems(5) show ?thesis by (simp add: genesis_digest_def)
  next
    case fs: (snoc gs g)
    have eq: "preimage k e = preimage k g"
      using snoc.prems fs by (auto simp: linked_snoc computeHash_def hex256_inject colliding_def)
    have "length (enPrevHash e) = length (enPrevHash g)"
      using snoc.prems(1,2) fs length_head_hash [of k es] length_head_hash [of k gs] by (simp add: linked_snoc)
    then have "enPrevHash e = enPrevHash g" using eq by (rule preimage_prev)
    then have "map (preimage k) es = map (preimage k) gs"
      using snoc.prems fs by (intro snoc.IH) (simp_all add: linked_snoc)
    with eq fs show ?thesis by simp
  qed
qed

subsection \<open>What the hash leaves out\<close>

text \<open>Columns a row can be altered in without changing its hash input.\<close>

definition retouch :: "(row \<Rightarrow> int) \<Rightarrow> (row \<Rightarrow> int) \<Rightarrow> (row \<Rightarrow> string) \<Rightarrow> row \<Rightarrow> row" where
  "retouch sev pid comm r = r\<lparr>roSeverityID := sev r, roActorPid := pid r, roActorComm := comm r\<rparr>"

lemma retouch_hash [simp]: "computeHash k (scanEntry k (retouch sev pid comm r)) = computeHash k (scanEntry k r)"
  by (simp add: computeHash_def preimage_def scanEntry_def retouch_def)

lemma retouch_fields [simp]:
  "enPrevHash (scanEntry k (retouch sev pid comm r)) = enPrevHash (scanEntry k r)"
  "enHash (scanEntry k (retouch sev pid comm r)) = enHash (scanEntry k r)"
  "enSequenceNum (scanEntry k (retouch sev pid comm r)) = enSequenceNum (scanEntry k r)"
  "roSeq (retouch sev pid comm r) = roSeq r"
  by (simp_all add: scanEntry_def retouch_def)

lemma verify_rows_retouch: "verify_rows k n prev (map (retouch sev pid comm) rs) = verify_rows k n prev rs"
  by (induction rs arbitrary: n prev) (simp_all add: Let_def)

lemma insort_key_map: "insort_key f (g x) (map g xs) = map g (insort_key (\<lambda>y. f (g y)) x xs)"
  by (induction xs) auto

lemma sort_key_map: "sort_key f (map g xs) = map g (sort_key (\<lambda>y. f (g y)) xs)"
  by (induction xs) (simp_all add: insort_key_map)

subsection \<open>Runs over a relational store\<close>

lemma runs_inv:
  fixes k :: "'d codec"
  assumes "dbEntries d = []" and "\<forall>e \<in> set (appended ops). round_trips k e"
    and "length (appended ops) \<le> 2 ^ 63"
    and "c = audit_runs k (db_write k (\<lambda>_. None)) LastSeqHash ops
           (AttachSink (db_write k (\<lambda>_. None)) (Some LastSeqHash) d (NewChainWithCapacity cap))"
  shows "db_sink.trail_inv k (appended ops) c"
proof -
  have "db_ok d" "db_log k d = []" using assms(1) by (simp_all add: db_ok_def db_log_def)
  from db_sink.trail_start [OF this refl, of cap] show ?thesis
    using db_sink.trail_runs [of k "[]" _ ops] assms(2-4) by simp
qed

lemma runs_persist:
  fixes k :: "'d codec"
  assumes "dbEntries d = []" and "\<forall>e \<in> set (appended ops). round_trips k e"
    and "length (appended ops) \<le> 2 ^ 63"
    and "c = audit_runs k (db_write k (\<lambda>_. None)) LastSeqHash ops
           (AttachSink (db_write k (\<lambda>_. None)) (Some LastSeqHash) d (NewChainWithCapacity cap))"
  shows "\<exists>d'. chSink c = Some d' \<and> list_all2 (stored_as k) (appended ops) (db_log k d') \<and>
    VerifyChain k d' = (length (appended ops), None)"
proof -
  obtain d' where d': "chSink c = Some d'" "list_all2 (stored_as k) (appended ops) (db_log k d')"
    "linked k GenesisHash (db_log k d')"
    using runs_inv [OF assms] unfolding db_sink.trail_inv_def by blast
  have "length (dbEntries d') = length (appended ops)"
    using list_all2_lengthD [OF d'(2)] by (simp add: db_log_def)
  with d' show ?thesis by (auto simp: VerifyChain_linked db_log_def)
qed

subsection \<open>A concrete trail\<close>

text \<open>A codec whose digest is the length of its input and whose details are their own JSON.\<close>

definition demo_codec :: "string codec" where
  "demo_codec = \<lparr>kSha = (\<lambda>x. of_nat (length x)), kMarshal = (\<lambda>d. CHR ''{'' # d),
     kUnmarshal = (\<lambda>s. Some (tl s)), kFormat = (\<lambda>t. itoa (tInstant t)), kLocal = ''UTC''\<rparr>"

definition demo_entry :: "string \<Rightarrow> string entry" where
  "demo_entry i = NewEntry i \<lparr>tInstant = 63835596800000000000, tZone = ''UTC''\<rparr> ''alert'' ''high'' (Some ''x}'')"

definition empty_db :: db where
  "empty_db = \<lparr>dbEntries = [], dbSnapshots = []\<rparr>"

definition demo_trail :: "(string, db) chain" where
  "demo_trail = audit_runs demo_codec (db_write demo_codec (\<lambda>_. None)) LastSeqHash
     [AppendEntry (demo_entry ''a''), Restart 1, AppendEntry (demo_entry ''b'')]
     (AttachSink (db_write demo_codec (\<lambda>_. None)) (Some LastSeqHash) empty_db (NewChainWithCapacity 10))"

lemma demo_entry_ok: "round_trips demo_codec (demo_entry i)"
  by (simp add: round_trips_def demo_codec_def demo_entry_def NewEntry_def is_int64_def)

definition demo_db :: db where
  "demo_db =
     the (chSink (audit_runs demo_codec (db_write demo_codec (\<lambda>_. None)) LastSeqHash [AppendEntry (demo_entry ''a'')]
       (AttachSink (db_write demo_codec (\<lambda>_. None)) (Some LastSeqHash) empty_db (NewChainWithCapacity 10))))"

lemma demo_db_verifies: "VerifyChain demo_codec demo_db = (1, None)"
  using runs_persist [OF _ _ _ refl, of empty_db "[AppendEntry (demo_entry ''a'')]" demo_codec 10]
  by (auto simp: demo_db_def empty_db_def demo_entry_ok)

subsection \<open>Properties\<close>

text \<open>
  C3: across any sequence of appends and process restarts over a relational store that starts
  empty and accepts its writes, the persisted trail verifies: it holds the appended
  entries in order, one row each with the time, kind, severity, details and actor of the entry (up to the fields
  that have no column), the stored hash chain is intact from genesis, and the in-memory
  window of the current process verifies too.
\<close>

theorem trail_verifies:
  fixes k :: "'d codec"
  assumes "dbEntries d = []" and "\<forall>e \<in> set (appended ops). round_trips k e"
    and "length (appended ops) \<le> 2 ^ 63"
    and "c = audit_runs k (db_write k (\<lambda>_. None)) LastSeqHash ops
           (AttachSink (db_write k (\<lambda>_. None)) (Some LastSeqHash) d (NewChainWithCapacity cap))"
  shows "\<exists>d'. chSink c = Some d' \<and> list_all2 (stored_as k) (appended ops) (db_log k d') \<and>
    VerifyChain k d' = (length (appended ops), None) \<and> Verify k c = None"
  using runs_persist [OF assms] db_sink.trail_verified(1) [OF runs_inv [OF assms]] assms(3) by auto

theorem trail_verifies_witness:
  "\<exists>d'. chSink demo_trail = Some d' \<and> list_all2 (stored_as demo_codec) [demo_entry ''a'', demo_entry ''b''] (db_log demo_codec d') \<and>
     VerifyChain demo_codec d' = (2, None) \<and> Verify demo_codec demo_trail = None"
proof -
  let ?ops = "[AppendEntry (demo_entry ''a''), Restart 1, AppendEntry (demo_entry ''b'')]"
  have "appended ?ops = [demo_entry ''a'', demo_entry ''b'']" "length (appended ?ops) = 2" by simp_all
  then show ?thesis
    using trail_verifies [OF _ _ _ demo_trail_def] by (simp add: demo_entry_ok empty_db_def flip: numeral_2_eq_2)
qed

text \<open>
  C25: the head hash of a verified trail commits to the hash inputs of the whole trail: two stores
  that verify and end in the same hash hold the same inputs in the same order, unless an entry of one
  and an entry of the other have different inputs with the same SHA-256 digest, or the digest of one of their
  entries is the genesis hash.
\<close>

theorem head_hash_commits:
  assumes "VerifyChain k d = (n, None)" and "VerifyChain k d' = (n', None)"
    and "head_hash GenesisHash (db_log k d) = head_hash GenesisHash (db_log k d')"
  shows "map (preimage k) (db_log k d) = map (preimage k) (db_log k d') \<or>
    (\<exists>e \<in> set (db_log k d). \<exists>f \<in> set (db_log k d'). colliding k e f) \<or>
    (\<exists>e \<in> set (db_log k d) \<union> set (db_log k d'). genesis_digest k e)"
proof -
  have "linked k GenesisHash (db_log k d)" "linked k GenesisHash (db_log k d')"
    using assms(1,2) by (auto simp: VerifyChain_linked db_log_def)
  then show ?thesis using head_commits_lemma [OF _ _ assms(3)] by blast
qed

theorem head_hash_commits_witness:
  "let d' = demo_db\<lparr>dbEntries := map (retouch (\<lambda>_. 9) (\<lambda>_. 7) (\<lambda>_. ''x'')) (dbEntries demo_db)\<rparr> in
   map (preimage demo_codec) (db_log demo_codec demo_db) = map (preimage demo_codec) (db_log demo_codec d') \<or>
   (\<exists>e \<in> set (db_log demo_codec demo_db). \<exists>f \<in> set (db_log demo_codec d'). colliding demo_codec e f) \<or>
   (\<exists>e \<in> set (db_log demo_codec demo_db) \<union> set (db_log demo_codec d'). genesis_digest demo_codec e)"
  unfolding Let_def
proof (rule head_hash_commits)
  show v: "VerifyChain demo_codec demo_db = (1, None)" by (rule demo_db_verifies)
  then show "VerifyChain demo_codec (demo_db\<lparr>dbEntries := map (retouch (\<lambda>_. 9) (\<lambda>_. 7) (\<lambda>_. ''x'')) (dbEntries demo_db)\<rparr>) = (1, None)"
    by (simp add: VerifyChain_def sort_key_map verify_rows_retouch)
  show "head_hash GenesisHash (db_log demo_codec demo_db) =
    head_hash GenesisHash (db_log demo_codec (demo_db\<lparr>dbEntries := map (retouch (\<lambda>_. 9) (\<lambda>_. 7) (\<lambda>_. ''x'')) (dbEntries demo_db)\<rparr>))"
    by (cases "dbEntries demo_db = []") (simp_all add: db_log_def sort_key_map head_hash_def last_map)
qed

text \<open>
  C26: the verification does not see every column: overwriting the severity number and the actor of
  any set of rows at rest leaves its result unchanged, because the hash input leaves them out.
\<close>

theorem verify_ignores_actor:
  "VerifyChain k (d\<lparr>dbEntries := map (retouch sev pid comm) (dbEntries d)\<rparr>) = VerifyChain k d"
  by (simp add: VerifyChain_def sort_key_map verify_rows_retouch)

text \<open>
  a chain loaded from the JSON-lines file has no room: its first append computes the entry's
  place in the chain but drops every entry from memory, the loaded ones included.
\<close>

theorem loaded_chain_forgets:
  fixes decode :: "string \<Rightarrow> 'd entry option"
  shows "chEntries (fst (Append k wr e (LoadFromFile decode ls :: ('d, 's) chain))) = []"
proof -
  have "chMaxEntries (LoadFromFile decode ls :: ('d, 's) chain) = 0"
    "chSink (LoadFromFile decode ls :: ('d, 's) chain) = None"
    by (simp_all add: LoadFromFile_def split: prod.splits)
  then show ?thesis by (simp add: Append_def push_entry_def Let_def)
qed

text \<open>
  an append that its sink refuses is reported and still advances the chain: the caller gets
  the sink's error, while the entry is in memory under its sequence number and the next append
  links to it, and the store is unchanged.
\<close>

theorem refused_write:
  assumes "chSink c = Some d" and "0 < chMaxEntries c"
    and "Append k (db_write k (\<lambda>_. Some msg)) e c = (c', r)"
  shows "r = Some (DurableWrite msg) \<and> chSink c' = Some d \<and> chNextSeq c' = chNextSeq c + 1 \<and>
    prev_hash c' = computeHash k (seal k e c)"
proof -
  let ?w = "keep_last (chMaxEntries c) (chEntries c @ [seal k e c])"
  have w: "?w \<noteq> []" "last ?w = seal k e c" using assms(2) by simp_all
  then have "?w ! (length ?w - 1) = seal k e c" "length ?w \<noteq> 0" by (metis last_conv_nth, blast)
  moreover have "c' = (push_entry (seal k e c) c)\<lparr>chSink := Some d\<rparr>" "r = Some (DurableWrite msg)"
    using assms(1,3) by (auto simp: Append_def push_entry_def db_write_def Let_def)
  ultimately show ?thesis
    by (simp add: prev_hash_def push_entry_def db_sink.seal_props(4) [symmetric] min_def)
qed

theorem refused_write_witness:
  "snd (Append demo_codec (db_write demo_codec (\<lambda>_. Some ''disk full'')) (demo_entry ''c'')
     (NewChain\<lparr>chSink := Some empty_db\<rparr>)) = Some (DurableWrite ''disk full'')"
  using refused_write [of "NewChain\<lparr>chSink := Some empty_db\<rparr>" empty_db demo_codec "''disk full''" "demo_entry ''c''"]
  by (metis (no_types, lifting) NewChain_def chain.select_convs(3) chain.select_convs(5)
      chain.update_convs(5) surjective_pairing zero_less_numeral)

end
