(* ===== verification/Incident.thy ===== *)
theory Incident
  imports Rules
begin

text \<open>
  The case store of \<^verbatim>\<open>src/pkg/incident/incident.go\<close>.  Cases are shared by pointer between the
  case list and the identifier index, so they live in an explicit store: \<open>iHeap\<close> holds every
  case ever allocated and a pointer is its position.  Each call of the clock is an argument
  (\<open>now\<close>, \<open>t1\<close>, \<open>t2\<close>, ... in the order of the calls), as are the random identifiers and the
  order in which the unstable sort leaves equal keys.
\<close>

subsection \<open>Cases\<close>

type_synonym status = string

abbreviation (input) StatusOpen :: status where "StatusOpen \<equiv> ''open''"
abbreviation (input) StatusAcknowledged :: status where "StatusAcknowledged \<equiv> ''acknowledged''"
abbreviation (input) StatusResolved :: status where "StatusResolved \<equiv> ''resolved''"
abbreviation (input) StatusFalse :: status where "StatusFalse \<equiv> ''false_positive''"

definition validStatus :: "status \<Rightarrow> bool" where
  "validStatus s \<longleftrightarrow> s = StatusOpen \<or> s = StatusAcknowledged \<or> s = StatusResolved \<or> s = StatusFalse"

record note_revision =
  nrText :: string
  nrAt :: time

record case_note =
  nID :: string
  nAuthor :: string
  nText :: string
  nAt :: time
  nEditedAt :: time
  nEditedBy :: string
  nRevisions :: "note_revision list"
  nDeleted :: bool
  nDeletedAt :: time
  nDeletedBy :: string

record incident_case =
  icID :: string
  icRuleID :: string
  icRule :: string
  icSeverity :: string
  icTechnique :: string
  icMitreAttack :: string
  icDescription :: string
  icPID :: int
  icTenantID :: string
  icChain :: "signal list"
  icCount :: int
  icStatus :: status
  icAssignee :: string
  icNotes :: "case_note list"
  icFirstSeen :: time
  icLastSeen :: time
  icUpdatedAt :: time

type_synonym ref = nat

record incident_store =
  iHeap :: "incident_case list"
  iCases :: "ref list"
  iByID :: "(string, ref) gomap"
  iMaxCases :: nat
  iGroupWindow :: dur

definition incident_NewStore :: incident_store where
  "incident_NewStore = \<lparr>iHeap = [], iCases = [], iByID = [], iMaxCases = 2000, iGroupWindow = 10 * minute\<rparr>"

abbreviation case_at :: "incident_store \<Rightarrow> ref \<Rightarrow> incident_case" where
  "case_at s r \<equiv> iHeap s ! r"

definition set_case :: "ref \<Rightarrow> incident_case \<Rightarrow> incident_store \<Rightarrow> incident_store" where
  "set_case r c s = s\<lparr>iHeap := (iHeap s)[r := c]\<rparr>"

subsection \<open>Recording a detection\<close>

definition groups_with :: "incident_store \<Rightarrow> time \<Rightarrow> finding \<Rightarrow> incident_case \<Rightarrow> bool" where
  "groups_with s now f c \<longleftrightarrow>
     icRuleID c = fRuleID f \<and> icPID c = fPID f \<and>
     (icStatus c = StatusOpen \<or> icStatus c = StatusAcknowledged) \<and>
     time_sub now (icLastSeen c) \<le> iGroupWindow s"

fun find_active :: "incident_store \<Rightarrow> time \<Rightarrow> finding \<Rightarrow> ref list \<Rightarrow> ref option" where
  "find_active s now f [] = None"
| "find_active s now f (r # rs) =
     (if groups_with s now f (case_at s r) then Some r else find_active s now f rs)"

definition new_case :: "string \<Rightarrow> time \<Rightarrow> finding \<Rightarrow> incident_case" where
  "new_case fresh now f =
     \<lparr>icID = ''case_'' @ fresh, icRuleID = fRuleID f, icRule = fRule f, icSeverity = fSeverity f,
      icTechnique = fTechnique f, icMitreAttack = '''', icDescription = fDescription f,
      icPID = fPID f, icTenantID = fTenantID f, icChain = fChain f, icCount = 1,
      icStatus = StatusOpen, icAssignee = '''', icNotes = [], icFirstSeen = now, icLastSeen = now,
      icUpdatedAt = now\<rparr>"

definition incident_Add :: "string \<Rightarrow> time \<Rightarrow> finding \<Rightarrow> incident_store \<Rightarrow> incident_store \<times> ref" where
  "incident_Add fresh now f s =
     (case find_active s now f (iCases s) of
        Some r \<Rightarrow>
          (set_case r ((case_at s r)\<lparr>icCount := icCount (case_at s r) + 1, icLastSeen := now, icUpdatedAt := now\<rparr>) s, r)
      | None \<Rightarrow>
          let c = new_case fresh now f;
              r = length (iHeap s);
              s1 = s\<lparr>iHeap := iHeap s @ [c], iCases := iCases s @ [r], iByID := mput (icID c) r (iByID s)\<rparr>
          in if iMaxCases s1 < length (iCases s1)
             then (s1\<lparr>iByID := mdel (icID (case_at s1 (hd (iCases s1)))) (iByID s1), iCases := tl (iCases s1)\<rparr>, r)
             else (s1, r))"

subsection \<open>Views\<close>

record case_filter =
  cfStatus :: status
  cfSeverity :: string
  cfLimit :: int

definition case_passes :: "case_filter \<Rightarrow> incident_case \<Rightarrow> bool" where
  "case_passes f c =
     (if cfStatus f \<noteq> '''' \<and> icStatus c \<noteq> cfStatus f then False
      else if cfSeverity f \<noteq> '''' \<and> icSeverity c \<noteq> cfSeverity f then False
      else True)"

definition incident_List :: "(ref list \<Rightarrow> ref list) \<Rightarrow> case_filter \<Rightarrow> incident_store \<Rightarrow> incident_case list" where
  "incident_List ord f s =
     (let out = filter (\<lambda>r. case_passes f (case_at s r)) (iCases s);
          srt = sort_key (\<lambda>r. - icLastSeen (case_at s r)) (ord out)
      in map (case_at s) (if 0 < cfLimit f \<and> cfLimit f < int (length srt) then take (nat (cfLimit f)) srt else srt))"

definition incident_Get :: "string \<Rightarrow> incident_store \<Rightarrow> incident_case option" where
  "incident_Get i s = map_option (case_at s) (map_of (iByID s) i)"

record incident_stats =
  stTotal :: nat
  stOpen :: nat
  stAcknowledged :: nat
  stResolved :: nat
  stFalse :: nat

fun count_status :: "incident_store \<Rightarrow> ref list \<Rightarrow> incident_stats \<Rightarrow> incident_stats" where
  "count_status s [] st = st"
| "count_status s (r # rs) st =
     (let x = icStatus (case_at s r) in
      count_status s rs
        (if x = StatusOpen then st\<lparr>stOpen := stOpen st + 1\<rparr>
         else if x = StatusAcknowledged then st\<lparr>stAcknowledged := stAcknowledged st + 1\<rparr>
         else if x = StatusResolved then st\<lparr>stResolved := stResolved st + 1\<rparr>
         else if x = StatusFalse then st\<lparr>stFalse := stFalse st + 1\<rparr>
         else st))"

definition incident_Stats :: "incident_store \<Rightarrow> incident_stats" where
  "incident_Stats s =
     count_status s (iCases s)
       \<lparr>stTotal = length (iCases s), stOpen = 0, stAcknowledged = 0, stResolved = 0, stFalse = 0\<rparr>"

subsection \<open>Investigation\<close>

definition SetStatus :: "time \<Rightarrow> string \<Rightarrow> status \<Rightarrow> incident_store \<Rightarrow> incident_store \<times> bool" where
  "SetStatus now i status s =
     (if \<not> validStatus status then (s, False)
      else case map_of (iByID s) i of
        None \<Rightarrow> (s, False)
      | Some r \<Rightarrow> (set_case r ((case_at s r)\<lparr>icStatus := status, icUpdatedAt := now\<rparr>) s, True))"

definition Assign :: "time \<Rightarrow> string \<Rightarrow> string \<Rightarrow> incident_store \<Rightarrow> incident_store \<times> bool" where
  "Assign now i assignee s =
     (case map_of (iByID s) i of
        None \<Rightarrow> (s, False)
      | Some r \<Rightarrow> (set_case r ((case_at s r)\<lparr>icAssignee := assignee, icUpdatedAt := now\<rparr>) s, True))"

definition AddNote ::
  "string \<Rightarrow> time \<Rightarrow> time \<Rightarrow> string \<Rightarrow> string \<Rightarrow> string \<Rightarrow> incident_store \<Rightarrow> incident_store \<times> case_note option" where
  "AddNote fresh t1 t2 i author text s =
     (case map_of (iByID s) i of
        None \<Rightarrow> (s, None)
      | Some r \<Rightarrow>
          let n = \<lparr>nID = ''note_'' @ fresh, nAuthor = author, nText = text, nAt = t1, nEditedAt = 0,
                   nEditedBy = '''', nRevisions = [], nDeleted = False, nDeletedAt = 0, nDeletedBy = ''''\<rparr>
          in (set_case r ((case_at s r)\<lparr>icNotes := icNotes (case_at s r) @ [n], icUpdatedAt := t2\<rparr>) s, Some n))"

text \<open>The position of the first note with an identifier.\<close>

fun find_note :: "string \<Rightarrow> case_note list \<Rightarrow> nat \<Rightarrow> nat option" where
  "find_note i [] k = None"
| "find_note i (n # ns) k = (if nID n \<noteq> i then find_note i ns (Suc k) else Some k)"

definition edit_note :: "time \<Rightarrow> time \<Rightarrow> string \<Rightarrow> string \<Rightarrow> case_note \<Rightarrow> case_note" where
  "edit_note t1 t2 editor text n =
     n\<lparr>nRevisions := nRevisions n @ [\<lparr>nrText = nText n, nrAt = t1\<rparr>], nText := text, nEditedAt := t2,
       nEditedBy := editor\<rparr>"

definition EditNote ::
  "time \<Rightarrow> time \<Rightarrow> time \<Rightarrow> string \<Rightarrow> string \<Rightarrow> string \<Rightarrow> string \<Rightarrow> incident_store \<Rightarrow> incident_store \<times> case_note option" where
  "EditNote t1 t2 t3 caseID noteID editor text s =
     (case map_of (iByID s) caseID of
        None \<Rightarrow> (s, None)
      | Some r \<Rightarrow>
          (let c = case_at s r in
           case find_note noteID (icNotes c) 0 of
             None \<Rightarrow> (s, None)
           | Some k \<Rightarrow>
               let n = icNotes c ! k in
               if nText n \<noteq> text then
                 let n' = edit_note t1 t2 editor text n
                 in (set_case r (c\<lparr>icNotes := (icNotes c)[k := n'], icUpdatedAt := t3\<rparr>) s, Some n')
               else (s, Some n)))"

definition update_note ::
  "(case_note \<Rightarrow> case_note) \<Rightarrow> time \<Rightarrow> string \<Rightarrow> string \<Rightarrow> incident_store \<Rightarrow> incident_store \<times> case_note option" where
  "update_note g t caseID noteID s =
     (case map_of (iByID s) caseID of
        None \<Rightarrow> (s, None)
      | Some r \<Rightarrow>
          (let c = case_at s r in
           case find_note noteID (icNotes c) 0 of
             None \<Rightarrow> (s, None)
           | Some k \<Rightarrow>
               let n' = g (icNotes c ! k)
               in (set_case r (c\<lparr>icNotes := (icNotes c)[k := n'], icUpdatedAt := t\<rparr>) s, Some n')))"

definition DeleteNote ::
  "time \<Rightarrow> time \<Rightarrow> string \<Rightarrow> string \<Rightarrow> string \<Rightarrow> incident_store \<Rightarrow> incident_store \<times> case_note option" where
  "DeleteNote t1 t2 caseID noteID who s =
     update_note (\<lambda>n. n\<lparr>nDeleted := True, nDeletedAt := t1, nDeletedBy := who\<rparr>) t2 caseID noteID s"

definition RestoreNote :: "time \<Rightarrow> string \<Rightarrow> string \<Rightarrow> incident_store \<Rightarrow> incident_store \<times> case_note option" where
  "RestoreNote t caseID noteID s =
     update_note (\<lambda>n. n\<lparr>nDeleted := False, nDeletedAt := zero_time, nDeletedBy := ''''\<rparr>) t caseID noteID s"

subsection \<open>Persistence\<close>

definition incident_Snapshot :: "(incident_case list \<Rightarrow> string) \<Rightarrow> incident_store \<Rightarrow> string" where
  "incident_Snapshot marshal s = marshal (map (case_at s) (iCases s))"

fun index_cases :: "incident_case list \<Rightarrow> ref \<Rightarrow> (string, ref) gomap \<Rightarrow> (string, ref) gomap" where
  "index_cases [] r m = m"
| "index_cases (c # cs) r m = index_cases cs (Suc r) (mput (icID c) r m)"

text \<open>\<open>unmarshal\<close> is \<^verbatim>\<open>json.Unmarshal\<close> into a list of cases, \<open>None\<close> when it fails.\<close>

definition incident_Restore ::
  "(string \<Rightarrow> incident_case list option) \<Rightarrow> string \<Rightarrow> incident_store \<Rightarrow> incident_store \<times> bool" where
  "incident_Restore unmarshal data s =
     (case unmarshal data of
        None \<Rightarrow> (s, False)
      | Some cs \<Rightarrow>
          let base = length (iHeap s);
              refs = [base..<base + length cs]
          in (s\<lparr>iHeap := iHeap s @ cs, iByID := index_cases cs base [], iCases := keep_last (iMaxCases s) refs\<rparr>, True))"

end
