(* ===== verification/Incident_Props.thy ===== *)
theory Incident_Props
  imports Incident AuditTrail
begin

text \<open>
  Correctness of the case store: the index and the case list agree in every reachable state, also across saves and restarts,
  grouping loses no detection and opens no second case for a live one, and analyst notes are
  append-only whatever operations follow.
\<close>

subsection \<open>Operations and runs\<close>

datatype incident_op =
    IAdd string time finding
  | ISetStatus time string status
  | IAssign time string string
  | IAddNote string time time string string string
  | IEditNote time time time string string string string
  | IDeleteNote time time string string string
  | IRestoreNote time string string

fun incident_step :: "incident_op \<Rightarrow> incident_store \<Rightarrow> incident_store" where
  "incident_step (IAdd fresh now f) s = fst (incident_Add fresh now f s)"
| "incident_step (ISetStatus now i st) s = fst (SetStatus now i st s)"
| "incident_step (IAssign now i who) s = fst (Assign now i who s)"
| "incident_step (IAddNote fresh t1 t2 i author text) s = fst (AddNote fresh t1 t2 i author text s)"
| "incident_step (IEditNote t1 t2 t3 i n editor text) s = fst (EditNote t1 t2 t3 i n editor text s)"
| "incident_step (IDeleteNote t1 t2 i n who) s = fst (DeleteNote t1 t2 i n who s)"
| "incident_step (IRestoreNote t i n) s = fst (RestoreNote t i n s)"

text \<open>A random case identifier does not repeat one in use.\<close>

fun incident_op_ok :: "incident_op \<Rightarrow> incident_store \<Rightarrow> bool" where
  "incident_op_ok (IAdd fresh now f) s \<longleftrightarrow> map_of (iByID s) (''case_'' @ fresh) = None"
| "incident_op_ok _ s \<longleftrightarrow> True"

inductive incident_run :: "incident_store \<Rightarrow> incident_op list \<Rightarrow> incident_store \<Rightarrow> bool" where
  incident_done: "incident_run s [] s"
| incident_next: "incident_run s ops s' \<Longrightarrow> incident_op_ok op s' \<Longrightarrow>
    incident_run s (ops @ [op]) (incident_step op s')"

definition incident_ok :: "incident_store \<Rightarrow> bool" where
  "incident_ok s \<longleftrightarrow>
     distinct (iCases s) \<and> (\<forall>r \<in> set (iCases s). r < length (iHeap s) \<and> validStatus (icStatus (case_at s r))) \<and>
     1 \<le> iMaxCases s \<and> length (iCases s) \<le> iMaxCases s \<and>
     (\<forall>i r. map_of (iByID s) i = Some r \<longleftrightarrow> r \<in> set (iCases s) \<and> icID (case_at s r) = i)"

subsection \<open>Updating one case\<close>

lemma set_case_frame [simp]:
  "iCases (set_case r c s) = iCases s" "iByID (set_case r c s) = iByID s"
  "iMaxCases (set_case r c s) = iMaxCases s" "iGroupWindow (set_case r c s) = iGroupWindow s"
  "iHeap (set_case r c s) = (iHeap s)[r := c]"
  by (simp_all add: set_case_def)

lemma incident_ok_set_case:
  assumes "incident_ok s" and "icID c = icID (case_at s r)" and "validStatus (icStatus c)"
  shows "incident_ok (set_case r c s)"
proof -
  have nth: "r' < length (iHeap s) \<Longrightarrow> (iHeap s)[r := c] ! r' = (if r' = r then c else case_at s r')" for r'
    by (simp add: nth_list_update)
  have "icID ((iHeap s)[r := c] ! r') = icID (case_at s r')" if "r' < length (iHeap s)" for r'
    using assms(2) nth [OF that] by simp
  moreover have "validStatus (icStatus ((iHeap s)[r := c] ! r'))" if "r' \<in> set (iCases s)" for r'
    using assms(1,3) that nth [of r'] by (auto simp: incident_ok_def)
  ultimately show ?thesis
    using assms(1) by (auto simp: incident_ok_def)
qed

lemma indexed_valid:
  assumes "incident_ok s" and "map_of (iByID s) i = Some r"
  shows "r < length (iHeap s)" "validStatus (icStatus (case_at s r))"
  using assms by (auto simp: incident_ok_def)

lemma find_active_split:
  "find_active s now f rs = Some r \<Longrightarrow>
     \<exists>xs ys. rs = xs @ r # ys \<and> groups_with s now f (case_at s r) \<and>
        (\<forall>x \<in> set xs. \<not> groups_with s now f (case_at s x))"
proof (induction rs)
  case (Cons a rs)
  show ?case
  proof (cases "groups_with s now f (case_at s a)")
    case True
    with Cons.prems show ?thesis by (intro exI [of _ "[]"] exI [of _ rs]) simp
  next
    case False
    with Cons obtain xs ys where "rs = xs @ r # ys" "groups_with s now f (case_at s r)"
      "\<forall>x \<in> set xs. \<not> groups_with s now f (case_at s x)" by auto
    with False show ?thesis by (intro exI [of _ "a # xs"] exI [of _ ys]) simp
  qed
qed simp

lemma find_active_first:
  "\<forall>x \<in> set xs. \<not> groups_with s now f (case_at s x) \<Longrightarrow> groups_with s now f (case_at s r) \<Longrightarrow>
     find_active s now f (xs @ r # ys) = Some r"
  by (induction xs) auto

lemma find_active_None:
  "find_active s now f rs = None \<longleftrightarrow> (\<forall>x \<in> set rs. \<not> groups_with s now f (case_at s x))"
  by (induction rs) auto

subsection \<open>The store invariant\<close>

lemma incident_ok_alloc:
  assumes "incident_ok s" and "map_of (iByID s) (icID c) = None" and "validStatus (icStatus c)"
    and "length (iCases s) < iMaxCases s"
  shows "incident_ok (s\<lparr>iHeap := iHeap s @ [c], iCases := iCases s @ [length (iHeap s)],
    iByID := mput (icID c) (length (iHeap s)) (iByID s)\<rparr>)"
proof -
  have old: "(iHeap s @ [c]) ! r = case_at s r" if "r \<in> set (iCases s)" for r
    using assms(1) that by (simp add: incident_ok_def nth_append)
  have "length (iHeap s) \<notin> set (iCases s)" using assms(1) by (auto simp: incident_ok_def)
  moreover have "icID (case_at s r) \<noteq> icID c" if "r \<in> set (iCases s)" for r
    using assms(1,2) that unfolding incident_ok_def by (metis option.distinct(1))
  ultimately show ?thesis using assms old unfolding incident_ok_def by (auto simp: less_SucI)
qed

lemma incident_ok_drop:
  assumes "incident_ok s" and "iCases s \<noteq> []"
  shows "incident_ok (s\<lparr>iByID := mdel (icID (case_at s (hd (iCases s)))) (iByID s), iCases := tl (iCases s)\<rparr>)"
proof -
  obtain a rs where c: "iCases s = a # rs" using assms(2) by (cases "iCases s") auto
  have "icID (case_at s r) \<noteq> icID (case_at s a)" if "r \<in> set rs" for r
  proof
    assume "icID (case_at s r) = icID (case_at s a)"
    then have "map_of (iByID s) (icID (case_at s a)) = Some r" "map_of (iByID s) (icID (case_at s a)) = Some a"
      using assms(1) that by (auto simp: incident_ok_def c)
    with assms(1) that show False by (auto simp: incident_ok_def c)
  qed
  with assms(1) show ?thesis unfolding incident_ok_def by (auto simp: c)
qed

lemma incident_ok_Add:
  assumes "incident_ok s" and "map_of (iByID s) (''case_'' @ fresh) = None"
  shows "incident_ok (fst (incident_Add fresh now f s))"
proof (cases "find_active s now f (iCases s)")
  case (Some r)
  from find_active_split [OF this] have "r \<in> set (iCases s)" by auto
  with assms(1) have "validStatus (icStatus (case_at s r))" by (simp add: incident_ok_def)
  with Some assms(1) show ?thesis by (simp add: incident_Add_def incident_ok_set_case)
next
  case None
  let ?c = "new_case fresh now f"
  let ?s = "s\<lparr>iHeap := iHeap s @ [?c], iCases := iCases s @ [length (iHeap s)],
    iByID := mput (icID ?c) (length (iHeap s)) (iByID s)\<rparr>"
  have c: "map_of (iByID s) (icID ?c) = None" "validStatus (icStatus ?c)"
    using assms(2) by (simp_all add: new_case_def validStatus_def)
  have big: "incident_ok (?s\<lparr>iMaxCases := Suc (iMaxCases s)\<rparr>)"
  proof -
    have "incident_ok (s\<lparr>iMaxCases := Suc (iMaxCases s)\<rparr>)" using assms(1) by (simp add: incident_ok_def)
    from incident_ok_alloc [OF this, of ?c] c assms(1) show ?thesis by (simp add: incident_ok_def)
  qed
  show ?thesis
  proof (cases "iMaxCases s < length (iCases ?s)")
    case True
    with incident_ok_drop [OF big] None assms(1) show ?thesis
      by (simp add: incident_Add_def Let_def incident_ok_def)
  next
    case False
    with big None assms(1) show ?thesis by (simp add: incident_Add_def Let_def incident_ok_def)
  qed
qed

lemma incident_step_ok:
  assumes "incident_ok s" and "incident_op_ok op s"
  shows "incident_ok (incident_step op s)"
  using assms
  by (cases op)
    (auto simp: incident_ok_Add SetStatus_def Assign_def AddNote_def EditNote_def DeleteNote_def
      RestoreNote_def update_note_def Let_def indexed_valid split: option.splits
      intro!: incident_ok_set_case)

lemma incident_run_ok: "incident_run s ops s' \<Longrightarrow> incident_ok s \<Longrightarrow> incident_ok s'"
  by (induction rule: incident_run.induct) (auto intro: incident_step_ok)

subsection \<open>Across restarts\<close>

text \<open>
  The agent saves its cases to the snapshot table of the database (\<^verbatim>\<open>persistCases\<close>) and starts with what it
  finds there (\<^verbatim>\<open>NewController\<close>); a snapshot that cannot be read leaves the fresh store.
\<close>

definition persistCases :: "(incident_case list \<Rightarrow> string) \<Rightarrow> time \<Rightarrow> incident_store \<Rightarrow> db \<Rightarrow> db" where
  "persistCases marshal now s d = SaveSnapshot ''cases'' (incident_Snapshot marshal s) now d"

definition restored_cases :: "(string \<Rightarrow> incident_case list option) \<Rightarrow> db \<Rightarrow> incident_store" where
  "restored_cases unmarshal d =
     (case LoadSnapshot ''cases'' d of
        None \<Rightarrow> incident_NewStore
      | Some data \<Rightarrow> fst (incident_Restore unmarshal data incident_NewStore))"

text \<open>What the saved cases must keep through JSON: if they read back at all, their identifiers and states are the same.\<close>

definition reads_back ::
  "(incident_case list \<Rightarrow> string) \<Rightarrow> (string \<Rightarrow> incident_case list option) \<Rightarrow> incident_case list \<Rightarrow> bool" where
  "reads_back marshal unmarshal cs \<longleftrightarrow>
     (\<forall>cs'. unmarshal (marshal cs) = Some cs' \<longrightarrow> map icID cs' = map icID cs \<and> map icStatus cs' = map icStatus cs)"

text \<open>
  The lives of the case store of an agent with its database: operations, saves, saves of other snapshots, and
  restarts, from a first start with a database that holds no cases.
\<close>

inductive case_life ::
  "(incident_case list \<Rightarrow> string) \<Rightarrow> (string \<Rightarrow> incident_case list option) \<Rightarrow> incident_store \<Rightarrow> db \<Rightarrow> bool"
  for marshal unmarshal where
  life_start: "LoadSnapshot ''cases'' d = None \<Longrightarrow> case_life marshal unmarshal (restored_cases unmarshal d) d"
| life_step: "case_life marshal unmarshal s d \<Longrightarrow> incident_op_ok op s \<Longrightarrow> case_life marshal unmarshal (incident_step op s) d"
| life_save: "case_life marshal unmarshal s d \<Longrightarrow> reads_back marshal unmarshal (map (case_at s) (iCases s)) \<Longrightarrow>
    case_life marshal unmarshal s (persistCases marshal now s d)"
| life_other: "case_life marshal unmarshal s d \<Longrightarrow> key \<noteq> ''cases'' \<Longrightarrow> case_life marshal unmarshal s (SaveSnapshot key data now d)"
| life_restart: "case_life marshal unmarshal s d \<Longrightarrow> case_life marshal unmarshal (restored_cases unmarshal d) d"

lemma map_of_index_cases:
  "i \<notin> icID ` set cs \<Longrightarrow> map_of (index_cases cs r m) i = map_of m i"
  by (induction cs arbitrary: r m) auto

lemma map_of_index_cases_iff:
  "distinct (map icID cs) \<Longrightarrow> map_of (index_cases cs b m) i = Some r \<longleftrightarrow>
     (if i \<in> icID ` set cs then b \<le> r \<and> r < b + length cs \<and> icID (cs ! (r - b)) = i else map_of m i = Some r)"
proof (induction cs arbitrary: b m)
  case (Cons c cs)
  show ?case
  proof (cases "i = icID c")
    case True
    with Cons.prems have n: "i \<notin> icID ` set cs" by simp
    have "r = b" if "b \<le> r" "r < Suc (b + length cs)" "icID ((c # cs) ! (r - b)) = i" for r
    proof (rule ccontr)
      assume "r \<noteq> b"
      with that(1) have "b < r" by simp
      then obtain k where k: "r = Suc (b + k)" by (auto dest: less_imp_Suc_add)
      then have "icID (cs ! k) = i" "k < length cs" using that(2,3) by simp_all
      with n show False by (metis imageI nth_mem)
    qed
    with True n show ?thesis by (auto simp: map_of_index_cases)
  next
    case False
    have "Suc b \<le> r \<and> r < Suc b + length cs \<and> icID (cs ! (r - Suc b)) = i \<longleftrightarrow>
        b \<le> r \<and> r < b + length (c # cs) \<and> icID ((c # cs) ! (r - b)) = i"
    proof (cases "b < r")
      case True
      then obtain k where "r = Suc (b + k)" by (auto dest: less_imp_Suc_add)
      then show ?thesis by simp
    next
      case False
      with \<open>i \<noteq> icID c\<close> show ?thesis by (cases "r = b") simp_all
    qed
    with Cons False show ?thesis by auto
  qed
qed simp

lemma incident_ok_restored:
  assumes "distinct (map icID cs)" and "\<forall>c \<in> set cs. validStatus (icStatus c)" and "length cs \<le> iMaxCases incident_NewStore"
    and "unmarshal data = Some cs"
  shows "incident_ok (fst (incident_Restore unmarshal data incident_NewStore))"
proof -
  let ?s = "fst (incident_Restore unmarshal data incident_NewStore)"
  have s: "iHeap ?s = cs" "iCases ?s = [0..<length cs]" "iByID ?s = index_cases cs 0 []" "iMaxCases ?s = iMaxCases incident_NewStore"
    using assms(3,4) by (simp_all add: incident_Restore_def Let_def incident_NewStore_def)
  have "map_of (iByID ?s) i = Some r \<longleftrightarrow> r \<in> set (iCases ?s) \<and> icID (case_at ?s r) = i" for i r
    using map_of_index_cases_iff [OF assms(1), of 0 "[]" i r] by (auto simp: s)
  moreover have "1 \<le> iMaxCases ?s" unfolding s(4) by (simp add: incident_NewStore_def)
  ultimately show ?thesis using assms(2,3) unfolding incident_ok_def by (simp add: s)
qed

lemma incident_ok_ids: "incident_ok s \<Longrightarrow> distinct (map icID (map (case_at s) (iCases s)))"
  unfolding incident_ok_def by (auto simp: distinct_map inj_on_def) (metis option.inject)

lemma incident_step_cap: "iMaxCases (incident_step op s) = iMaxCases s"
  by (cases op) (auto simp: incident_Add_def SetStatus_def Assign_def AddNote_def EditNote_def DeleteNote_def
      RestoreNote_def update_note_def Let_def split: option.splits)

definition snapshot_ok :: "(string \<Rightarrow> incident_case list option) \<Rightarrow> db \<Rightarrow> bool" where
  "snapshot_ok unmarshal d \<longleftrightarrow>
     (\<forall>data cs. LoadSnapshot ''cases'' d = Some data \<longrightarrow> unmarshal data = Some cs \<longrightarrow>
        distinct (map icID cs) \<and> (\<forall>c \<in> set cs. validStatus (icStatus c)) \<and> length cs \<le> iMaxCases incident_NewStore)"

lemma incident_NewStore_ok: "incident_ok incident_NewStore"
  by (simp add: incident_ok_def incident_NewStore_def)

lemma restored_ok:
  assumes "snapshot_ok unmarshal d"
  shows "incident_ok (restored_cases unmarshal d) \<and> iMaxCases (restored_cases unmarshal d) = iMaxCases incident_NewStore"
proof (cases "LoadSnapshot ''cases'' d")
  case None
  then show ?thesis by (simp add: restored_cases_def incident_NewStore_ok)
next
  case data: (Some data)
  show ?thesis
  proof (cases "unmarshal data")
    case None
    with data show ?thesis by (simp add: restored_cases_def incident_Restore_def incident_NewStore_ok)
  next
    case (Some cs)
    with assms data incident_ok_restored [of cs unmarshal data] show ?thesis
      by (simp add: restored_cases_def snapshot_ok_def) (simp add: incident_Restore_def Let_def)
  qed
qed

lemma snapshot_ok_persist:
  assumes "incident_ok s" and "iMaxCases s = iMaxCases incident_NewStore" and "reads_back marshal unmarshal (map (case_at s) (iCases s))"
  shows "snapshot_ok unmarshal (persistCases marshal now s d)"
  unfolding snapshot_ok_def
proof (intro allI impI)
  let ?cs = "map (case_at s) (iCases s)"
  fix data cs assume "LoadSnapshot ''cases'' (persistCases marshal now s d) = Some data" "unmarshal data = Some cs"
  then have eq: "map icID cs = map icID ?cs" "map icStatus cs = map icStatus ?cs"
    using assms(3) by (auto simp: persistCases_def LoadSnapshot_def SaveSnapshot_def incident_Snapshot_def reads_back_def)
  have "\<forall>v \<in> set (map icStatus ?cs). validStatus v" using assms(1) by (auto simp: incident_ok_def)
  then have "\<forall>v \<in> set (map icStatus cs). validStatus v" by (simp only: eq)
  moreover have "length cs \<le> iMaxCases incident_NewStore"
    using arg_cong [OF eq(1), of length] assms(1,2) by (simp add: incident_ok_def)
  moreover have "distinct (map icID cs)" using incident_ok_ids [OF assms(1)] by (simp only: eq)
  ultimately show "distinct (map icID cs) \<and> (\<forall>c \<in> set cs. validStatus (icStatus c)) \<and> length cs \<le> iMaxCases incident_NewStore"
    by simp
qed

lemma case_life_ok:
  "case_life marshal unmarshal s d \<Longrightarrow> incident_ok s \<and> iMaxCases s = iMaxCases incident_NewStore \<and> snapshot_ok unmarshal d"
proof (induction rule: case_life.induct)
  case (life_start d)
  then have "snapshot_ok unmarshal d" by (simp add: snapshot_ok_def)
  with restored_ok show ?case by blast
next
  case (life_step s d op)
  then show ?case using incident_step_ok incident_step_cap by metis
next
  case (life_save s d now)
  then show ?case using snapshot_ok_persist by blast
next
  case (life_other s d key data now)
  then have "LoadSnapshot ''cases'' (SaveSnapshot key data now d) = LoadSnapshot ''cases'' d"
    by (simp add: LoadSnapshot_def SaveSnapshot_def)
  with life_other show ?case by (simp add: snapshot_ok_def)
next
  case (life_restart s d)
  with restored_ok show ?case by blast
qed

subsection \<open>Grouping\<close>

definition total_count :: "incident_store \<Rightarrow> int" where
  "total_count s = sum_list (map icCount (iHeap s))"

fun detections :: "incident_op list \<Rightarrow> nat" where
  "detections [] = 0"
| "detections (IAdd fresh now f # ops) = Suc (detections ops)"
| "detections (op # ops) = detections ops"

lemma detections_append [simp]: "detections (xs @ ys) = detections xs + detections ys"
  by (induction xs rule: detections.induct) auto

lemma sum_list_update_int:
  "r < length xs \<Longrightarrow> sum_list (map f (xs[r := c])) = sum_list (map f xs) - f (xs ! r) + (f c :: int)"
  by (induction xs arbitrary: r) (auto split: nat.splits)

lemma total_count_set_case:
  "r < length (iHeap s) \<Longrightarrow> total_count (set_case r c s) = total_count s - icCount (case_at s r) + icCount c"
  by (simp add: total_count_def sum_list_update_int)

lemma total_count_Add:
  assumes "incident_ok s"
  shows "total_count (fst (incident_Add fresh now f s)) = total_count s + 1"
proof (cases "find_active s now f (iCases s)")
  case (Some r)
  with find_active_split [OF Some] assms have "r < length (iHeap s)" by (auto simp: incident_ok_def)
  with Some show ?thesis by (simp add: incident_Add_def total_count_set_case)
next
  case None
  then show ?thesis by (simp add: incident_Add_def Let_def total_count_def new_case_def)
qed

lemma total_count_step:
  assumes "incident_ok s"
  shows "total_count (incident_step op s) = total_count s + int (detections [op])"
  using assms
  by (cases op)
    (auto simp: total_count_Add SetStatus_def Assign_def AddNote_def EditNote_def DeleteNote_def
      RestoreNote_def update_note_def Let_def indexed_valid total_count_set_case split: option.splits)

lemma total_count_run:
  "incident_run s ops s' \<Longrightarrow> incident_ok s \<Longrightarrow> total_count s' = total_count s + int (detections ops)"
proof (induction rule: incident_run.induct)
  case (incident_next s ops s' op)
  then have "incident_ok s'" by (auto intro: incident_run_ok)
  with incident_next show ?case by (simp add: total_count_step)
qed simp

text \<open>A case that cannot take a finding now cannot take it later either.\<close>

lemma groups_with_antimono:
  "groups_with s now' f c \<Longrightarrow> now \<le> now' \<Longrightarrow> groups_with s now f c"
  by (auto simp: groups_with_def time_sub_def)

lemma groups_with_frame:
  "iGroupWindow s' = iGroupWindow s \<Longrightarrow> fRuleID g = fRuleID f \<Longrightarrow> fPID g = fPID f \<Longrightarrow>
     groups_with s' now g c = groups_with s now f c"
  by (simp add: groups_with_def)

lemma Add_again:
  assumes ok: "incident_ok s" and add: "incident_Add fresh now f s = (s1, r)"
    and g: "fRuleID g = fRuleID f" "fPID g = fPID f" and t: "now \<le> now'" "time_sub now' now \<le> iGroupWindow s"
  shows "snd (incident_Add fresh' now' g s1) = r"
proof -
  have w: "iGroupWindow s1 = iGroupWindow s"
    using add by (auto simp: incident_Add_def Let_def split: option.splits if_splits)
  have grp: "groups_with s1 now' g c = groups_with s now' f c" for c
    using groups_with_frame [OF w g] by simp
  obtain xs ys where cs: "iCases s1 = xs @ r # ys"
    and live: "groups_with s now' f (case_at s1 r)"
    and old: "\<forall>x \<in> set xs. case_at s1 x = case_at s x \<and> \<not> groups_with s now f (case_at s x)"
  proof (cases "find_active s now f (iCases s)")
    case (Some q)
    from find_active_split [OF Some] obtain xs ys where xs: "iCases s = xs @ q # ys"
      "groups_with s now f (case_at s q)" "\<forall>x \<in> set xs. \<not> groups_with s now f (case_at s x)" by blast
    have q: "q < length (iHeap s)" "q \<notin> set xs" using ok xs(1) by (auto simp: incident_ok_def)
    have other: "(iHeap s)[q := z] ! x = case_at s x" if "x \<in> set xs" for x z
      using q(2) that by (intro nth_list_update_neq) auto
    have s1: "r = q" "s1 = set_case q ((case_at s q)\<lparr>icCount := icCount (case_at s q) + 1, icLastSeen := now, icUpdatedAt := now\<rparr>) s"
      using add Some by (auto simp: incident_Add_def)
    show thesis
      by (rule that [of xs ys]) (use xs q s1 t(2) in \<open>auto simp: groups_with_def other\<close>)
  next
    case None
    then have none: "\<forall>x \<in> set (iCases s). \<not> groups_with s now f (case_at s x)" by (simp add: find_active_None)
    have len: "x < length (iHeap s)" if "x \<in> set (iCases s)" for x
      using ok that by (simp add: incident_ok_def)
    have s1: "r = length (iHeap s)" "iHeap s1 = iHeap s @ [new_case fresh now f]"
      "iCases s1 = iCases s @ [r] \<or> iCases s1 = tl (iCases s) @ [r]"
      using add None ok by (cases "iCases s"; auto simp: incident_Add_def Let_def incident_ok_def split: if_splits)+
    then obtain xs where xs: "iCases s1 = xs @ [r]" "set xs \<subseteq> set (iCases s)"
      by (metis list.set_sel(2) subsetI subset_refl tl_Nil)
    show thesis
      by (rule that [of xs "[]"])
        (use xs s1 none len t(2) in \<open>auto simp: nth_append groups_with_def new_case_def subset_iff\<close>)
  qed
  have "\<forall>x \<in> set xs. \<not> groups_with s1 now' g (case_at s1 x)"
    using old t(1) by (auto simp: grp dest: groups_with_antimono)
  with live have "find_active s1 now' g (iCases s1) = Some r"
    unfolding cs by (intro find_active_first) (simp_all add: grp)
  then show ?thesis by (simp add: incident_Add_def)
qed

subsection \<open>Notes are append-only\<close>

text \<open>The texts a note has had, oldest first, the current one last.\<close>

definition note_trail :: "case_note \<Rightarrow> string list" where
  "note_trail n = map nrText (nRevisions n) @ [nText n]"

definition note_extends :: "case_note \<Rightarrow> case_note \<Rightarrow> bool" where
  "note_extends n n' \<longleftrightarrow>
     nID n' = nID n \<and> nAuthor n' = nAuthor n \<and> nAt n' = nAt n \<and> prefix (note_trail n) (note_trail n')"

definition case_extends :: "incident_case \<Rightarrow> incident_case \<Rightarrow> bool" where
  "case_extends c c' \<longleftrightarrow>
     icID c' = icID c \<and> icRuleID c' = icRuleID c \<and> icPID c' = icPID c \<and> icFirstSeen c' = icFirstSeen c \<and>
     icChain c' = icChain c \<and> icCount c \<le> icCount c' \<and> length (icNotes c) \<le> length (icNotes c') \<and>
     (\<forall>k < length (icNotes c). note_extends (icNotes c ! k) (icNotes c' ! k))"

definition store_extends :: "incident_store \<Rightarrow> incident_store \<Rightarrow> bool" where
  "store_extends s s' \<longleftrightarrow>
     length (iHeap s) \<le> length (iHeap s') \<and> (\<forall>r < length (iHeap s). case_extends (case_at s r) (case_at s' r))"

lemma note_extends_refl [simp]: "note_extends n n"
  by (simp add: note_extends_def)

lemma case_extends_refl [simp]: "case_extends c c"
  by (simp add: case_extends_def)

lemma store_extends_refl [simp]: "store_extends s s"
  by (simp add: store_extends_def)

lemma note_extends_trans: "note_extends a b \<Longrightarrow> note_extends b c \<Longrightarrow> note_extends a c"
  by (auto simp: note_extends_def intro: prefix_order.trans)

lemma case_extends_trans: "case_extends a b \<Longrightarrow> case_extends b c \<Longrightarrow> case_extends a c"
  unfolding case_extends_def by (auto intro: note_extends_trans order_trans)

lemma store_extends_trans: "store_extends a b \<Longrightarrow> store_extends b c \<Longrightarrow> store_extends a c"
  unfolding store_extends_def by (auto intro: case_extends_trans)

lemma store_extends_set_case: "case_extends (case_at s r) c \<Longrightarrow> store_extends s (set_case r c s)"
  by (auto simp: store_extends_def nth_update_at)

lemma case_extends_note:
  "note_extends (icNotes c ! k) n \<Longrightarrow> case_extends c (c\<lparr>icNotes := (icNotes c)[k := n], icUpdatedAt := t\<rparr>)"
  by (auto simp: case_extends_def nth_update_at)

lemma note_extends_edit: "note_extends n (edit_note t1 t2 editor text n)"
  by (simp add: note_extends_def note_trail_def edit_note_def)

lemma note_extends_tombstone:
  "note_extends n (n\<lparr>nDeleted := b, nDeletedAt := t, nDeletedBy := who\<rparr>)"
  by (simp add: note_extends_def note_trail_def)

lemma store_extends_Add: "store_extends s (fst (incident_Add fresh now f s))"
proof (cases "find_active s now f (iCases s)")
  case None
  then show ?thesis by (auto simp: incident_Add_def Let_def store_extends_def nth_append)
next
  case (Some r)
  then show ?thesis
    by (auto simp: incident_Add_def case_extends_def intro!: store_extends_set_case)
qed

lemma update_note_extends:
  assumes "\<And>n. note_extends n (g n)"
  shows "store_extends s (fst (update_note g t caseID noteID s))"
  using assms by (auto simp: update_note_def Let_def split: option.splits
      intro!: store_extends_set_case case_extends_note)

lemma EditNote_extends: "store_extends s (fst (EditNote t1 t2 t3 i n editor body s))"
  by (auto simp: EditNote_def Let_def split: option.splits
      intro!: store_extends_set_case case_extends_note note_extends_edit)

lemma AddNote_extends: "store_extends s (fst (AddNote fresh t1 t2 i author body s))"
  by (auto simp: AddNote_def case_extends_def nth_append Let_def split: option.splits
      intro!: store_extends_set_case)

lemma incident_step_extends: "store_extends s (incident_step op s)"
  by (cases op)
    (auto simp: store_extends_Add AddNote_extends EditNote_extends DeleteNote_def RestoreNote_def
      SetStatus_def Assign_def case_extends_def note_extends_tombstone split: option.splits
      intro!: store_extends_set_case update_note_extends)

lemma incident_run_extends: "incident_run s ops s' \<Longrightarrow> store_extends s s'"
  by (induction rule: incident_run.induct) (auto intro: store_extends_trans incident_step_extends)

subsection \<open>Properties\<close>

definition case_finding :: finding where
  "case_finding = \<lparr>fTimestamp = 5, fRuleID = ''R1'', fRule = ''r'', fPID = 7, fTenantID = '''', fSeverity = ''high'',
     fTechnique = '''', fDescription = '''', fChain = []\<rparr>"

definition demo_case_ops :: "incident_op list" where
  "demo_case_ops = [IAdd ''00'' 100 case_finding, IAddNote ''n1'' 101 102 ''case_00'' ''ana'' ''first'',
     IEditNote 103 104 105 ''case_00'' ''note_n1'' ''bob'' ''second'', IAdd ''01'' 200 case_finding]"

definition demo_cases :: incident_store where
  "demo_cases = fold incident_step demo_case_ops incident_NewStore"

lemma demo_cases_run: "incident_run incident_NewStore demo_case_ops demo_cases"
proof -
  let ?a = "incident_step (demo_case_ops ! 0) incident_NewStore"
  let ?b = "incident_step (demo_case_ops ! 1) ?a" and ?l = "\<lambda>k. take k demo_case_ops"
  let ?c = "incident_step (demo_case_ops ! 2) ?b"
  have 1: "incident_run incident_NewStore ([] @ [demo_case_ops ! 0]) ?a"
    by (rule incident_next [OF incident_done]) code_simp
  have 2: "incident_run incident_NewStore (([] @ [demo_case_ops ! 0]) @ [demo_case_ops ! 1]) ?b"
    by (rule incident_next [OF 1]) code_simp
  have 3: "incident_run incident_NewStore ((([] @ [demo_case_ops ! 0]) @ [demo_case_ops ! 1]) @ [demo_case_ops ! 2]) ?c"
    by (rule incident_next [OF 2]) code_simp
  have "incident_run incident_NewStore
      (((([] @ [demo_case_ops ! 0]) @ [demo_case_ops ! 1]) @ [demo_case_ops ! 2]) @ [demo_case_ops ! 3])
      (incident_step (demo_case_ops ! 3) ?c)"
    by (rule incident_next [OF 3]) code_simp
  then show ?thesis by (simp add: demo_cases_def demo_case_ops_def)
qed

text \<open>
  C27: in every state the case store of an agent reaches, through any operations, saves and restarts from what it
  saved, the identifier index and the case list agree: an identifier finds exactly the listed case that
  carries it, every listed case has a valid status, and at most \<open>maxCases\<close> cases are listed; provided that saved
  cases, when they can be read back, have the identifiers and states they were saved with.  (A snapshot from elsewhere with
  more cases than the cap breaks it.)
\<close>

theorem case_index_consistent:
  assumes "case_life marshal unmarshal s d"
  shows "incident_ok s"
  using case_life_ok [OF assms] by simp

definition demo_marshal :: "incident_case list \<Rightarrow> string" where
  "demo_marshal cs = concat (map (\<lambda>c. icID c @ [CHR 0x0A]) cs)"

text \<open>A reader for the two snapshots of the run below.\<close>

definition demo_unmarshal :: "string \<Rightarrow> incident_case list option" where
  "demo_unmarshal t = (if t = demo_marshal (map (case_at demo_cases) (iCases demo_cases)) then Some (map (case_at demo_cases) (iCases demo_cases)) else None)"

theorem case_index_consistent_witness:
  "incident_ok (restored_cases demo_unmarshal (persistCases demo_marshal 300 demo_cases \<lparr>dbEntries = [], dbSnapshots = []\<rparr>))"
proof -
  let ?d = "\<lparr>dbEntries = [], dbSnapshots = []\<rparr> :: db" and ?life = "case_life demo_marshal demo_unmarshal"
  have 0: "?life incident_NewStore ?d"
    using life_start [of ?d demo_marshal demo_unmarshal] by (simp add: restored_cases_def LoadSnapshot_def)
  have "incident_run s ops s' \<Longrightarrow> ?life s ?d \<Longrightarrow> ?life s' ?d" for s ops s'
    by (induction rule: incident_run.induct) (auto intro: life_step)
  from this [OF demo_cases_run 0] have 1: "?life demo_cases ?d" .
  have "reads_back demo_marshal demo_unmarshal (map (case_at demo_cases) (iCases demo_cases))"
    by (simp add: reads_back_def demo_unmarshal_def)
  from case_index_consistent [OF life_restart [OF life_save [OF 1 this, of 300]]] show ?thesis .
qed

text \<open>
  no detection is lost by grouping: along every run from a fresh store the counts of all cases
  ever opened add up to the number of detections recorded.
\<close>

theorem case_counts_conserved:
  assumes "incident_run incident_NewStore ops s"
  shows "sum_list (map icCount (iHeap s)) = int (detections ops)"
  using total_count_run [OF assms incident_NewStore_ok] by (simp add: total_count_def incident_NewStore_def)

theorem case_counts_conserved_witness: "sum_list (map icCount (iHeap demo_cases)) = 2"
  using case_counts_conserved [OF demo_cases_run] by (simp add: demo_case_ops_def)

text \<open>
  a recurrence does not open a second case: right after a detection is recorded, another one
  of the same rule and process within the grouping window goes into the same case.
\<close>

theorem recurrence_grouped:
  assumes "incident_run incident_NewStore ops s" and "incident_Add fresh now f s = (s1, r)"
    and "fRuleID g = fRuleID f" "fPID g = fPID f" and "now \<le> now'" "time_sub now' now \<le> iGroupWindow s"
  shows "snd (incident_Add fresh' now' g s1) = r"
  using incident_run_ok [OF assms(1) incident_NewStore_ok] assms(2-6) by (rule Add_again)

theorem recurrence_grouped_witness:
  "snd (incident_Add ''03'' 350 case_finding (fst (incident_Add ''02'' 300 case_finding demo_cases))) =
   snd (incident_Add ''02'' 300 case_finding demo_cases)"
proof (rule recurrence_grouped [OF demo_cases_run prod.collapse [symmetric]])
  show "time_sub 350 300 \<le> iGroupWindow demo_cases" by code_simp
qed simp_all

text \<open>
  analyst commentary is append-only: along every run the notes of a case keep their place,
  identifier, author and time, and the sequence of texts a note has had is only ever extended;
  neither an edit nor a deletion erases a text.
\<close>

theorem notes_append_only:
  assumes "incident_run s ops s'" and "r < length (iHeap s)" and "k < length (icNotes (case_at s r))"
  shows "nID (icNotes (case_at s' r) ! k) = nID (icNotes (case_at s r) ! k) \<and>
    nAuthor (icNotes (case_at s' r) ! k) = nAuthor (icNotes (case_at s r) ! k) \<and>
    prefix (note_trail (icNotes (case_at s r) ! k)) (note_trail (icNotes (case_at s' r) ! k)) \<and>
    k < length (icNotes (case_at s' r))"
  using incident_run_extends [OF assms(1)] assms(2,3)
  by (auto simp: store_extends_def case_extends_def note_extends_def)

theorem notes_append_only_witness:
  "prefix [''first'', ''second''] (note_trail (icNotes (case_at (incident_step
     (IDeleteNote 300 301 ''case_00'' ''note_n1'' ''eve'') demo_cases) 0) ! 0))"
proof -
  let ?op = "IDeleteNote 300 301 ''case_00'' ''note_n1'' ''eve''"
  have "incident_run demo_cases ([] @ [?op]) (incident_step ?op demo_cases)"
    by (rule incident_next [OF incident_done]) simp
  moreover have "0 < length (iHeap demo_cases)" "0 < length (icNotes (case_at demo_cases 0))"
    "note_trail (icNotes (case_at demo_cases 0) ! 0) = [''first'', ''second'']" by code_simp+
  ultimately show ?thesis using notes_append_only [of demo_cases "[] @ [?op]" "incident_step ?op demo_cases" 0 0] by simp
qed

text \<open>
  restoring a snapshot with more cases than the store keeps trims the case list but not the
  index: the oldest case is no longer listed and can still be fetched by its identifier.
\<close>

theorem restore_leaves_unlisted:
  assumes "unmarshal data = Some (c # cs)" and "distinct (map icID (c # cs))"
    and "iMaxCases s \<le> length cs" and "incident_Restore unmarshal data s = (s', True)"
  shows "incident_Get (icID c) s' = Some c \<and> c \<notin> set (map (case_at s') (iCases s'))"
proof -
  let ?b = "length (iHeap s)"
  have s': "iHeap s' = iHeap s @ c # cs" "iByID s' = index_cases (c # cs) ?b []"
    "iCases s' = keep_last (iMaxCases s) [?b..<Suc (?b + length cs)]"
    using assms(1,4) by (auto simp: incident_Restore_def Let_def)
  have "map_of (iByID s') (icID c) = Some ?b"
    using map_of_index_cases [of "icID c" cs] assms(2) by (simp add: s'(2))
  moreover have "case_at s' r \<in> set cs" if "r \<in> set (iCases s')" for r
  proof -
    have "iCases s' = drop (length cs - iMaxCases s) [Suc ?b..<Suc (?b + length cs)]"
      using assms(3) by (simp add: s'(3) keep_last_def Suc_diff_le del: upt_Suc)
    with that have "Suc ?b \<le> r" "r < Suc (?b + length cs)"
      by (metis atLeastLessThan_iff in_set_dropD set_upt)+
    then have "case_at s' r = cs ! (r - Suc ?b)" "r - Suc ?b < length cs"
      by (auto simp: s'(1) nth_append nth_Cons' Suc_diff_Suc)
    then show ?thesis by simp
  qed
  moreover have "c \<notin> set cs" using assms(2) by auto
  ultimately show ?thesis by (auto simp: incident_Get_def s'(1)) (metis s'(1))
qed

definition snapshot_cases :: "incident_case list" where
  "snapshot_cases = [new_case ''a'' 1 case_finding, new_case ''b'' 2 case_finding]"

theorem restore_leaves_unlisted_witness:
  "incident_Get ''case_a'' (fst (incident_Restore (\<lambda>_. Some snapshot_cases) ''[]'' (incident_NewStore\<lparr>iMaxCases := 1\<rparr>)))
     = Some (new_case ''a'' 1 case_finding)"
proof -
  let ?s = "incident_NewStore\<lparr>iMaxCases := 1\<rparr>"
  have "incident_Restore (\<lambda>_. Some snapshot_cases) ''[]'' ?s = (fst (incident_Restore (\<lambda>_. Some snapshot_cases) ''[]'' ?s), True)"
    by (simp add: incident_Restore_def Let_def)
  from restore_leaves_unlisted [OF _ _ _ this, of "new_case ''a'' 1 case_finding" "[new_case ''b'' 2 case_finding]"]
  show ?thesis by (simp add: snapshot_cases_def new_case_def)
qed

end
