(* ===== verification/Breaker.thy ===== *)
theory Breaker
  imports Float64 Correlator_Trace
begin

text \<open>
  The circuit breaker of \<^verbatim>\<open>src/pkg/breaker/breaker.go\<close>, which turns findings into automated
  responses.  \<open>cooldown_gate\<close> is the contract it shares with the correlation engine's rules:
  an attempt under a key is granted only when the last grant of that key is long enough ago, and
  a grant records its time.  The gap between grants is proved once from the contract and holds
  for both by interpretation.
\<close>

subsection \<open>Model\<close>

definition severityRank :: "(string, int) gomap" where
  "severityRank = [(''info'', 0), (''low'', 1), (''medium'', 2), (''high'', 3), (''critical'', 4)]"

record breaker_policy =
  bpEnabled :: bool
  bpMinSeverity :: string
  bpDefaultAction :: string
  bpRuleActions :: "(string, string) gomap"
  bpCooldownSecs :: float64

record breaker_decision =
  bdTrip :: bool
  bdAction :: string
  bdParams :: "(string, string) gomap"
  bdReason :: string

record breaker =
  bPolicy :: breaker_policy
  bLastTrip :: "(string, time) gomap"
  bTripCount :: int

definition breaker_New :: "breaker_policy \<Rightarrow> breaker" where
  "breaker_New p =
     (let p1 = (if bpMinSeverity p = '''' then p\<lparr>bpMinSeverity := ''critical''\<rparr> else p);
          p2 = (if bpDefaultAction p1 = '''' then p1\<lparr>bpDefaultAction := ''untrust_pid''\<rparr> else p1);
          p3 = (if bpCooldownSecs p2 \<le> 0 then p2\<lparr>bpCooldownSecs := 60\<rparr> else p2)
      in \<lparr>bPolicy = p3, bLastTrip = [], bTripCount = 0\<rparr>)"

definition breaker_Policy :: "breaker \<Rightarrow> breaker_policy" where
  "breaker_Policy b = bPolicy b"

definition Armed :: "breaker \<Rightarrow> bool" where
  "Armed b = bpEnabled (bPolicy b)"

definition SetArmed :: "bool \<Rightarrow> breaker \<Rightarrow> breaker" where
  "SetArmed on b = b\<lparr>bPolicy := (bPolicy b)\<lparr>bpEnabled := on\<rparr>\<rparr>"

definition TripCount :: "breaker \<Rightarrow> int" where
  "TripCount b = bTripCount b"

definition refuse :: "string \<Rightarrow> breaker_decision" where
  "refuse why = \<lparr>bdTrip = False, bdAction = '''', bdParams = [], bdReason = why\<rparr>"

definition breaker_action :: "breaker_policy \<Rightarrow> string \<Rightarrow> string" where
  "breaker_action p ruleID =
     (case map_of (bpRuleActions p) ruleID of
        None \<Rightarrow> bpDefaultAction p
      | Some a \<Rightarrow> if a \<noteq> '''' then a else bpDefaultAction p)"

definition trip_key :: "int \<Rightarrow> string \<Rightarrow> string" where
  "trip_key pid act = itoa pid @ '':'' @ act"

definition breaker_Evaluate :: "time \<Rightarrow> string \<Rightarrow> string \<Rightarrow> int \<Rightarrow> breaker \<Rightarrow> breaker \<times> breaker_decision" where
  "breaker_Evaluate now severity ruleID pid b =
     (if \<not> bpEnabled (bPolicy b) then (b, refuse ''breaker disarmed'')
      else if pid \<le> 0 then (b, refuse ''no target pid'')
      else if mget 0 severityRank severity < mget 0 severityRank (bpMinSeverity (bPolicy b))
        then (b, refuse ''below min severity'')
      else
        let act = breaker_action (bPolicy b) ruleID; key = trip_key pid act in
        if (case map_of (bLastTrip b) key of
              None \<Rightarrow> False
            | Some t \<Rightarrow> seconds (time_sub now t) < bpCooldownSecs (bPolicy b))
        then (b, refuse ''cooldown'')
        else
          (b\<lparr>bLastTrip := mput key now (bLastTrip b), bTripCount := bTripCount b + 1\<rparr>,
           \<lparr>bdTrip = True, bdAction = act, bdParams = [(''pid'', itoa pid)],
            bdReason = ''auto-response: '' @ severity @ '' finding '' @ ruleID\<rparr>))"

subsection \<open>Cooldown gates\<close>

locale cooldown_gate =
  fixes attempt :: "'e \<Rightarrow> 's \<Rightarrow> 's \<times> bool"
    and key :: "'s \<Rightarrow> 'e \<Rightarrow> 'k"
    and moment :: "'e \<Rightarrow> time"
    and last_grant :: "'s \<Rightarrow> 'k \<Rightarrow> time option"
    and elapsed :: "'s \<Rightarrow> 'e \<Rightarrow> time \<Rightarrow> bool"
    and valid :: "'e \<Rightarrow> bool"
  assumes granted: "valid e \<Longrightarrow> attempt e s = (s', True) \<Longrightarrow> last_grant s (key s e) = Some t \<Longrightarrow> elapsed s e t"
    and grant_recorded: "valid e \<Longrightarrow> attempt e s = (s', True) \<Longrightarrow> last_grant s' = (last_grant s)(key s e \<mapsto> moment e)"
    and refused: "valid e \<Longrightarrow> attempt e s = (s', False) \<Longrightarrow> last_grant s' = last_grant s"
    and key_fixed: "attempt e s = (s', g) \<Longrightarrow> key s' = key s"
    and elapsed_fixed: "attempt e s = (s', g) \<Longrightarrow> elapsed s' = elapsed s"
begin

fun attempts :: "'e list \<Rightarrow> 's \<Rightarrow> 's \<times> 'e list" where
  "attempts [] s = (s, [])"
| "attempts (e # es) s =
     (let (s1, g) = attempt e s; (s2, hs) = attempts es s1 in (s2, if g then e # hs else hs))"

text \<open>Since a grant at time \<open>t\<close>, the next grant of the same key waits long enough.\<close>

lemma first_grant_waits:
  "\<lbrakk>attempts es s = (s', hs); \<forall>e \<in> set es. valid e; last_grant s k = Some t;
    filter (\<lambda>e. key s e = k) hs = h # rest\<rbrakk> \<Longrightarrow> elapsed s h t"
proof (induction es arbitrary: s hs)
  case (Cons e es)
  obtain s1 g where a: "attempt e s = (s1, g)" by fastforce
  obtain hs1 where b: "attempts es s1 = (s', hs1)" and hs: "hs = (if g then e # hs1 else hs1)"
    using Cons.prems(1) a by (auto split: prod.splits)
  note fixed = key_fixed [OF a] elapsed_fixed [OF a]
  show ?case
  proof (cases "g \<and> key s e = k")
    case True
    then have "h = e" using Cons.prems(4) hs by simp
    then show ?thesis using granted [of e s s1 t] True a Cons.prems by simp
  next
    case False
    then have "last_grant s1 k = Some t"
      using Cons.prems(2,3) a grant_recorded [of e s s1] refused [of e s s1] by (cases g) auto
    moreover have "filter (\<lambda>e. key s1 e = k) hs1 = h # rest"
      using Cons.prems(4) False hs fixed by (auto split: if_splits)
    ultimately show ?thesis using Cons.IH [OF b] Cons.prems(2) fixed by simp
  qed
qed simp

text \<open>Consecutive grants of one key are spaced.\<close>

lemma grants_spaced:
  "\<lbrakk>attempts es s = (s', hs); \<forall>e \<in> set es. valid e; filter (\<lambda>e. key s e = k) hs = xs @ a # b # ys\<rbrakk> \<Longrightarrow>
     elapsed s b (moment a)"
proof (induction es arbitrary: s hs xs)
  case (Cons e es)
  obtain s1 g where at: "attempt e s = (s1, g)" by fastforce
  obtain hs1 where b: "attempts es s1 = (s', hs1)" and hs: "hs = (if g then e # hs1 else hs1)"
    using Cons.prems(1) at by (auto split: prod.splits)
  note fixed = key_fixed [OF at] elapsed_fixed [OF at]
  show ?case
  proof (cases "g \<and> key s e = k \<and> xs = []")
    case True
    then have ae: "a = e" and f: "filter (\<lambda>e. key s1 e = k) hs1 = b # ys"
      using Cons.prems(3) hs fixed by auto
    have "last_grant s1 k = Some (moment e)"
      using grant_recorded [of e s s1] True at Cons.prems(2) by simp
    from first_grant_waits [OF b _ this f] Cons.prems(2) fixed ae show ?thesis by simp
  next
    case False
    have "\<exists>zs. filter (\<lambda>e. key s1 e = k) hs1 = zs @ a # b # ys"
      using Cons.prems(3) False hs fixed by (cases xs) (auto split: if_splits)
    then show ?thesis using Cons.IH [OF b] Cons.prems(2) fixed by auto
  qed
qed simp

end

subsection \<open>The breaker is a gate\<close>

record breaker_event =
  beNow :: time
  beSeverity :: string
  beRuleID :: string
  bePID :: int

definition trip_attempt :: "breaker_event \<Rightarrow> breaker \<Rightarrow> breaker \<times> bool" where
  "trip_attempt e b =
     (let (b', d) = breaker_Evaluate (beNow e) (beSeverity e) (beRuleID e) (bePID e) b in (b', bdTrip d))"

definition event_key :: "breaker \<Rightarrow> breaker_event \<Rightarrow> string" where
  "event_key b e = trip_key (bePID e) (breaker_action (bPolicy b) (beRuleID e))"

definition cooled :: "breaker \<Rightarrow> breaker_event \<Rightarrow> time \<Rightarrow> bool" where
  "cooled b e t \<longleftrightarrow> bpCooldownSecs (bPolicy b) \<le> seconds (time_sub (beNow e) t)"

lemma Evaluate_cases:
  assumes "breaker_Evaluate now sev rl pid b = (b', d)"
  obtains (refused) "b' = b" "\<not> bdTrip d"
    | (tripped) "bdTrip d" "bpEnabled (bPolicy b)" "0 < pid"
        "mget 0 severityRank (bpMinSeverity (bPolicy b)) \<le> mget 0 severityRank sev"
        "bdAction d = breaker_action (bPolicy b) rl" "bdParams d = [(''pid'', itoa pid)]"
        "\<And>t. map_of (bLastTrip b) (trip_key pid (breaker_action (bPolicy b) rl)) = Some t \<Longrightarrow>
           bpCooldownSecs (bPolicy b) \<le> seconds (time_sub now t)"
        "b' = b\<lparr>bLastTrip := mput (trip_key pid (breaker_action (bPolicy b) rl)) now (bLastTrip b),
           bTripCount := bTripCount b + 1\<rparr>"
proof -
  let ?key = "trip_key pid (breaker_action (bPolicy b) rl)"
  let ?hot = "case map_of (bLastTrip b) ?key of None \<Rightarrow> False
    | Some t \<Rightarrow> seconds (time_sub now t) < bpCooldownSecs (bPolicy b)"
  consider "\<not> bpEnabled (bPolicy b) \<or> pid \<le> 0 \<or>
      mget 0 severityRank sev < mget 0 severityRank (bpMinSeverity (bPolicy b)) \<or> ?hot"
    | "bpEnabled (bPolicy b)" "0 < pid"
      "mget 0 severityRank (bpMinSeverity (bPolicy b)) \<le> mget 0 severityRank sev" "\<not> ?hot"
    by linarith
  then show thesis
  proof cases
    case 1
    then have "b' = b \<and> \<not> bdTrip d"
      using assms by (force simp: breaker_Evaluate_def refuse_def Let_def split: if_splits)
    then show thesis using refused by blast
  next
    case 2
    have "bpCooldownSecs (bPolicy b) \<le> seconds (time_sub now t)" if "map_of (bLastTrip b) ?key = Some t" for t
      using 2(4) that by simp
    moreover from 2 assms have "b' = b\<lparr>bLastTrip := mput ?key now (bLastTrip b), bTripCount := bTripCount b + 1\<rparr>"
      "d = \<lparr>bdTrip = True, bdAction = breaker_action (bPolicy b) rl, bdParams = [(''pid'', itoa pid)],
        bdReason = ''auto-response: '' @ sev @ '' finding '' @ rl\<rparr>"
      by (simp_all add: breaker_Evaluate_def Let_def)
    ultimately show thesis using 2(1-3) by (intro tripped) simp_all
  qed
qed

interpretation breaker_gate: cooldown_gate trip_attempt event_key beNow "\<lambda>b. map_of (bLastTrip b)" cooled "\<lambda>_. True"
proof unfold_locales
  fix e s s' g
  assume a: "trip_attempt e s = (s', g)"
  then obtain d where d: "breaker_Evaluate (beNow e) (beSeverity e) (beRuleID e) (bePID e) s = (s', d)" "g = bdTrip d"
    by (auto simp: trip_attempt_def split: prod.splits)
  from d(1) have "bPolicy s' = bPolicy s" by (cases rule: Evaluate_cases) auto
  then show "event_key s' = event_key s" "cooled s' = cooled s"
    by (simp_all add: event_key_def cooled_def fun_eq_iff)
next
  fix e s s' t
  assume "trip_attempt e s = (s', True)" and t: "map_of (bLastTrip s) (event_key s e) = Some t"
  then obtain d where d: "breaker_Evaluate (beNow e) (beSeverity e) (beRuleID e) (bePID e) s = (s', d)" "bdTrip d"
    by (auto simp: trip_attempt_def split: prod.splits)
  from d show "cooled s e t" using t by (cases rule: Evaluate_cases) (auto simp: cooled_def event_key_def)
next
  fix e s s'
  assume "trip_attempt e s = (s', True)"
  then obtain d where d: "breaker_Evaluate (beNow e) (beSeverity e) (beRuleID e) (bePID e) s = (s', d)" "bdTrip d"
    by (auto simp: trip_attempt_def split: prod.splits)
  from d show "map_of (bLastTrip s') = (map_of (bLastTrip s))(event_key s e \<mapsto> beNow e)"
    by (cases rule: Evaluate_cases) (auto simp: event_key_def)
next
  fix e s s'
  assume "trip_attempt e s = (s', False)"
  then obtain d where d: "breaker_Evaluate (beNow e) (beSeverity e) (beRuleID e) (bePID e) s = (s', d)" "\<not> bdTrip d"
    by (auto simp: trip_attempt_def split: prod.splits)
  from d show "map_of (bLastTrip s') = map_of (bLastTrip s)" by (cases rule: Evaluate_cases) auto
qed

subsection \<open>The rules of the correlation engine are a gate\<close>

record rule_event =
  reOrder :: "string list \<Rightarrow> string list"
  reSignal :: signal
  reHistory :: "signal list"
  reRule :: rule

definition rule_attempt :: "rule_event \<Rightarrow> correlator \<Rightarrow> correlator \<times> bool" where
  "rule_attempt e c =
     (let (c', fs) = ingest_rule (reOrder e) (reSignal e) (reHistory e) (reRule e) c in (c', fs \<noteq> []))"

interpretation rule_gate: cooldown_gate rule_attempt "\<lambda>c e. fireKey (sPID (reSignal e)) (rName (reRule e))"
  "\<lambda>e. sTimestamp (reSignal e)" "\<lambda>c. map_of (cLastFired c)"
  "\<lambda>c e t. rWindow (reRule e) \<le> time_sub (sTimestamp (reSignal e)) t" "\<lambda>_. True"
proof unfold_locales
  fix e s s' t
  assume "rule_attempt e s = (s', True)"
    and t: "map_of (cLastFired s) (fireKey (sPID (reSignal e)) (rName (reRule e))) = Some t"
  then obtain fs where "ingest_rule (reOrder e) (reSignal e) (reHistory e) (reRule e) s = (s', fs)" "fs \<noteq> []"
    by (auto simp: rule_attempt_def split: prod.splits)
  then show "rWindow (reRule e) \<le> time_sub (sTimestamp (reSignal e)) t"
    using t by (cases rule: ingest_rule_cases) (auto simp: cooling_def)
next
  fix e s s'
  assume "rule_attempt e s = (s', True)"
  then obtain fs where "ingest_rule (reOrder e) (reSignal e) (reHistory e) (reRule e) s = (s', fs)" "fs \<noteq> []"
    by (auto simp: rule_attempt_def split: prod.splits)
  then show "map_of (cLastFired s') = (map_of (cLastFired s))(fireKey (sPID (reSignal e)) (rName (reRule e)) \<mapsto> sTimestamp (reSignal e))"
    by (cases rule: ingest_rule_cases) (auto simp: record_fire_def suppressedLocked_frame)
next
  fix e s s'
  assume "rule_attempt e s = (s', False)"
  then obtain fs where "ingest_rule (reOrder e) (reSignal e) (reHistory e) (reRule e) s = (s', fs)" "fs = []"
    by (auto simp: rule_attempt_def split: prod.splits)
  then show "map_of (cLastFired s') = map_of (cLastFired s)"
    by (cases rule: ingest_rule_cases) (auto simp: suppressedLocked_frame)
qed simp_all

subsection \<open>Properties\<close>

definition armed_breaker :: breaker where
  "armed_breaker = breaker_New \<lparr>bpEnabled = True, bpMinSeverity = ''high'', bpDefaultAction = '''',
     bpRuleActions = [], bpCooldownSecs = 0\<rparr>"

text \<open>
  the breaker acts only when it may: a trip implies that the breaker is armed, the process
  identifier is positive and the severity reaches the configured threshold; the response is the
  rule's configured action (or the default) and targets exactly that process.  Otherwise the
  breaker's state, its cooldowns and its counter included, is unchanged.
\<close>

theorem breaker_trips_only_if:
  assumes "breaker_Evaluate now sev rl pid b = (b', d)"
  shows "if bdTrip d
    then bpEnabled (bPolicy b) \<and> 0 < pid \<and>
      mget 0 severityRank (bpMinSeverity (bPolicy b)) \<le> mget 0 severityRank sev \<and>
      bdAction d = breaker_action (bPolicy b) rl \<and> bdParams d = [(''pid'', itoa pid)] \<and>
      bTripCount b' = bTripCount b + 1
    else b' = b"
  using assms by (cases rule: Evaluate_cases) auto

theorem breaker_trips_only_if_witness:
  "bdTrip (snd (breaker_Evaluate 100 ''critical'' ''NS-CORR-001'' 42 armed_breaker)) \<and>
   bdAction (snd (breaker_Evaluate 100 ''critical'' ''NS-CORR-001'' 42 armed_breaker)) = ''untrust_pid''"
proof -
  have "bdTrip (snd (breaker_Evaluate 100 ''critical'' ''NS-CORR-001'' 42 armed_breaker))" by code_simp
  moreover have "breaker_action (bPolicy armed_breaker) ''NS-CORR-001'' = ''untrust_pid''" by code_simp
  ultimately show ?thesis
    using breaker_trips_only_if [OF prod.collapse [symmetric], of 100 "''critical''" "''NS-CORR-001''" 42 armed_breaker]
    by simp
qed

text \<open>
  one episode cannot storm an action: in every sequence of findings evaluated by the breaker,
  two consecutive trips for the same process and action are at least the cooldown apart.
\<close>

theorem breaker_trips_spaced:
  assumes "breaker_gate.attempts es b = (b', hs)"
    and "filter (\<lambda>e. event_key b e = k) hs = xs @ e1 # e2 # ys"
  shows "bpCooldownSecs (bPolicy b) \<le> seconds (time_sub (beNow e2) (beNow e1))"
  using breaker_gate.grants_spaced [OF assms(1) _ assms(2)] by (simp add: cooled_def)

definition trip_event :: "time \<Rightarrow> breaker_event" where
  "trip_event t = \<lparr>beNow = t, beSeverity = ''critical'', beRuleID = ''NS-CORR-001'', bePID = 42\<rparr>"

theorem breaker_trips_spaced_witness:
  "bpCooldownSecs (bPolicy armed_breaker) \<le> seconds (time_sub 100000000000 0)"
proof -
  let ?es = "[trip_event 0, trip_event 30000000000, trip_event 100000000000]"
  have 1: "trip_attempt (trip_event 0) armed_breaker =
      (armed_breaker\<lparr>bLastTrip := [(''42:untrust_pid'', 0)], bTripCount := 1\<rparr>, True)" by code_simp
  have 2: "trip_attempt (trip_event 30000000000) (armed_breaker\<lparr>bLastTrip := [(''42:untrust_pid'', 0)], bTripCount := 1\<rparr>)
      = (armed_breaker\<lparr>bLastTrip := [(''42:untrust_pid'', 0)], bTripCount := 1\<rparr>, False)" by code_simp
  have 3: "trip_attempt (trip_event 100000000000) (armed_breaker\<lparr>bLastTrip := [(''42:untrust_pid'', 0)], bTripCount := 1\<rparr>)
      = (armed_breaker\<lparr>bLastTrip := [(''42:untrust_pid'', 100000000000)], bTripCount := 2\<rparr>, True)" by code_simp
  have run: "breaker_gate.attempts ?es armed_breaker =
      (armed_breaker\<lparr>bLastTrip := [(''42:untrust_pid'', 100000000000)], bTripCount := 2\<rparr>,
       [trip_event 0, trip_event 100000000000])"
    by (simp add: 1 2 3)
  have "event_key armed_breaker (trip_event t) = event_key armed_breaker (trip_event 0)" for t
    by (simp add: event_key_def trip_event_def)
  then have "filter (\<lambda>e. event_key armed_breaker e = event_key armed_breaker (trip_event 0))
      [trip_event 0, trip_event 100000000000] = [] @ trip_event 0 # trip_event 100000000000 # []" by simp
  from breaker_trips_spaced [OF run this] show ?thesis by (simp add: trip_event_def)
qed

end
