(* ===== verification/LoginGuard.thy ===== *)
theory LoginGuard
  imports Prelude
begin

text \<open>
  The brute-force guard of \<^verbatim>\<open>src/pkg/platform/loginguard.go\<close>: failures per identity within a
  window, a lockout once the threshold is reached, a success that clears the record.
\<close>

record attempt_record =
  arFailures :: int
  arWindowStart :: time
  arLockedUntil :: time

record login_guard =
  lgRecords :: "(string, attempt_record) gomap"
  lgMaxFailures :: int
  lgWindow :: dur
  lgLockout :: dur

definition NewLoginGuard :: "int \<Rightarrow> dur \<Rightarrow> dur \<Rightarrow> login_guard" where
  "NewLoginGuard maxFailures window lockout =
     \<lparr>lgRecords = [],
      lgMaxFailures = (if maxFailures \<le> 0 then 5 else maxFailures),
      lgWindow = (if window \<le> 0 then 15 * minute else window),
      lgLockout = (if lockout \<le> 0 then 15 * minute else lockout)\<rparr>"

definition Allowed :: "time \<Rightarrow> string \<Rightarrow> login_guard \<Rightarrow> login_guard \<times> bool" where
  "Allowed now key g =
     (case map_of (lgRecords g) key of
        None \<Rightarrow> (g, True)
      | Some rc \<Rightarrow>
          if arLockedUntil rc = zero_time then (g, True)
          else if now < arLockedUntil rc then (g, False)
          else (g\<lparr>lgRecords := mdel key (lgRecords g)\<rparr>, True))"

definition RecordFailure :: "time \<Rightarrow> string \<Rightarrow> login_guard \<Rightarrow> login_guard" where
  "RecordFailure now key g =
     (let fresh = \<lparr>arFailures = 0, arWindowStart = now, arLockedUntil = zero_time\<rparr>;
          rc = (case map_of (lgRecords g) key of
                  None \<Rightarrow> fresh
                | Some r \<Rightarrow> if lgWindow g < time_sub now (arWindowStart r) then fresh else r);
          rc1 = rc\<lparr>arFailures := arFailures rc + 1\<rparr>;
          rc2 = (if lgMaxFailures g \<le> arFailures rc1 then rc1\<lparr>arLockedUntil := now + lgLockout g\<rparr> else rc1)
      in g\<lparr>lgRecords := mput key rc2 (lgRecords g)\<rparr>)"

definition RecordSuccess :: "string \<Rightarrow> login_guard \<Rightarrow> login_guard" where
  "RecordSuccess key g = g\<lparr>lgRecords := mdel key (lgRecords g)\<rparr>"

definition LockedUntil :: "string \<Rightarrow> login_guard \<Rightarrow> time" where
  "LockedUntil key g = (case map_of (lgRecords g) key of None \<Rightarrow> zero_time | Some rc \<Rightarrow> arLockedUntil rc)"

subsection \<open>A burst of failures\<close>

fun failures :: "string \<Rightarrow> time list \<Rightarrow> login_guard \<Rightarrow> login_guard" where
  "failures key [] g = g"
| "failures key (t # ts) g = failures key ts (RecordFailure t key g)"

lemma failures_append: "failures key (ts @ us) g = failures key us (failures key ts g)"
  by (induction ts arbitrary: g) simp_all

lemma RecordFailure_frame [simp]:
  "lgMaxFailures (RecordFailure t key g) = lgMaxFailures g" "lgWindow (RecordFailure t key g) = lgWindow g"
  "lgLockout (RecordFailure t key g) = lgLockout g"
  "k \<noteq> key \<Longrightarrow> map_of (lgRecords (RecordFailure t key g)) k = map_of (lgRecords g) k"
  by (simp_all add: RecordFailure_def Let_def)

lemma failures_frame [simp]:
  "lgMaxFailures (failures key ts g) = lgMaxFailures g" "lgWindow (failures key ts g) = lgWindow g"
  "lgLockout (failures key ts g) = lgLockout g"
  "k \<noteq> key \<Longrightarrow> map_of (lgRecords (failures key ts g)) k = map_of (lgRecords g) k"
  by (induction ts arbitrary: g) simp_all

text \<open>The record after a burst that starts without one and stays inside the window.\<close>

lemma burst_record:
  "map_of (lgRecords g) key = None \<Longrightarrow> \<forall>t \<in> set ts. time_sub t t0 \<le> lgWindow g \<Longrightarrow>
     \<exists>rc. map_of (lgRecords (failures key (t0 # ts) g)) key = Some rc \<and> arWindowStart rc = t0 \<and>
       arFailures rc = 1 + int (length ts) \<and>
       arLockedUntil rc = (if lgMaxFailures g \<le> 1 + int (length ts) then last (t0 # ts) + lgLockout g else zero_time)"
proof (induction ts rule: rev_induct)
  case Nil
  then show ?case by (simp add: RecordFailure_def Let_def)
next
  case (snoc t ts)
  then obtain rc where rc: "map_of (lgRecords (failures key (t0 # ts) g)) key = Some rc" "arWindowStart rc = t0"
    "arFailures rc = 1 + int (length ts)"
    "arLockedUntil rc = (if lgMaxFailures g \<le> 1 + int (length ts) then last (t0 # ts) + lgLockout g else zero_time)"
    by auto
  have "failures key (t0 # ts @ [t]) g = RecordFailure t key (failures key (t0 # ts) g)"
    using failures_append [of key "t0 # ts" "[t]" g] by simp
  moreover have "time_sub t t0 \<le> lgWindow g" using snoc.prems by simp
  ultimately show ?case
    using rc by (auto simp: RecordFailure_def Let_def simp del: failures.simps)
qed

subsection \<open>Properties\<close>

text \<open>
  a brute-force burst is locked out: once an identity without a record has failed at least
  \<open>maxFailures\<close> times within the window, it is refused at every time before the last failure plus
  the lockout, and the refusal itself changes nothing; from that time on it is admitted again with
  a clean record.
\<close>

theorem burst_locks_out:
  assumes "map_of (lgRecords g) key = None" and "\<forall>t \<in> set ts. time_sub t t0 \<le> lgWindow g"
    and "lgMaxFailures g \<le> int (length (t0 # ts))" and "0 < last (t0 # ts)" "0 < lgLockout g"
    and "g' = failures key (t0 # ts) g"
  shows "LockedUntil key g' = last (t0 # ts) + lgLockout g \<and>
    (if now < last (t0 # ts) + lgLockout g then Allowed now key g' = (g', False)
     else snd (Allowed now key g') \<and> map_of (lgRecords (fst (Allowed now key g'))) key = None)"
proof -
  from burst_record [OF assms(1,2)] obtain rc where rc: "map_of (lgRecords g') key = Some rc"
    "arLockedUntil rc = last (t0 # ts) + lgLockout g"
    using assms(3,6) by auto
  with assms(4,5) show ?thesis by (simp add: LockedUntil_def Allowed_def)
qed

theorem burst_locks_out_witness:
  "\<not> snd (Allowed 500 ''eve'' (failures ''eve'' [100, 101, 102, 103, 104] (NewLoginGuard 0 0 0)))"
  using burst_locks_out [OF _ _ _ _ _ refl, of "NewLoginGuard 0 0 0" "''eve''" "[101, 102, 103, 104]" 100 500]
  by (simp add: NewLoginGuard_def time_sub_def)

text \<open>
  fewer failures than the threshold never lock an identity out, whatever happens to other
  identities, and a success wipes the slate.
\<close>

theorem below_threshold_allowed:
  assumes "map_of (lgRecords g) key = None" and "\<forall>t \<in> set ts. time_sub t t0 \<le> lgWindow g"
    and "int (length (t0 # ts)) < lgMaxFailures g" and "other \<noteq> key"
  shows "snd (Allowed now key (failures other us (failures key (t0 # ts) g))) \<and>
    snd (Allowed now key (RecordSuccess key g2))"
proof -
  from burst_record [OF assms(1,2)] assms(3) obtain rc where
    "map_of (lgRecords (failures key (t0 # ts) g)) key = Some rc" "arLockedUntil rc = zero_time"
    by auto
  with assms(4) show ?thesis by (simp add: Allowed_def RecordSuccess_def)
qed

theorem below_threshold_allowed_witness:
  "snd (Allowed 500 ''ana'' (failures ''eve'' [200, 201, 202, 203, 204] (failures ''ana'' [100, 101] (NewLoginGuard 0 0 0))))"
  using below_threshold_allowed [of "NewLoginGuard 0 0 0" "''ana''" "[101]" 100 "''eve''" 500 "[200, 201, 202, 203, 204]"]
  by (simp add: NewLoginGuard_def time_sub_def)

end
