(* ===== verification/AIGuard.thy ===== *)
theory AIGuard
  imports Float64 "HOL-Library.List_Lexorder" "HOL-Library.Char_ord"
begin

text \<open>
  The detectors of \<^verbatim>\<open>src/pkg/aiguard\<close>: data-loss prevention (\<^verbatim>\<open>dlp.go\<close>), prompt-injection
  scoring (\<^verbatim>\<open>injection.go\<close>) and the threat taxonomy their findings carry (\<^verbatim>\<open>taxonomy.go\<close>).
  A compiled regular expression is the function from a text to the index pairs of its successive
  non-overlapping matches, leftmost first; \<open>mustCompile\<close>, the engine itself, is a parameter.
\<close>

subsection \<open>Taxonomy\<close>

record owasp_category =
  owID :: string
  owTitle :: string

definition owaspLLM :: "(string, owasp_category) gomap" where
  "owaspLLM =
     [(''LLM01'', \<lparr>owID = ''LLM01'', owTitle = ''Prompt Injection''\<rparr>),
      (''LLM02'', \<lparr>owID = ''LLM02'', owTitle = ''Sensitive Information Disclosure''\<rparr>),
      (''LLM03'', \<lparr>owID = ''LLM03'', owTitle = ''Supply Chain''\<rparr>),
      (''LLM04'', \<lparr>owID = ''LLM04'', owTitle = ''Data and Model Poisoning''\<rparr>),
      (''LLM05'', \<lparr>owID = ''LLM05'', owTitle = ''Improper Output Handling''\<rparr>),
      (''LLM06'', \<lparr>owID = ''LLM06'', owTitle = ''Excessive Agency''\<rparr>),
      (''LLM07'', \<lparr>owID = ''LLM07'', owTitle = ''System Prompt Leakage''\<rparr>),
      (''LLM08'', \<lparr>owID = ''LLM08'', owTitle = ''Vector and Embedding Weaknesses''\<rparr>),
      (''LLM09'', \<lparr>owID = ''LLM09'', owTitle = ''Misinformation''\<rparr>),
      (''LLM10'', \<lparr>owID = ''LLM10'', owTitle = ''Unbounded Consumption''\<rparr>)]"

definition LookupOWASP :: "string \<Rightarrow> owasp_category option" where
  "LookupOWASP i = map_of owaspLLM i"

record atlas_technique =
  atID :: string
  atName :: string

definition atlasForOWASP :: "(string, atlas_technique) gomap" where
  "atlasForOWASP =
     [(''LLM01'', \<lparr>atID = ''AML.T0051'', atName = ''LLM Prompt Injection''\<rparr>),
      (''LLM02'', \<lparr>atID = ''AML.T0057'', atName = ''LLM Data Leakage''\<rparr>),
      (''LLM03'', \<lparr>atID = ''AML.T0010'', atName = ''ML Supply Chain Compromise''\<rparr>),
      (''LLM04'', \<lparr>atID = ''AML.T0020'', atName = ''Poison Training Data''\<rparr>),
      (''LLM06'', \<lparr>atID = ''AML.T0053'', atName = ''LLM Plugin Compromise''\<rparr>),
      (''LLM07'', \<lparr>atID = ''AML.T0056'', atName = ''LLM Meta Prompt Extraction''\<rparr>),
      (''LLM10'', \<lparr>atID = ''AML.T0034'', atName = ''Cost Harvesting''\<rparr>)]"

text \<open>An unknown identifier gives the zero category, whose identifier is empty.\<close>

definition MapTechnique :: "string \<Rightarrow> owasp_category \<times> atlas_technique option" where
  "MapTechnique i =
     (case LookupOWASP i of
        None \<Rightarrow> (\<lparr>owID = '''', owTitle = ''''\<rparr>, None)
      | Some ow \<Rightarrow> (ow, map_of atlasForOWASP i))"

record guard_finding =
  gfSource :: string
  gfVerdict :: string
  gfScore :: float64
  gfOWASP :: "owasp_category option"
  gfATLAS :: "atlas_technique option"
  gfDetail :: string

subsection \<open>Regular expressions\<close>

type_synonym compiled = "string \<Rightarrow> (nat \<times> nat) list"

definition substring :: "string \<Rightarrow> nat \<times> nat \<Rightarrow> string" where
  "substring s p = take (snd p - fst p) (drop (fst p) s)"

definition FindAllString :: "compiled \<Rightarrow> string \<Rightarrow> string list" where
  "FindAllString re s = map (substring s) (re s)"

definition FindString :: "compiled \<Rightarrow> string \<Rightarrow> string" where
  "FindString re s = (case re s of [] \<Rightarrow> '''' | p # _ \<Rightarrow> substring s p)"

definition FindStringIndex :: "compiled \<Rightarrow> string \<Rightarrow> (nat \<times> nat) option" where
  "FindStringIndex re s = (case re s of [] \<Rightarrow> None | p # _ \<Rightarrow> Some p)"

subsection \<open>Data-loss prevention\<close>

record dlp_pattern =
  dpType :: string
  dpRe :: compiled
  dpValidate :: "(string \<Rightarrow> bool) option"

record dlp_finding =
  dfType :: string
  dfRedacted :: string

record dlp_result =
  drLeaked :: bool
  drFindings :: "dlp_finding list"

definition redact :: "string \<Rightarrow> string" where
  "redact s0 =
     (let s = trim_space s0 in
      if length s \<le> 6 then ''******'' else take 4 s @ replicate 6 CHR ''*'')"

definition dlp_valid :: "dlp_pattern \<Rightarrow> string \<Rightarrow> bool" where
  "dlp_valid p m = (case dpValidate p of None \<Rightarrow> True | Some v \<Rightarrow> v m)"

fun scan_matches :: "dlp_pattern \<Rightarrow> string list \<Rightarrow> dlp_finding list" where
  "scan_matches p [] = []"
| "scan_matches p (m # ms) =
     (if \<not> dlp_valid p m then scan_matches p ms
      else \<lparr>dfType = dpType p, dfRedacted = redact m\<rparr> # scan_matches p ms)"

fun scan_patterns :: "dlp_pattern list \<Rightarrow> string \<Rightarrow> dlp_finding list" where
  "scan_patterns [] s = []"
| "scan_patterns (p # ps) s = scan_matches p (FindAllString (dpRe p) s) @ scan_patterns ps s"

definition Scan :: "dlp_pattern list \<Rightarrow> string \<Rightarrow> dlp_result" where
  "Scan ps s = (let fs = scan_patterns ps s in \<lparr>drLeaked = 0 < length fs, drFindings = fs\<rparr>)"

fun AnyLeaked :: "dlp_pattern list \<Rightarrow> string \<Rightarrow> bool" where
  "AnyLeaked [] s = False"
| "AnyLeaked (p # ps) s =
     (let loc = FindString (dpRe p) s in
      if loc \<noteq> '''' \<and> dlp_valid p loc then True else AnyLeaked ps s)"

definition luhn_digits :: "string \<Rightarrow> nat list" where
  "luhn_digits s = map (\<lambda>c. code c - 48) (filter is_digit s)"

definition luhn_double :: "nat \<Rightarrow> nat" where
  "luhn_double d = (if 9 < d * 2 then d * 2 - 9 else d * 2)"

text \<open>The loop from the last digit to the first; \<open>dbl\<close> toggles.\<close>

fun luhn_loop :: "nat list \<Rightarrow> bool \<Rightarrow> nat \<Rightarrow> nat" where
  "luhn_loop [] dbl acc = acc"
| "luhn_loop (d # ds) dbl acc = luhn_loop ds (\<not> dbl) (acc + (if dbl then luhn_double d else d))"

definition luhnValid :: "string \<Rightarrow> bool" where
  "luhnValid s =
     (let digits = luhn_digits s in
      if length digits < 13 \<or> 19 < length digits then False
      else luhn_loop (rev digits) False 0 mod 10 = 0)"

subsection \<open>Prompt injection\<close>

abbreviation (input) VerdictClean :: string where "VerdictClean \<equiv> ''clean''"
abbreviation (input) VerdictSuspicious :: string where "VerdictSuspicious \<equiv> ''suspicious''"
abbreviation (input) VerdictMalicious :: string where "VerdictMalicious \<equiv> ''malicious''"

record injection_rule =
  irName :: string
  irRe :: compiled
  irWeight :: float64
  irTechnique :: string

record injection_match =
  imRule :: string
  imWeight :: float64
  imTechnique :: string
  imExcerpt :: string

record injection_result =
  jrVerdict :: string
  jrScore :: float64
  jrMatches :: "injection_match list"
  jrTechniques :: "string list"

record injection_detector =
  idRules :: "injection_rule list"
  idSuspiciousAt :: float64
  idMaliciousAt :: float64

definition SetThresholds :: "float64 \<Rightarrow> float64 \<Rightarrow> injection_detector \<Rightarrow> injection_detector" where
  "SetThresholds sus mal d = d\<lparr>idSuspiciousAt := sus, idMaliciousAt := mal\<rparr>"

definition injection_AddRule ::
  "(string \<Rightarrow> compiled option) \<Rightarrow> string \<Rightarrow> string \<Rightarrow> float64 \<Rightarrow> string \<Rightarrow> injection_detector \<Rightarrow> injection_detector \<times> bool" where
  "injection_AddRule cmp name pattern weight technique d =
     (case cmp (''(?i)'' @ pattern) of
        None \<Rightarrow> (d, False)
      | Some re \<Rightarrow>
          (d\<lparr>idRules := idRules d @ [\<lparr>irName = name, irRe = re, irWeight = weight, irTechnique = technique\<rparr>]\<rparr>, True))"

definition excerpt :: "string \<Rightarrow> nat \<times> nat \<Rightarrow> string" where
  "excerpt s p =
     (let from = (if fst p < 12 then 0 else fst p - 12);
          upto = (if length s < snd p + 12 then length s else snd p + 12)
      in trim_space (substring s (from, upto)))"

text \<open>The accumulator: the matches, the score and the set of techniques as its distinct list.\<close>

fun detect_loop ::
  "injection_rule list \<Rightarrow> string \<Rightarrow> injection_match list \<times> float64 \<times> string list \<Rightarrow> injection_match list \<times> float64 \<times> string list" where
  "detect_loop [] s acc = acc"
| "detect_loop (r # rs) s (ms, score, techs) =
     (case FindStringIndex (irRe r) s of
        None \<Rightarrow> detect_loop rs s (ms, score, techs)
      | Some loc \<Rightarrow>
          detect_loop rs s
            (ms @ [\<lparr>imRule = irName r, imWeight = irWeight r, imTechnique = irTechnique r, imExcerpt = excerpt s loc\<rparr>],
             fround (score + irWeight r),
             if irTechnique r \<in> set techs then techs else techs @ [irTechnique r]))"

text \<open>\<^verbatim>\<open>float64(int(f*100+0.5)) / 100\<close>\<close>

definition round2 :: "float64 \<Rightarrow> float64" where
  "round2 f = fround (fround (of_int (to_int64 (fround (fround (f * 100) + 1 / 2)))) / 100)"

text \<open>\<^verbatim>\<open>sort.Strings\<close> is \<open>sort\<close> with the lexicographic order on bytes.\<close>

definition Detect :: "injection_detector \<Rightarrow> string \<Rightarrow> injection_result" where
  "Detect d s =
     (let (ms, score, techs) = detect_loop (idRules d) s ([], 0, [])
      in \<lparr>jrVerdict =
            (if idMaliciousAt d \<le> score then VerdictMalicious
             else if idSuspiciousAt d \<le> score then VerdictSuspicious else VerdictClean),
          jrScore = round2 score, jrMatches = ms, jrTechniques = sort techs\<rparr>)"

definition EnrichInjection :: "injection_result \<Rightarrow> guard_finding list" where
  "EnrichInjection r =
     map (\<lambda>tech.
       let (ow, atl) = MapTechnique tech
       in \<lparr>gfSource = ''injection'', gfVerdict = jrVerdict r, gfScore = jrScore r,
           gfOWASP = (if owID ow \<noteq> '''' then Some ow else None), gfATLAS = atl, gfDetail = ''''\<rparr>)
       (jrTechniques r)"

subsection \<open>Scanning\<close>

lemma scan_matches_conv:
  "scan_matches p ms = map (\<lambda>m. \<lparr>dfType = dpType p, dfRedacted = redact m\<rparr>) (filter (dlp_valid p) ms)"
  by (induction ms) auto

lemma scan_patterns_Nil:
  "scan_patterns ps s = [] \<longleftrightarrow> (\<forall>p \<in> set ps. \<forall>m \<in> set (FindAllString (dpRe p) s). \<not> dlp_valid p m)"
  by (induction ps) (auto simp: scan_matches_conv filter_empty_conv)

lemma FindString_in: "FindString re s \<noteq> '''' \<Longrightarrow> FindString re s \<in> set (FindAllString re s)"
  by (auto simp: FindString_def FindAllString_def split: list.splits)

lemma AnyLeaked_iff:
  "AnyLeaked ps s \<longleftrightarrow> (\<exists>p \<in> set ps. FindString (dpRe p) s \<noteq> '''' \<and> dlp_valid p (FindString (dpRe p) s))"
  by (induction ps) (auto simp: Let_def)

lemma scan_patterns_mem:
  "f \<in> set (scan_patterns ps s) \<longleftrightarrow>
     (\<exists>p \<in> set ps. \<exists>m \<in> set (FindAllString (dpRe p) s). dlp_valid p m \<and>
        f = \<lparr>dfType = dpType p, dfRedacted = redact m\<rparr>)"
  by (induction ps) (auto simp: scan_matches_conv)

lemma drLeaked_iff:
  "drLeaked (Scan ps s) \<longleftrightarrow> (\<exists>p \<in> set ps. \<exists>m \<in> set (FindAllString (dpRe p) s). dlp_valid p m)"
  using scan_patterns_Nil [of ps s] by (auto simp: Scan_def Let_def)

lemma AnyLeaked_sound: "AnyLeaked ps s \<Longrightarrow> drLeaked (Scan ps s)"
  unfolding AnyLeaked_iff drLeaked_iff using FindString_in by blast

lemma AnyLeaked_plain:
  assumes "\<forall>p \<in> set ps. dpValidate p = None \<and> [] \<notin> set (FindAllString (dpRe p) s)"
  shows "AnyLeaked ps s = drLeaked (Scan ps s)"
proof
  assume "drLeaked (Scan ps s)"
  then obtain p m where p: "p \<in> set ps" "m \<in> set (FindAllString (dpRe p) s)" unfolding drLeaked_iff by blast
  then have "FindString (dpRe p) s \<in> set (FindAllString (dpRe p) s)"
    by (auto simp: FindString_def FindAllString_def split: list.splits)
  with p assms have "FindString (dpRe p) s \<noteq> [] \<and> dlp_valid p (FindString (dpRe p) s)"
    by (auto simp: dlp_valid_def)
  with p(1) show "AnyLeaked ps s" unfolding AnyLeaked_iff by blast
qed (rule AnyLeaked_sound)

lemma scan_patterns_listed:
  "scan_patterns ps s =
     [\<lparr>dfType = dpType p, dfRedacted = redact m\<rparr>.
       p \<leftarrow> ps, m \<leftarrow> FindAllString (dpRe p) s, case dpValidate p of None \<Rightarrow> True | Some chk \<Rightarrow> chk m]"
proof (induction ps)
  case (Cons p ps)
  have "scan_matches p ms = [\<lparr>dfType = dpType p, dfRedacted = redact m\<rparr>. m \<leftarrow> ms, case dpValidate p of None \<Rightarrow> True | Some chk \<Rightarrow> chk m]" for ms
    by (induction ms) (simp_all add: dlp_valid_def)
  with Cons show ?case by simp
qed simp

subsection \<open>The Luhn checksum\<close>

text \<open>The checksum as a sum over the positions counted from the right.\<close>

fun luhn_terms :: "nat list \<Rightarrow> bool \<Rightarrow> nat list" where
  "luhn_terms [] dbl = []"
| "luhn_terms (d # ds) dbl = (if dbl then luhn_double d else d) # luhn_terms ds (\<not> dbl)"

lemma luhn_loop_terms: "luhn_loop ds dbl acc = acc + sum_list (luhn_terms ds dbl)"
  by (induction ds arbitrary: dbl acc) auto

lemma length_luhn_terms [simp]: "length (luhn_terms ds dbl) = length ds"
  by (induction ds arbitrary: dbl) auto

lemma luhn_terms_update:
  "k < length ds \<Longrightarrow>
     luhn_terms (ds[k := d]) dbl = (luhn_terms ds dbl)[k := (if dbl \<noteq> odd k then luhn_double d else d)]"
  by (induction ds arbitrary: k dbl) (auto split: nat.splits)

lemma luhn_terms_nth:
  "k < length ds \<Longrightarrow> luhn_terms ds dbl ! k = (if dbl \<noteq> odd k then luhn_double (ds ! k) else ds ! k)"
proof (induction ds arbitrary: k dbl)
  case (Cons a ds)
  then show ?case by (cases k) auto
qed simp

lemma luhn_double_small: "d < 10 \<Longrightarrow> luhn_double d < 10"
  by (auto simp: luhn_double_def)

lemma luhn_double_inject: "a < 10 \<Longrightarrow> b < 10 \<Longrightarrow> luhn_double a = luhn_double b \<longleftrightarrow> a = b"
proof -
  have "\<forall>a \<in> set [0..<10]. \<forall>b \<in> set [0..<10]. luhn_double a = luhn_double b \<longleftrightarrow> a = b" by code_simp
  then show "a < 10 \<Longrightarrow> b < 10 \<Longrightarrow> luhn_double a = luhn_double b \<longleftrightarrow> a = b" by simp
qed

lemma add_mod_cancel:
  "(a + y) mod 10 = (a + z) mod (10 :: nat) \<Longrightarrow> y < 10 \<Longrightarrow> z < 10 \<Longrightarrow> y = z"
proof (induction y z rule: linorder_wlog)
  case (le y z)
  have "10 dvd z - y"
    using le(1,2) mod_eq_dvd_iff_nat [of "a + y" "a + z" 10] by simp
  moreover have "z - y < 10" using le(4) by simp
  ultimately have "z - y = 0" using nat_dvd_not_less by (cases "z - y = 0") auto
  with le(1) show ?case by simp
qed (simp add: eq_commute)

lemma sum_list_update_mod:
  assumes "k < length xs" and "xs ! k < 10" and "y < (10 :: nat)" and "y \<noteq> xs ! k"
  shows "sum_list (xs[k := y]) mod 10 \<noteq> sum_list xs mod 10"
proof -
  let ?a = "sum_list (take k xs) + sum_list (drop (Suc k) xs)"
  have "sum_list (xs[k := y]) = ?a + y"
    using upd_conv_take_nth_drop [OF assms(1), of y] by simp
  moreover have "sum_list xs = ?a + xs ! k"
    using arg_cong [OF id_take_nth_drop [OF assms(1)], of sum_list] by simp
  ultimately show ?thesis using add_mod_cancel [of ?a y "xs ! k"] assms(2-4) by auto
qed

lemma luhn_single_error:
  assumes "k < length ds" and "\<forall>x \<in> set ds. x < 10" and "d < 10" and "d \<noteq> ds ! k"
    and "luhn_loop ds False 0 mod 10 = 0"
  shows "luhn_loop (ds[k := d]) False 0 mod 10 \<noteq> 0"
proof -
  let ?t = "luhn_terms ds False" and ?y = "if odd k then luhn_double d else d"
  have small: "ds ! k < 10" using assms(1,2) by simp
  have "?t ! k = (if odd k then luhn_double (ds ! k) else ds ! k)"
    using luhn_terms_nth [OF assms(1), of False] by simp
  with small assms(3,4) have "?t ! k < 10" "?y < 10" "?y \<noteq> ?t ! k"
    by (auto simp: luhn_double_small luhn_double_inject)
  with sum_list_update_mod [of k ?t ?y] assms(1)
  have "sum_list (?t[k := ?y]) mod 10 \<noteq> sum_list ?t mod 10" by simp
  with assms(1,5) show ?thesis by (simp add: luhn_loop_terms luhn_terms_update)
qed

lemma luhn_digits_update:
  assumes "i < length s" and "is_digit (s ! i)" and "is_digit c"
  shows "luhn_digits (s[i := c]) = (luhn_digits s)[length (filter is_digit (take i s)) := code c - 48]"
    and "length (filter is_digit (take i s)) < length (luhn_digits s)"
    and "luhn_digits s ! length (filter is_digit (take i s)) = code (s ! i) - 48"
proof -
  let ?k = "length (filter is_digit (take i s))"
  have d: "luhn_digits s = map (\<lambda>c. code c - 48) (filter is_digit (take i s)) @
      (code (s ! i) - 48) # luhn_digits (drop (Suc i) s)"
    using arg_cong [OF id_take_nth_drop [OF assms(1)], of luhn_digits] assms(2) by (simp add: luhn_digits_def)
  then show "?k < length (luhn_digits s)" "luhn_digits s ! ?k = code (s ! i) - 48"
    by (simp_all add: nth_append)
  have "luhn_digits (s[i := c]) = map (\<lambda>c. code c - 48) (filter is_digit (take i s)) @
      (code c - 48) # luhn_digits (drop (Suc i) s)"
    using upd_conv_take_nth_drop [OF assms(1), of c] assms(3) by (simp add: luhn_digits_def)
  then show "luhn_digits (s[i := c]) = (luhn_digits s)[?k := code c - 48]"
    by (simp add: d list_update_append)
qed

lemma luhn_digits_small: "x \<in> set (luhn_digits s) \<Longrightarrow> x < 10"
  by (auto simp: luhn_digits_def is_digit_def)

lemma luhnValid_update:
  assumes "luhnValid s" and "i < length s" and "is_digit (s ! i)" and "is_digit c" and "c \<noteq> s ! i"
  shows "\<not> luhnValid (s[i := c])"
proof -
  let ?k = "length (filter is_digit (take i s))" and ?d = "luhn_digits s"
  note up = luhn_digits_update [OF assms(2-4)]
  let ?j = "length ?d - Suc ?k"
  have j: "?j < length (rev ?d)" "rev ?d ! ?j = ?d ! ?k" using up(2) by (simp_all add: rev_nth)
  have "code c - 48 \<noteq> rev ?d ! ?j"
    using assms(3-5) up(3) j(2) code_inject [of c "s ! i"] by (auto simp: is_digit_def)
  moreover have "code c - 48 < 10" using assms(4) unfolding is_digit_def by linarith
  moreover have "luhn_loop (rev ?d) False 0 mod 10 = 0"
    using assms(1) by (simp add: luhnValid_def Let_def split: if_splits)
  ultimately have "luhn_loop ((rev ?d)[?j := code c - 48]) False 0 mod 10 \<noteq> 0"
    using j(1) luhn_digits_small by (intro luhn_single_error) auto
  then show ?thesis using up(1,2) by (simp add: luhnValid_def Let_def rev_update)
qed

subsection \<open>Properties\<close>

text \<open>
  the credit-card check catches every single-digit error: if a number passes the Luhn
  checksum, replacing any one digit by a different digit makes it fail, whatever separators the
  text contains.
\<close>

theorem luhn_detects_typo:
  assumes "luhnValid s" and "i < length s" and "is_digit (s ! i)" and "is_digit c" and "c \<noteq> s ! i"
  shows "\<not> luhnValid (s[i := c])"
  by (rule luhnValid_update [OF assms])

theorem luhn_detects_typo_witness: "\<not> luhnValid (''4111 1111 1111 1111''[5 := CHR ''7''])"
proof (rule luhn_detects_typo)
  show "luhnValid ''4111 1111 1111 1111''" by code_simp
qed (simp_all add: is_digit_def code_def)

text \<open>
  C29: the scanner reports exactly the validated matches: one finding per match of each pattern
  that its check accepts, pattern by pattern and in the order of the text, of the pattern's type and
  carrying the masked match; it reports a leak exactly when there is one.  The report does not repeat a
  secret: the masked value is the mask alone for a match of at most six characters (after
  trimming), else its first four characters followed by the mask.  The fast check reports no
  leak the scanner does not, and agrees with it for patterns that need no further check and match
  no empty text.
\<close>

theorem scan_exact_and_redacted:
  "drFindings (Scan ps s) =
     [\<lparr>dfType = dpType p,
       dfRedacted = (if length (trim_space m) \<le> 6 then ''******'' else take 4 (trim_space m) @ ''******'')\<rparr>.
       p \<leftarrow> ps, m \<leftarrow> FindAllString (dpRe p) s, case dpValidate p of None \<Rightarrow> True | Some chk \<Rightarrow> chk m] \<and>
   (drLeaked (Scan ps s) \<longleftrightarrow>
      (\<exists>p \<in> set ps. \<exists>m \<in> set (FindAllString (dpRe p) s). case dpValidate p of None \<Rightarrow> True | Some chk \<Rightarrow> chk m)) \<and>
   (AnyLeaked ps s \<longrightarrow> drLeaked (Scan ps s)) \<and>
   ((\<forall>p \<in> set ps. dpValidate p = None \<and> [] \<notin> set (FindAllString (dpRe p) s)) \<longrightarrow> AnyLeaked ps s = drLeaked (Scan ps s))"
proof (intro conjI)
  have mask: "redact m = (if length (trim_space m) \<le> 6 then ''******'' else take 4 (trim_space m) @ ''******'')" for m
    by (simp add: redact_def Let_def eval_nat_numeral)
  show "drFindings (Scan ps s) =
     [\<lparr>dfType = dpType p,
       dfRedacted = (if length (trim_space m) \<le> 6 then ''******'' else take 4 (trim_space m) @ ''******'')\<rparr>.
       p \<leftarrow> ps, m \<leftarrow> FindAllString (dpRe p) s, case dpValidate p of None \<Rightarrow> True | Some chk \<Rightarrow> chk m]"
    unfolding mask [symmetric] Scan_def scan_patterns_listed by (simp add: Let_def)
  show "drLeaked (Scan ps s) \<longleftrightarrow>
      (\<exists>p \<in> set ps. \<exists>m \<in> set (FindAllString (dpRe p) s). case dpValidate p of None \<Rightarrow> True | Some chk \<Rightarrow> chk m)"
    by (simp add: drLeaked_iff dlp_valid_def)
  show "AnyLeaked ps s \<longrightarrow> drLeaked (Scan ps s)" using AnyLeaked_sound by blast
  show "(\<forall>p \<in> set ps. dpValidate p = None \<and> [] \<notin> set (FindAllString (dpRe p) s)) \<longrightarrow> AnyLeaked ps s = drLeaked (Scan ps s)"
    using AnyLeaked_plain by blast
qed

text \<open>A pattern matching every run of sixteen characters, validated by the checksum.\<close>

definition card_pattern :: dlp_pattern where
  "card_pattern = \<lparr>dpType = ''credit_card'', dpRe = (\<lambda>s. if length s = 33 then [(0, 16), (17, 33)] else []),
     dpValidate = Some luhnValid\<rparr>"

theorem scan_exact_and_redacted_witness:
  "drFindings (Scan [card_pattern] ''1111111111111111 4111111111111111'') =
     [\<lparr>dfType = ''credit_card'', dfRedacted = ''4111******''\<rparr>] \<and>
   AnyLeaked [card_pattern\<lparr>dpValidate := None\<rparr>] ''1111111111111111 4111111111111111''"
proof -
  let ?s = "''1111111111111111 4111111111111111''" and ?p = "card_pattern\<lparr>dpValidate := None\<rparr>"
  have m: "FindAllString (dpRe card_pattern) ?s = [''1111111111111111'', ''4111111111111111'']" by code_simp
  have v: "dpValidate card_pattern = Some luhnValid" "dpType card_pattern = ''credit_card''" by (simp_all add: card_pattern_def)
  have l: "\<not> luhnValid ''1111111111111111''" "luhnValid ''4111111111111111''" by code_simp+
  have t: "trim_space ''4111111111111111'' = ''4111111111111111''" by code_simp
  have "drFindings (Scan [card_pattern] ?s) = [\<lparr>dfType = ''credit_card'', dfRedacted = ''4111******''\<rparr>]"
    using scan_exact_and_redacted [of "[card_pattern]" ?s] m v l t by simp
  moreover have q: "\<forall>p \<in> set [?p]. dpValidate p = None \<and> [] \<notin> set (FindAllString (dpRe p) ?s)" using m by simp
  have "AnyLeaked [?p] ?s = drLeaked (Scan [?p] ?s)" using q scan_exact_and_redacted [of "[?p]" ?s] by blast
  moreover have "drLeaked (Scan [?p] ?s)" by code_simp
  ultimately show ?thesis by blast
qed

text \<open>
  the fast check misses leaks the scanner reports: it validates only the first match of a
  pattern, so a card number that follows a sequence of digits failing the checksum passes it,
  although the check is sound whenever it does report a leak.
\<close>

theorem AnyLeaked_incomplete:
  "(AnyLeaked ps s \<longrightarrow> drLeaked (Scan ps s)) \<and>
   \<not> AnyLeaked [card_pattern] ''1111111111111111 4111111111111111'' \<and>
   drLeaked (Scan [card_pattern] ''1111111111111111 4111111111111111'')"
proof (intro conjI)
  show "AnyLeaked ps s \<longrightarrow> drLeaked (Scan ps s)" using AnyLeaked_sound by blast
  show "\<not> AnyLeaked [card_pattern] ''1111111111111111 4111111111111111''" by code_simp
  show "drLeaked (Scan [card_pattern] ''1111111111111111 4111111111111111'')" by code_simp
qed

theorem AnyLeaked_incomplete_witness:
  "AnyLeaked [card_pattern] ''4111111111111111 1111111111111111'' \<and>
   drLeaked (Scan [card_pattern] ''4111111111111111 1111111111111111'')"
proof -
  have "AnyLeaked [card_pattern] ''4111111111111111 1111111111111111''" by code_simp
  with AnyLeaked_incomplete [of "[card_pattern]" "''4111111111111111 1111111111111111''"] show ?thesis by blast
qed

end
