(* ===== verification/Quota.thy ===== *)
theory Quota
  imports Float64
begin

text \<open>
  Metering of the AI gateway (\<^verbatim>\<open>src/pkg/aigateway\<close>): per-tenant request and token quotas
  (\<^verbatim>\<open>quota.go\<close>) and usage with cost (\<^verbatim>\<open>usage.go\<close>).  Token counts are int64 and wrap; \<open>ord\<close> is the
  order in which \<^verbatim>\<open>range\<close> visits the price table.
\<close>

subsection \<open>Quotas\<close>

record quota =
  quMaxRequestsPerMin :: int
  quMaxTokensPerDay :: int

record quota_window =
  wiStart :: time
  wiCount :: int

record quota_manager =
  qmQuotas :: "(string, quota) gomap"
  qmReqWin :: "(string, quota_window) gomap"
  qmTokWin :: "(string, quota_window) gomap"

definition NewQuotaManager :: quota_manager where
  "NewQuotaManager = \<lparr>qmQuotas = [], qmReqWin = [], qmTokWin = []\<rparr>"

definition SetQuota :: "string \<Rightarrow> quota \<Rightarrow> quota_manager \<Rightarrow> quota_manager" where
  "SetQuota tenant q m = m\<lparr>qmQuotas := mput tenant q (qmQuotas m)\<rparr>"

text \<open>The window of a tenant at a time: the stored one, or a fresh one when none is stored or it is over.\<close>

definition live_window :: "dur \<Rightarrow> time \<Rightarrow> quota_window option \<Rightarrow> quota_window" where
  "live_window len now w =
     (case w of
        None \<Rightarrow> \<lparr>wiStart = now, wiCount = 0\<rparr>
      | Some x \<Rightarrow> if len \<le> time_sub now (wiStart x) then \<lparr>wiStart = now, wiCount = 0\<rparr> else x)"

abbreviation (input) day :: dur where "day \<equiv> 86400000000000"

datatype quota_denial = RequestRate | DailyTokens

definition quota_Allow :: "time \<Rightarrow> string \<Rightarrow> int \<Rightarrow> quota_manager \<Rightarrow> quota_manager \<times> quota_denial option" where
  "quota_Allow now tenant est m =
     (case map_of (qmQuotas m) tenant of
        None \<Rightarrow> (m, None)
      | Some q \<Rightarrow>
          let rw = live_window minute now (map_of (qmReqWin m) tenant);
              m1 = (if 0 < quMaxRequestsPerMin q then m\<lparr>qmReqWin := mput tenant rw (qmReqWin m)\<rparr> else m)
          in if 0 < quMaxRequestsPerMin q \<and> quMaxRequestsPerMin q \<le> wiCount rw then (m1, Some RequestRate)
             else
               let tw = live_window day now (map_of (qmTokWin m1) tenant);
                   m2 = (if 0 < quMaxTokensPerDay q then m1\<lparr>qmTokWin := mput tenant tw (qmTokWin m1)\<rparr> else m1)
               in if 0 < quMaxTokensPerDay q \<and> quMaxTokensPerDay q < wrap64 (wiCount tw + est)
                  then (m2, Some DailyTokens)
                  else
                    let m3 = (if 0 < quMaxRequestsPerMin q
                              then m2\<lparr>qmReqWin := mput tenant (rw\<lparr>wiCount := wrap64 (wiCount rw + 1)\<rparr>) (qmReqWin m2)\<rparr>
                              else m2);
                        m4 = (if 0 < quMaxTokensPerDay q
                              then m3\<lparr>qmTokWin := mput tenant (tw\<lparr>wiCount := wrap64 (wiCount tw + est)\<rparr>) (qmTokWin m3)\<rparr>
                              else m3)
                    in (m4, None))"

definition SettleTokens :: "string \<Rightarrow> int \<Rightarrow> int \<Rightarrow> quota_manager \<Rightarrow> quota_manager" where
  "SettleTokens tenant estimated actual m =
     (case map_of (qmTokWin m) tenant of
        None \<Rightarrow> m
      | Some tw \<Rightarrow>
          let n = wrap64 (wiCount tw + wrap64 (actual - estimated));
              n' = (if n < 0 then 0 else n)
          in m\<lparr>qmTokWin := mput tenant (tw\<lparr>wiCount := n'\<rparr>) (qmTokWin m)\<rparr>)"

subsection \<open>Usage and cost\<close>

record model_pricing =
  mpInputPer1M :: float64
  mpOutputPer1M :: float64

record usage_record =
  urRequests :: int
  urPromptTokens :: int
  urCompletionTokens :: int
  urCostUSD :: float64

definition price :: "rat \<Rightarrow> rat \<Rightarrow> model_pricing" where
  "price i out = \<lparr>mpInputPer1M = fround i, mpOutputPer1M = fround out\<rparr>"

definition defaultPricing :: "(string, model_pricing) gomap" where
  "defaultPricing =
     [(''gpt-4o'', price (25 / 10) 10), (''gpt-4o-mini'', price (15 / 100) (60 / 100)),
      (''o1'', price 15 60), (''claude-3-5-sonnet'', price 3 15), (''claude-opus-4'', price 15 75),
      (''claude-sonnet-4'', price 3 15), (''gemini-2.0-flash'', price (10 / 100) (40 / 100)),
      (''mistral-large'', price 2 6), (''deepseek-chat'', price (27 / 100) (110 / 100))]"

definition fallbackPricing :: model_pricing where
  "fallbackPricing = price 1 3"

record usage_tracker =
  utByTenant :: "(string, usage_record) gomap"
  utPricing :: "(string, model_pricing) gomap"

definition NewUsageTracker :: usage_tracker where
  "NewUsageTracker = \<lparr>utByTenant = [], utPricing = defaultPricing\<rparr>"

definition SetPricing :: "string \<Rightarrow> model_pricing \<Rightarrow> usage_tracker \<Rightarrow> usage_tracker" where
  "SetPricing model p t = t\<lparr>utPricing := mput model p (utPricing t)\<rparr>"

fun prefix_price :: "(string, model_pricing) gomap \<Rightarrow> string \<Rightarrow> string list \<Rightarrow> model_pricing" where
  "prefix_price m model [] = fallbackPricing"
| "prefix_price m model (b # bs) =
     (case map_of m b of
        None \<Rightarrow> prefix_price m model bs
      | Some p \<Rightarrow> if prefix b model then p else prefix_price m model bs)"

definition priceFor :: "(string list \<Rightarrow> string list) \<Rightarrow> usage_tracker \<Rightarrow> string \<Rightarrow> model_pricing" where
  "priceFor ord t model =
     (case map_of (utPricing t) model of
        Some p \<Rightarrow> p
      | None \<Rightarrow> prefix_price (utPricing t) model (ord (keys (utPricing t))))"

definition roundCost :: "float64 \<Rightarrow> float64" where
  "roundCost f = fround (fround (of_int (to_int64 (fround (fround (f * 1000000) + 1 / 2)))) / 1000000)"

definition cost_of :: "model_pricing \<Rightarrow> int \<Rightarrow> int \<Rightarrow> float64" where
  "cost_of p promptTokens completionTokens =
     fround (fround (fround (fround (of_int promptTokens) / 1000000) * mpInputPer1M p) +
             fround (fround (fround (of_int completionTokens) / 1000000) * mpOutputPer1M p))"

definition usage_zero :: usage_record where
  "usage_zero = \<lparr>urRequests = 0, urPromptTokens = 0, urCompletionTokens = 0, urCostUSD = 0\<rparr>"

definition usage_Record ::
  "(string list \<Rightarrow> string list) \<Rightarrow> string \<Rightarrow> string \<Rightarrow> int \<Rightarrow> int \<Rightarrow> usage_tracker \<Rightarrow> usage_tracker" where
  "usage_Record ord tenant model pt ct t =
     (let r = mget usage_zero (utByTenant t) tenant;
          r1 = r\<lparr>urRequests := wrap64 (urRequests r + 1), urPromptTokens := wrap64 (urPromptTokens r + pt),
                 urCompletionTokens := wrap64 (urCompletionTokens r + ct)\<rparr>;
          cost = cost_of (priceFor ord t model) pt ct
      in t\<lparr>utByTenant := mput tenant (r1\<lparr>urCostUSD := roundCost (fround (urCostUSD r1 + cost))\<rparr>) (utByTenant t)\<rparr>)"

definition Usage :: "string \<Rightarrow> usage_tracker \<Rightarrow> usage_record" where
  "Usage tenant t = mget usage_zero (utByTenant t) tenant"

definition estimateTokens :: "string \<Rightarrow> int" where
  "estimateTokens s = (if s = '''' then 0 else int (length s div 4) + 1)"

subsection \<open>A sequence of calls\<close>

text \<open>Calls of one tenant as pairs of time and estimate; the estimates of the admitted ones.\<close>

fun admitted :: "string \<Rightarrow> (time \<times> int) list \<Rightarrow> quota_manager \<Rightarrow> int list" where
  "admitted tenant [] m = []"
| "admitted tenant ((now, est) # cs) m =
     (let (m', d) = quota_Allow now tenant est m
      in (if d = None then est # admitted tenant cs m' else admitted tenant cs m'))"

text \<open>What an admission and a denial do to the tenant's windows.\<close>

lemma quota_Allow_quota:
  assumes "map_of (qmQuotas m) tenant = Some q" and "quota_Allow now tenant est m = (m', d)"
  shows "map_of (qmQuotas m') tenant = Some q"
  using assms by (auto simp: quota_Allow_def Let_def split: if_splits)

lemma quota_Allow_req:
  assumes "map_of (qmQuotas m) tenant = Some q" and "0 < quMaxRequestsPerMin q"
    and "quota_Allow now tenant est m = (m', d)" and "rw = live_window minute now (map_of (qmReqWin m) tenant)"
  shows "map_of (qmReqWin m') tenant = Some (if d = None then rw\<lparr>wiCount := wrap64 (wiCount rw + 1)\<rparr> else rw)"
    and "d = None \<Longrightarrow> wiCount rw < quMaxRequestsPerMin q"
  using assms by (auto simp: quota_Allow_def Let_def split: if_splits)

lemma quota_Allow_tok:
  assumes "map_of (qmQuotas m) tenant = Some q" and "0 < quMaxTokensPerDay q"
    and "quota_Allow now tenant est m = (m', d)" and "tw = live_window day now (map_of (qmTokWin m) tenant)"
  shows "d = None \<Longrightarrow> map_of (qmTokWin m') tenant = Some (tw\<lparr>wiCount := wrap64 (wiCount tw + est)\<rparr>)"
    and "d = None \<Longrightarrow> wrap64 (wiCount tw + est) \<le> quMaxTokensPerDay q"
    and "d \<noteq> None \<Longrightarrow> map_of (qmTokWin m') tenant = Some tw \<or> map_of (qmTokWin m') tenant = map_of (qmTokWin m) tenant"
  using assms by (auto simp: quota_Allow_def Let_def split: if_splits)

lemma live_window_used:
  "w = Some \<lparr>wiStart = t0, wiCount = n\<rparr> \<Longrightarrow> time_sub now t0 < len \<Longrightarrow>
     live_window len now w = \<lparr>wiStart = t0, wiCount = n\<rparr>"
  by (simp add: live_window_def)

lemma admitted_requests:
  "\<lbrakk>map_of (qmQuotas m) tenant = Some q; 0 < quMaxRequestsPerMin q; is_int64 (quMaxRequestsPerMin q);
    map_of (qmReqWin m) tenant = Some \<lparr>wiStart = t0, wiCount = n\<rparr>; 0 \<le> n; n \<le> quMaxRequestsPerMin q;
    \<forall>c \<in> set cs. time_sub (fst c) t0 < minute\<rbrakk> \<Longrightarrow>
     n + int (length (admitted tenant cs m)) \<le> quMaxRequestsPerMin q"
proof (induction cs arbitrary: m n)
  case (Cons c cs)
  obtain now est where c: "c = (now, est)" by (cases c)
  obtain m' d where a: "quota_Allow now tenant est m = (m', d)" by fastforce
  let ?rw = "live_window minute now (map_of (qmReqWin m) tenant)"
  have rw: "?rw = \<lparr>wiStart = t0, wiCount = n\<rparr>"
    using Cons.prems(4,7) c by (intro live_window_used) simp_all
  note q = quota_Allow_quota [OF Cons.prems(1) a]
  note r = quota_Allow_req [OF Cons.prems(1,2) a refl]
  show ?case
  proof (cases d)
    case None
    have lt: "n < quMaxRequestsPerMin q" using r(2) None rw by simp
    then have w: "wrap64 (n + 1) = n + 1"
      using Cons.prems(3,5) by (intro wrap64_id) (simp add: is_int64_def)
    have "n + 1 + int (length (admitted tenant cs m')) \<le> quMaxRequestsPerMin q"
      using Cons.prems(2,3,5,7) q r(1) None rw lt w by (intro Cons.IH) simp_all
    with None show ?thesis by (simp add: c a)
  next
    case (Some x)
    then show ?thesis
      using Cons.IH [of m' n] Cons.prems q r(1) rw by (simp add: c a)
  qed
qed simp

lemma admitted_tokens:
  "\<lbrakk>map_of (qmQuotas m) tenant = Some q; 0 < quMaxTokensPerDay q; quMaxTokensPerDay q \<le> 2 ^ 62;
    map_of (qmTokWin m) tenant = Some \<lparr>wiStart = t0, wiCount = n\<rparr>; 0 \<le> n; n \<le> quMaxTokensPerDay q;
    \<forall>c \<in> set cs. time_sub (fst c) t0 < day \<and> 0 \<le> snd c \<and> snd c < 2 ^ 62\<rbrakk> \<Longrightarrow>
     n + sum_list (admitted tenant cs m) \<le> quMaxTokensPerDay q"
proof (induction cs arbitrary: m n)
  case (Cons c cs)
  obtain now est where c: "c = (now, est)" by (cases c)
  obtain m' d where a: "quota_Allow now tenant est m = (m', d)" by fastforce
  let ?tw = "live_window day now (map_of (qmTokWin m) tenant)"
  have tw: "?tw = \<lparr>wiStart = t0, wiCount = n\<rparr>"
    using Cons.prems(4,7) c by (intro live_window_used) simp_all
  note q = quota_Allow_quota [OF Cons.prems(1) a]
  note r = quota_Allow_tok [OF Cons.prems(1,2) a refl]
  have w: "wrap64 (n + est) = n + est"
    using Cons.prems(3,5,6,7) c by (intro wrap64_id) (simp add: is_int64_def)
  show ?case
  proof (cases d)
    case None
    have "n + est + sum_list (admitted tenant cs m') \<le> quMaxTokensPerDay q"
      using Cons.prems(2,3,5,7) q r(1,2) None tw w c by (intro Cons.IH) simp_all
    with None show ?thesis by (simp add: c a)
  next
    case (Some x)
    have "map_of (qmTokWin m') tenant = Some \<lparr>wiStart = t0, wiCount = n\<rparr>"
      using r(3) Some tw Cons.prems(4) by auto
    then have "n + sum_list (admitted tenant cs m') \<le> quMaxTokensPerDay q"
      using Cons.prems(2,3,5,6,7) q by (intro Cons.IH) simp_all
    with Some show ?thesis by (simp add: c a)
  qed
qed simp

subsection \<open>Usage\<close>

fun record_all ::
  "(string list \<Rightarrow> string list) \<Rightarrow> (string \<times> string \<times> int \<times> int) list \<Rightarrow> usage_tracker \<Rightarrow> usage_tracker" where
  "record_all ord [] t = t"
| "record_all ord ((tenant, model, pt, ct) # rs) t = record_all ord rs (usage_Record ord tenant model pt ct t)"

definition of_tenant :: "string \<Rightarrow> (string \<times> string \<times> int \<times> int) list \<Rightarrow> (string \<times> string \<times> int \<times> int) list" where
  "of_tenant tenant rs = filter (\<lambda>r. fst r = tenant) rs"

lemma wrap64_add [simp]: "wrap64 (wrap64 a + b) = wrap64 (a + b)" "wrap64 (a + wrap64 b) = wrap64 (a + b)"
proof -
  have *: "wrap64 (wrap64 a + b) = wrap64 (a + b)" for a b
  proof -
    let ?m = "18446744073709551616 :: int"
    have "((a + 9223372036854775808) mod ?m - 9223372036854775808 + b + 9223372036854775808) mod ?m
        = ((a + 9223372036854775808) mod ?m + b) mod ?m" by (simp add: algebra_simps)
    also have "\<dots> = (a + b + 9223372036854775808) mod ?m" by (simp add: mod_simps algebra_simps)
    finally show ?thesis by (simp add: wrap64_def)
  qed
  show "wrap64 (wrap64 a + b) = wrap64 (a + b)" by (rule *)
  show "wrap64 (a + wrap64 b) = wrap64 (a + b)" using * [of b a] by (simp add: add.commute)
qed

lemma Usage_record_all:
  assumes "is_int64 (urRequests (Usage tenant t))" "is_int64 (urPromptTokens (Usage tenant t))"
    "is_int64 (urCompletionTokens (Usage tenant t))"
  shows "urRequests (Usage tenant (record_all ord rs t)) =
      wrap64 (urRequests (Usage tenant t) + int (length (of_tenant tenant rs)))"
    and "urPromptTokens (Usage tenant (record_all ord rs t)) =
      wrap64 (urPromptTokens (Usage tenant t) + (\<Sum>(_, _, pt, _) \<leftarrow> of_tenant tenant rs. pt))"
    and "urCompletionTokens (Usage tenant (record_all ord rs t)) =
      wrap64 (urCompletionTokens (Usage tenant t) + (\<Sum>(_, _, _, ct) \<leftarrow> of_tenant tenant rs. ct))"
proof -
  have "urRequests (Usage tenant (record_all ord rs t)) =
      wrap64 (urRequests (Usage tenant t) + int (length (of_tenant tenant rs))) \<and>
    urPromptTokens (Usage tenant (record_all ord rs t)) =
      wrap64 (urPromptTokens (Usage tenant t) + (\<Sum>(_, _, pt, _) \<leftarrow> of_tenant tenant rs. pt)) \<and>
    urCompletionTokens (Usage tenant (record_all ord rs t)) =
      wrap64 (urCompletionTokens (Usage tenant t) + (\<Sum>(_, _, _, ct) \<leftarrow> of_tenant tenant rs. ct))"
    using assms
  proof (induction rs arbitrary: t)
    case (Cons r rs)
    obtain tn md pt ct where r: "r = (tn, md, pt, ct)" by (cases r) auto
    show ?case
    proof (cases "tn = tenant")
      case True
      have u: "urRequests (Usage tenant (usage_Record ord tn md pt ct t)) = wrap64 (urRequests (Usage tenant t) + 1)"
        "urPromptTokens (Usage tenant (usage_Record ord tn md pt ct t)) = wrap64 (urPromptTokens (Usage tenant t) + pt)"
        "urCompletionTokens (Usage tenant (usage_Record ord tn md pt ct t)) = wrap64 (urCompletionTokens (Usage tenant t) + ct)"
        using True by (simp_all add: usage_Record_def Usage_def Let_def)
      show ?thesis
        using Cons.IH [of "usage_Record ord tn md pt ct t"] u True
        by (simp add: r of_tenant_def algebra_simps)
    next
      case False
      then have "Usage tenant (usage_Record ord tn md pt ct t) = Usage tenant t"
        by (simp add: usage_Record_def Usage_def Let_def)
      with Cons False show ?thesis by (simp add: r of_tenant_def)
    qed
  qed (simp add: of_tenant_def)
  then show "urRequests (Usage tenant (record_all ord rs t)) =
      wrap64 (urRequests (Usage tenant t) + int (length (of_tenant tenant rs)))"
    "urPromptTokens (Usage tenant (record_all ord rs t)) =
      wrap64 (urPromptTokens (Usage tenant t) + (\<Sum>(_, _, pt, _) \<leftarrow> of_tenant tenant rs. pt))"
    "urCompletionTokens (Usage tenant (record_all ord rs t)) =
      wrap64 (urCompletionTokens (Usage tenant t) + (\<Sum>(_, _, _, ct) \<leftarrow> of_tenant tenant rs. ct))"
    by auto
qed

subsection \<open>Properties\<close>

text \<open>
  quotas bound consumption: while a tenant's minute window is live, the requests admitted in it
  never exceed the configured rate, and while its day window is live, the tokens reserved by the
  admitted requests never exceed the daily budget, whatever the interleaving of admitted and
  denied calls.
\<close>

theorem quota_bounds:
  assumes "map_of (qmQuotas m) tenant = Some q"
    and "0 < quMaxRequestsPerMin q" "is_int64 (quMaxRequestsPerMin q)"
    and "0 < quMaxTokensPerDay q" "quMaxTokensPerDay q \<le> 2 ^ 62"
    and "map_of (qmReqWin m) tenant = Some \<lparr>wiStart = t0, wiCount = n\<rparr>" "0 \<le> n" "n \<le> quMaxRequestsPerMin q"
    and "map_of (qmTokWin m) tenant = Some \<lparr>wiStart = t1, wiCount = k\<rparr>" "0 \<le> k" "k \<le> quMaxTokensPerDay q"
    and "\<forall>c \<in> set cs. time_sub (fst c) t0 < minute \<and> time_sub (fst c) t1 < day \<and> 0 \<le> snd c \<and> snd c < 2 ^ 62"
  shows "n + int (length (admitted tenant cs m)) \<le> quMaxRequestsPerMin q \<and>
    k + sum_list (admitted tenant cs m) \<le> quMaxTokensPerDay q"
  using admitted_requests [OF assms(1,2,3,6,7,8), of cs] admitted_tokens [OF assms(1,4,5,9,10,11), of cs] assms(12)
  by auto

definition demo_quotas :: quota_manager where
  "demo_quotas = \<lparr>qmQuotas = [(''acme'', \<lparr>quMaxRequestsPerMin = 2, quMaxTokensPerDay = 100\<rparr>)],
     qmReqWin = [(''acme'', \<lparr>wiStart = 0, wiCount = 0\<rparr>)], qmTokWin = [(''acme'', \<lparr>wiStart = 0, wiCount = 0\<rparr>)]\<rparr>"

theorem quota_bounds_witness:
  "length (admitted ''acme'' [(10, 60), (20, 60), (30, 20), (40, 1)] demo_quotas) \<le> 2 \<and>
   sum_list (admitted ''acme'' [(10, 60), (20, 60), (30, 20), (40, 1)] demo_quotas) \<le> 100"
  using quota_bounds [of demo_quotas "''acme''" "\<lparr>quMaxRequestsPerMin = 2, quMaxTokensPerDay = 100\<rparr>" 0 0 0 0
      "[(10, 60), (20, 60), (30, 20), (40, 1)]"]
  by (simp add: demo_quotas_def is_int64_def time_sub_def)

text \<open>
  metering is exact per tenant: after any sequence of recorded requests a tenant's request
  count and token totals are the sums of its own records (in int64), untouched by the records of
  other tenants and by the prices.
\<close>

theorem usage_exact:
  "urRequests (Usage tenant (record_all ord rs NewUsageTracker)) = wrap64 (int (length (of_tenant tenant rs))) \<and>
   urPromptTokens (Usage tenant (record_all ord rs NewUsageTracker)) =
     wrap64 (\<Sum>(_, _, pt, _) \<leftarrow> of_tenant tenant rs. pt) \<and>
   urCompletionTokens (Usage tenant (record_all ord rs NewUsageTracker)) =
     wrap64 (\<Sum>(_, _, _, ct) \<leftarrow> of_tenant tenant rs. ct)"
proof -
  have "Usage tenant NewUsageTracker = usage_zero"
    by (simp add: Usage_def NewUsageTracker_def mget_def)
  then show ?thesis
    using Usage_record_all [of tenant NewUsageTracker ord rs] by (simp add: usage_zero_def is_int64_def)
qed

text \<open>
  the price of a versioned model is not determined: two iteration orders of the price table
  give different prices for a versioned identifier of the small model, because the name of the
  large model is a prefix of it as well.
\<close>

theorem price_depends_on_map_order:
  "\<exists>o1 o2. range_order o1 \<and> range_order o2 \<and>
     priceFor o1 NewUsageTracker ''gpt-4o-mini-2024-07-18'' = price (25 / 10) 10 \<and>
     priceFor o2 NewUsageTracker ''gpt-4o-mini-2024-07-18'' = price (15 / 100) (60 / 100) \<and>
     price (25 / 10) 10 \<noteq> price (15 / 100) (60 / 100)"
proof (intro exI conjI)
  show "price (25 / 10) 10 \<noteq> price (15 / 100) (60 / 100)" by code_simp
  show "range_order (\<lambda>ks :: string list. ks)" "range_order (rev :: string list \<Rightarrow> string list)"
    by (simp_all add: range_order_def)
  show "priceFor (\<lambda>ks. ks) NewUsageTracker ''gpt-4o-mini-2024-07-18'' = price (25 / 10) 10"
    "priceFor rev NewUsageTracker ''gpt-4o-mini-2024-07-18'' = price (15 / 100) (60 / 100)"
    by (simp_all add: priceFor_def NewUsageTracker_def defaultPricing_def)
qed

end
