(* ===== verification/Vault.thy ===== *)
theory Vault
  imports Prelude
begin

text \<open>
  Custody of provider keys (\<^verbatim>\<open>src/pkg/aigateway/vault.go\<close>).  The locale \<open>key_vault\<close> is the
  contract of the Go interface \<^verbatim>\<open>KeyVault\<close>: a lookup returns the last key set for exactly that
  tenant and provider.  Tenant isolation is proved from it for every sequence of operations of
  other tenants, and \<^verbatim>\<open>MemKeyVault\<close> is an interpretation: its composite map keys keep tenants
  apart as long as tenant identifiers contain no NUL byte.
\<close>

subsection \<open>Model\<close>

type_synonym mem_vault = "(string, string) gomap"

definition NewMemKeyVault :: mem_vault where
  "NewMemKeyVault = []"

abbreviation (input) NUL :: char where "NUL \<equiv> CHR 0x00"

definition vaultKey :: "string \<Rightarrow> string \<Rightarrow> string" where
  "vaultKey tenantID provider = tenantID @ [NUL] @ provider"

definition GetKey :: "string \<Rightarrow> string \<Rightarrow> mem_vault \<Rightarrow> string option" where
  "GetKey tenantID provider v = map_of v (vaultKey tenantID provider)"

definition SetKey :: "string \<Rightarrow> string \<Rightarrow> string \<Rightarrow> mem_vault \<Rightarrow> mem_vault \<times> bool" where
  "SetKey tenantID provider key v =
     (if tenantID = '''' \<or> provider = '''' \<or> key = '''' then (v, False)
      else (mput (vaultKey tenantID provider) key v, True))"

definition DeleteKey :: "string \<Rightarrow> string \<Rightarrow> mem_vault \<Rightarrow> mem_vault" where
  "DeleteKey tenantID provider v = mdel (vaultKey tenantID provider) v"

definition Providers :: "(string list \<Rightarrow> string list) \<Rightarrow> string \<Rightarrow> mem_vault \<Rightarrow> string list" where
  "Providers ord tenantID v =
     (let pre = tenantID @ [NUL]
      in map (drop (length pre)) (filter (\<lambda>k. length pre < length k \<and> take (length pre) k = pre) (ord (keys v))))"

subsection \<open>The contract\<close>

datatype vault_op = VSet string string string | VDelete string string

fun vault_tenant :: "vault_op \<Rightarrow> string" where
  "vault_tenant (VSet t p k) = t"
| "vault_tenant (VDelete t p) = t"

locale key_vault =
  fixes get :: "string \<Rightarrow> string \<Rightarrow> 'v \<Rightarrow> string option"
    and set_key :: "string \<Rightarrow> string \<Rightarrow> string \<Rightarrow> 'v \<Rightarrow> 'v \<times> bool"
    and delete :: "string \<Rightarrow> string \<Rightarrow> 'v \<Rightarrow> 'v"
    and valid_tenant :: "string \<Rightarrow> bool"
  assumes get_set: "valid_tenant t \<Longrightarrow> valid_tenant t' \<Longrightarrow> set_key t p k v = (v', ok) \<Longrightarrow>
      get t' p' v' = (if ok \<and> t' = t \<and> p' = p then Some k else get t' p' v)"
    and set_ok: "snd (set_key t p k v) \<longleftrightarrow> t \<noteq> '''' \<and> p \<noteq> '''' \<and> k \<noteq> ''''"
    and get_delete: "valid_tenant t \<Longrightarrow> valid_tenant t' \<Longrightarrow>
      get t' p' (delete t p v) = (if t' = t \<and> p' = p then None else get t' p' v)"
begin

fun vault_step :: "vault_op \<Rightarrow> 'v \<Rightarrow> 'v" where
  "vault_step (VSet t p k) v = fst (set_key t p k v)"
| "vault_step (VDelete t p) v = delete t p v"

lemma step_isolated:
  assumes "valid_tenant (vault_tenant op)" and "valid_tenant t" and "vault_tenant op \<noteq> t"
  shows "get t p (vault_step op v) = get t p v"
proof (cases op)
  case (VSet t' p' k)
  obtain v' ok where "set_key t' p' k v = (v', ok)" by fastforce
  with assms VSet get_set [of t' t p' k v v' ok p] show ?thesis by auto
next
  case (VDelete t' p')
  with assms get_delete [of t' t p p' v] show ?thesis by auto
qed

lemma others_isolated:
  "\<forall>op \<in> set ops. valid_tenant (vault_tenant op) \<and> vault_tenant op \<noteq> t \<Longrightarrow> valid_tenant t \<Longrightarrow>
     get t p (fold vault_step ops v) = get t p v"
  by (induction ops arbitrary: v) (simp_all add: step_isolated)

lemma set_then_others:
  assumes "valid_tenant t" and "t \<noteq> ''''" "p \<noteq> ''''" "k \<noteq> ''''"
    and "\<forall>op \<in> set ops. valid_tenant (vault_tenant op) \<and> vault_tenant op \<noteq> t"
  shows "get t p (fold vault_step ops (fst (set_key t p k v))) = Some k"
proof -
  obtain v' ok where s: "set_key t p k v = (v', ok)" by fastforce
  with set_ok [of t p k v] assms(2-4) have ok by simp
  with s get_set [OF assms(1,1) s, of p] have "get t p v' = Some k" by simp
  with s others_isolated [OF assms(5,1), of p v'] show ?thesis by simp
qed

end

subsection \<open>The in-memory vault\<close>

lemma vaultKey_inject:
  "NUL \<notin> set t \<Longrightarrow> NUL \<notin> set t' \<Longrightarrow> vaultKey t p = vaultKey t' p' \<longleftrightarrow> t = t' \<and> p = p'"
  using sep_key_inject [of NUL t t' p p'] by (simp add: vaultKey_def)

interpretation mem_vault: key_vault GetKey SetKey DeleteKey "\<lambda>t. NUL \<notin> set t"
  by unfold_locales (auto simp: GetKey_def SetKey_def DeleteKey_def vaultKey_inject split: if_splits)

text \<open>A tenant identifier with a NUL byte reaches into another tenant's keys.\<close>

lemma NUL_confuses: "GetKey ''a'' (''b'' @ [NUL] @ ''c'') v = GetKey (''a'' @ [NUL] @ ''b'') ''c'' v"
  by (simp add: GetKey_def vaultKey_def)

lemma Providers_sound:
  assumes "range_order ord"
  shows "p \<in> set (Providers ord t v) \<longleftrightarrow> GetKey t p v \<noteq> None \<and> p \<noteq> ''''"
proof
  assume "p \<in> set (Providers ord t v)"
  then obtain k where k: "k \<in> set (keys v)" "length (t @ [NUL]) < length k"
    "take (length (t @ [NUL])) k = t @ [NUL]" "p = drop (length (t @ [NUL])) k"
    using range_orderD(1) [OF assms(1), of "keys v"] by (auto simp: Providers_def Let_def)
  then have "k = vaultKey t p" by (metis append_assoc append_take_drop_id vaultKey_def)
  with k(1,2) show "GetKey t p v \<noteq> None \<and> p \<noteq> ''''"
    using in_keys_iff [of k v] by (auto simp: GetKey_def vaultKey_def)
next
  assume p: "GetKey t p v \<noteq> None \<and> p \<noteq> ''''"
  then have "vaultKey t p \<in> set (ord (keys v))"
    using range_orderD(1) [OF assms(1), of "keys v"] in_keys_iff [of "vaultKey t p" v] by (simp add: GetKey_def)
  with p show "p \<in> set (Providers ord t v)"
    unfolding Providers_def Let_def set_map set_filter
    by (intro image_eqI [of _ _ "vaultKey t p"]) (auto simp: vaultKey_def)
qed

end
