(* ===== verification/Gateway.thy ===== *)
theory Gateway
  imports AIGuard Quota Vault
begin

text \<open>
  The inline AI gateway of \<^verbatim>\<open>src/pkg/aigateway\<close>: the request handler with its guard pipelines
  (\<^verbatim>\<open>gateway.go\<close>), the upstream with key custody (\<^verbatim>\<open>upstream.go\<close>) and the Anthropic translation
  (\<^verbatim>\<open>translate.go\<close>).  A request is what the handler reads of it; JSON decoding and encoding, the
  HTTP exchange with the provider and the clock are parameters.  The handler returns the
  metering state, the response, the events handed to the sink and the request forwarded to the
  upstream, if any, so that what leaves the gateway is part of its result.
\<close>

subsection \<open>Guards\<close>

record guard_verdict =
  gvBlock :: bool
  gvReason :: string
  gvFindings :: "guard_finding list"

record guard =
  guName :: string
  guInspect :: "string \<Rightarrow> guard_verdict"

text \<open>\<open>fmt\<close> renders the verdict and the score (\<^verbatim>\<open>"%s (score %.2f)"\<close>).\<close>

definition InjectionGuard :: "(string \<Rightarrow> float64 \<Rightarrow> string) \<Rightarrow> injection_detector \<Rightarrow> string \<Rightarrow> guard" where
  "InjectionGuard fmt d blockAt0 =
     (let blockAt = (if blockAt0 = '''' then VerdictMalicious else blockAt0)
      in \<lparr>guName = ''prompt_injection'',
          guInspect = (\<lambda>s.
            let r = Detect d s;
                block = (jrVerdict r = VerdictMalicious \<or> (blockAt = VerdictSuspicious \<and> jrVerdict r \<noteq> VerdictClean))
            in \<lparr>gvBlock = block, gvReason = fmt (jrVerdict r) (jrScore r), gvFindings = EnrichInjection r\<rparr>)\<rparr>)"

definition DLPGuard :: "dlp_pattern list \<Rightarrow> guard" where
  "DLPGuard ps =
     \<lparr>guName = ''dlp'',
      guInspect = (\<lambda>s.
        let res = Scan ps s in
        if \<not> drLeaked res then \<lparr>gvBlock = False, gvReason = '''', gvFindings = []\<rparr>
        else
          \<lparr>gvBlock = True,
           gvReason = ''sensitive data detected: '' @ join '', '' (map dfType (drFindings res)),
           gvFindings = map (\<lambda>f.
             \<lparr>gfSource = ''dlp'', gfVerdict = ''blocked'', gfScore = 0,
              gfOWASP = Some (case LookupOWASP ''LLM02'' of Some ow \<Rightarrow> ow | None \<Rightarrow> \<lparr>owID = '''', owTitle = ''''\<rparr>),
              gfATLAS = None, gfDetail = dfType f @ ''='' @ dfRedacted f\<rparr>) (drFindings res)\<rparr>)\<rparr>"

subsection \<open>The handler\<close>

record gateway_event =
  geTimestamp :: time
  geTenant :: string
  geProvider :: string
  geModel :: string
  geAction :: string
  geReason :: string
  gePromptChars :: nat
  gePromptTokens :: int
  geCompletionTokens :: int
  geFindings :: "guard_finding list"

record gateway_config =
  gcBlockOnDetect :: bool
  gcAllowedProviders :: "string list"
  gcDefaultProvider :: string

record gateway =
  gwGuards :: "guard list"
  gwOutputGuards :: "guard list"
  gwConfig :: gateway_config

record chat_message =
  cmRole :: string
  cmContent :: string

record chat_request =
  crModel :: string
  crMessages :: "chat_message list"

record gateway_request =
  gqMethod :: string
  gqBody :: "string option"
  gqTenant :: string

record meters =
  meQuota :: "quota_manager option"
  meUsage :: "usage_tracker option"

datatype gateway_response =
    GatewayError int string
  | GatewayBlocked string "guard_finding list"
  | Relayed int string

definition routeProvider :: "gateway_config \<Rightarrow> string \<Rightarrow> string" where
  "routeProvider cfg model =
     (let m = to_lower model in
      if prefix ''gpt-'' m \<or> prefix ''o1'' m \<or> prefix ''o3'' m then ''OpenAI''
      else if prefix ''claude'' m then ''Anthropic''
      else if prefix ''gemini'' m then ''Google Gemini''
      else if prefix ''mistral'' m \<or> prefix ''mixtral'' m then ''Mistral''
      else if prefix ''deepseek'' m then ''DeepSeek''
      else if prefix ''grok'' m then ''xAI''
      else if gcDefaultProvider cfg \<noteq> '''' then gcDefaultProvider cfg
      else ''unknown'')"

fun extractPrompt :: "chat_message list \<Rightarrow> string" where
  "extractPrompt [] = ''''"
| "extractPrompt (m # ms) = cmContent m @ [CHR 0x0A] @ extractPrompt ms"

text \<open>
  The inbound loop: the findings so far and the event; \<open>Inl\<close> when a guard's verdict rejects the
  request, with the event and the findings of the rejection.
\<close>

fun run_guards ::
  "bool \<Rightarrow> guard list \<Rightarrow> string \<Rightarrow> guard_finding list \<Rightarrow> gateway_event \<Rightarrow>
     gateway_event \<times> guard_finding list + gateway_event \<times> guard_finding list" where
  "run_guards enforce [] prompt fs ev = Inr (ev, fs)"
| "run_guards enforce (g # gs) prompt fs ev =
     (let v = guInspect g prompt; fs' = fs @ gvFindings v in
      if gvBlock v then
        let ev' = ev\<lparr>geFindings := fs'\<rparr> in
        if enforce
        then Inl (ev'\<lparr>geAction := ''blocked'', geReason := guName g @ '': '' @ gvReason v\<rparr>, fs')
        else run_guards enforce gs prompt fs' ev'
      else run_guards enforce gs prompt fs' ev)"

fun run_output_guards ::
  "bool \<Rightarrow> guard list \<Rightarrow> string \<Rightarrow> guard_finding list \<Rightarrow> gateway_event \<Rightarrow>
     gateway_event \<times> guard_finding list + guard_finding list" where
  "run_output_guards enforce [] body fs ev = Inr fs"
| "run_output_guards enforce (g # gs) body fs ev =
     (let v = guInspect g body; fs' = fs @ gvFindings v in
      if gvBlock v \<and> enforce
      then Inl (ev\<lparr>geAction := ''blocked'', geReason := ''output '' @ guName g @ '': '' @ gvReason v,
                   geFindings := fs'\<rparr>, fs')
      else run_output_guards enforce gs body fs' ev)"

text \<open>\<open>usage_of\<close> is \<^verbatim>\<open>json.Unmarshal\<close> into the usage envelope: prompt, completion and total tokens.\<close>

definition parseResponseUsage :: "(string \<Rightarrow> (int \<times> int \<times> int) option) \<Rightarrow> string \<Rightarrow> int \<times> int \<times> bool" where
  "parseResponseUsage usage_of body =
     (case usage_of body of
        None \<Rightarrow> (0, 0, False)
      | Some (p, c, t) \<Rightarrow> if t = 0 \<and> p = 0 \<and> c = 0 then (0, 0, False) else (p, c, True))"

definition settle ::
  "(string list \<Rightarrow> string list) \<Rightarrow> (string \<Rightarrow> (int \<times> int \<times> int) option) \<Rightarrow> string \<Rightarrow> string \<Rightarrow> int \<Rightarrow> string \<Rightarrow>
     meters \<Rightarrow> gateway_event \<Rightarrow> meters \<times> gateway_event" where
  "settle ord usage_of tenant model est body me ev =
     (if meUsage me = None \<and> meQuota me = None then (me, ev)
      else
        let (p, c, ok) = parseResponseUsage usage_of body;
            pt = (if \<not> ok then est else p)
        in (\<lparr>meQuota = map_option (SettleTokens tenant est (wrap64 (pt + c))) (meQuota me),
             meUsage = map_option (usage_Record ord tenant model pt c) (meUsage me)\<rparr>,
            ev\<lparr>gePromptTokens := pt, geCompletionTokens := c\<rparr>))"

definition quota_reason :: "quota_denial \<Rightarrow> string" where
  "quota_reason d = (case d of RequestRate \<Rightarrow> ''request rate limit exceeded'' | DailyTokens \<Rightarrow> ''daily token quota exceeded'')"

type_synonym gateway_outcome = "meters \<times> gateway_response \<times> gateway_event list \<times> (string \<times> string) option"

text \<open>From the forwarding of the vetted request on.\<close>

definition forward_vetted ::
  "(string \<Rightarrow> (int \<times> int \<times> int) option) \<Rightarrow> (string list \<Rightarrow> string list) \<Rightarrow>
     (string \<Rightarrow> string \<Rightarrow> string + int \<times> string) \<Rightarrow> gateway \<Rightarrow> string \<Rightarrow> string \<Rightarrow> string \<Rightarrow> string \<Rightarrow> int \<Rightarrow>
     guard_finding list \<Rightarrow> gateway_event \<Rightarrow> meters \<Rightarrow> gateway_outcome" where
  "forward_vetted usage_of ord forward g tenant model provider body est fs ev me =
     (case forward provider body of
        Inl err \<Rightarrow>
          (me, GatewayError 502 ''upstream error'', [ev\<lparr>geAction := ''error'', geReason := err\<rparr>], Some (provider, body))
      | Inr (status, resp) \<Rightarrow>
          (case run_output_guards (gcBlockOnDetect (gwConfig g)) (gwOutputGuards g) resp fs ev of
             Inl (ev', fs') \<Rightarrow> (me, GatewayBlocked (geReason ev') fs', [ev'], Some (provider, body))
           | Inr fs' \<Rightarrow>
               let (me', ev') = settle ord usage_of tenant model est resp me ev
               in (me', Relayed status resp, [ev'\<lparr>geFindings := fs'\<rparr>], Some (provider, body))))"

text \<open>The quota check; without a manager every request passes.\<close>

definition check_quota :: "time \<Rightarrow> string \<Rightarrow> int \<Rightarrow> meters \<Rightarrow> meters \<times> quota_denial option" where
  "check_quota qnow tenant est me =
     (case meQuota me of
        None \<Rightarrow> (me, None)
      | Some q \<Rightarrow> let (q', d) = quota_Allow qnow tenant est q in (me\<lparr>meQuota := Some q'\<rparr>, d))"

text \<open>From the decoded request on.\<close>

definition serve_decoded ::
  "(string \<Rightarrow> (int \<times> int \<times> int) option) \<Rightarrow> (string list \<Rightarrow> string list) \<Rightarrow>
     (string \<Rightarrow> string \<Rightarrow> string + int \<times> string) \<Rightarrow> time \<Rightarrow> time \<Rightarrow> gateway \<Rightarrow> string \<Rightarrow> string \<Rightarrow> chat_request \<Rightarrow>
     meters \<Rightarrow> gateway_outcome" where
  "serve_decoded usage_of ord forward now qnow g tenant body req me =
     (let provider = routeProvider (gwConfig g) (crModel req);
          prompt = extractPrompt (crMessages req);
          ev = \<lparr>geTimestamp = now, geTenant = tenant, geProvider = provider, geModel = crModel req,
                geAction = ''allowed'', geReason = '''', gePromptChars = length prompt,
                gePromptTokens = 0, geCompletionTokens = 0, geFindings = []\<rparr>
      in if 0 < length (gcAllowedProviders (gwConfig g)) \<and> provider \<notin> set (gcAllowedProviders (gwConfig g)) then
           let why = ''provider not allowed: '' @ provider in
           (me, GatewayError 403 why, [ev\<lparr>geAction := ''blocked'', geReason := why\<rparr>], None)
         else
           let est = estimateTokens prompt; (me1, denied) = check_quota qnow tenant est me in
           case denied of
             Some d \<Rightarrow>
               (me1, GatewayError 429 (quota_reason d), [ev\<lparr>geAction := ''blocked'', geReason := quota_reason d\<rparr>], None)
           | None \<Rightarrow>
               (case run_guards (gcBlockOnDetect (gwConfig g)) (gwGuards g) prompt [] ev of
                  Inl (ev', fs) \<Rightarrow> (me1, GatewayBlocked (geReason ev') fs, [ev'], None)
                | Inr (ev', fs) \<Rightarrow>
                    forward_vetted usage_of ord forward g tenant (crModel req) provider body est fs ev' me1))"

definition ServeHTTP ::
  "(string \<Rightarrow> chat_request option) \<Rightarrow> (string \<Rightarrow> (int \<times> int \<times> int) option) \<Rightarrow> (string list \<Rightarrow> string list) \<Rightarrow>
     (string \<Rightarrow> string \<Rightarrow> string + int \<times> string) \<Rightarrow> time \<Rightarrow> time \<Rightarrow> gateway \<Rightarrow> gateway_request \<Rightarrow> meters \<Rightarrow>
     gateway_outcome" where
  "ServeHTTP decode usage_of ord forward now qnow g r me =
     (if gqMethod r \<noteq> ''POST'' then (me, GatewayError 405 ''method not allowed'', [], None)
      else case gqBody r of
        None \<Rightarrow> (me, GatewayError 400 ''cannot read body'', [], None)
      | Some body \<Rightarrow>
          (case decode body of
             None \<Rightarrow> (me, GatewayError 400 ''invalid chat request'', [], None)
           | Some req \<Rightarrow> serve_decoded usage_of ord forward now qnow g (gqTenant r) body req me))"

subsection \<open>Upstream with key custody\<close>

datatype auth_style = AuthBearer | AuthAnthropic

record provider_endpoint =
  peURL :: string
  peAuthStyle :: auth_style
  peExtraHeaders :: "(string, string) gomap"

definition bearer :: "string \<Rightarrow> provider_endpoint" where
  "bearer url = \<lparr>peURL = url, peAuthStyle = AuthBearer, peExtraHeaders = []\<rparr>"

definition defaultEndpoints :: "(string, provider_endpoint) gomap" where
  "defaultEndpoints =
     [(''OpenAI'', bearer ''https://api.openai.com/v1/chat/completions''),
      (''Mistral'', bearer ''https://api.mistral.ai/v1/chat/completions''),
      (''DeepSeek'', bearer ''https://api.deepseek.com/v1/chat/completions''),
      (''Groq'', bearer ''https://api.groq.com/openai/v1/chat/completions''),
      (''xAI'', bearer ''https://api.x.ai/v1/chat/completions''),
      (''Together AI'', bearer ''https://api.together.xyz/v1/chat/completions''),
      (''Fireworks AI'', bearer ''https://api.fireworks.ai/inference/v1/chat/completions''),
      (''OpenRouter'', bearer ''https://openrouter.ai/api/v1/chat/completions''),
      (''Google Gemini'', bearer ''https://generativelanguage.googleapis.com/v1beta/openai/chat/completions''),
      (''Anthropic'', \<lparr>peURL = ''https://api.anthropic.com/v1/messages'', peAuthStyle = AuthAnthropic,
         peExtraHeaders = [(''anthropic-version'', ''2023-06-01'')]\<rparr>)]"

record translator =
  trRequest :: "string \<Rightarrow> string + string"
  trResponse :: "string \<Rightarrow> string + string"

record 'v http_upstream =
  huVault :: 'v
  huEndpoints :: "(string, provider_endpoint) gomap"
  huTranslators :: "(string, translator) gomap"

definition NewHTTPUpstream :: "translator \<Rightarrow> 'v \<Rightarrow> 'v http_upstream" where
  "NewHTTPUpstream anthropic v =
     \<lparr>huVault = v, huEndpoints = defaultEndpoints, huTranslators = [(''Anthropic'', anthropic)]\<rparr>"

definition SetEndpoint :: "string \<Rightarrow> provider_endpoint \<Rightarrow> 'v http_upstream \<Rightarrow> 'v http_upstream" where
  "SetEndpoint provider ep u = u\<lparr>huEndpoints := mput provider ep (huEndpoints u)\<rparr>"

definition SetTranslator :: "string \<Rightarrow> translator option \<Rightarrow> 'v http_upstream \<Rightarrow> 'v http_upstream" where
  "SetTranslator provider t u =
     (case t of
        None \<Rightarrow> u\<lparr>huTranslators := mdel provider (huTranslators u)\<rparr>
      | Some x \<Rightarrow> u\<lparr>huTranslators := mput provider x (huTranslators u)\<rparr>)"

datatype forward_error =
    NoEndpoint string | NoKey string string | RequestTranslation string | Transport string
  | ResponseTranslation string

text \<open>
  The outgoing request: address, headers, body.  Header names are case-insensitive, so they are
  kept in lower case; extra headers replace one of the same name and \<open>ord\<close> is the order in which
  they are visited.  \<open>do\<close> is the HTTP exchange, the reading of the response included.
\<close>

record outgoing =
  ogURL :: string
  ogHeaders :: "(string, string) gomap"
  ogBody :: string

definition outgoing_headers :: "(string list \<Rightarrow> string list) \<Rightarrow> provider_endpoint \<Rightarrow> string \<Rightarrow> (string, string) gomap" where
  "outgoing_headers ord ep key =
     (let h0 = [(''content-type'', ''application/json'')];
          h1 = (case peAuthStyle ep of
                  AuthAnthropic \<Rightarrow> mput ''x-api-key'' key h0
                | AuthBearer \<Rightarrow> mput ''authorization'' (''Bearer '' @ key) h0)
      in fold (\<lambda>k h. mput (to_lower k) (mget '''' (peExtraHeaders ep) k) h) (ord (keys (peExtraHeaders ep))) h1)"

definition Forward ::
  "(string \<Rightarrow> string \<Rightarrow> 'v \<Rightarrow> string option) \<Rightarrow> (string list \<Rightarrow> string list) \<Rightarrow> (outgoing \<Rightarrow> string + int \<times> string) \<Rightarrow>
     'v http_upstream \<Rightarrow> string \<Rightarrow> string \<Rightarrow> string \<Rightarrow> outgoing option \<times> (forward_error + int \<times> string)" where
  "Forward get ord do u tenant provider body =
     (case map_of (huEndpoints u) provider of
        None \<Rightarrow> (None, Inl (NoEndpoint provider))
      | Some ep \<Rightarrow>
     (case get tenant provider (huVault u) of
        None \<Rightarrow> (None, Inl (NoKey tenant provider))
      | Some key \<Rightarrow>
     (let tr = map_of (huTranslators u) provider;
          sendBody = (case tr of None \<Rightarrow> Inr body | Some t \<Rightarrow> trRequest t body)
      in case sendBody of
        Inl e \<Rightarrow> (None, Inl (RequestTranslation e))
      | Inr sb \<Rightarrow>
          let og = \<lparr>ogURL = peURL ep, ogHeaders = outgoing_headers ord ep key, ogBody = sb\<rparr>
          in (Some og,
              (case do og of
                 Inl e \<Rightarrow> Inl (Transport e)
               | Inr (status, resp) \<Rightarrow>
                   (case tr of
                      None \<Rightarrow> Inr (status, resp)
                    | Some t \<Rightarrow>
                        if 200 \<le> status \<and> status < 300 then
                          (case trResponse t resp of
                             Inl e \<Rightarrow> Inl (ResponseTranslation e)
                           | Inr ob \<Rightarrow> Inr (status, ob))
                        else Inr (status, resp)))))))"

subsection \<open>The Anthropic translation\<close>

record oai_request =
  oqModel :: string
  oqMessages :: "chat_message list"
  oqMaxTokens :: "int option"
  oqTemperature :: "float64 option"
  oqStream :: "bool option"

record anthropic_request =
  aqModel :: string
  aqSystem :: string
  aqMessages :: "chat_message list"
  aqMaxTokens :: int
  aqTemperature :: "float64 option"
  aqStream :: "bool option"

fun split_system :: "chat_message list \<Rightarrow> string list \<times> chat_message list" where
  "split_system [] = ([], [])"
| "split_system (m # ms) =
     (let (sys, rest) = split_system ms in
      if cmRole m = ''system'' then (cmContent m # sys, rest) else (sys, m # rest))"

definition translate_request :: "int \<Rightarrow> oai_request \<Rightarrow> anthropic_request" where
  "translate_request defaultMax q =
     (let (sys, msgs) = split_system (oqMessages q)
      in \<lparr>aqModel = oqModel q, aqSystem = join [CHR 0x0A] sys, aqMessages = msgs,
          aqMaxTokens = (case oqMaxTokens q of Some n \<Rightarrow> if 0 < n then n else defaultMax | None \<Rightarrow> defaultMax),
          aqTemperature = oqTemperature q, aqStream = oqStream q\<rparr>)"

record content_block =
  cbType :: string
  cbText :: string

record anthropic_response =
  arID :: string
  arModel :: string
  arContent :: "content_block list"
  arStopReason :: string
  arInputTokens :: int
  arOutputTokens :: int

record oai_response =
  orID :: string
  orObject :: string
  orModel :: string
  orRole :: string
  orContent :: string
  orFinishReason :: string
  orPromptTokens :: int
  orCompletionTokens :: int
  orTotalTokens :: int

definition mapAnthropicStop :: "string \<Rightarrow> string" where
  "mapAnthropicStop reason =
     (if reason = ''end_turn'' \<or> reason = ''stop_sequence'' then ''stop''
      else if reason = ''max_tokens'' then ''length''
      else if reason = ''tool_use'' then ''tool_calls''
      else if reason = '''' then ''stop'' else reason)"

definition translate_response :: "anthropic_response \<Rightarrow> oai_response" where
  "translate_response a =
     \<lparr>orID = arID a, orObject = ''chat.completion'', orModel = arModel a, orRole = ''assistant'',
      orContent = concat (map cbText (filter (\<lambda>b. cbType b = ''text'') (arContent a))),
      orFinishReason = mapAnthropicStop (arStopReason a), orPromptTokens = arInputTokens a,
      orCompletionTokens = arOutputTokens a, orTotalTokens = wrap64 (arInputTokens a + arOutputTokens a)\<rparr>"

definition AnthropicTranslator ::
  "(string \<Rightarrow> string + oai_request) \<Rightarrow> (anthropic_request \<Rightarrow> string) \<Rightarrow> (string \<Rightarrow> string + anthropic_response) \<Rightarrow>
     (oai_response \<Rightarrow> string) \<Rightarrow> translator" where
  "AnthropicTranslator dec_req enc_req dec_resp enc_resp =
     \<lparr>trRequest = (\<lambda>b. case dec_req b of Inl e \<Rightarrow> Inl e | Inr q \<Rightarrow> Inr (enc_req (translate_request 4096 q))),
      trResponse = (\<lambda>b. case dec_resp b of Inl e \<Rightarrow> Inl e | Inr a \<Rightarrow> Inr (enc_resp (translate_response a)))\<rparr>"

end
