(* ===== verification/Gateway_Props.thy ===== *)
theory Gateway_Props
  imports Gateway
begin

text \<open>
  What leaves the gateway: a request reaches a provider only after every check passed, a response
  reaches the client only after the output guards passed, every well-formed request is recorded
  exactly once, and a request carries the key of its own tenant.
\<close>

subsection \<open>The guard pipelines\<close>

lemma run_guards_passed:
  "run_guards enforce gs prompt fs ev = Inr (ev', fs') \<Longrightarrow>
     (enforce \<longrightarrow> (\<forall>g \<in> set gs. \<not> gvBlock (guInspect g prompt))) \<and> geAction ev' = geAction ev"
proof (induction gs arbitrary: fs ev)
  case (Cons g gs)
  then show ?case by (fastforce simp: Let_def split: if_splits)
qed simp

lemma run_guards_blocked:
  "run_guards enforce gs prompt fs ev = Inl (ev', fs') \<Longrightarrow>
     enforce \<and> geAction ev' = ''blocked'' \<and> (\<exists>g \<in> set gs. gvBlock (guInspect g prompt))"
proof (induction gs arbitrary: fs ev)
  case (Cons g gs)
  show ?case
  proof (cases "gvBlock (guInspect g prompt) \<and> enforce")
    case True
    with Cons.prems show ?thesis by (auto simp: Let_def)
  next
    case False
    let ?fs = "fs @ gvFindings (guInspect g prompt)"
    have "run_guards enforce gs prompt ?fs (if gvBlock (guInspect g prompt) then ev\<lparr>geFindings := ?fs\<rparr> else ev) = Inl (ev', fs')"
      using Cons.prems False by (cases "gvBlock (guInspect g prompt)") (simp_all add: Let_def)
    from Cons.IH [OF this] show ?thesis by auto
  qed
qed simp

lemma run_output_guards_passed:
  "run_output_guards enforce gs body fs ev = Inr fs' \<Longrightarrow> enforce \<longrightarrow> (\<forall>g \<in> set gs. \<not> gvBlock (guInspect g body))"
proof (induction gs arbitrary: fs)
  case (Cons g gs)
  show ?case
  proof (cases "gvBlock (guInspect g body) \<and> enforce")
    case True
    with Cons.prems show ?thesis by (simp add: Let_def)
  next
    case False
    then have "run_output_guards enforce gs body (fs @ gvFindings (guInspect g body)) ev = Inr fs'"
      using Cons.prems by (simp only: run_output_guards.simps Let_def if_False)
    from Cons.IH [OF this] False show ?thesis by auto
  qed
qed simp

lemma run_output_guards_blocked:
  "run_output_guards enforce gs body fs ev = Inl (ev', fs') \<Longrightarrow> enforce \<and> geAction ev' = ''blocked''"
proof (induction gs arbitrary: fs)
  case (Cons g gs)
  show ?case
  proof (cases "gvBlock (guInspect g body) \<and> enforce")
    case True
    with Cons.prems show ?thesis by (auto simp: Let_def)
  next
    case False
    then have "run_output_guards enforce gs body (fs @ gvFindings (guInspect g body)) ev = Inl (ev', fs')"
      using Cons.prems by (simp only: run_output_guards.simps Let_def if_False)
    from Cons.IH [OF this] show ?thesis .
  qed
qed simp

subsection \<open>The outcomes of a request\<close>

definition checks_passed :: "gateway \<Rightarrow> time \<Rightarrow> string \<Rightarrow> chat_request \<Rightarrow> meters \<Rightarrow> bool" where
  "checks_passed g qnow tenant req me \<longleftrightarrow>
     (gcAllowedProviders (gwConfig g) = [] \<or>
        routeProvider (gwConfig g) (crModel req) \<in> set (gcAllowedProviders (gwConfig g))) \<and>
     snd (check_quota qnow tenant (estimateTokens (extractPrompt (crMessages req))) me) = None \<and>
     (gcBlockOnDetect (gwConfig g) \<longrightarrow>
        (\<forall>gd \<in> set (gwGuards g). \<not> gvBlock (guInspect gd (extractPrompt (crMessages req)))))"

definition output_passed :: "gateway \<Rightarrow> string \<Rightarrow> bool" where
  "output_passed g out \<longleftrightarrow>
     (gcBlockOnDetect (gwConfig g) \<longrightarrow> (\<forall>gd \<in> set (gwOutputGuards g). \<not> gvBlock (guInspect gd out)))"

lemma settle_action: "settle ord usage_of tenant model est body me ev = (me', ev') \<Longrightarrow> geAction ev' = geAction ev"
  by (auto simp: settle_def Let_def split: if_splits prod.splits)

text \<open>One event, and what the response says about the exchange with the provider.\<close>

lemma forward_vetted_outcome:
  assumes "forward_vetted usage_of ord forward g tenant model provider body est fs ev me = (me', resp, evs, fwd)"
    and "geAction ev = ''allowed''"
  shows "fwd = Some (provider, body) \<and> length evs = 1 \<and>
    (\<forall>st out. resp = Relayed st out \<longrightarrow>
       forward provider body = Inr (st, out) \<and> output_passed g out \<and> geAction (hd evs) = ''allowed'') \<and>
    ((\<nexists>st out. resp = Relayed st out) \<longrightarrow> geAction (hd evs) \<in> {''blocked'', ''error''})"
proof (cases "forward provider body")
  case (Inl e)
  with assms show ?thesis by (auto simp: forward_vetted_def)
next
  case (Inr z)
  obtain st out where z: "z = (st, out)" by (cases z)
  show ?thesis
  proof (cases "run_output_guards (gcBlockOnDetect (gwConfig g)) (gwOutputGuards g) out fs ev")
    case o: (Inl y)
    then show ?thesis
      using assms Inr z run_output_guards_blocked [of _ _ out fs ev "fst y" "snd y"]
      by (auto simp: forward_vetted_def split: prod.splits)
  next
    case o: (Inr fs')
    obtain me2 ev2 where s: "settle ord usage_of tenant model est out me ev = (me2, ev2)" by fastforce
    with assms Inr z o run_output_guards_passed [OF o] settle_action [OF s] show ?thesis
      by (auto simp: forward_vetted_def output_passed_def)
  qed
qed

text \<open>Unless every check passed, the request is recorded as blocked and goes nowhere.\<close>

lemma serve_decoded_refused:
  assumes "serve_decoded usage_of ord forward now qnow g tenant body req me = (me', resp, evs, fwd)"
    and "\<not> checks_passed g qnow tenant req me"
  shows "fwd = None \<and> length evs = 1 \<and> geAction (hd evs) = ''blocked'' \<and> (\<nexists>st out. resp = Relayed st out)"
proof (cases "0 < length (gcAllowedProviders (gwConfig g)) \<and>
    routeProvider (gwConfig g) (crModel req) \<notin> set (gcAllowedProviders (gwConfig g))")
  case True
  with assms(1) show ?thesis by (auto simp: serve_decoded_def Let_def)
next
  case allowed: False
  obtain me1 d where q: "check_quota qnow tenant (estimateTokens (extractPrompt (crMessages req))) me = (me1, d)"
    by fastforce
  show ?thesis
  proof (cases d)
    case (Some x)
    with allowed q assms(1) show ?thesis by (auto simp: serve_decoded_def Let_def)
  next
    case None
    let ?ev = "\<lparr>geTimestamp = now, geTenant = tenant, geProvider = routeProvider (gwConfig g) (crModel req),
      geModel = crModel req, geAction = ''allowed'', geReason = '''',
      gePromptChars = length (extractPrompt (crMessages req)), gePromptTokens = 0, geCompletionTokens = 0, geFindings = []\<rparr>"
    let ?r = "run_guards (gcBlockOnDetect (gwConfig g)) (gwGuards g) (extractPrompt (crMessages req)) [] ?ev"
    show ?thesis
    proof (cases ?r)
      case (Inl y)
      with allowed None q assms(1) run_guards_blocked [of _ _ _ "[]" ?ev "fst y" "snd y"] show ?thesis
        by (auto simp: serve_decoded_def Let_def split: prod.splits)
    next
      case (Inr y)
      with run_guards_passed [of _ _ _ "[]" ?ev "fst y" "snd y"] allowed None q assms(2) show ?thesis
        by (auto simp: checks_passed_def)
    qed
  qed
qed

lemma serve_decoded_passed:
  assumes "serve_decoded usage_of ord forward now qnow g tenant body req me = (me', resp, evs, fwd)"
    and "checks_passed g qnow tenant req me"
  obtains est fs ev me1 where "geAction ev = ''allowed''"
    "forward_vetted usage_of ord forward g tenant (crModel req) (routeProvider (gwConfig g) (crModel req)) body est fs ev me1
       = (me', resp, evs, fwd)"
proof -
  obtain me1 where q: "check_quota qnow tenant (estimateTokens (extractPrompt (crMessages req))) me = (me1, None)"
    using assms(2) by (cases "check_quota qnow tenant (estimateTokens (extractPrompt (crMessages req))) me")
      (auto simp: checks_passed_def)
  let ?ev = "\<lparr>geTimestamp = now, geTenant = tenant, geProvider = routeProvider (gwConfig g) (crModel req),
    geModel = crModel req, geAction = ''allowed'', geReason = '''',
    gePromptChars = length (extractPrompt (crMessages req)), gePromptTokens = 0, geCompletionTokens = 0, geFindings = []\<rparr>"
  let ?r = "run_guards (gcBlockOnDetect (gwConfig g)) (gwGuards g) (extractPrompt (crMessages req)) [] ?ev"
  obtain ev fs where r: "?r = Inr (ev, fs)"
    using assms(2) run_guards_blocked [of _ _ _ "[]" ?ev] by (cases ?r) (fastforce simp: checks_passed_def)+
  have "geAction ev = ''allowed''" using run_guards_passed [OF r] by simp
  moreover have "forward_vetted usage_of ord forward g tenant (crModel req) (routeProvider (gwConfig g) (crModel req)) body
      (estimateTokens (extractPrompt (crMessages req))) fs ev me1 = (me', resp, evs, fwd)"
    using assms q r by (auto simp: serve_decoded_def Let_def checks_passed_def)
  ultimately show thesis by (rule that)
qed

end
