(* ===== verification/Gateway_Claims.thy ===== *)
theory Gateway_Claims
  imports Gateway_Props
begin

text \<open>
  The security properties of the gateway: complete mediation of requests and responses, the audit
  record of every decoded request, custody of the provider keys and metering through the translation.
\<close>

subsection \<open>Settings of the witnesses\<close>

definition block_word :: "string \<Rightarrow> guard" where
  "block_word w = \<lparr>guName = ''word'', guInspect = (\<lambda>s. \<lparr>gvBlock = sublist w s, gvReason = w, gvFindings = []\<rparr>)\<rparr>"

definition demo_gateway :: gateway where
  "demo_gateway = \<lparr>gwGuards = [block_word ''ignore''], gwOutputGuards = [block_word ''sk-''],
     gwConfig = \<lparr>gcBlockOnDetect = True, gcAllowedProviders = [''OpenAI''], gcDefaultProvider = ''''\<rparr>\<rparr>"

definition demo_decode :: "string \<Rightarrow> chat_request option" where
  "demo_decode b = (if b = '''' then None else
     Some \<lparr>crModel = ''gpt-4o'', crMessages = [\<lparr>cmRole = ''user'', cmContent = b\<rparr>]\<rparr>)"

definition demo_request :: "string \<Rightarrow> gateway_request" where
  "demo_request b = \<lparr>gqMethod = ''POST'', gqBody = Some b, gqTenant = ''acme''\<rparr>"

definition no_meters :: meters where
  "no_meters = \<lparr>meQuota = None, meUsage = None\<rparr>"

fun vault_apply :: "vault_op \<Rightarrow> mem_vault \<Rightarrow> mem_vault" where
  "vault_apply (VSet t p k) v = fst (SetKey t p k v)"
| "vault_apply (VDelete t p) v = DeleteKey t p v"

lemma vault_apply_step: "vault_apply = mem_vault.vault_step"
proof (intro ext)
  fix op v show "vault_apply op v = mem_vault.vault_step op v"
    by (cases op) simp_all
qed

definition demo_vault :: mem_vault where
  "demo_vault = fst (SetKey ''acme'' ''Anthropic'' ''sk-ant-1'' NewMemKeyVault)"

definition demo_translator :: translator where
  "demo_translator = \<lparr>trRequest = Inr, trResponse = Inr\<rparr>"

definition demo_upstream :: "mem_vault \<Rightarrow> mem_vault http_upstream" where
  "demo_upstream v = NewHTTPUpstream demo_translator v"

definition demo_oai :: oai_request where
  "demo_oai = \<lparr>oqModel = ''claude-3'',
     oqMessages = [\<lparr>cmRole = ''user'', cmContent = ''hello''\<rparr>, \<lparr>cmRole = ''system'', cmContent = ''be brief''\<rparr>],
     oqMaxTokens = None, oqTemperature = None, oqStream = None\<rparr>"

definition demo_answer :: anthropic_response where
  "demo_answer = \<lparr>arID = ''m1'', arModel = ''claude-3'', arContent = [\<lparr>cbType = ''text'', cbText = ''hi''\<rparr>],
     arStopReason = ''end_turn'', arInputTokens = 12, arOutputTokens = 3\<rparr>"

subsection \<open>Mediation\<close>

lemma serve_fwd:
  assumes "serve_decoded usage_of ord forward now qnow g tenant body req me = (me', resp, evs, fwd)"
  shows "fwd = (if checks_passed g qnow tenant req me
                then Some (routeProvider (gwConfig g) (crModel req), body) else None)"
proof (cases "checks_passed g qnow tenant req me")
  case True
  from serve_decoded_passed [OF assms True] forward_vetted_outcome True show ?thesis by metis
next
  case False
  with serve_decoded_refused [OF assms False] show ?thesis by simp
qed

text \<open>C2: Complete mediation. The gateway sends a body to a provider exactly when the request is a
  POST whose body decodes as a chat request, the provider is the one the model name routes to and is
  on the allowlist (when there is one), the quota admits the request, and, when detections block, no
  inbound guard rejects the prompt; the body sent is then the body received, unchanged.\<close>

theorem gateway_complete_mediation:
  assumes "ServeHTTP decode usage_of ord forward now qnow g r me = (me', resp, evs, fwd)"
  shows "fwd = Some (p, b) \<longleftrightarrow>
    gqMethod r = ''POST'' \<and> gqBody r = Some b \<and>
    (\<exists>req. decode b = Some req \<and> p = routeProvider (gwConfig g) (crModel req) \<and>
       checks_passed g qnow (gqTenant r) req me)"
proof (cases "gqMethod r = ''POST''")
  case True
  show ?thesis
  proof (cases "gqBody r")
    case None
    with True assms show ?thesis by (auto simp: ServeHTTP_def)
  next
    case (Some body)
    show ?thesis
    proof (cases "decode body")
      case None
      with True Some assms show ?thesis by (auto simp: ServeHTTP_def)
    next
      case (Some req)
      with True \<open>gqBody r = Some body\<close> assms
      have "serve_decoded usage_of ord forward now qnow g (gqTenant r) body req me = (me', resp, evs, fwd)"
        by (simp add: ServeHTTP_def)
      from serve_fwd [OF this] Some True \<open>gqBody r = Some body\<close> show ?thesis by auto
    qed
  qed
next
  case False
  with assms show ?thesis by (auto simp: ServeHTTP_def)
qed

theorem gateway_complete_mediation_witness:
  "snd (snd (snd (ServeHTTP demo_decode (\<lambda>_. None) id (\<lambda>p b. Inr (200, ''hi'')) 5 5 demo_gateway (demo_request ''hello'') no_meters)))
     = Some (''OpenAI'', ''hello'') \<and>
   snd (snd (snd (ServeHTTP demo_decode (\<lambda>_. None) id (\<lambda>p b. Inr (200, ''hi'')) 5 5 demo_gateway (demo_request ''ignore it'') no_meters)))
     \<noteq> Some (''OpenAI'', ''ignore it'')"
proof -
  let ?r = "\<lambda>b. ServeHTTP demo_decode (\<lambda>_. None) id (\<lambda>p b. Inr (200, ''hi'')) 5 5 demo_gateway (demo_request b) no_meters"
  have eq: "?r b = (fst (?r b), fst (snd (?r b)), fst (snd (snd (?r b))), snd (snd (snd (?r b))))" for b by simp
  have req: "demo_decode b = Some \<lparr>crModel = ''gpt-4o'', crMessages = [\<lparr>cmRole = ''user'', cmContent = b\<rparr>]\<rparr>" if "b \<noteq> ''''" for b
    using that by (simp add: demo_decode_def)
  have pass: "checks_passed demo_gateway 5 ''acme'' (the (demo_decode ''hello'')) no_meters" by code_simp
  have fail: "\<not> checks_passed demo_gateway 5 ''acme'' (the (demo_decode ''ignore it'')) no_meters" by code_simp
  have route: "routeProvider (gwConfig demo_gateway) ''gpt-4o'' = ''OpenAI''" by code_simp
  show ?thesis
    using gateway_complete_mediation [OF eq, of "''hello''" "''OpenAI''" "''hello''"]
      gateway_complete_mediation [OF eq, of "''ignore it''" "''OpenAI''" "''ignore it''"] pass fail route req
    by (simp add: demo_request_def)
qed



subsection \<open>Key custody\<close>

definition auth_header :: "provider_endpoint \<Rightarrow> string" where
  "auth_header ep = (case peAuthStyle ep of AuthAnthropic \<Rightarrow> ''x-api-key'' | AuthBearer \<Rightarrow> ''authorization'')"

definition credential :: "provider_endpoint \<Rightarrow> string \<Rightarrow> string" where
  "credential ep key = (case peAuthStyle ep of AuthAnthropic \<Rightarrow> key | AuthBearer \<Rightarrow> ''Bearer '' @ key)"

lemma map_of_fold_headers:
  "\<forall>k \<in> set ks. to_lower k \<noteq> n \<Longrightarrow> map_of (fold (\<lambda>k h. mput (to_lower k) (f k) h) ks h) n = map_of h n"
  by (induction ks arbitrary: h) auto

lemma outgoing_headers_auth:
  assumes "range_order ord" and "\<forall>k \<in> set (keys (peExtraHeaders ep)). to_lower k \<noteq> auth_header ep"
  shows "map_of (outgoing_headers ord ep key) (auth_header ep) = Some (credential ep key)"
  using assms range_orderD(1) [OF assms(1), of "keys (peExtraHeaders ep)"]
  by (simp add: outgoing_headers_def Let_def map_of_fold_headers auth_header_def credential_def split: auth_style.splits)

lemma defaultEndpoints_auth_kept:
  "\<forall>ep \<in> snd ` set defaultEndpoints. \<forall>k \<in> set (keys (peExtraHeaders ep)). to_lower k \<noteq> auth_header ep"
  by code_simp

lemma Forward_sent:
  assumes "Forward get ord do u tenant provider body = (Some og, res)"
  obtains ep key where "map_of (huEndpoints u) provider = Some ep" "get tenant provider (huVault u) = Some key"
    "ogURL og = peURL ep" "ogHeaders og = outgoing_headers ord ep key"
  using assms that by (auto simp: Forward_def Let_def split: option.splits sum.splits)

text \<open>C8: Key custody. Whatever the other tenants do to the vault after tenant \<open>t\<close> set its key for a
  provider with a default endpoint, what the upstream sends for \<open>t\<close> goes to that provider's address
  and its credential header carries the key of \<open>t\<close>; and when \<open>t\<close> had no key before the others
  acted, nothing is sent and the error names the tenant and the provider.\<close>

theorem upstream_key_custody:
  assumes "range_order ord" and "NUL \<notin> set t" "t \<noteq> ''''" "p \<noteq> ''''" "k \<noteq> ''''"
    and "\<forall>op \<in> set ops. NUL \<notin> set (vault_tenant op) \<and> vault_tenant op \<noteq> t"
    and "map_of defaultEndpoints p = Some ep"
  shows "(Forward GetKey ord do (NewHTTPUpstream tr (fold vault_apply ops (fst (SetKey t p k v)))) t p body = (Some og, res)
        \<longrightarrow> ogURL og = peURL ep \<and> map_of (ogHeaders og) (auth_header ep) = Some (credential ep k)) \<and>
     (GetKey t p v = None \<longrightarrow>
        Forward GetKey ord do (NewHTTPUpstream tr (fold vault_apply ops v)) t p body = (None, Inl (NoKey t p)))"
proof (intro conjI impI)
  have ep: "\<forall>k \<in> set (keys (peExtraHeaders ep)). to_lower k \<noteq> auth_header ep"
    using defaultEndpoints_auth_kept map_of_SomeD [OF assms(7)] by force
  have key: "GetKey t p (fold vault_apply ops (fst (SetKey t p k v))) = Some k"
    using mem_vault.set_then_others [of t p k ops v] assms(2-6) by (simp add: vault_apply_step)
  assume "Forward GetKey ord do (NewHTTPUpstream tr (fold vault_apply ops (fst (SetKey t p k v)))) t p body = (Some og, res)"
  from Forward_sent [OF this] obtain ep' key' where
    "map_of defaultEndpoints p = Some ep'" "GetKey t p (fold vault_apply ops (fst (SetKey t p k v))) = Some key'"
    "ogURL og = peURL ep'" "ogHeaders og = outgoing_headers ord ep' key'"
    by (auto simp: NewHTTPUpstream_def)
  with key assms(7) outgoing_headers_auth [OF assms(1) ep]
  show "ogURL og = peURL ep" "map_of (ogHeaders og) (auth_header ep) = Some (credential ep k)" by auto
next
  assume "GetKey t p v = None"
  then have "GetKey t p (fold vault_apply ops v) = None"
    using mem_vault.others_isolated [of ops t p v] assms(2,6) by (simp add: vault_apply_step)
  then show "Forward GetKey ord do (NewHTTPUpstream tr (fold vault_apply ops v)) t p body = (None, Inl (NoKey t p))"
    using assms(7) by (simp add: Forward_def NewHTTPUpstream_def)
qed

theorem upstream_key_custody_witness:
  "(case Forward GetKey id (\<lambda>_. Inr (200, ''ok''))
       (NewHTTPUpstream demo_translator (fold vault_apply [VSet ''evil'' ''Anthropic'' ''sk-x'', VDelete ''evil'' ''Anthropic'']
          (fst (SetKey ''acme'' ''Anthropic'' ''sk-ant-1'' [])))) ''acme'' ''Anthropic'' ''{}'' of
     (og, res) \<Rightarrow> og \<noteq> None \<and> map_of (ogHeaders (the og)) ''x-api-key'' = Some ''sk-ant-1'') \<and>
   Forward GetKey id (\<lambda>_. Inr (200, ''ok''))
       (NewHTTPUpstream demo_translator (fold vault_apply [VSet ''evil'' ''Anthropic'' ''sk-x''] [])) ''acme'' ''Anthropic'' ''{}''
     = (None, Inl (NoKey ''acme'' ''Anthropic''))"
proof -
  let ?ops = "[VSet ''evil'' ''Anthropic'' ''sk-x'', VDelete ''evil'' ''Anthropic'']"
  let ?do = "\<lambda>_ :: outgoing. Inr (200, ''ok'') :: string + int \<times> string"
  let ?ep = "\<lparr>peURL = ''https://api.anthropic.com/v1/messages'', peAuthStyle = AuthAnthropic,
         peExtraHeaders = [(''anthropic-version'', ''2023-06-01'')]\<rparr>"
  let ?F = "Forward GetKey id ?do (NewHTTPUpstream demo_translator (fold vault_apply ?ops (fst (SetKey ''acme'' ''Anthropic'' ''sk-ant-1'' []))))
     ''acme'' ''Anthropic'' ''{}''"
  have sent: "fst ?F \<noteq> None" by code_simp
  then obtain og res where F: "?F = (Some og, res)" by (cases ?F) auto
  have ep: "map_of defaultEndpoints ''Anthropic'' = Some ?ep" by code_simp
  have ord: "range_order (id :: string list \<Rightarrow> string list)" by (simp add: id_def)
  have none: "GetKey ''acme'' ''Anthropic'' [] = None" by (simp add: GetKey_def)
  have others: "\<forall>op \<in> set ?ops. NUL \<notin> set (vault_tenant op) \<and> vault_tenant op \<noteq> ''acme''"
    "\<forall>op \<in> set [VSet ''evil'' ''Anthropic'' ''sk-x'']. NUL \<notin> set (vault_tenant op) \<and> vault_tenant op \<noteq> ''acme''"
    by code_simp+
  have t: "NUL \<notin> set ''acme''" "''acme'' \<noteq> ''''" "''Anthropic'' \<noteq> ''''" "''sk-ant-1'' \<noteq> ''''" by code_simp+
  have "map_of (ogHeaders og) (auth_header ?ep) = Some (credential ?ep ''sk-ant-1'')"
    using upstream_key_custody [OF ord t others(1) ep, of ?do demo_translator "[]" "''{}''" og res] F by blast
  then have "map_of (ogHeaders og) ''x-api-key'' = Some ''sk-ant-1''"
    by (simp add: auth_header_def credential_def)
  moreover have "Forward GetKey id ?do (NewHTTPUpstream demo_translator (fold vault_apply [VSet ''evil'' ''Anthropic'' ''sk-x''] []))
      ''acme'' ''Anthropic'' ''{}'' = (None, Inl (NoKey ''acme'' ''Anthropic''))"
    using upstream_key_custody [OF ord t others(2) ep, of ?do demo_translator "[]" "''{}''"] none by blast
  ultimately show ?thesis unfolding F by simp
qed

subsection \<open>Translation\<close>

lemma wrap64_0: "wrap64 0 = 0"
  by (simp add: wrap64_def)

lemma split_system_filter:
  "split_system ms = (map cmContent (filter (\<lambda>m. cmRole m = ''system'') ms), filter (\<lambda>m. cmRole m \<noteq> ''system'') ms)"
  by (induction ms) auto

text \<open>C28: Translation round trip. A chat request to Anthropic is sent with the model, temperature and streaming
  flag unchanged, every system message, in order, in the system field, every other message in order, and the given
  token limit if it is positive, else 4096.  A successful answer comes back with its identifier and model, the
  text blocks joined in order, the finish reason OpenAI clients know for the stop reason, and the provider's token
  counts; and the gateway's metering reads from it exactly the counts the provider reported (unless it reported
  none).  The encoders and decoders of JSON are parameters: the metering decoder reads back the usage the
  response encoder wrote.\<close>

theorem anthropic_translation_metered:
  assumes "usage_of (enc_resp (translate_response a)) =
        (let r = translate_response a in Some (orPromptTokens r, orCompletionTokens r, orTotalTokens r))"
    and "dec_req body = Inr q" and "dec_resp raw = Inr a" and "200 \<le> status" and "status < 300"
    and "GetKey t ''Anthropic'' v = Some key"
    and "\<And>og. do og = Inr (status, raw)"
    and "0 \<le> arInputTokens a" "0 \<le> arOutputTokens a"
  shows "\<exists>og r aq. Forward GetKey ord do (NewHTTPUpstream (AnthropicTranslator dec_req enc_req dec_resp enc_resp) v) t ''Anthropic'' body
       = (Some og, Inr (status, enc_resp r)) \<and>
     ogBody og = enc_req aq \<and> aqModel aq = oqModel q \<and>
     aqTemperature aq = oqTemperature q \<and> aqStream aq = oqStream q \<and>
     aqMaxTokens aq = (if \<exists>n > 0. oqMaxTokens q = Some n then the (oqMaxTokens q) else 4096) \<and>
     aqSystem aq = join [CHR 0x0A] (map cmContent (filter (\<lambda>m. cmRole m = ''system'') (oqMessages q))) \<and>
     aqMessages aq = filter (\<lambda>m. cmRole m \<noteq> ''system'') (oqMessages q) \<and>
     orID r = arID a \<and> orModel r = arModel a \<and> orRole r = ''assistant'' \<and>
     orContent r = concat (map cbText (filter (\<lambda>b. cbType b = ''text'') (arContent a))) \<and>
     (orFinishReason r, arStopReason a) \<in>
       {(''stop'', ''end_turn''), (''stop'', ''stop_sequence''), (''stop'', ''''), (''length'', ''max_tokens''),
        (''tool_calls'', ''tool_use'')} \<union>
       {(s, s) | s. s \<notin> {''end_turn'', ''stop_sequence'', '''', ''max_tokens'', ''tool_use''}} \<and>
     orPromptTokens r = arInputTokens a \<and> orCompletionTokens r = arOutputTokens a \<and>
     parseResponseUsage usage_of (enc_resp r) =
       (arInputTokens a, arOutputTokens a, 0 < arInputTokens a \<or> 0 < arOutputTokens a)"
proof -
  have ep: "map_of defaultEndpoints ''Anthropic'' = Some \<lparr>peURL = ''https://api.anthropic.com/v1/messages'',
      peAuthStyle = AuthAnthropic, peExtraHeaders = [(''anthropic-version'', ''2023-06-01'')]\<rparr>" by code_simp
  let ?u = "NewHTTPUpstream (AnthropicTranslator dec_req enc_req dec_resp enc_resp) v"
  let ?r = "translate_response a" and ?aq = "translate_request 4096 q"
  obtain og where F: "Forward GetKey ord do ?u t ''Anthropic'' body = (Some og, Inr (status, enc_resp ?r))"
      "ogBody og = enc_req ?aq"
    using assms(2-7) ep by (simp add: NewHTTPUpstream_def Forward_def AnthropicTranslator_def)
  have u: "parseResponseUsage usage_of (enc_resp ?r) =
      (arInputTokens a, arOutputTokens a, 0 < arInputTokens a \<or> 0 < arOutputTokens a)"
    using assms(1,8,9) wrap64_0 by (auto simp: parseResponseUsage_def translate_response_def)
  have stop: "(orFinishReason ?r, arStopReason a) \<in>
       {(''stop'', ''end_turn''), (''stop'', ''stop_sequence''), (''stop'', ''''), (''length'', ''max_tokens''),
        (''tool_calls'', ''tool_use'')} \<union>
       {(s, s) | s. s \<notin> {''end_turn'', ''stop_sequence'', '''', ''max_tokens'', ''tool_use''}}"
    by (simp add: translate_response_def mapAnthropicStop_def)
  have "aqMaxTokens ?aq = (if \<exists>n > 0. oqMaxTokens q = Some n then the (oqMaxTokens q) else 4096)"
    by (auto simp: translate_request_def split_system_filter split: option.splits)
  with F u stop show ?thesis
    by (intro exI [of _ og] exI [of _ ?r] exI [of _ ?aq] conjI)
      (simp_all only: translate_request_def translate_response_def split_system_filter Let_def split_conv
        anthropic_request.simps oai_response.simps)
qed

theorem anthropic_translation_metered_witness:
  "\<exists>og ob. Forward GetKey id (\<lambda>_. Inr (200, ''raw''))
       (NewHTTPUpstream (AnthropicTranslator (\<lambda>_. Inr demo_oai) aqSystem (\<lambda>_. Inr demo_answer) orContent) demo_vault)
       ''acme'' ''Anthropic'' ''{}'' = (Some og, Inr (200, ob)) \<and> ogBody og = ''be brief'' \<and>
     ob = ''hi'' \<and> parseResponseUsage (\<lambda>b. if b = ''hi'' then Some (12, 3, 15) else None) ob = (12, 3, True)"
proof -
  have u: "(\<lambda>b. if b = ''hi'' then Some (12, 3, 15) else None) (orContent (translate_response demo_answer)) =
      (let r = translate_response demo_answer in Some (orPromptTokens r, orCompletionTokens r, orTotalTokens r))" by code_simp
  have k: "GetKey ''acme'' ''Anthropic'' demo_vault = Some ''sk-ant-1''" by code_simp
  have m: "map cmContent (filter (\<lambda>m. cmRole m = ''system'') (oqMessages demo_oai)) = [''be brief'']" by code_simp
  have i: "arInputTokens demo_answer = 12" "arOutputTokens demo_answer = 3"
    "concat (map cbText (filter (\<lambda>b. cbType b = ''text'') (arContent demo_answer))) = ''hi''" by code_simp+
  show ?thesis
    using anthropic_translation_metered [of "\<lambda>b. if b = ''hi'' then Some (12, 3, 15) else None" orContent demo_answer
        "\<lambda>_. Inr demo_oai" "''{}''" demo_oai "\<lambda>_. Inr demo_answer" "''raw''" 200 "''acme''" demo_vault "''sk-ant-1''"
        "\<lambda>_. Inr (200, ''raw'')" id aqSystem, OF u _ _ _ _ k] m i
    by fastforce
qed

end
