(* ===== verification/CIDR.thy ===== *)
theory CIDR
  imports NetIP
begin

unbundle bit_operations_syntax

text \<open>
  Go's \<^verbatim>\<open>net.ParseCIDR\<close>, \<^verbatim>\<open>net.CIDRMask\<close> and \<^verbatim>\<open>net.IPNet.Contains\<close>, which the policy matchers
  (\<^verbatim>\<open>src/pkg/policy\<close>) and the kernel allowlist (\<^verbatim>\<open>src/pkg/bpf/bpf.go\<close>) rely on, and their meaning for
  IPv4: an address is in a block iff its leading bits are those of the network.
\<close>

subsection \<open>Model\<close>

record ipnet =
  inIP :: ip
  inMask :: "nat list"

fun dtoi :: "nat \<Rightarrow> nat \<Rightarrow> string \<Rightarrow> (nat \<times> nat) option" where
  "dtoi n i [] = (if i = 0 then None else Some (n, i))"
| "dtoi n i (c # s) =
     (if is_digit c then
        let n' = 10 * n + (code c - 48) in if 16777215 \<le> n' then None else dtoi n' (Suc i) s
      else if i = 0 then None else Some (n, i))"

definition CIDRMask :: "nat \<Rightarrow> nat \<Rightarrow> nat list" where
  "CIDRMask ones bytes = map (\<lambda>i. 256 - 2 ^ (8 - min 8 (ones - 8 * i))) [0..<bytes]"

definition mask_bytes :: "nat list \<Rightarrow> nat list \<Rightarrow> nat list" where
  "mask_bytes m bs = map2 (\<lambda>x y. x AND y) m bs"

text \<open>
  The family of the address part decides the width: a dotted address has 32 bits, any other 128.
  \<^verbatim>\<open>IP.Mask\<close> drops the 12-byte prefix when the mask has four bytes.
\<close>

definition ParseCIDR :: "string \<Rightarrow> ipnet option" where
  "ParseCIDR s =
     (if CHR ''/'' \<notin> set s then None
      else
        let addr = takeWhile (\<lambda>c. c \<noteq> CHR ''/'') s; mask = tl (dropWhile (\<lambda>c. c \<noteq> CHR ''/'') s) in
        case ParseIP addr of
          None \<Rightarrow> None
        | Some ip \<Rightarrow>
            let bytes = (if ip_family addr = Some CHR ''.'' then 4 else 16) in
            case dtoi 0 0 mask of
              None \<Rightarrow> None
            | Some (n, i) \<Rightarrow>
                if i \<noteq> length mask \<or> 8 * bytes < n then None
                else
                  let m = CIDRMask n bytes in
                  Some \<lparr>inIP = mask_bytes m (drop (16 - bytes) ip), inMask = m\<rparr>)"

text \<open>\<^verbatim>\<open>networkNumberAndMask\<close> and \<^verbatim>\<open>Contains\<close>; \<open>net_To4\<close> also accepts a four-byte address.\<close>

definition net_To4 :: "ip \<Rightarrow> ip option" where
  "net_To4 ip = (if length ip = 4 then Some ip else To4 ip)"

definition Contains :: "ipnet \<Rightarrow> ip \<Rightarrow> bool" where
  "Contains n ip =
     (let nn = (case net_To4 (inIP n) of Some q \<Rightarrow> q | None \<Rightarrow> inIP n);
          m = (if length (inMask n) = 16 \<and> length nn = 4 then drop 12 (inMask n) else inMask n);
          x = (case net_To4 ip of Some q \<Rightarrow> q | None \<Rightarrow> ip)
      in length x = length nn \<and> mask_bytes m nn = mask_bytes m x)"

subsection \<open>Masks as leading bits\<close>

lemma length_CIDRMask [simp]: "length (CIDRMask n k) = k"
  by (simp add: CIDRMask_def)

lemma length_mask_bytes [simp]: "length (mask_bytes m bs) = min (length m) (length bs)"
  by (simp add: mask_bytes_def)

lemma bit_byte_less: "bit (a :: nat) n \<Longrightarrow> a < 256 \<Longrightarrow> n < 8"
  by (rule ccontr) (use power_increasing [of 8 n "2 :: nat"] in \<open>auto simp: bit_iff_odd not_less\<close>)

lemma prefix_mask: "k \<le> 8 \<Longrightarrow> 256 - 2 ^ (8 - k) = push_bit (8 - k) (mask k :: nat)"
  by (simp add: push_bit_eq_mult mask_eq_exp_minus_1 diff_mult_distrib flip: power_add)

lemma and_prefix_byte:
  assumes "a < 256" "k \<le> 8"
  shows "(256 - 2 ^ (8 - k)) AND a = (a div 2 ^ (8 - k)) * (2 ^ (8 - k) :: nat)"
proof -
  have "push_bit (8 - k) (mask k) AND a = push_bit (8 - k) (drop_bit (8 - k) a)"
  proof (rule bit_eqI)
    fix n
    show "bit (push_bit (8 - k) (mask k) AND a) n = bit (push_bit (8 - k) (drop_bit (8 - k) a)) n"
      using bit_byte_less [of a n, OF _ assms(1)] assms(2)
      by (cases "bit a n") (auto simp: bit_simps)
  qed
  then show ?thesis
    using prefix_mask [OF assms(2)] by (simp add: push_bit_eq_mult drop_bit_eq_div)
qed

text \<open>The value of a big-endian byte string, and what masking with the first \<open>n\<close> bits keeps of it.\<close>

fun be_val :: "nat list \<Rightarrow> nat" where
  "be_val [] = 0"
| "be_val (b # bs) = b * 256 ^ length bs + be_val bs"

lemma be_val_less: "\<forall>b \<in> set bs. b < 256 \<Longrightarrow> be_val bs < 256 ^ length bs"
proof (induction bs)
  case (Cons b bs)
  then have "be_val bs < 256 ^ length bs" and "b \<le> 255" by auto
  then have "b * 256 ^ length bs + be_val bs < 255 * 256 ^ length bs + 256 ^ length bs"
    by (intro add_le_less_mono) simp_all
  then show ?case by simp
qed simp

lemma be_val_inject:
  "length xs = length ys \<Longrightarrow> \<forall>b \<in> set xs. b < 256 \<Longrightarrow> \<forall>b \<in> set ys. b < 256 \<Longrightarrow>
     be_val xs = be_val ys \<longleftrightarrow> xs = ys"
proof (induction xs ys rule: list_induct2)
  case (Cons x xs y ys)
  have l: "be_val xs < 256 ^ length xs" "be_val ys < 256 ^ length xs"
    using Cons be_val_less [of xs] be_val_less [of ys] by auto
  have "x = y" if "x * 256 ^ length xs + be_val xs = y * 256 ^ length xs + be_val ys"
  proof -
    have "(x * 256 ^ length xs + be_val xs) div 256 ^ length xs = x"
      "(y * 256 ^ length xs + be_val ys) div 256 ^ length xs = y" using l by simp_all
    with that show ?thesis by simp
  qed
  with Cons show ?case by auto
qed simp

text \<open>Equal under the mask is equal in the leading bits.\<close>

lemma CIDRMask_Suc: "CIDRMask n (Suc k) = (256 - 2 ^ (8 - min 8 n)) # CIDRMask (n - 8) k"
  unfolding CIDRMask_def upt_conv_Cons [OF zero_less_Suc] by (simp add: map_Suc_upt [symmetric] o_def del: upt_Suc)

lemma mask_bytes_Cons [simp]: "mask_bytes (m # ms) (b # bs) = (m AND b) # mask_bytes ms bs"
  by (simp add: mask_bytes_def)

lemma mask_bytes_Nil [simp]: "mask_bytes [] bs = []" "mask_bytes ms [] = []"
  by (simp_all add: mask_bytes_def)

lemma mask_zero: "length xs = length ys \<Longrightarrow> mask_bytes (CIDRMask 0 (length xs)) xs = mask_bytes (CIDRMask 0 (length xs)) ys"
  by (induction xs ys rule: list_induct2) (simp_all add: CIDRMask_Suc CIDRMask_def [of _ 0])

lemma div_block:
  assumes "v < 256 ^ l" "n \<le> 8"
  shows "(b * 256 ^ l + v) div 2 ^ (8 * Suc l - n) = (b :: nat) div 2 ^ (8 - n)"
proof -
  have "(2 :: nat) ^ (8 * Suc l - n) = 256 ^ l * 2 ^ (8 - n)"
  proof -
    have "8 * Suc l - n = 8 * l + (8 - n)" using assms(2) by simp
    then show ?thesis by (simp add: power_add power_mult)
  qed
  with assms(1) show ?thesis by (simp add: div_mult2_eq)
qed

lemma mask_leading_bits:
  "length xs = length ys \<Longrightarrow> \<forall>b \<in> set xs. b < 256 \<Longrightarrow> \<forall>b \<in> set ys. b < 256 \<Longrightarrow> n \<le> 8 * length xs \<Longrightarrow>
     mask_bytes (CIDRMask n (length xs)) xs = mask_bytes (CIDRMask n (length xs)) ys \<longleftrightarrow>
     be_val xs div 2 ^ (8 * length xs - n) = be_val ys div 2 ^ (8 * length xs - n)"
proof (induction xs ys arbitrary: n rule: list_induct2)
  case (Cons x xs y ys)
  have l: "be_val xs < 256 ^ length xs" "be_val ys < 256 ^ length xs"
    using Cons be_val_less [of xs] be_val_less [of ys] by auto
  have b: "x < 256" "y < 256" using Cons.prems by auto
  show ?case
  proof (cases "n \<le> 8")
    case True
    then have "n - 8 = 0" "min 8 n = n" by auto
    moreover have "x div 2 ^ (8 - n) * 2 ^ (8 - n) = y div 2 ^ (8 - n) * 2 ^ (8 - n) \<longleftrightarrow> x div 2 ^ (8 - n) = y div 2 ^ (8 - n)"
      by simp
    ultimately show ?thesis
      using True b l Cons.hyps mask_zero [of xs ys] div_block [OF l(1) True] div_block [of "be_val ys" "length xs" n y]
      by (simp add: CIDRMask_Suc and_prefix_byte)
  next
    case False
    define j where "j = 8 * length xs - (n - 8)"
    have j: "8 * Suc (length xs) - n = j" "j \<le> 8 * length xs" using False by (auto simp: j_def)
    have p: "(256 :: nat) ^ length xs = 2 ^ (8 * length xs - j) * 2 ^ j"
      using j(2) by (simp add: power_mult flip: power_add)
    have d: "(x * 256 ^ length xs + be_val xs) div 2 ^ j = x * 2 ^ (8 * length xs - j) + be_val xs div 2 ^ j"
      "(y * 256 ^ length xs + be_val ys) div 2 ^ j = y * 2 ^ (8 * length xs - j) + be_val ys div 2 ^ j"
      unfolding p mult.assoc [symmetric] by simp_all
    have lo: "be_val xs div 2 ^ j < 2 ^ (8 * length xs - j)" "be_val ys div 2 ^ j < 2 ^ (8 * length xs - j)"
      using l unfolding p by (simp_all add: less_mult_imp_div_less)
    have hd: "x = y" if "x * 2 ^ (8 * length xs - j) + be_val xs div 2 ^ j = y * 2 ^ (8 * length xs - j) + be_val ys div 2 ^ j"
    proof -
      have "(x * 2 ^ (8 * length xs - j) + be_val xs div 2 ^ j) div 2 ^ (8 * length xs - j) = x"
        "(y * 2 ^ (8 * length xs - j) + be_val ys div 2 ^ j) div 2 ^ (8 * length xs - j) = y" using lo by simp_all
      with that show ?thesis by simp
    qed
    have "mask_bytes (CIDRMask (n - 8) (length xs)) xs = mask_bytes (CIDRMask (n - 8) (length xs)) ys \<longleftrightarrow>
        be_val xs div 2 ^ j = be_val ys div 2 ^ j"
      using Cons.IH [of "n - 8"] Cons.prems False by (simp add: j_def)
    moreover have "min 8 n = 8" using False by simp
    moreover have "(255 AND x = 255 AND y) \<longleftrightarrow> x = y"
      using and_prefix_byte [of x 8] and_prefix_byte [of y 8] b by simp
    ultimately show ?thesis
      using hd d j(1) Cons.hyps by (auto simp: CIDRMask_Suc)
  qed
qed simp

subsection \<open>Dotted blocks\<close>

lemma mask_bytes_idem: "mask_bytes m (mask_bytes m bs) = mask_bytes m bs"
  by (rule nth_equalityI) (auto simp: mask_bytes_def and.left_idem)

lemma dtoi_digit: "d < 10 \<Longrightarrow> 10 * n + d < 16777215 \<Longrightarrow> dtoi n i (digit_char d # s) = dtoi (10 * n + d) (Suc i) s"
  by (simp add: Let_def)

lemma dtoi_octet:
  assumes "v < 256"
  shows "dtoi 0 0 (octet v) = Some (v, length (octet v))"
proof (rule octet_cases [OF assms])
  assume v: "v < 10" "octet v = [digit_char v]"
  then show ?thesis using dtoi_digit [of v 0 0] by (simp del: dtoi.simps(2))
next
  assume v: "10 \<le> v" "v < 100" "octet v = [digit_char (v div 10), digit_char (v mod 10)]"
  then show ?thesis by (simp add: dtoi_digit del: dtoi.simps(2))
next
  assume v: "100 \<le> v" "octet v = [digit_char (v div 100), digit_char (v div 10 mod 10), digit_char (v mod 10)]"
  have "v div 100 = v div 10 div 10" by (simp flip: div_mult2_eq)
  then have "10 * (v div 100) + v div 10 mod 10 = v div 10" by simp
  with v assms show ?thesis by (simp add: dtoi_digit del: dtoi.simps(2))
qed

lemma slash_notin_dotted: "CHR ''/'' \<notin> set (dotted a b c d)"
  using octet_is_digit [of a] octet_is_digit [of b] octet_is_digit [of c] octet_is_digit [of d]
  by (auto simp: dotted_def is_digit_def code_def)

definition block_of :: "nat list \<Rightarrow> nat \<Rightarrow> ipnet" where
  "block_of q n = \<lparr>inIP = mask_bytes (CIDRMask n 4) q, inMask = CIDRMask n 4\<rparr>"

lemma ParseCIDR_dotted:
  assumes "a < 256" "b < 256" "c < 256" "d < 256" "n \<le> 32"
  shows "ParseCIDR (dotted a b c d @ ''/'' @ octet n) = Some (block_of [a, b, c, d] n)"
proof -
  have f: "ip_family (dotted a b c d) = Some CHR ''.''"
    using ip_family_digits [OF octet_is_digit] by (simp add: dotted_def)
  have t: "takeWhile (\<lambda>c. c \<noteq> CHR ''/'') (dotted a b c d @ ''/'' @ octet n) = dotted a b c d"
    "dropWhile (\<lambda>c. c \<noteq> CHR ''/'') (dotted a b c d @ ''/'' @ octet n) = ''/'' @ octet n"
    using slash_notin_dotted by (auto simp: takeWhile_append dropWhile_append)
  have "dtoi 0 0 (octet n) = Some (n, length (octet n))" using assms(5) by (intro dtoi_octet) simp
  then show ?thesis
    unfolding ParseCIDR_def t using f ParseIP_dotted [OF assms(1-4)] assms(5)
    by (simp add: Let_def block_of_def v4_prefix_def)
qed

text \<open>An IPv4 address is in a block iff it agrees with the network on the first \<open>n\<close> bits.\<close>

definition same_prefix :: "nat \<Rightarrow> nat list \<Rightarrow> nat list \<Rightarrow> bool" where
  "same_prefix n q r \<longleftrightarrow> be_val q div 2 ^ (32 - n) = be_val r div 2 ^ (32 - n)"

lemma Contains_block:
  assumes "length q = 4" "length r = 4" "\<forall>b \<in> set q. b < 256" "\<forall>b \<in> set r. b < 256" "n \<le> 32"
  shows "Contains (block_of q n) (v4_prefix @ r) \<longleftrightarrow> same_prefix n q r"
  using assms mask_leading_bits [of q r n]
  by (simp add: Contains_def block_of_def net_To4_def same_prefix_def mask_bytes_idem v4_prefix_def To4_def)

text \<open>An IPv6 address is in no IPv4 block.\<close>

lemma Contains_block_v6:
  "length q = 4 \<Longrightarrow> length ip = 16 \<Longrightarrow> To4 ip = None \<Longrightarrow> \<not> Contains (block_of q n) ip"
  by (simp add: Contains_def block_of_def net_To4_def)

end
