(* ===== verification/GoStrings.thy ===== *)
theory GoStrings
  imports Prelude
begin

text \<open>
  The string functions of Go's standard library the policy, fleet and control-plane code uses, on
  byte strings: \<^verbatim>\<open>strings.Contains\<close> (\<open>sublist\<close>), \<^verbatim>\<open>strings.Index\<close>, \<^verbatim>\<open>strings.Split\<close>,
  \<^verbatim>\<open>strings.Fields\<close>, \<^verbatim>\<open>strings.TrimPrefix\<close>, \<^verbatim>\<open>strings.TrimSuffix\<close> and \<^verbatim>\<open>strconv.Atoi\<close>, with their
  round trips: joining what was split, and reading back a printed number.
\<close>

subsection \<open>Searching and splitting\<close>

fun index_of :: "string \<Rightarrow> string \<Rightarrow> nat option" where
  "index_of p [] = (if p = [] then Some 0 else None)"
| "index_of p (c # s) = (if prefix p (c # s) then Some 0 else map_option Suc (index_of p s))"

lemma index_of_Some: "index_of p s = Some i \<Longrightarrow> s = take i s @ p @ drop (i + length p) s"
proof (induction s arbitrary: i)
  case (Cons c s)
  show ?case
  proof (cases "prefix p (c # s)")
    case True
    with Cons.prems have "i = 0" by simp
    with True show ?thesis by (auto simp: prefix_def)
  next
    case False
    then obtain j where "i = Suc j" "index_of p s = Some j" using Cons.prems by auto
    with Cons.IH show ?thesis by simp
  qed
qed (auto split: if_splits)

lemma index_of_bound: "index_of p s = Some i \<Longrightarrow> i + length p \<le> length s"
proof (induction s arbitrary: i)
  case (Cons c s)
  show ?case
  proof (cases "prefix p (c # s)")
    case True
    with Cons.prems prefix_length_le [OF True] show ?thesis by simp
  next
    case False
    then obtain j where "i = Suc j" "index_of p s = Some j" using Cons.prems by auto
    with Cons.IH show ?thesis by simp
  qed
qed (auto split: if_splits)

lemma index_of_None: "index_of p s = None \<longleftrightarrow> \<not> sublist p s"
proof (induction s)
  case (Cons c s)
  then show ?case by (simp add: sublist_Cons_right)
qed simp

function Split :: "string \<Rightarrow> string \<Rightarrow> string list" where
  "Split sep s =
     (if sep = [] then map (\<lambda>c. [c]) s
      else case index_of sep s of
        None \<Rightarrow> [s]
      | Some i \<Rightarrow> take i s # Split sep (drop (i + length sep) s))"
  by pat_completeness auto
termination
  by (relation "measure (\<lambda>(sep, s). length s)") (auto dest!: index_of_bound simp: length_greater_0_conv [symmetric] simp del: length_greater_0_conv)

declare Split.simps [simp del]

lemma Split_nonempty: "sep \<noteq> [] \<Longrightarrow> Split sep s \<noteq> []"
  by (subst Split.simps) (simp split: option.splits)

lemma join_Split: "sep \<noteq> [] \<Longrightarrow> join sep (Split sep s) = s"
proof (induction sep s rule: Split.induct)
  case (1 sep s)
  show ?case
  proof (cases "index_of sep s")
    case None
    with 1 show ?thesis by (subst Split.simps) simp
  next
    case (Some i)
    let ?r = "drop (i + length sep) s"
    have "join sep (Split sep s) = take i s @ sep @ join sep (Split sep ?r)"
      using Some 1 Split_nonempty [of sep ?r] by (subst Split.simps) (cases "Split sep ?r"; simp)
    also have "\<dots> = take i s @ sep @ ?r" using 1 Some by simp
    finally show ?thesis using index_of_Some [OF Some] by simp
  qed
qed

definition TrimPrefix :: "string \<Rightarrow> string \<Rightarrow> string" where
  "TrimPrefix s p = (if prefix p s then drop (length p) s else s)"

definition TrimSuffix :: "string \<Rightarrow> string \<Rightarrow> string" where
  "TrimSuffix s p = (if suffix p s then take (length s - length p) s else s)"

fun fields_loop :: "string \<Rightarrow> string \<Rightarrow> string list" where
  "fields_loop cur [] = (if cur = [] then [] else [rev cur])"
| "fields_loop cur (c # s) =
     (if is_space c then if cur = [] then fields_loop [] s else rev cur # fields_loop [] s
      else fields_loop (c # cur) s)"

definition Fields :: "string \<Rightarrow> string list" where
  "Fields s = fields_loop [] s"

subsection \<open>Numbers\<close>

definition Atoi :: "string \<Rightarrow> int option" where
  "Atoi s =
     (let neg = (s \<noteq> [] \<and> hd s = CHR ''-'');
          ds = (if s \<noteq> [] \<and> (hd s = CHR ''-'' \<or> hd s = CHR ''+'') then tl s else s)
      in if ds = [] \<or> \<not> list_all is_digit ds then None
         else let v = digits_value 0 ds; n = (if neg then - v else v) in if is_int64 n then Some n else None)"

text \<open>What \<^verbatim>\<open>%d\<close> prints for a non-negative number reads back.\<close>

lemma Atoi_itoa:
  assumes "is_int64 i" "0 \<le> i"
  shows "Atoi (itoa i) = Some i"
proof (rule itoa_cases [OF assms(1)])
  assume i: "0 \<le> i" "\<forall>c \<in> set (itoa i). is_digit c" "digits_value 0 (itoa i) = i"
  have ne: "itoa i \<noteq> []"
    using assms(2) itoa_loop_Nil [of i] by (auto simp: itoa_def)
  then have "hd (itoa i) \<noteq> CHR ''-''" "hd (itoa i) \<noteq> CHR ''+''"
    using i(2) [rule_format, OF hd_in_set [OF ne]] by (auto simp: is_digit_def code_def)
  with i ne assms show ?thesis by (simp add: Atoi_def list_all_iff)
next
  fix s assume "i < 0" with assms(2) show ?thesis by simp
qed

subsection \<open>Single-character separators\<close>

lemma index_of_char: "c \<notin> set a \<Longrightarrow> index_of [c] (a @ c # r) = Some (length a)"
  by (induction a) (auto simp: prefix_Cons)

lemma index_of_char_None: "c \<notin> set a \<Longrightarrow> index_of [c] a = None"
  by (induction a) (auto simp: prefix_Cons)

lemma Split_char_Nil: "c \<notin> set a \<Longrightarrow> Split [c] a = [a]"
  by (subst Split.simps) (simp add: index_of_char_None)

lemma Split_char_Cons: "c \<notin> set a \<Longrightarrow> Split [c] (a @ c # r) = a # Split [c] r"
  by (subst Split.simps) (simp add: index_of_char)

lemma Split_char_notin: "x \<in> set (Split [c] s) \<Longrightarrow> c \<notin> set x"
proof (induction "[c]" s rule: Split.induct)
  case (1 s)
  show ?case
  proof (cases "index_of [c] s")
    case None
    with 1(2) have "x = s" by (simp add: Split.simps [of "[c]" s])
    moreover have "c \<notin> set s" using None unfolding index_of_None by (metis in_set_conv_decomp sublist_def append_Cons append_Nil)
    ultimately show ?thesis by simp
  next
    case (Some i)
    have "c \<notin> set (take i s)" using Some
    proof (induction s arbitrary: i)
      case (Cons d s)
      then show ?case by (cases i) (auto split: if_splits simp: prefix_Cons)
    qed (auto split: if_splits)
    with 1 Some show ?thesis by (auto simp: Split.simps [of "[c]" s])
  qed
qed

end
