(* ===== verification/Policy.thy ===== *)
theory Policy
  imports CIDR GoStrings
begin

text \<open>
  The security policies of \<^verbatim>\<open>src/pkg/policy\<close>: loading and validation, the matching of events by the
  rules of \<^verbatim>\<open>loader.go\<close>, and the evaluator, container lookup and process chain of \<^verbatim>\<open>advanced.go\<close>.
  An event is what the dynamic type tests and the reflection of the matchers see of it; a
  reflection call on a field of the wrong kind panics, which is the value \<open>None\<close> of the matchers.
\<close>

subsection \<open>Policies\<close>

abbreviation (input) ActionAllow :: string where "ActionAllow \<equiv> ''allow''"
abbreviation (input) ActionBlock :: string where "ActionBlock \<equiv> ''block''"
abbreviation (input) ActionAlert :: string where "ActionAlert \<equiv> ''alert''"

record policy_metadata =
  pmName :: string
  pmDescription :: string
  pmSeverity :: string

record rule_condition =
  rcType :: string
  rcExtensions :: "string list"
  rcPaths :: "string list"
  rcDestinations :: "string list"
  rcSizeThresholdMB :: int
  rcPort :: int
  rcProtocol :: string
  rcHashMismatch :: bool
  rcCIDRMatch :: string

record policy_rule =
  prName :: string
  prDescription :: string
  prEnabled :: bool
  prCondition :: rule_condition
  prAction :: string
  prSeverity :: string
  prAlert :: bool
  prResponse :: string

record policy_response =
  psEnabled :: bool
  psMethod :: string
  psDuration :: string
  psRequireKubernetes :: bool

record alert_config =
  acWebhook :: string
  acSilenceSeconds :: int
  acRateLimit :: int
  acRateLimitWindow :: string

record trusted_config =
  tcProcesses :: "(string \<times> string) list"
  tcContainers :: "string list"

record exemption_config =
  ecPaths :: "string list"
  ecUsers :: "string list"

record policy =
  poVersion :: string
  poMetadata :: policy_metadata
  poRules :: "policy_rule list"
  poResponses :: "(string, policy_response) gomap"
  poAlerts :: alert_config
  poTrusted :: trusted_config
  poExemptions :: exemption_config

subsection \<open>Validation and loading\<close>

datatype policy_error =
    NoVersion | NoRules | NoName nat | NoType nat | NoAction nat | BadAction nat string
  | ReadError string | ParseError string | InvalidPolicy policy_error

fun validate_rules :: "nat \<Rightarrow> policy_rule list \<Rightarrow> policy_error option" where
  "validate_rules i [] = None"
| "validate_rules i (r # rs) =
     (if prName r = '''' then Some (NoName i)
      else if rcType (prCondition r) = '''' then Some (NoType i)
      else if prAction r = '''' then Some (NoAction i)
      else if prAction r \<noteq> ActionAllow \<and> prAction r \<noteq> ActionBlock \<and> prAction r \<noteq> ActionAlert
      then Some (BadAction i (prAction r))
      else validate_rules (Suc i) rs)"

definition Validate :: "policy \<Rightarrow> policy_error option" where
  "Validate p =
     (if poVersion p = '''' then Some NoVersion
      else if poRules p = [] then Some NoRules
      else validate_rules 0 (poRules p))"

definition condition :: "string \<Rightarrow> rule_condition" where
  "condition t = \<lparr>rcType = t, rcExtensions = [], rcPaths = [], rcDestinations = [], rcSizeThresholdMB = 0,
     rcPort = 0, rcProtocol = '''', rcHashMismatch = False, rcCIDRMatch = ''''\<rparr>"

definition DefaultPolicy :: policy where
  "DefaultPolicy =
     \<lparr>poVersion = ''1.0'',
      poMetadata = \<lparr>pmName = ''neurosentry-default'',
        pmDescription = ''Default security policy for AI inference protection'', pmSeverity = ''medium''\<rparr>,
      poRules =
        [\<lparr>prName = ''block-unauthorized-model-access'', prDescription = ''Block unauthorized access to model files'',
          prEnabled = True,
          prCondition = (condition ''file_access'')\<lparr>rcExtensions := [''.safetensors'', ''.gguf'', ''.pth'', ''.pt'', ''.pkl'']\<rparr>,
          prAction = ActionBlock, prSeverity = ''high'', prAlert = True, prResponse = ''''\<rparr>,
         \<lparr>prName = ''block-pickle-bombs'', prDescription = ''Block dangerous pickle operations'', prEnabled = True,
          prCondition = condition ''pickle_dangerous'',
          prAction = ActionBlock, prSeverity = ''critical'', prAlert = True, prResponse = ''''\<rparr>,
         \<lparr>prName = ''allow-k8s-internal'', prDescription = ''Allow internal Kubernetes traffic'', prEnabled = True,
          prCondition = (condition ''network_egress'')\<lparr>rcDestinations := [''10.0.0.0/8'', ''172.16.0.0/12'']\<rparr>,
          prAction = ActionAllow, prSeverity = ''info'', prAlert = False, prResponse = ''''\<rparr>],
      poResponses = [],
      poAlerts = \<lparr>acWebhook = '''', acSilenceSeconds = 300, acRateLimit = 10, acRateLimitWindow = ''1m''\<rparr>,
      poTrusted = \<lparr>tcProcesses = [], tcContainers = []\<rparr>,
      poExemptions = \<lparr>ecPaths = [], ecUsers = []\<rparr>\<rparr>"

definition NewLoader :: "(string \<Rightarrow> bool) \<Rightarrow> string \<Rightarrow> string" where
  "NewLoader not_exist path = (if path = '''' then ''builtin'' else if not_exist path then ''builtin'' else path)"

text \<open>\<open>read\<close> is \<^verbatim>\<open>os.ReadFile\<close> and \<open>parse\<close> is \<^verbatim>\<open>yaml.Unmarshal\<close>; \<open>Inl\<close> carries their error text.\<close>

definition Load :: "(string \<Rightarrow> string + string) \<Rightarrow> (string \<Rightarrow> string + policy) \<Rightarrow> string \<Rightarrow> policy_error + policy" where
  "Load read parse path =
     (if path = ''builtin'' then Inr DefaultPolicy
      else case read path of
        Inl e \<Rightarrow> Inl (ReadError e)
      | Inr bytes \<Rightarrow>
          (case parse bytes of
             Inl e \<Rightarrow> Inl (ParseError e)
           | Inr p \<Rightarrow> (case Validate p of Some e \<Rightarrow> Inl (InvalidPolicy e) | None \<Rightarrow> Inr p)))"

subsection \<open>Events and rules\<close>

datatype anyval = AStr string | AMap "(string \<times> anyval) list" | AOther

datatype refl_data = DataStruct "string option" | DataNotStruct

record refl_event =
  rfType :: "string option"
  rfData :: "refl_data option"

datatype policy_event = EvMap "(string \<times> anyval) list" | EvStruct refl_event | EvOther

definition str_field :: "(string \<times> anyval) list \<Rightarrow> string \<Rightarrow> string" where
  "str_field ev k = (case map_of ev k of Some (AStr s) \<Rightarrow> s | _ \<Rightarrow> '''')"

definition event_field :: "(string \<times> anyval) list \<Rightarrow> string \<Rightarrow> string" where
  "event_field ev k =
     (if str_field ev k \<noteq> '''' then str_field ev k
      else case map_of ev ''data'' of Some (AMap d) \<Rightarrow> str_field d k | _ \<Rightarrow> '''')"

definition matchFileAccessStruct :: "policy_rule \<Rightarrow> refl_event \<Rightarrow> bool option" where
  "matchFileAccessStruct r e =
     (case rfType e of
        None \<Rightarrow> Some False
      | Some t \<Rightarrow>
          if t \<noteq> ''file_access'' \<and> t \<noteq> ''file_blocked'' then Some False
          else case rfData e of
            None \<Rightarrow> Some True
          | Some d \<Rightarrow>
              if rcExtensions (prCondition r) = [] then Some True
              else (case d of
                      DataNotStruct \<Rightarrow> None
                    | DataStruct None \<Rightarrow> Some True
                    | DataStruct (Some ext) \<Rightarrow> Some (ext \<in> set (rcExtensions (prCondition r)))))"

definition matchFileAccess :: "policy_rule \<Rightarrow> policy_event \<Rightarrow> bool option" where
  "matchFileAccess r event =
     (case event of
        EvMap ev \<Rightarrow>
          (let t = str_field ev ''type''; c = prCondition r in
           Some ((t = ''file_access'' \<or> t = ''file_blocked'') \<and>
                 (rcExtensions c \<noteq> [] \<longrightarrow> event_field ev ''extension'' \<in> set (rcExtensions c)) \<and>
                 (rcPaths c \<noteq> [] \<longrightarrow> (\<exists>p \<in> set (rcPaths c). prefix p (event_field ev ''file_path'')))))
      | EvStruct e \<Rightarrow> matchFileAccessStruct r e
      | EvOther \<Rightarrow> Some False)"

definition match_type :: "string \<Rightarrow> policy_event \<Rightarrow> bool" where
  "match_type t event =
     (case event of
        EvMap ev \<Rightarrow> str_field ev ''type'' = t
      | EvStruct e \<Rightarrow> rfType e = Some t
      | EvOther \<Rightarrow> False)"

definition matchPickleDangerous :: "policy_event \<Rightarrow> bool" where
  "matchPickleDangerous = match_type ''pickle_dangerous''"

definition matchModelLoad :: "policy_event \<Rightarrow> bool" where
  "matchModelLoad = match_type ''model_load''"

definition matchCIDR :: "string \<Rightarrow> string \<Rightarrow> bool" where
  "matchCIDR ip cidr =
     (case ParseCIDR cidr of
        None \<Rightarrow> ip = cidr
      | Some net \<Rightarrow> (case ParseIP ip of None \<Rightarrow> False | Some a \<Rightarrow> Contains net a))"

definition matchNetworkEgressStruct :: "refl_event \<Rightarrow> bool" where
  "matchNetworkEgressStruct e \<longleftrightarrow> rfType e = Some ''network_allowed'' \<or> rfType e = Some ''network_blocked''"

definition matchNetworkEgress :: "policy_rule \<Rightarrow> policy_event \<Rightarrow> bool" where
  "matchNetworkEgress r event =
     (case event of
        EvMap ev \<Rightarrow>
          (let t = str_field ev ''type''; dst = event_field ev ''dst_addr''; ds = rcDestinations (prCondition r) in
           (t = ''network_allowed'' \<or> t = ''network_blocked'') \<and>
           (ds \<noteq> [] \<and> dst \<noteq> '''' \<longrightarrow> (\<exists>c \<in> set ds. matchCIDR dst c)))
      | EvStruct e \<Rightarrow> matchNetworkEgressStruct e
      | EvOther \<Rightarrow> False)"

definition policy_Matches :: "policy_rule \<Rightarrow> policy_event \<Rightarrow> bool option" where
  "policy_Matches r event =
     (if \<not> prEnabled r then Some False
      else
        let t = rcType (prCondition r) in
        if t = ''file_access'' then matchFileAccess r event
        else if t = ''pickle_dangerous'' then Some (matchPickleDangerous event)
        else if t = ''network_egress'' then Some (matchNetworkEgress r event)
        else if t = ''model_load'' then Some (matchModelLoad event)
        else Some False)"

fun evaluate_rules :: "policy_rule list \<Rightarrow> policy_event \<Rightarrow> string option" where
  "evaluate_rules [] event = Some ActionAllow"
| "evaluate_rules (r # rs) event =
     (case policy_Matches r event of
        None \<Rightarrow> None
      | Some True \<Rightarrow> Some (prAction r)
      | Some False \<Rightarrow> evaluate_rules rs event)"

definition policy_Evaluate :: "policy \<Rightarrow> policy_event \<Rightarrow> string option" where
  "policy_Evaluate p event = evaluate_rules (poRules p) event"

end
