(* ===== verification/Events.thy ===== *)
theory Events
  imports NetIP Policy
begin

text \<open>
  Decoding of the kernel's ring-buffer records (\<^verbatim>\<open>src/pkg/agent/events.go\<close>).  A record is a list of
  bytes; the Go structures are read at the offsets of their natural alignment, little-endian, as
  \<^verbatim>\<open>unsafe.Pointer\<close> does on the supported targets.  The encoder \<open>access_record\<close> lays a model access
  event out as the C structure of \<^verbatim>\<open>src/pkg/bpf/neurosentry_lsm.c\<close>, tail padding included.
\<close>

subsection \<open>Events\<close>

type_synonym byte = "8 word"

record event_source =
  evPID :: int
  evUID :: int
  evComm :: string
  evCGroup :: string
  evContainerID :: string

record event_data =
  edFilePath :: string
  edFileAction :: string
  edExtension :: string
  edSrcAddr :: string
  edDstAddr :: string
  edSrcPort :: int
  edDstPort :: int
  edProtocol :: string
  edBlockReason :: string
  edFramework :: string
  edModelSize :: int
  edModelHash :: string
  edStackDepth :: int
  edSymbols :: "string list"

record agent_event =
  aeType :: string
  aeTimestamp :: time
  aeSeverity :: string
  aeSource :: event_source
  aeData :: event_data

abbreviation (input) EventTypeFileAccess :: string where "EventTypeFileAccess \<equiv> ''file_access''"
abbreviation (input) EventTypeFileBlocked :: string where "EventTypeFileBlocked \<equiv> ''file_blocked''"
abbreviation (input) EventTypeNetworkAllowed :: string where "EventTypeNetworkAllowed \<equiv> ''network_allowed''"
abbreviation (input) EventTypeNetworkBlocked :: string where "EventTypeNetworkBlocked \<equiv> ''network_blocked''"
abbreviation (input) EventTypeModelLoad :: string where "EventTypeModelLoad \<equiv> ''model_load''"
abbreviation (input) EventTypePickleLoad :: string where "EventTypePickleLoad \<equiv> ''pickle_load''"
abbreviation (input) EventTypePickleDangerous :: string where "EventTypePickleDangerous \<equiv> ''pickle_dangerous''"

definition no_source :: event_source where
  "no_source = \<lparr>evPID = 0, evUID = 0, evComm = '''', evCGroup = '''', evContainerID = ''''\<rparr>"

definition no_data :: event_data where
  "no_data = \<lparr>edFilePath = '''', edFileAction = '''', edExtension = '''', edSrcAddr = '''', edDstAddr = '''',
     edSrcPort = 0, edDstPort = 0, edProtocol = '''', edBlockReason = '''', edFramework = '''', edModelSize = 0,
     edModelHash = '''', edStackDepth = 0, edSymbols = []\<rparr>"

subsection \<open>Reading fields\<close>

fun le_val :: "byte list \<Rightarrow> nat" where
  "le_val [] = 0"
| "le_val (b # bs) = unat b + 256 * le_val bs"

definition field :: "nat \<Rightarrow> nat \<Rightarrow> byte list \<Rightarrow> byte list" where
  "field off n d = take n (drop off d)"

definition read_uint :: "nat \<Rightarrow> nat \<Rightarrow> byte list \<Rightarrow> int" where
  "read_uint off n d = int (le_val (field off n d))"

definition to_char :: "byte \<Rightarrow> char" where
  "to_char b = char_of (unat b)"

text \<open>\<^verbatim>\<open>cGoString\<close>: up to the first zero byte, and nothing when there is none (\<^verbatim>\<open>end\<close> stays 0).\<close>

definition cGoString :: "byte list \<Rightarrow> string" where
  "cGoString b = (if 0 \<in> set b then map to_char (takeWhile (\<lambda>c. c \<noteq> 0) b) else '''')"

definition uint32ToIP :: "nat \<Rightarrow> string" where
  "uint32ToIP ip = dotted (ip div 16777216 mod 256) (ip div 65536 mod 256) (ip div 256 mod 256) (ip mod 256)"

definition protocolToString :: "nat \<Rightarrow> string" where
  "protocolToString p =
     (if p = 1 then ''icmp'' else if p = 6 then ''tcp'' else if p = 17 then ''udp''
      else ''proto('' @ itoa (int p) @ '')'')"

definition hex_lower :: "nat \<Rightarrow> char" where
  "hex_lower d = (if d < 10 then char_of (48 + d) else char_of (87 + d))"

definition hex_bytes :: "byte list \<Rightarrow> string" where
  "hex_bytes bs = concat (map (\<lambda>b. [hex_lower (unat b div 16), hex_lower (unat b mod 16)]) bs)"

subsection \<open>The four record layouts\<close>

datatype event_error = RecordTooShort nat | InvalidSize string | UnknownType int

definition parseModelAccessEvent :: "byte list \<Rightarrow> event_error + agent_event" where
  "parseModelAccessEvent d =
     (if length d < 296 then Inl (InvalidSize ''model access'')
      else
        let blocked = read_uint 16 4 d = 2 in
        Inr \<lparr>aeType = (if blocked then EventTypeFileBlocked else EventTypeFileAccess),
             aeTimestamp = unix_epoch + wrap64 (read_uint 8 8 d),
             aeSeverity = (if blocked then ''high'' else ''info''),
             aeSource = no_source\<lparr>evPID := read_uint 0 4 d, evUID := read_uint 4 4 d, evComm := cGoString (field 20 16 d)\<rparr>,
             aeData = no_data\<lparr>edFilePath := cGoString (field 36 256 d),
                              edFileAction := (if blocked then ''blocked'' else ''allowed'')\<rparr>\<rparr>)"

definition parseNetworkEvent :: "byte list \<Rightarrow> event_error + agent_event" where
  "parseNetworkEvent d =
     (if length d < 72 then Inl (InvalidSize ''network'')
      else
        let dropped = read_uint 16 4 d = 2;
            data = no_data\<lparr>edSrcAddr := uint32ToIP (nat (read_uint 20 4 d)), edDstAddr := uint32ToIP (nat (read_uint 24 4 d)),
                           edSrcPort := read_uint 28 2 d, edDstPort := read_uint 30 2 d,
                           edProtocol := protocolToString (nat (read_uint 32 1 d))\<rparr>
        in Inr \<lparr>aeType = (if dropped then EventTypeNetworkBlocked else EventTypeNetworkAllowed),
                aeTimestamp = unix_epoch + wrap64 (read_uint 8 8 d),
                aeSeverity = (if dropped then ''high'' else ''info''),
                aeSource = no_source\<lparr>evPID := read_uint 0 4 d\<rparr>,
                aeData = (if dropped then data\<lparr>edBlockReason := cGoString (field 33 32 d)\<rparr> else data)\<rparr>)"

definition frameworkMap :: "int \<Rightarrow> string" where
  "frameworkMap f = (if f = 1 then ''pytorch'' else if f = 2 then ''tensorflow'' else if f = 3 then ''onnx'' else '''')"

definition parseModelLoadEvent :: "byte list \<Rightarrow> event_error + agent_event" where
  "parseModelLoadEvent d =
     (if length d < 336 then Inl (InvalidSize ''model load'')
      else
        Inr \<lparr>aeType = EventTypeModelLoad, aeTimestamp = unix_epoch + wrap64 (read_uint 8 8 d), aeSeverity = ''info'',
             aeSource = no_source\<lparr>evPID := read_uint 0 4 d, evComm := cGoString (field 280 16 d)\<rparr>,
             aeData = no_data\<lparr>edFilePath := cGoString (field 24 256 d), edFramework := frameworkMap (read_uint 296 1 d),
                              edModelSize := wrap64 (read_uint 16 8 d), edModelHash := hex_bytes (field 297 32 d)\<rparr>\<rparr>)"

definition parsePickleEvent :: "byte list \<Rightarrow> event_error + agent_event" where
  "parsePickleEvent d =
     (if length d < 552 then Inl (InvalidSize ''pickle'')
      else
        let dangerous = read_uint 288 1 d = 1 in
        Inr \<lparr>aeType = (if dangerous then EventTypePickleDangerous else EventTypePickleLoad),
             aeTimestamp = unix_epoch + wrap64 (read_uint 8 8 d),
             aeSeverity = (if dangerous then ''critical'' else ''info''),
             aeSource = no_source\<lparr>evPID := read_uint 0 4 d, evComm := cGoString (field 272 16 d)\<rparr>,
             aeData = no_data\<lparr>edFilePath := cGoString (field 16 256 d)\<rparr>\<rparr>)"

definition ParseEvent :: "byte list \<Rightarrow> event_error + agent_event" where
  "ParseEvent d =
     (if length d < 20 then Inl (RecordTooShort (length d))
      else
        let t = read_uint 16 4 d in
        if t = 1 \<or> t = 2 then parseModelAccessEvent d
        else if t = 3 \<or> t = 4 then parseNetworkEvent d
        else if t = 5 then parseModelLoadEvent d
        else if t = 6 \<or> t = 7 then parsePickleEvent d
        else Inl (UnknownType t))"

text \<open>What the policy engine's reflection sees of an event.\<close>

definition reflect_event :: "agent_event \<Rightarrow> policy_event" where
  "reflect_event e = EvStruct \<lparr>rfType = Some (aeType e), rfData = Some (DataStruct (Some (edExtension (aeData e))))\<rparr>"

subsection \<open>The kernel's layout of a model access event\<close>

fun le_bytes :: "nat \<Rightarrow> nat \<Rightarrow> byte list" where
  "le_bytes 0 v = []"
| "le_bytes (Suc n) v = of_nat (v mod 256) # le_bytes n (v div 256)"

definition of_chars :: "string \<Rightarrow> byte list" where
  "of_chars s = map (\<lambda>c. of_nat (code c)) s"

definition c_string :: "nat \<Rightarrow> string \<Rightarrow> byte list" where
  "c_string n s = of_chars s @ replicate (n - length s) 0"

definition access_record :: "nat \<Rightarrow> nat \<Rightarrow> nat \<Rightarrow> nat \<Rightarrow> string \<Rightarrow> string \<Rightarrow> byte list" where
  "access_record pid uid ts et comm file =
     le_bytes 4 pid @ le_bytes 4 uid @ le_bytes 8 ts @ le_bytes 4 et @ c_string 16 comm @ c_string 256 file @
     replicate 4 0"

subsection \<open>Decoding what was encoded\<close>

lemma length_le_bytes [simp]: "length (le_bytes n v) = n"
  by (induction n arbitrary: v) auto

lemma le_val_le_bytes: "v < 256 ^ n \<Longrightarrow> le_val (le_bytes n v) = v"
proof (induction n arbitrary: v)
  case (Suc n)
  have "v div 256 < 256 ^ n" using Suc.prems by (simp add: less_mult_imp_div_less mult.commute)
  moreover have "unat (word_of_nat (v mod 256) :: byte) = v mod 256"
    by (simp add: unat_of_nat)
  ultimately show ?case using Suc.IH by simp
qed simp

lemma length_of_chars [simp]: "length (of_chars s) = length s"
  by (simp add: of_chars_def)

lemma length_c_string [simp]: "length s \<le> n \<Longrightarrow> length (c_string n s) = n"
  by (simp add: c_string_def)

lemma unat_of_code [simp]: "unat (word_of_nat (code c) :: byte) = code c"
  using code_less [of c] by (simp add: unat_of_nat)

lemma of_code_nonzero: "c \<noteq> CHR 0x00 \<Longrightarrow> (word_of_nat (code c) :: byte) \<noteq> 0"
proof
  assume c: "c \<noteq> CHR 0x00" and "(word_of_nat (code c) :: byte) = 0"
  then have "unat (word_of_nat (code c) :: byte) = 0" by simp
  then have "code c = 0" by simp
  then have "c = char_of (0 :: nat)" using char_of_code [of c] by simp
  also have "\<dots> = CHR 0x00" by code_simp
  finally have "c = CHR 0x00" .
  with c show False by simp
qed

lemma takeWhile_until: "\<forall>x \<in> set xs. P x \<Longrightarrow> \<not> P z \<Longrightarrow> takeWhile P (xs @ replicate k z) = xs"
  by (induction xs) (cases k; simp)+

lemma cGoString_c_string:
  assumes "CHR 0x00 \<notin> set s" "length s < n"
  shows "cGoString (c_string n s) = s"
proof -
  have z: "replicate (n - length s) (0 :: byte) \<noteq> []" using assms(2) by simp
  have nz: "\<forall>c \<in> set (of_chars s). c \<noteq> 0"
  proof
    fix b assume "b \<in> set (of_chars s)"
    then obtain c where c: "c \<in> set s" "b = word_of_nat (code c)" unfolding of_chars_def set_map by (rule imageE)
    with assms(1) have "c \<noteq> CHR 0x00" by metis
    from of_code_nonzero [OF this] c(2) show "b \<noteq> 0" by metis
  qed
  have "takeWhile (\<lambda>c. c \<noteq> 0) (of_chars s @ replicate (n - length s) 0) = of_chars s"
    by (rule takeWhile_until [OF nz]) simp
  moreover have "map to_char (of_chars s) = s"
    by (simp add: of_chars_def o_def to_char_def)
  ultimately show ?thesis using z by (simp add: cGoString_def c_string_def)
qed

lemma field_here: "length xs = n \<Longrightarrow> field 0 n (xs @ ys) = xs"
  by (simp add: field_def)

lemma field_skip: "length xs \<le> off \<Longrightarrow> field off n (xs @ ys) = field (off - length xs) n ys"
  by (simp add: field_def)

lemma to_char_zero: "to_char b = CHR 0x00 \<Longrightarrow> b = 0"
proof -
  assume "to_char b = CHR 0x00"
  then have "of_char (to_char b) = (0 :: nat)" by simp
  moreover have "unat b < 256" using unsigned_less [of b] by simp
  ultimately have "unat b = 0" by (simp add: to_char_def)
  then show "b = 0" by (simp add: unat_eq_zero)
qed

lemma cGoString_field:
  assumes "0 < n"
  shows "length (cGoString (field off n d)) < n \<and> CHR 0x00 \<notin> set (cGoString (field off n d))"
proof -
  let ?w = "takeWhile (\<lambda>c. c \<noteq> 0) (field off n d)"
  have "length (field off n d) \<le> n" by (simp add: field_def)
  moreover have "length ?w < length (field off n d)" if "0 \<in> set (field off n d)"
    using that by (metis (mono_tags, lifting) length_takeWhile_le linorder_neqE_nat not_le set_takeWhileD takeWhile_eq_all_conv takeWhile_eq_take take_all order_refl)
  moreover have "CHR 0x00 \<notin> to_char ` set ?w" by (auto dest!: set_takeWhileD to_char_zero [OF HOL.sym])
  ultimately show ?thesis using assms by (auto simp: cGoString_def)
qed

lemma access_record_fields:
  assumes "length comm \<le> 16" "length file \<le> 256"
  shows "length (access_record pid uid ts et comm file) = 296"
    "field 0 4 (access_record pid uid ts et comm file) = le_bytes 4 pid"
    "field 4 4 (access_record pid uid ts et comm file) = le_bytes 4 uid"
    "field 8 8 (access_record pid uid ts et comm file) = le_bytes 8 ts"
    "field 16 4 (access_record pid uid ts et comm file) = le_bytes 4 et"
    "field 20 16 (access_record pid uid ts et comm file) = c_string 16 comm"
    "field 36 256 (access_record pid uid ts et comm file) = c_string 256 file"
  using assms by (simp_all add: access_record_def field_here field_skip del: le_bytes.simps)

text \<open>Every decoded event is one of the seven kinds and, once decoded, has no file extension.\<close>

lemma ParseEvent_extension: "ParseEvent d = Inr e \<Longrightarrow> edExtension (aeData e) = ''''"
  by (auto simp: ParseEvent_def parseModelAccessEvent_def parseNetworkEvent_def parseModelLoadEvent_def
      parsePickleEvent_def Let_def no_data_def split: if_splits)

lemma ParseEvent_not_blocked_net: "ParseEvent d = Inr e \<Longrightarrow> aeType e \<noteq> EventTypeNetworkBlocked"
  by (auto simp: ParseEvent_def parseModelAccessEvent_def parseNetworkEvent_def parseModelLoadEvent_def
      parsePickleEvent_def Let_def split: if_splits)

lemma le_val_less: "le_val bs < 256 ^ length bs"
proof (induction bs)
  case (Cons b bs)
  have "unat b < 256" using unsigned_less [of b, where ?'a = nat] by simp
  with Cons show ?case by simp
qed simp

lemma read_uint_bound: "0 \<le> read_uint off n d \<and> read_uint off n d < 256 ^ n"
proof -
  have "le_val (field off n d) < 256 ^ length (field off n d)" by (rule le_val_less)
  also have "\<dots> \<le> 256 ^ n" by (intro power_increasing) (simp_all add: field_def)
  finally have "int (le_val (field off n d)) < int (256 ^ n)" by (simp only: of_nat_less_iff)
  then show ?thesis by (simp add: read_uint_def)
qed

lemma ParseIP_uint32ToIP: "\<exists>a b c d. ParseIP (uint32ToIP v) = Some (v4_prefix @ [a, b, c, d]) \<and>
    a * 16777216 + b * 65536 + c * 256 + d = v mod 4294967296"
proof (intro exI conjI)
  show "ParseIP (uint32ToIP v) = Some (v4_prefix @ [v div 16777216 mod 256, v div 65536 mod 256, v div 256 mod 256, v mod 256])"
    by (simp add: uint32ToIP_def ParseIP_dotted)
  have "v mod 4294967296 = 16777216 * (v div 16777216 mod 256) + v mod 16777216"
    using mod_mult2_eq [of v 16777216 256] by simp
  also have "v mod 16777216 = 65536 * (v div 65536 mod 256) + v mod 65536"
    using mod_mult2_eq [of v 65536 256] by simp
  also have "v mod 65536 = 256 * (v div 256 mod 256) + v mod 256"
    using mod_mult2_eq [of v 256 256] by simp
  finally show "v div 16777216 mod 256 * 16777216 + v div 65536 mod 256 * 65536 + v div 256 mod 256 * 256 + v mod 256
      = v mod 4294967296" by simp
qed

end
