(* ===== verification/Notify.thy ===== *)
theory Notify
  imports Breaker Events
begin

text \<open>
  Alert delivery: the router of \<^verbatim>\<open>src/pkg/notify/notify.go\<close> with its severity thresholds and
  deduplication, and the webhook alert manager of \<^verbatim>\<open>src/pkg/agent/metrics.go\<close> with its silence period.
  Both are interpretations of the cooldown gate.  A channel is its name, and \<open>send\<close> says which
  channel accepts which alert (the HTTP exchange is a parameter).
\<close>

subsection \<open>The router\<close>

record alert =
  alTimestamp :: time
  alTitle :: string
  alSeverity :: string
  alSource :: string
  alMessage :: string
  alFields :: "(string, string) gomap"

definition meets :: "string \<Rightarrow> string \<Rightarrow> bool" where
  "meets sev threshold \<longleftrightarrow> mget 0 severityRank threshold \<le> mget 0 severityRank sev"

record channel_binding =
  cbChannel :: string
  cbThreshold :: string

record router =
  rtChannels :: "channel_binding list"
  rtLastSent :: "(string, time) gomap"
  rtDedupEvery :: dur
  rtDelivered :: int
  rtSuppressed :: int

definition NewRouter :: "dur \<Rightarrow> router" where
  "NewRouter w = \<lparr>rtChannels = [], rtLastSent = [], rtDedupEvery = (if w \<le> 0 then minute else w), rtDelivered = 0, rtSuppressed = 0\<rparr>"

definition router_Reset :: "router \<Rightarrow> router" where
  "router_Reset r = r\<lparr>rtChannels := []\<rparr>"

definition AddChannel :: "string \<Rightarrow> string \<Rightarrow> router \<Rightarrow> router" where
  "AddChannel ch threshold r =
     r\<lparr>rtChannels := rtChannels r @
        [\<lparr>cbChannel = ch, cbThreshold = (if map_of severityRank threshold = None then ''high'' else threshold)\<rparr>]\<rparr>"

definition alert_key :: "alert \<Rightarrow> string" where
  "alert_key a = alSeverity a @ ''|'' @ alTitle a"

definition eligible :: "alert \<Rightarrow> channel_binding list \<Rightarrow> string list" where
  "eligible a bs = map cbChannel (filter (\<lambda>b. meets (alSeverity a) (cbThreshold b)) bs)"

text \<open>The result: the router and the channels the alert was handed to, with whether each accepted it.\<close>

definition Route :: "(string \<Rightarrow> alert \<Rightarrow> bool) \<Rightarrow> time \<Rightarrow> alert \<Rightarrow> router \<Rightarrow> router \<times> (string \<times> bool) list \<times> bool" where
  "Route send now a0 r =
     (let a = (if alTimestamp a0 = 0 then a0\<lparr>alTimestamp := now\<rparr> else a0); key = alert_key a in
      if (case map_of (rtLastSent r) key of None \<Rightarrow> False | Some t \<Rightarrow> time_sub (alTimestamp a) t < rtDedupEvery r)
      then (r\<lparr>rtSuppressed := rtSuppressed r + 1\<rparr>, [], False)
      else
        let out = map (\<lambda>c. (c, send c a)) (eligible a (rtChannels r))
        in (r\<lparr>rtLastSent := mput key (alTimestamp a) (rtLastSent r),
              rtDelivered := rtDelivered r + int (length (filter snd out))\<rparr>, out, True))"

subsection \<open>The alert manager\<close>

record alert_manager =
  amWebhookURL :: string
  amSilenceSec :: int
  amLastAlert :: "(string, time) gomap"

definition NewAlertManager :: "string \<Rightarrow> int \<Rightarrow> alert_manager" where
  "NewAlertManager url s = \<lparr>amWebhookURL = url, amSilenceSec = s, amLastAlert = []\<rparr>"

definition event_alert_key :: "agent_event \<Rightarrow> string" where
  "event_alert_key e = aeType e @ '':'' @ itoa (evPID (aeSource e))"

text \<open>The manager and whether the webhook is posted.\<close>

definition SendAlert :: "time \<Rightarrow> agent_event \<Rightarrow> alert_manager \<Rightarrow> alert_manager \<times> bool" where
  "SendAlert now e a =
     (if (case map_of (amLastAlert a) (event_alert_key e) of
            None \<Rightarrow> False
          | Some t \<Rightarrow> time_sub now t < wrap64 (amSilenceSec a * second))
      then (a, False)
      else (a\<lparr>amLastAlert := mput (event_alert_key e) now (amLastAlert a)\<rparr>, amWebhookURL a \<noteq> ''''))"

subsection \<open>Both are cooldown gates\<close>

definition route_attempt :: "(string \<Rightarrow> alert \<Rightarrow> bool) \<Rightarrow> alert \<Rightarrow> router \<Rightarrow> router \<times> bool" where
  "route_attempt send a r = (let (r', out, g) = Route send 0 a r in (r', g))"

interpretation router_gate: cooldown_gate "route_attempt send" "\<lambda>r. alert_key" alTimestamp
  "\<lambda>r. map_of (rtLastSent r)" "\<lambda>r a t. rtDedupEvery r \<le> time_sub (alTimestamp a) t" "\<lambda>a. alTimestamp a \<noteq> 0"
  for send
  by unfold_locales
    (auto simp: route_attempt_def Route_def Let_def fun_eq_iff split: if_splits option.splits)

record sent_event =
  seNow :: time
  seEvent :: agent_event

definition alert_attempt :: "sent_event \<Rightarrow> alert_manager \<Rightarrow> alert_manager \<times> bool" where
  "alert_attempt e a = SendAlert (seNow e) (seEvent e) a"

interpretation webhook_gate: cooldown_gate "\<lambda>e a. if amWebhookURL a = '''' then (a, False) else alert_attempt e a"
  "\<lambda>a e. event_alert_key (seEvent e)" seNow "\<lambda>a. map_of (amLastAlert a)"
  "\<lambda>a e t. wrap64 (amSilenceSec a * second) \<le> time_sub (seNow e) t" "\<lambda>_. True"
  by unfold_locales
    (auto simp: alert_attempt_def SendAlert_def fun_eq_iff split: if_splits option.splits)

text \<open>
  The time stamp is recorded before the channels are tried: when every channel refuses an alert,
  repetitions within the window are suppressed all the same.
\<close>

lemma failed_delivery_suppresses:
  assumes "Route send now a r = (r1, out, True)" and "\<forall>(c, ok) \<in> set out. \<not> ok"
    and "alTimestamp a \<noteq> 0" and "alTimestamp b \<noteq> 0" and "alert_key b = alert_key a"
    and "time_sub (alTimestamp b) (alTimestamp a) < rtDedupEvery r"
  shows "Route send' now' b r1 = (r1\<lparr>rtSuppressed := rtSuppressed r1 + 1\<rparr>, [], False)"
proof -
  have "map_of (rtLastSent r1) (alert_key a) = Some (alTimestamp a)" "rtDedupEvery r1 = rtDedupEvery r"
    using assms(1,3) by (auto simp: Route_def Let_def split: if_splits)
  with assms(4-6) show ?thesis by (simp add: Route_def Let_def)
qed

end
