(* ===== verification/KernelMaps.thy ===== *)
theory KernelMaps
  imports CIDR GoStrings Events
begin

text \<open>
  The kernel maps the agent controls (\<^verbatim>\<open>src/pkg/bpf/bpf.go\<close>): trusted processes, protected
  extensions, the egress blocklist and allowlist, dangerous symbols and the configuration words, with
  the manager operations on them.  A hash map has the capacity the BPF programs declare
  (\<^verbatim>\<open>src/pkg/bpf/*.c\<close>); a put of a new key into a full map fails.  Addresses and process numbers are
  32-bit words.  An object group that is not loaded is \<open>None\<close>.
\<close>

subsection \<open>State\<close>

record 'k bpf_map =
  bmMax :: nat
  bmEntries :: "('k, nat) gomap"

definition bpf_empty :: "nat \<Rightarrow> 'k bpf_map" where
  "bpf_empty n = \<lparr>bmMax = n, bmEntries = []\<rparr>"

definition bpf_put :: "'k \<Rightarrow> nat \<Rightarrow> 'k bpf_map \<Rightarrow> 'k bpf_map option" where
  "bpf_put k v m =
     (if k \<in> set (keys (bmEntries m)) \<or> length (bmEntries m) < bmMax m
      then Some (m\<lparr>bmEntries := mput k v (bmEntries m)\<rparr>) else None)"

definition bpf_delete :: "'k \<Rightarrow> 'k bpf_map \<Rightarrow> 'k bpf_map" where
  "bpf_delete k m = m\<lparr>bmEntries := mdel k (bmEntries m)\<rparr>"

record lsm_objects =
  loTrustedPids :: "32 word bpf_map"
  loProtectedExtensions :: "string bpf_map"
  loConfig :: "nat \<times> nat"

record xdp_objects =
  xoAllowedEgressIps :: "32 word bpf_map"
  xoConfig :: "byte list"

record tc_objects =
  tbBlockedIps :: "32 word bpf_map"
  tbCfg :: nat

record uprobe_objects =
  uoDangerousSymbols :: "string bpf_map"

record bpf_manager =
  bgLSM :: "lsm_objects option"
  bgXDP :: "xdp_objects option"
  bgTC :: "tc_objects option"
  bgUprobe :: "uprobe_objects option"

text \<open>The part of the configuration the manager reads.\<close>

record protection_config =
  pcFIMEnabled :: bool
  pcEnforceMode :: bool
  pcLogAllAccess :: bool
  pcProtectedExtensions :: "string list"
  pcTrustedPIDs :: "int list"
  pcNetEnabled :: bool
  pcBlockExfiltration :: bool
  pcExfilThresholdMB :: int
  pcAllowedEgress :: "string list"
  pcPickleEnabled :: bool
  pcPyTorchEnabled :: bool
  pcDangerousSymbols :: "string list"

datatype kernel_error =
    NotLoaded string | BadExtension string | NotIPv4 | InvalidIP string | InvalidCIDR string
  | IPv6Unsupported string | InvalidMask string | MapFull | NotRoot | LoadFailed string | OldKernel int int | UnameFailed | BadRelease string

subsection \<open>Keys\<close>

definition zero_pad :: "nat \<Rightarrow> string \<Rightarrow> string" where
  "zero_pad n s = take n (s @ replicate n (CHR 0x00))"

definition extensionMapKey :: "string \<Rightarrow> kernel_error + string" where
  "extensionMapKey ext =
     (if ext = '''' \<or> hd ext \<noteq> CHR ''.'' \<or> 15 < length ext then Inl (BadExtension ext)
      else Inr (zero_pad 16 ext))"

definition le32 :: "ip \<Rightarrow> 32 word" where
  "le32 q = of_nat (q ! 0 + 256 * q ! 1 + 65536 * q ! 2 + 16777216 * q ! 3)"

definition be32 :: "ip \<Rightarrow> 32 word" where
  "be32 q = of_nat (be_val q)"

definition put_be32 :: "32 word \<Rightarrow> ip" where
  "put_be32 w = [unat w div 16777216, unat w div 65536 mod 256, unat w div 256 mod 256, unat w mod 256]"

definition tcIPKey :: "ip \<Rightarrow> 32 word option" where
  "tcIPKey ip = map_option le32 (net_To4 ip)"

definition boolToUint8 :: "bool \<Rightarrow> nat" where
  "boolToUint8 b = (if b then 1 else 0)"

definition uint32 :: "int \<Rightarrow> 32 word" where
  "uint32 i = of_int i"

subsection \<open>Operations\<close>

definition AddTrustedPID :: "32 word \<Rightarrow> bpf_manager \<Rightarrow> bpf_manager \<times> kernel_error option" where
  "AddTrustedPID pid m =
     (case bgLSM m of
        None \<Rightarrow> (m, Some (NotLoaded ''LSM''))
      | Some o1 \<Rightarrow>
          (case bpf_put pid 1 (loTrustedPids o1) of
             None \<Rightarrow> (m, Some MapFull)
           | Some t \<Rightarrow> (m\<lparr>bgLSM := Some (o1\<lparr>loTrustedPids := t\<rparr>)\<rparr>, None)))"

definition RemoveTrustedPID :: "32 word \<Rightarrow> bpf_manager \<Rightarrow> bpf_manager \<times> kernel_error option" where
  "RemoveTrustedPID pid m =
     (case bgLSM m of
        None \<Rightarrow> (m, Some (NotLoaded ''LSM''))
      | Some o1 \<Rightarrow> (m\<lparr>bgLSM := Some (o1\<lparr>loTrustedPids := bpf_delete pid (loTrustedPids o1)\<rparr>)\<rparr>, None))"

fun prune_loop :: "(32 word \<Rightarrow> bool) \<Rightarrow> 32 word list \<Rightarrow> bpf_manager \<Rightarrow> nat \<Rightarrow> bpf_manager \<times> nat" where
  "prune_loop alive [] m n = (m, n)"
| "prune_loop alive (pid # pids) m n =
     (if alive pid then prune_loop alive pids m n
      else case RemoveTrustedPID pid m of
        (m', None) \<Rightarrow> prune_loop alive pids m' (Suc n)
      | (m', Some e) \<Rightarrow> prune_loop alive pids m' n)"

text \<open>\<open>ord\<close> is the iteration order of the map, \<open>alive\<close> whether \<^verbatim>\<open>/proc/<pid>\<close> can be read.\<close>

definition PruneDeadTrustedPIDs ::
  "(32 word list \<Rightarrow> 32 word list) \<Rightarrow> (32 word \<Rightarrow> bool) \<Rightarrow> bpf_manager \<Rightarrow> bpf_manager \<times> (kernel_error + nat)" where
  "PruneDeadTrustedPIDs ord alive m =
     (case bgLSM m of
        None \<Rightarrow> (m, Inl (NotLoaded ''LSM''))
      | Some o1 \<Rightarrow>
          let (m', n) = prune_loop alive (ord (keys (bmEntries (loTrustedPids o1)))) m 0 in (m', Inr n))"

definition AddProtectedExtension :: "string \<Rightarrow> bpf_manager \<Rightarrow> bpf_manager \<times> kernel_error option" where
  "AddProtectedExtension ext m =
     (case bgLSM m of
        None \<Rightarrow> (m, Some (NotLoaded ''LSM''))
      | Some o1 \<Rightarrow>
          (case extensionMapKey ext of
             Inl e \<Rightarrow> (m, Some e)
           | Inr k \<Rightarrow>
               (case bpf_put k 1 (loProtectedExtensions o1) of
                  None \<Rightarrow> (m, Some MapFull)
                | Some t \<Rightarrow> (m\<lparr>bgLSM := Some (o1\<lparr>loProtectedExtensions := t\<rparr>)\<rparr>, None))))"

definition SetNetworkEnforce :: "bool \<Rightarrow> bpf_manager \<Rightarrow> bpf_manager \<times> kernel_error option" where
  "SetNetworkEnforce on m =
     (case bgTC m of
        None \<Rightarrow> (m, Some (NotLoaded ''TC''))
      | Some t \<Rightarrow> (m\<lparr>bgTC := Some (t\<lparr>tbCfg := boolToUint8 on\<rparr>)\<rparr>, None))"

definition AddBlockedIP :: "ip \<Rightarrow> bpf_manager \<Rightarrow> bpf_manager \<times> kernel_error option" where
  "AddBlockedIP ip m =
     (case bgTC m of
        None \<Rightarrow> (m, Some (NotLoaded ''TC''))
      | Some t \<Rightarrow>
          (case tcIPKey ip of
             None \<Rightarrow> (m, Some NotIPv4)
           | Some k \<Rightarrow>
               (case bpf_put k 1 (tbBlockedIps t) of
                  None \<Rightarrow> (m, Some MapFull)
                | Some b \<Rightarrow> (m\<lparr>bgTC := Some (t\<lparr>tbBlockedIps := b\<rparr>)\<rparr>, None))))"

definition RemoveBlockedIP :: "ip \<Rightarrow> bpf_manager \<Rightarrow> bpf_manager \<times> kernel_error option" where
  "RemoveBlockedIP ip m =
     (case bgTC m of
        None \<Rightarrow> (m, Some (NotLoaded ''TC''))
      | Some t \<Rightarrow>
          (case tcIPKey ip of
             None \<Rightarrow> (m, Some NotIPv4)
           | Some k \<Rightarrow> (m\<lparr>bgTC := Some (t\<lparr>tbBlockedIps := bpf_delete k (tbBlockedIps t)\<rparr>)\<rparr>, None)))"

definition le_octets :: "32 word \<Rightarrow> ip" where
  "le_octets w = rev (put_be32 w)"

definition ListBlockedIPs :: "(32 word list \<Rightarrow> 32 word list) \<Rightarrow> bpf_manager \<Rightarrow> string list option" where
  "ListBlockedIPs ord m =
     map_option (\<lambda>t. map (\<lambda>k. let b = le_octets k in dotted (b ! 0) (b ! 1) (b ! 2) (b ! 3))
       (ord (keys (bmEntries (tbBlockedIps t))))) (bgTC m)"

definition NetworkEnforcing :: "bpf_manager \<Rightarrow> bool" where
  "NetworkEnforcing m = (case bgTC m of None \<Rightarrow> False | Some t \<Rightarrow> tbCfg t \<noteq> 0)"

fun leading_ones :: "nat list \<Rightarrow> nat" where
  "leading_ones [] = 0"
| "leading_ones (b # bs) =
     (if b = 255 then 8 + leading_ones bs
      else mget 0 [(254, 7), (252, 6), (248, 5), (240, 4), (224, 3), (192, 2), (128, 1)] b)"

fun put_hosts :: "32 word \<Rightarrow> nat list \<Rightarrow> 32 word bpf_map \<Rightarrow> 32 word bpf_map" where
  "put_hosts base [] a = a"
| "put_hosts base (i # is) a =
     (case bpf_put (le32 (put_be32 (base + of_nat i))) 1 a of
        None \<Rightarrow> put_hosts base is a
      | Some a' \<Rightarrow> put_hosts base is a')"

definition addCIDRToAllowlist :: "string \<Rightarrow> xdp_objects \<Rightarrow> xdp_objects \<times> kernel_error option" where
  "addCIDRToAllowlist cidr x =
     (case ParseCIDR cidr of
        None \<Rightarrow> (x, Some (InvalidCIDR cidr))
      | Some net \<Rightarrow>
     (case net_To4 (inIP net) of
        None \<Rightarrow> (x, Some (IPv6Unsupported cidr))
      | Some ip \<Rightarrow>
        if 8 * length (inMask net) \<noteq> 32 then (x, Some (InvalidMask cidr))
        else
          let ones = leading_ones (inMask net) in
          if ones \<le> 20 \<or> 2048 < (2 :: nat) ^ (32 - ones) then
            (case bpf_put (le32 ip) 1 (xoAllowedEgressIps x) of
               None \<Rightarrow> (x, Some MapFull)
             | Some a \<Rightarrow> (x\<lparr>xoAllowedEgressIps := a\<rparr>, None))
          else (x\<lparr>xoAllowedEgressIps := put_hosts (be32 ip) [0..<2 ^ (32 - ones)] (xoAllowedEgressIps x)\<rparr>, None)))"

definition AddAllowedIP :: "string \<Rightarrow> bpf_manager \<Rightarrow> bpf_manager \<times> kernel_error option" where
  "AddAllowedIP s m =
     (case bgXDP m of
        None \<Rightarrow> (m, Some (NotLoaded ''XDP''))
      | Some x \<Rightarrow>
          if CHR ''/'' \<in> set s then
            let (x', e) = addCIDRToAllowlist s x in (m\<lparr>bgXDP := Some x'\<rparr>, e)
          else case ParseIP s of
            None \<Rightarrow> (m, Some (InvalidIP s))
          | Some ip \<Rightarrow>
              (case To4 ip of
                 None \<Rightarrow> (m, Some (IPv6Unsupported s))
               | Some q \<Rightarrow>
                   (case bpf_put (le32 q) 1 (xoAllowedEgressIps x) of
                      None \<Rightarrow> (m, Some MapFull)
                    | Some a \<Rightarrow> (m\<lparr>bgXDP := Some (x\<lparr>xoAllowedEgressIps := a\<rparr>)\<rparr>, None))))"

definition AddDangerousSymbol :: "string \<Rightarrow> bpf_manager \<Rightarrow> bpf_manager \<times> kernel_error option" where
  "AddDangerousSymbol symbol m =
     (case bgUprobe m of
        None \<Rightarrow> (m, Some (NotLoaded ''Uprobes''))
      | Some u \<Rightarrow>
          (case bpf_put (zero_pad 32 symbol) 1 (uoDangerousSymbols u) of
             None \<Rightarrow> (m, Some MapFull)
           | Some t \<Rightarrow> (m\<lparr>bgUprobe := Some (u\<lparr>uoDangerousSymbols := t\<rparr>)\<rparr>, None)))"

text \<open>Clearing deletes every key it iterated over.\<close>

definition clearBPFMap :: "('k list \<Rightarrow> 'k list) \<Rightarrow> 'k bpf_map \<Rightarrow> 'k bpf_map" where
  "clearBPFMap ord m = fold bpf_delete (ord (keys (bmEntries m))) m"

definition ClearMaps ::
  "(32 word list \<Rightarrow> 32 word list) \<Rightarrow> (string list \<Rightarrow> string list) \<Rightarrow> bpf_manager \<Rightarrow> bpf_manager" where
  "ClearMaps ordw ords m =
     m\<lparr>bgLSM := map_option (\<lambda>o1. o1\<lparr>loTrustedPids := clearBPFMap ordw (loTrustedPids o1),
                                   loProtectedExtensions := clearBPFMap ords (loProtectedExtensions o1)\<rparr>) (bgLSM m),
       bgXDP := map_option (\<lambda>x. x\<lparr>xoAllowedEgressIps := clearBPFMap ordw (xoAllowedEgressIps x)\<rparr>) (bgXDP m)\<rparr>"

subsection \<open>Loading\<close>

text \<open>The capacities are those the BPF programs declare.\<close>

fun put_extensions :: "string list \<Rightarrow> lsm_objects \<Rightarrow> lsm_objects \<times> kernel_error option" where
  "put_extensions [] o1 = (o1, None)"
| "put_extensions (e # es) o1 =
     (case extensionMapKey e of
        Inl err \<Rightarrow> put_extensions es o1
      | Inr k \<Rightarrow>
          (case bpf_put k 1 (loProtectedExtensions o1) of
             None \<Rightarrow> (o1, Some MapFull)
           | Some t \<Rightarrow> put_extensions es (o1\<lparr>loProtectedExtensions := t\<rparr>)))"

definition initLSMConfig :: "protection_config \<Rightarrow> lsm_objects \<Rightarrow> lsm_objects \<times> kernel_error option" where
  "initLSMConfig cfg o1 =
     put_extensions (pcProtectedExtensions cfg)
       (o1\<lparr>loConfig := (boolToUint8 (pcEnforceMode cfg), boolToUint8 (pcLogAllAccess cfg))\<rparr>)"

definition initXDPConfig :: "protection_config \<Rightarrow> xdp_objects \<Rightarrow> xdp_objects" where
  "initXDPConfig cfg x =
     (let b = of_nat (boolToUint8 (pcBlockExfiltration cfg));
          thr = unat (uint32 (pcExfilThresholdMB cfg * 1048576))
      in fold (\<lambda>c y. fst (addCIDRToAllowlist c y)) (pcAllowedEgress cfg)
           (x\<lparr>xoConfig := b # le_bytes 4 thr @ [b]\<rparr>))"

definition fresh_lsm :: lsm_objects where
  "fresh_lsm = \<lparr>loTrustedPids = bpf_empty 10240, loProtectedExtensions = bpf_empty 32, loConfig = (0, 0)\<rparr>"

definition fresh_xdp :: xdp_objects where
  "fresh_xdp = \<lparr>xoAllowedEgressIps = bpf_empty 256, xoConfig = replicate 6 0\<rparr>"

text \<open>\<open>ld\<close> says which object groups the kernel accepts (\<^verbatim>\<open>LoadNeuroSentry...Objects\<close>).\<close>

definition loadLSM :: "(string \<Rightarrow> bool) \<Rightarrow> protection_config \<Rightarrow> bpf_manager \<Rightarrow> bpf_manager \<times> kernel_error option" where
  "loadLSM ld cfg m =
     (if \<not> ld ''LSM'' then (m, Some (LoadFailed ''LSM''))
      else let (o1, e) = initLSMConfig cfg fresh_lsm in (m\<lparr>bgLSM := Some o1\<rparr>, e))"

definition loadXDP :: "(string \<Rightarrow> bool) \<Rightarrow> protection_config \<Rightarrow> bpf_manager \<Rightarrow> bpf_manager \<times> kernel_error option" where
  "loadXDP ld cfg m =
     (if \<not> ld ''XDP'' then (m, Some (LoadFailed ''XDP''))
      else (m\<lparr>bgXDP := Some (initXDPConfig cfg fresh_xdp)\<rparr>, None))"

definition loadTC :: "(string \<Rightarrow> bool) \<Rightarrow> bpf_manager \<Rightarrow> bpf_manager \<times> kernel_error option" where
  "loadTC ld m =
     (if \<not> ld ''TC'' then (m, Some (LoadFailed ''TC''))
      else (m\<lparr>bgTC := Some \<lparr>tbBlockedIps = bpf_empty 256, tbCfg = 0\<rparr>\<rparr>, None))"

definition loadUprobes :: "(string \<Rightarrow> bool) \<Rightarrow> bpf_manager \<Rightarrow> bpf_manager \<times> kernel_error option" where
  "loadUprobes ld m =
     (if \<not> ld ''Uprobe'' then (m, Some (LoadFailed ''Uprobe''))
      else (m\<lparr>bgUprobe := Some \<lparr>uoDangerousSymbols = bpf_empty 128\<rparr>\<rparr>, None))"

definition NewManager :: bpf_manager where
  "NewManager = \<lparr>bgLSM = None, bgXDP = None, bgTC = None, bgUprobe = None\<rparr>"

text \<open>
  \<^verbatim>\<open>fmt.Sscanf(release, "%d.%d", &major, &minor)\<close>: a number skips blanks but not a line
  end, takes a sign and digits, and must fit; what follows the second number is not read.
\<close>

definition scan_int :: "string \<Rightarrow> (int \<times> string) option" where
  "scan_int s =
     (let t = dropWhile (\<lambda>c. is_space c \<and> code c \<noteq> 10) s;
          sg = (if t \<noteq> [] \<and> (hd t = CHR ''-'' \<or> hd t = CHR ''+'') then [hd t] else []);
          ds = takeWhile is_digit (drop (length sg) t)
      in case Atoi (sg @ ds) of None \<Rightarrow> None | Some n \<Rightarrow> Some (n, drop (length sg + length ds) t))"

definition scan_version :: "string \<Rightarrow> (int \<times> int) option" where
  "scan_version release =
     (case scan_int release of
        None \<Rightarrow> None
      | Some (major, r) \<Rightarrow>
          if r = [] \<or> hd r \<noteq> CHR ''.'' then None
          else case scan_int (tl r) of None \<Rightarrow> None | Some (minor, _) \<Rightarrow> Some (major, minor))"

text \<open>The argument is the release field \<^verbatim>\<open>syscall.Uname\<close> fills, or \<open>None\<close> when the call fails.\<close>

definition checkKernelVersion :: "string option \<Rightarrow> kernel_error option" where
  "checkKernelVersion uname =
     (case uname of
        None \<Rightarrow> Some UnameFailed
      | Some b \<Rightarrow>
          let release = takeWhile (\<lambda>c. code c \<noteq> 0) b
          in case scan_version release of
               None \<Rightarrow> Some (BadRelease release)
             | Some (major, minor) \<Rightarrow>
                 if major < 5 \<or> (major = 5 \<and> minor < 10) then Some (OldKernel major minor) else None)"

definition manager_Load ::
  "(string \<Rightarrow> bool) \<Rightarrow> bool \<Rightarrow> string option \<Rightarrow> protection_config \<Rightarrow> bpf_manager \<Rightarrow> bpf_manager \<times> kernel_error option" where
  "manager_Load ld root ver cfg m =
     (if \<not> root then (m, Some NotRoot)
      else case checkKernelVersion ver of
        Some e \<Rightarrow> (m, Some e)
      | None \<Rightarrow>
     (case (if pcFIMEnabled cfg then loadLSM ld cfg m else (m, None)) of
        (m1, Some e) \<Rightarrow> (m1, Some e)
      | (m1, None) \<Rightarrow>
     (case (if pcNetEnabled cfg then loadTC ld m1 else (m1, None)) of
        (m2, Some e) \<Rightarrow> (m2, Some e)
      | (m2, None) \<Rightarrow>
          if pcPickleEnabled cfg \<or> pcPyTorchEnabled cfg then loadUprobes ld m2 else (m2, None))))"

text \<open>
  No path through \<^verbatim>\<open>Load\<close> loads the XDP objects, so the egress allowlist of a loaded manager refuses
  every address.
\<close>

lemma load_keeps_XDP:
  "bgXDP (fst (loadLSM ld cfg m)) = bgXDP m" "bgXDP (fst (loadTC ld m)) = bgXDP m" "bgXDP (fst (loadUprobes ld m)) = bgXDP m"
  by (simp_all add: loadLSM_def loadTC_def loadUprobes_def split: prod.split)

lemma manager_Load_no_XDP: "bgXDP (fst (manager_Load ld root ver cfg m)) = bgXDP m"
proof (cases "\<not> root \<or> checkKernelVersion ver \<noteq> None")
  case False
  obtain m1 e1 where 1: "(if pcFIMEnabled cfg then loadLSM ld cfg m else (m, None)) = (m1, e1)" by fastforce
  obtain m2 e2 where 2: "(if pcNetEnabled cfg then loadTC ld m1 else (m1, None)) = (m2, e2)" by fastforce
  have "bgXDP m1 = bgXDP m" "bgXDP m2 = bgXDP m1"
    using 1 2 load_keeps_XDP(1) [of ld cfg m] load_keeps_XDP(2) [of ld m1] by (auto split: if_splits)
  with False 1 2 show ?thesis
    by (cases e1; cases e2) (simp_all add: manager_Load_def load_keeps_XDP)
qed (auto simp: manager_Load_def)

lemma manager_Load_no_allowlist:
  "\<exists>m. AddAllowedIP s (fst (manager_Load ld root ver cfg NewManager)) = (m, Some (NotLoaded ''XDP''))"
  using manager_Load_no_XDP [of ld root ver cfg NewManager] by (simp add: AddAllowedIP_def NewManager_def)

end
