(* ===== verification/Agent.thy ===== *)
theory Agent
  imports Notify Incident AuditTrail KernelMaps Correlator Builtin
begin

text \<open>
  The agent controller of \<^verbatim>\<open>src/pkg/agent\<close>: the path of a kernel event through sampling, metrics,
  audit chain, correlation engine, policy and alerting (\<^verbatim>\<open>controller.go\<close>, \<^verbatim>\<open>metrics.go\<close>), the path of
  a correlation finding through case store, notification, audit and circuit breaker to the kernel
  response, and the application of a policy to the kernel maps (\<^verbatim>\<open>policy.go\<close>).  The state of the
  controller is one record; what leaves it (alert log, webhook posts, log file, dashboard) is part
  of that record.  The environment supplies clock readings, identifiers, map orders, channel answers
  and the digest, by number of use within one handler.
\<close>

subsection \<open>Sampling and counters\<close>

record event_processor =
  epSampleRate :: float64
  epSampleCount :: "64 word"

definition clamp_rate :: "float64 \<Rightarrow> float64" where
  "clamp_rate r = (let r1 = (if r \<le> 0 then fround (1 / 100) else r) in if 1 < r1 then 1 else r1)"

definition NewEventProcessorWithSampling :: "float64 \<Rightarrow> event_processor" where
  "NewEventProcessorWithSampling r = \<lparr>epSampleRate = clamp_rate r, epSampleCount = 0\<rparr>"

definition SetSampleRate :: "float64 \<Rightarrow> event_processor \<Rightarrow> event_processor" where
  "SetSampleRate r p = p\<lparr>epSampleRate := clamp_rate r\<rparr>"

definition sample_interval :: "float64 \<Rightarrow> 64 word" where
  "sample_interval r = of_int (floor (fround (1 / r)))"

definition ShouldSample :: "event_processor \<Rightarrow> event_processor \<times> bool" where
  "ShouldSample p =
     (if 1 \<le> epSampleRate p then (p, True)
      else
        let n = epSampleCount p + 1
        in (p\<lparr>epSampleCount := n\<rparr>, n mod sample_interval (epSampleRate p) = 0))"

record metrics =
  mcEventCount :: int
  mcThreatCount :: int
  mcLastEvent :: time
  mcByType :: "(string, int) gomap"
  mcThreats :: "(string \<times> string, int) gomap"
  mcFindings :: "(string \<times> string \<times> string, int) gomap"
  mcWebhooks :: "(string, int) gomap"
  mcConfigReloads :: int

definition is_threat :: "agent_event \<Rightarrow> bool" where
  "is_threat e \<longleftrightarrow> aeSeverity e = ''high'' \<or> aeSeverity e = ''critical''"

definition RecordEvent :: "time \<Rightarrow> agent_event \<Rightarrow> metrics \<Rightarrow> metrics" where
  "RecordEvent now e m =
     m\<lparr>mcEventCount := mcEventCount m + 1, mcLastEvent := now,
       mcByType := mput (aeType e) (mget 0 (mcByType m) (aeType e) + 1) (mcByType m),
       mcThreatCount := (if is_threat e then mcThreatCount m + 1 else mcThreatCount m),
       mcThreats := (if is_threat e
                     then mput (aeType e, aeSeverity e) (mget 0 (mcThreats m) (aeType e, aeSeverity e) + 1) (mcThreats m)
                     else mcThreats m)\<rparr>"

definition RecordCorrelationFinding :: "string \<Rightarrow> string \<Rightarrow> string \<Rightarrow> metrics \<Rightarrow> metrics" where
  "RecordCorrelationFinding rl sev tech m =
     m\<lparr>mcFindings := mput (rl, sev, tech) (mget 0 (mcFindings m) (rl, sev, tech) + 1) (mcFindings m)\<rparr>"

definition RecordWebhookSent :: "string \<Rightarrow> metrics \<Rightarrow> metrics" where
  "RecordWebhookSent status m = m\<lparr>mcWebhooks := mput status (mget 0 (mcWebhooks m) status + 1) (mcWebhooks m)\<rparr>"

definition RecordConfigReload :: "metrics \<Rightarrow> metrics" where
  "RecordConfigReload m = m\<lparr>mcConfigReloads := mcConfigReloads m + 1\<rparr>"

subsection \<open>Kernel events as signals\<close>

definition eventToSignal :: "agent_event \<Rightarrow> signal option" where
  "eventToSignal e =
     (let s = \<lparr>sTimestamp = zero_time, sPID = evPID (aeSource e), sTenantID = '''', sLayer = '''', sKind = '''',
               sAttributes = [], sSeverity = ''''\<rparr>
      in if aeType e = EventTypeFileAccess \<or> aeType e = EventTypeFileBlocked
         then Some (s\<lparr>sLayer := LayerKernelFile, sKind := ''file_read'', sAttributes := [(''path'', edFilePath (aeData e))]\<rparr>)
         else if aeType e = EventTypeNetworkAllowed \<or> aeType e = EventTypeNetworkBlocked
         then Some (s\<lparr>sLayer := LayerKernelNet, sKind := ''net_connect'', sAttributes := [(''dst'', edDstAddr (aeData e))]\<rparr>)
         else if aeType e = EventTypeModelLoad
         then Some (s\<lparr>sLayer := LayerModel, sKind := ''load'', sAttributes := [(''path'', edFilePath (aeData e))]\<rparr>)
         else None)"

subsection \<open>The controller\<close>

datatype detail = DStr string | DInt int | DBool bool | DList "string list"

type_synonym details = "(string, detail) gomap"

record 's agent =
  agProcessor :: "event_processor option"
  agMetrics :: metrics
  agChain :: "(details, 's) chain"
  agFileLog :: "details entry list option"
  agBroadcast :: "details entry list option"
  agCorrelator :: correlator
  agIncidents :: incident_store
  agNotifier :: router
  agBreaker :: breaker
  agKernel :: bpf_manager
  agPolicy :: policy
  agEnginePolicy :: policy
  agAlertMgr :: "alert_manager option"
  agAlerts :: "agent_event list"
  agWebhooks :: "agent_event list"

record 's agent_env =
  xCodec :: "details codec"
  xWrite :: "(details, 's) sink_write"
  xID :: "nat \<Rightarrow> string"
  xNow :: "nat \<Rightarrow> time"
  xZone :: string
  xSend :: "string \<Rightarrow> alert \<Rightarrow> bool"
  xEvict :: "int list \<Rightarrow> int list"
  xSuppress :: "nat \<Rightarrow> string list \<Rightarrow> string list"

abbreviation (input) CategorySecurity :: int where "CategorySecurity \<equiv> 2"
abbreviation (input) CategoryNetwork :: int where "CategoryNetwork \<equiv> 4"
abbreviation (input) ClassFileSys :: int where "ClassFileSys \<equiv> 1001"
abbreviation (input) ClassNetwork :: int where "ClassNetwork \<equiv> 4001"
abbreviation (input) ClassFinding :: int where "ClassFinding \<equiv> 2001"

definition stamp_at :: "'s agent_env \<Rightarrow> nat \<Rightarrow> etime" where
  "stamp_at x n = \<lparr>tInstant = xNow x n, tZone = xZone x\<rparr>"

text \<open>
  Appending an entry; unless the durable write failed, the sealed entry also goes to the log file
  and to the dashboard.
\<close>

definition publish :: "'s agent_env \<Rightarrow> details entry \<Rightarrow> 's agent \<Rightarrow> 's agent" where
  "publish x e g =
     (case Append (xCodec x) (xWrite x) e (agChain g) of
        (c, Some err) \<Rightarrow> g\<lparr>agChain := c\<rparr>
      | (c, None) \<Rightarrow>
          let e' = last (chEntries c)
          in g\<lparr>agChain := c, agFileLog := map_option (\<lambda>l. l @ [e']) (agFileLog g),
               agBroadcast := map_option (\<lambda>l. l @ [e']) (agBroadcast g)\<rparr>)"

definition audit_severity :: "string \<Rightarrow> string" where
  "audit_severity s = (if s \<in> {''low'', ''medium'', ''high'', ''critical''} then s else ''info'')"

definition event_entry :: "'s agent_env \<Rightarrow> agent_event \<Rightarrow> details entry" where
  "event_entry x e =
     (let en = SetActor (evPID (aeSource e)) (evUID (aeSource e)) (evComm (aeSource e))
                 (NewEntry (xID x 0) (stamp_at x 0) (aeType e) (audit_severity (aeSeverity e))
                   (Some [(''file_path'', DStr (edFilePath (aeData e))), (''dst_addr'', DStr (edDstAddr (aeData e)))]))
      in if aeType e = EventTypeFileAccess \<or> aeType e = EventTypeFileBlocked then SetCategory CategorySecurity ClassFileSys en
         else if aeType e = EventTypeNetworkAllowed \<or> aeType e = EventTypeNetworkBlocked
         then SetCategory CategoryNetwork ClassNetwork en
         else SetCategory CategorySecurity ClassFinding en)"

definition recordAudit :: "'s agent_env \<Rightarrow> agent_event \<Rightarrow> 's agent \<Rightarrow> 's agent" where
  "recordAudit x e g = publish x (event_entry x e) g"

subsection \<open>Kernel responses\<close>

datatype response_error = PidRequired | ExtensionRequired | DstRequired | KernelRefused kernel_error | UnknownAction string

datatype response_result =
    PidTrusted int | PidUntrusted int | ExtensionProtected string | DestinationBlocked ip | DestinationUnblocked ip

definition kernel_result ::
  "response_result \<Rightarrow> bpf_manager \<times> kernel_error option \<Rightarrow> bpf_manager \<times> (response_error + response_result)" where
  "kernel_result ok r = (case r of (m, None) \<Rightarrow> (m, Inr ok) | (m, Some e) \<Rightarrow> (m, Inl (KernelRefused e)))"

definition executeResponse ::
  "string \<Rightarrow> (string, string) gomap \<Rightarrow> bpf_manager \<Rightarrow> bpf_manager \<times> (response_error + response_result)" where
  "executeResponse act params m =
     (if act = ''trust_pid'' \<or> act = ''untrust_pid'' then
        (case Atoi (mget '''' params ''pid'') of
           None \<Rightarrow> (m, Inl PidRequired)
         | Some pid \<Rightarrow>
             if pid \<le> 0 then (m, Inl PidRequired)
             else if act = ''trust_pid'' then kernel_result (PidTrusted pid) (AddTrustedPID (uint32 pid) m)
             else kernel_result (PidUntrusted pid) (RemoveTrustedPID (uint32 pid) m))
      else if act = ''protect_extension'' then
        let ext = mget '''' params ''extension'' in
        if ext = '''' then (m, Inl ExtensionRequired)
        else kernel_result (ExtensionProtected ext) (AddProtectedExtension ext m)
      else if act = ''block_destination'' \<or> act = ''unblock_destination'' then
        (case ParseIP (trim_space (mget '''' params ''dst'')) of
           None \<Rightarrow> (m, Inl DstRequired)
         | Some ip \<Rightarrow>
             if act = ''block_destination'' then kernel_result (DestinationBlocked ip) (AddBlockedIP ip m)
             else kernel_result (DestinationUnblocked ip) (RemoveBlockedIP ip m))
      else (m, Inl (UnknownAction act)))"

subsection \<open>Correlation findings\<close>

definition finding_alert :: "finding \<Rightarrow> alert" where
  "finding_alert f =
     \<lparr>alTimestamp = zero_time, alTitle = fRule f, alSeverity = fSeverity f, alSource = ''correlation'',
      alMessage = fDescription f,
      alFields = [(''rule_id'', fRuleID f), (''pid'', itoa (fPID f)), (''technique'', fTechnique f)]\<rparr>"

definition finding_severity :: "string \<Rightarrow> string" where
  "finding_severity s = (if s = ''critical'' then ''critical'' else if s = ''medium'' then ''medium'' else ''high'')"

definition finding_entry :: "'s agent_env \<Rightarrow> nat \<Rightarrow> finding \<Rightarrow> details entry" where
  "finding_entry x n f =
     SetCategory CategorySecurity ClassFinding
       (NewEntry (xID x n) (stamp_at x n) (''correlation:'' @ fRule f) (finding_severity (fSeverity f))
         (Some [(''technique'', DStr (fTechnique f)), (''description'', DStr (fDescription f)),
                (''pid'', DInt (fPID f)), (''chain_len'', DInt (int (length (fChain f))))]))"

text \<open>\<open>shown\<close> renders the outcome of the response for the audit entry.\<close>

definition breaker_entry :: "'s agent_env \<Rightarrow> nat \<Rightarrow> finding \<Rightarrow> breaker_decision \<Rightarrow> string \<times> string \<Rightarrow> details entry" where
  "breaker_entry x n f d shown =
     SetCategory CategorySecurity ClassFinding
       (NewEntry (xID x n) (stamp_at x n) ''breaker:auto_response'' ''critical''
         (Some [(''rule_id'', DStr (fRuleID f)), (''action'', DStr (bdAction d)), (''pid'', DInt (fPID f)),
                (''reason'', DStr (bdReason d)), (''result'', DStr (fst shown)), (''error'', DStr (snd shown))]))"

definition apply_breaker ::
  "(response_error + response_result \<Rightarrow> string \<times> string) \<Rightarrow> 's agent_env \<Rightarrow> nat \<Rightarrow> finding \<Rightarrow> 's agent \<Rightarrow> 's agent" where
  "apply_breaker shown x n f g =
     (let (b, d) = breaker_Evaluate (xNow x n) (fSeverity f) (fRuleID f) (fPID f) (agBreaker g);
          g1 = g\<lparr>agBreaker := b\<rparr>
      in if bdTrip d then
           let (m, r) = executeResponse (bdAction d) (bdParams d) (agKernel g1)
           in publish x (breaker_entry x n f d (shown r)) (g1\<lparr>agKernel := m\<rparr>)
         else g1)"

definition handleCorrelationFinding ::
  "(response_error + response_result \<Rightarrow> string \<times> string) \<Rightarrow> 's agent_env \<Rightarrow> nat \<Rightarrow> finding \<Rightarrow> 's agent \<Rightarrow> 's agent" where
  "handleCorrelationFinding shown x n f g =
     (let g1 = g\<lparr>agIncidents := fst (incident_Add (xID x n) (xNow x n) f (agIncidents g))\<rparr>;
          g2 = g1\<lparr>agNotifier := fst (Route (xSend x) (xNow x (n + 1)) (finding_alert f) (agNotifier g1))\<rparr>;
          g3 = publish x (finding_entry x (n + 1) f) g2;
          g4 = g3\<lparr>agMetrics := RecordCorrelationFinding (fRule f) (fSeverity f) (fTechnique f) (agMetrics g3)\<rparr>
      in apply_breaker shown x (n + 2) f g4)"

fun handle_findings ::
  "(response_error + response_result \<Rightarrow> string \<times> string) \<Rightarrow> 's agent_env \<Rightarrow> nat \<Rightarrow> finding list \<Rightarrow> 's agent \<Rightarrow> 's agent" where
  "handle_findings shown x n [] g = g"
| "handle_findings shown x n (f # fs) g = handle_findings shown x (n + 3) fs (handleCorrelationFinding shown x n f g)"

subsection \<open>Handling an event\<close>

text \<open>
  \<^verbatim>\<open>AlertManager.SendAlert\<close> posts in the background and returns nil on every branch, so the attempt is
  always counted as sent.
\<close>

definition sendAlert :: "'s agent_env \<Rightarrow> agent_event \<Rightarrow> 's agent \<Rightarrow> 's agent" where
  "sendAlert x e g =
     (let g1 = g\<lparr>agAlerts := agAlerts g @ [e]\<rparr> in
      case agAlertMgr g1 of
        None \<Rightarrow> g1
      | Some a \<Rightarrow>
          (case SendAlert (xNow x 2) e a of
             (a', posted) \<Rightarrow>
               g1\<lparr>agAlertMgr := Some a', agWebhooks := (if posted then agWebhooks g1 @ [e] else agWebhooks g1),
                  agMetrics := RecordWebhookSent ''ok'' (agMetrics g1)\<rparr>))"

definition ingest_signal ::
  "(response_error + response_result \<Rightarrow> string \<times> string) \<Rightarrow> 's agent_env \<Rightarrow> signal \<Rightarrow> 's agent \<Rightarrow> 's agent" where
  "ingest_signal shown x s g =
     (case Ingest (xEvict x) (xSuppress x) (xNow x 1) s (agCorrelator g) of
        (c, _, delivered) \<Rightarrow> handle_findings shown x 3 delivered (g\<lparr>agCorrelator := c\<rparr>))"

definition correlate_event ::
  "(response_error + response_result \<Rightarrow> string \<times> string) \<Rightarrow> 's agent_env \<Rightarrow> agent_event \<Rightarrow> 's agent \<Rightarrow> 's agent" where
  "correlate_event shown x e g = (case eventToSignal e of None \<Rightarrow> g | Some s \<Rightarrow> ingest_signal shown x s g)"

text \<open>The policy step; a panic of the policy matcher is \<open>None\<close>.\<close>

definition police_event :: "'s agent_env \<Rightarrow> agent_event \<Rightarrow> 's agent \<Rightarrow> 's agent option" where
  "police_event x e g =
     (case policy_Evaluate (agPolicy g) (reflect_event e) of
        None \<Rightarrow> None
      | Some act \<Rightarrow>
          Some (if act = ActionAlert \<or> act = ActionBlock then sendAlert x e g
                else if act = ActionAllow \<and> is_threat e then sendAlert x e g
                else g))"

definition handleEvent ::
  "(response_error + response_result \<Rightarrow> string \<times> string) \<Rightarrow> 's agent_env \<Rightarrow> agent_event \<Rightarrow> 's agent \<Rightarrow> 's agent option" where
  "handleEvent shown x e g =
     (let (g1, sampled) =
        (if is_threat e then (g, True)
         else case agProcessor g of
           None \<Rightarrow> (g, True)
         | Some p \<Rightarrow> (case ShouldSample p of (p', ok) \<Rightarrow> (g\<lparr>agProcessor := Some p'\<rparr>, ok)))
      in if \<not> sampled then Some g1
         else police_event x e (correlate_event shown x e (recordAudit x e
                (g1\<lparr>agMetrics := RecordEvent (xNow x 0) e (agMetrics g1)\<rparr>))))"

subsection \<open>The ring-buffer reader\<close>

text \<open>A full channel and an undecodable record are counted and dropped.\<close>

record reader =
  rdQueue :: "agent_event list"
  rdDrops :: "(string, int) gomap"

definition RecordDrop :: "string \<Rightarrow> reader \<Rightarrow> reader" where
  "RecordDrop why r = r\<lparr>rdDrops := mput why (mget 0 (rdDrops r) why + 1) (rdDrops r)\<rparr>"

definition read_record :: "byte list \<Rightarrow> reader \<Rightarrow> reader" where
  "read_record d r =
     (case ParseEvent d of
        Inl e \<Rightarrow> RecordDrop ''parse_error'' r
      | Inr ev \<Rightarrow> if length (rdQueue r) < 1000 then r\<lparr>rdQueue := rdQueue r @ [ev]\<rparr> else RecordDrop ''event_chan_full'' r)"

subsection \<open>Applying and reloading the policy\<close>

text \<open>
  The policy engine keeps a policy of its own beside the controller's; reloading it replaces that
  one.  A SIGHUP (\<^verbatim>\<open>reloadConfig\<close> in \<^verbatim>\<open>src/cmd/neurosentry/main.go\<close>) clears and refills the kernel maps.
\<close>

definition engine_Evaluate :: "'s agent \<Rightarrow> agent_event \<Rightarrow> string option" where
  "engine_Evaluate g e = evaluate_rules (poRules (agEnginePolicy g)) (reflect_event e)"

definition put_pids :: "int list \<Rightarrow> bpf_manager \<Rightarrow> bpf_manager" where
  "put_pids pids m = fold (\<lambda>p m. fst (AddTrustedPID (uint32 p) m)) pids m"

definition put_exts :: "string list \<Rightarrow> bpf_manager \<Rightarrow> bpf_manager" where
  "put_exts es m = fold (\<lambda>e m. fst (AddProtectedExtension e m)) es m"

definition put_egress :: "string list \<Rightarrow> bpf_manager \<Rightarrow> bpf_manager" where
  "put_egress cs m = fold (\<lambda>c m. fst (AddAllowedIP c m)) cs m"

definition put_symbols :: "string list \<Rightarrow> bpf_manager \<Rightarrow> bpf_manager" where
  "put_symbols ss m = fold (\<lambda>s m. fst (AddDangerousSymbol s m)) ss m"

definition applyPolicy :: "protection_config \<Rightarrow> bpf_manager \<Rightarrow> bpf_manager" where
  "applyPolicy cfg m =
     put_symbols (pcDangerousSymbols cfg) (put_egress (pcAllowedEgress cfg)
       (put_exts (pcProtectedExtensions cfg) (put_pids (pcTrustedPIDs cfg) m)))"

definition ReloadPolicy ::
  "(string \<Rightarrow> bool) \<Rightarrow> (string \<Rightarrow> string + string) \<Rightarrow> (string \<Rightarrow> string + policy) \<Rightarrow> string \<Rightarrow> protection_config \<Rightarrow>
     's agent \<Rightarrow> 's agent \<times> policy_error option" where
  "ReloadPolicy not_exist read parse path cfg g =
     (case Load read parse (NewLoader not_exist path) of
        Inl e \<Rightarrow> (g, Some e)
      | Inr p \<Rightarrow> (g\<lparr>agEnginePolicy := p, agKernel := applyPolicy cfg (agKernel g)\<rparr>, None))"

text \<open>\<open>load\<close> is \<^verbatim>\<open>config.Load\<close>: the protection settings and the policy path.\<close>

definition reloadConfig ::
  "(32 word list \<Rightarrow> 32 word list) \<Rightarrow> (string list \<Rightarrow> string list) \<Rightarrow> (string \<Rightarrow> string + protection_config \<times> string) \<Rightarrow>
     (string \<Rightarrow> bool) \<Rightarrow> (string \<Rightarrow> string + string) \<Rightarrow> (string \<Rightarrow> string + policy) \<Rightarrow> string \<Rightarrow>
     's agent \<Rightarrow> 's agent \<times> bool" where
  "reloadConfig ordw ords load not_exist read parse file g =
     (case load file of
        Inl e \<Rightarrow> (g, False)
      | Inr (cfg, path) \<Rightarrow>
          (case Load read parse (NewLoader not_exist path) of
             Inl e \<Rightarrow> (g, False)
           | Inr p \<Rightarrow>
               (g\<lparr>agKernel := put_egress (pcAllowedEgress cfg) (put_pids (pcTrustedPIDs cfg)
                    (put_exts (pcProtectedExtensions cfg) (ClearMaps ordw ords (agKernel g)))),
                  agMetrics := RecordConfigReload (agMetrics g)\<rparr>, True)))"

end
