(* ===== verification/Kernel_Props.thy ===== *)
theory Kernel_Props
  imports KernelMaps
begin

text \<open>
  What reaches the kernel maps: the capacity of every map is respected, an egress block that fits is
  enumerated exactly, one that does not is cut off silently, and dead processes lose their trust.
\<close>

subsection \<open>Maps\<close>

definition bpf_ok :: "'k bpf_map \<Rightarrow> bool" where
  "bpf_ok m \<longleftrightarrow> gomap_ok (bmEntries m) \<and> length (bmEntries m) \<le> bmMax m"

lemma bpf_ok_empty [simp]: "bpf_ok (bpf_empty n)"
  by (simp add: bpf_ok_def bpf_empty_def)

lemma bpf_put_ok: "bpf_ok m \<Longrightarrow> bpf_put k v m = Some m' \<Longrightarrow> bpf_ok m' \<and> bmMax m' = bmMax m"
  by (cases "k \<in> set (keys (bmEntries m))") (auto simp: bpf_ok_def bpf_put_def length_mput simp del: set_map split: if_splits)

lemma bpf_put_keys: "bpf_put k v m = Some m' \<Longrightarrow> set (keys (bmEntries m')) = insert k (set (keys (bmEntries m)))"
proof -
  assume "bpf_put k v m = Some m'"
  then have "m' = m\<lparr>bmEntries := mput k v (bmEntries m)\<rparr>" by (simp add: bpf_put_def split: if_splits)
  then show ?thesis by simp
qed

lemma bpf_delete_ok: "bpf_ok m \<Longrightarrow> bpf_ok (bpf_delete k m)"
  using length_mdel_le [of k "bmEntries m"] by (auto simp: bpf_ok_def bpf_delete_def)

lemma bpf_delete_keys: "set (keys (bmEntries (bpf_delete k m))) = set (keys (bmEntries m)) - {k}"
  by (simp add: bpf_delete_def keys_mdel)

lemma clearBPFMap_empty:
  assumes "range_order ord"
  shows "bmEntries (clearBPFMap ord m) = [] \<and> bmMax (clearBPFMap ord m) = bmMax m"
proof -
  have "set (keys (bmEntries (fold bpf_delete ks m))) = set (keys (bmEntries m)) - set ks \<and> bmMax (fold bpf_delete ks m) = bmMax m" for ks
    by (induction ks arbitrary: m) (auto simp: bpf_delete_keys bpf_delete_def)
  from this [of "ord (keys (bmEntries m))"] show ?thesis
    using range_orderD(1) [OF assms, of "keys (bmEntries m)"] by (simp add: clearBPFMap_def)
qed

subsection \<open>Address keys\<close>

definition octets :: "ip \<Rightarrow> bool" where
  "octets q \<longleftrightarrow> length q = 4 \<and> (\<forall>b \<in> set q. b < 256)"

lemma octetsE:
  assumes "octets q"
  obtains a b c d where "q = [a, b, c, d]" "a < 256" "b < 256" "c < 256" "d < 256"
  using assms by (auto simp: octets_def length_Suc_conv numeral_eq_Suc)

lemma be_val_octets: "octets q \<Longrightarrow> be_val q < 4294967296"
  using be_val_less [of q] by (simp add: octets_def)

lemma le32_rev: "octets q \<Longrightarrow> le32 q = of_nat (be_val (rev q))"
  by (erule octetsE) (simp add: le32_def)

lemma le32_inject: "octets q \<Longrightarrow> octets r \<Longrightarrow> le32 q = le32 r \<longleftrightarrow> q = r"
proof -
  assume o: "octets q" "octets r"
  then have r: "octets (rev q)" "octets (rev r)" by (simp_all add: octets_def)
  have "le32 q = le32 r \<longleftrightarrow> be_val (rev q) = be_val (rev r)"
    using be_val_octets [OF r(1)] be_val_octets [OF r(2)]
    by (simp add: le32_rev o word_of_nat_eq_iff take_bit_nat_eq_self)
  also have "\<dots> \<longleftrightarrow> q = r" using be_val_inject [of "rev q" "rev r"] r by (auto simp: octets_def)
  finally show ?thesis .
qed

lemma unat_word32: "v < 4294967296 \<Longrightarrow> unat (word_of_nat v :: 32 word) = v"
  by (simp add: unat_of_nat)

lemma octets_put_be32: "octets (put_be32 w)"
proof -
  have "unat w < 4294967296" using unsigned_less [of w, where ?'a = nat] by simp
  then show ?thesis by (auto simp: octets_def put_be32_def)
qed

lemma put_be32_be_val: "octets q \<Longrightarrow> put_be32 (word_of_nat (be_val q)) = q"
proof (erule octetsE)
  fix a b c d assume q: "q = [a, b, c, d]" and l: "a < 256" "b < 256" "c < 256" "d < 256"
  have v: "be_val q = a * 16777216 + b * 65536 + c * 256 + d" by (simp add: q)
  moreover have "be_val q < 4294967296" using l by (simp add: q)
  moreover have "be_val q div 16777216 = a" by (rule div_nat_eqI) (use l v in simp_all)
  moreover have "be_val q div 65536 = a * 256 + b" by (rule div_nat_eqI) (use l v in simp_all)
  moreover have "be_val q div 256 = (a * 256 + b) * 256 + c" by (rule div_nat_eqI) (use l v in simp_all)
  moreover have "be_val q = (a * 65536 + b * 256 + c) * 256 + d" by (simp add: v)
  moreover have "((a * 65536 + b * 256 + c) * 256 + d) mod 256 = d" "((a * 256 + b) * 256 + c) mod 256 = c" "(a * 256 + b) mod 256 = b"
    using l by (simp_all only: mod_mult_self3 mod_less)
  ultimately have "unat (word_of_nat (be_val q) :: 32 word) div 16777216 = a"
    "unat (word_of_nat (be_val q) :: 32 word) div 65536 mod 256 = b"
    "unat (word_of_nat (be_val q) :: 32 word) div 256 mod 256 = c"
    "unat (word_of_nat (be_val q) :: 32 word) mod 256 = d"
    by (simp_all only: unat_word32)
  then show "put_be32 (word_of_nat (be_val q)) = q" unfolding put_be32_def q by (simp only:)
qed

lemma be_val_put_be32: "be_val (put_be32 w) = unat w"
proof -
  have "unat w div 16777216 * 16777216 + unat w div 65536 mod 256 * 65536 + unat w div 256 mod 256 * 256 + unat w mod 256 = unat w"
  proof -
    have "unat w div 65536 = 256 * (unat w div 16777216) + unat w div 65536 mod 256"
      using div_mult_mod_eq [of "unat w div 65536" 256] by (simp flip: div_mult2_eq)
    moreover have "unat w div 256 = 256 * (unat w div 65536) + unat w div 256 mod 256"
      using div_mult_mod_eq [of "unat w div 256" 256] by (simp flip: div_mult2_eq)
    moreover have "unat w = 256 * (unat w div 256) + unat w mod 256" by simp
    ultimately show ?thesis by linarith
  qed
  then show ?thesis by (simp add: put_be32_def)
qed

text \<open>A listed blocklist entry reads as the address that was blocked.\<close>

lemma le_octets_le32: "octets q \<Longrightarrow> le_octets (le32 q) = q"
  using put_be32_be_val [of "rev q"] by (simp add: le_octets_def le32_rev octets_def)

subsection \<open>The network address\<close>

lemma be_val_mask_zero: "be_val (mask_bytes (CIDRMask 0 (length xs)) xs) = 0"
  by (induction xs) (simp_all add: CIDRMask_Suc CIDRMask_def [of _ 0])

lemma be_val_mask:
  "\<forall>b \<in> set xs. b < 256 \<Longrightarrow> n \<le> 8 * length xs \<Longrightarrow>
     be_val (mask_bytes (CIDRMask n (length xs)) xs) = be_val xs div 2 ^ (8 * length xs - n) * 2 ^ (8 * length xs - n)"
proof (induction xs arbitrary: n)
  case (Cons x xs)
  have l: "be_val xs < 256 ^ length xs" and x: "x < 256" using Cons.prems be_val_less [of xs] by auto
  show ?case
  proof (cases "n \<le> 8")
    case True
    have e: "8 * Suc (length xs) - n = 8 * length xs + (8 - n)" using True by simp
    have "min 8 n = n" "n - 8 = 0" using True by auto
    moreover have "(2 :: nat) ^ (8 * Suc (length xs) - n) = 256 ^ length xs * 2 ^ (8 - n)"
      unfolding e by (simp add: power_add power_mult)
    ultimately show ?thesis
      using x div_block [OF l True, of x] be_val_mask_zero [of xs]
      by (simp only: list.size add_0_right add_Suc_right CIDRMask_Suc mask_bytes_Cons be_val.simps length_mask_bytes
          length_CIDRMask min.idem and_prefix_byte [OF x True] mult.assoc mult.commute [of _ "256 ^ length xs"] mult.left_commute)
  next
    case False
    define j where "j = 8 * length xs - (n - 8)"
    have j: "8 * Suc (length xs) - n = j" "j \<le> 8 * length xs" using False by (auto simp: j_def)
    have p: "(256 :: nat) ^ length xs = 2 ^ (8 * length xs - j) * 2 ^ j"
      using j(2) by (simp add: power_mult flip: power_add)
    have d: "(x * 256 ^ length xs + be_val xs) div 2 ^ j * 2 ^ j = x * 256 ^ length xs + be_val xs div 2 ^ j * 2 ^ j"
      unfolding p mult.assoc [symmetric] by (simp add: distrib_right)
    have "255 AND x = x" using and_prefix_byte [of x 8] x by simp
    moreover have "min 8 n = 8" using False by simp
    moreover have "be_val (mask_bytes (CIDRMask (n - 8) (length xs)) xs) = be_val xs div 2 ^ j * 2 ^ j"
      using Cons.IH [of "n - 8"] Cons.prems False by (simp add: j_def)
    ultimately show ?thesis using d j(1) by (simp add: CIDRMask_Suc)
  qed
qed simp

subsection \<open>Enumerating a block\<close>

definition host_key :: "32 word \<Rightarrow> nat \<Rightarrow> 32 word" where
  "host_key base i = le32 (put_be32 (base + of_nat i))"

lemma host_key_inject:
  assumes "i < 4294967296" "j < 4294967296"
  shows "host_key base i = host_key base j \<longleftrightarrow> i = j"
proof -
  have "host_key base i = host_key base j \<longleftrightarrow> put_be32 (base + of_nat i) = put_be32 (base + of_nat j)"
    by (simp add: host_key_def le32_inject octets_put_be32)
  also have "\<dots> \<longleftrightarrow> base + of_nat i = base + of_nat j"
    by (metis be_val_put_be32 unsigned_word_eqI)
  also have "\<dots> \<longleftrightarrow> i = j"
    using assms by (simp add: word_of_nat_eq_iff take_bit_nat_eq_self)
  finally show ?thesis .
qed

lemma put_hosts_fits:
  "bpf_ok a \<Longrightarrow> length (bmEntries a) + length is \<le> bmMax a \<Longrightarrow>
     set (keys (bmEntries (put_hosts base is a))) = set (keys (bmEntries a)) \<union> host_key base ` set is \<and>
     bpf_ok (put_hosts base is a) \<and> bmMax (put_hosts base is a) = bmMax a \<and>
     length (bmEntries (put_hosts base is a)) \<le> length (bmEntries a) + length is"
proof (induction "is" arbitrary: a)
  case (Cons i "is")
  then obtain a' where a': "bpf_put (host_key base i) 1 a = Some a'"
    by (auto simp: bpf_put_def)
  have e: "bmEntries a' = mput (host_key base i) 1 (bmEntries a)"
    using a' by (auto simp: bpf_put_def split: if_splits)
  have l: "length (bmEntries a') \<le> Suc (length (bmEntries a))"
    unfolding e length_mput by simp
  have ok: "bpf_ok a'" "bmMax a' = bmMax a" using bpf_put_ok [OF Cons.prems(1) a'] by auto
  have IH: "set (keys (bmEntries (put_hosts base is a'))) = set (keys (bmEntries a')) \<union> host_key base ` set is \<and>
     bpf_ok (put_hosts base is a') \<and> bmMax (put_hosts base is a') = bmMax a' \<and>
     length (bmEntries (put_hosts base is a')) \<le> length (bmEntries a') + length is"
    using Cons.prems(2) ok l by (intro Cons.IH) auto
  have step: "put_hosts base (i # is) a = put_hosts base is a'" using a' by (simp add: host_key_def)
  show ?case unfolding step using IH ok l bpf_put_keys [OF a'] by simp
qed simp

lemma put_hosts_full:
  "length (bmEntries a) = bmMax a \<Longrightarrow> set (keys (bmEntries a)) \<inter> host_key base ` set is = {} \<Longrightarrow> put_hosts base is a = a"
proof (induction "is")
  case (Cons i "is")
  then have "bpf_put (host_key base i) 1 a = None" by (auto simp: bpf_put_def)
  with Cons show ?case by (simp add: host_key_def)
qed simp

lemma put_hosts_append: "put_hosts base (is @ js) a = put_hosts base js (put_hosts base is a)"
  by (induction "is" arbitrary: a) (auto split: option.splits)

lemma leading_ones_CIDRMask: "n \<le> 32 \<Longrightarrow> leading_ones (CIDRMask n 4) = n"
proof -
  assume "n \<le> 32"
  moreover have "\<forall>k \<in> set [0..<33]. leading_ones (CIDRMask k 4) = k" by code_simp
  ultimately show ?thesis by auto
qed

lemma network_of_block:
  assumes "octets q" "n \<le> 32"
  shows "net_To4 (inIP (block_of q n)) = Some (mask_bytes (CIDRMask n 4) q)"
    "be32 (mask_bytes (CIDRMask n 4) q) = word_of_nat (be_val q div 2 ^ (32 - n) * 2 ^ (32 - n))"
  using assms be_val_mask [of q n] by (simp_all add: block_of_def net_To4_def octets_def be32_def)

lemma addCIDR_enumerates:
  assumes "octets [a, b, c, d]" "20 < n" "n \<le> 32"
  shows "addCIDRToAllowlist (dotted a b c d @ ''/'' @ octet n) x =
    (x\<lparr>xoAllowedEgressIps := put_hosts (word_of_nat (be_val [a, b, c, d] div 2 ^ (32 - n) * 2 ^ (32 - n))) [0..<2 ^ (32 - n)]
        (xoAllowedEgressIps x)\<rparr>, None)"
proof -
  have "(2 :: nat) ^ (32 - n) \<le> 2 ^ 11" using assms(2) by (intro power_increasing) auto
  then have small: "\<not> 2048 < (2 :: nat) ^ (32 - n)" by simp
  have p: "ParseCIDR (dotted a b c d @ ''/'' @ octet n) = Some (block_of [a, b, c, d] n)"
    using assms by (intro ParseCIDR_dotted) (auto simp: octets_def)
  have m: "inMask (block_of [a, b, c, d] n) = CIDRMask n 4" by (simp add: block_of_def)
  show ?thesis
    unfolding addCIDRToAllowlist_def p option.case network_of_block [OF assms(1,3)] m
      leading_ones_CIDRMask [OF assms(3)] length_CIDRMask Let_def
    using assms(2) small by simp
qed

lemma block_hosts:
  assumes "octets q" "n \<le> 32"
  shows "host_key (word_of_nat (be_val q div 2 ^ (32 - n) * 2 ^ (32 - n))) ` {0..<2 ^ (32 - n)}
    = le32 ` {r. octets r \<and> same_prefix n q r}"
proof -
  let ?k = "2 ^ (32 - n) :: nat" and ?B = "be_val q div 2 ^ (32 - n) * 2 ^ (32 - n)"
  have pos: "0 < ?k" by simp
  have dv: "?k dvd 4294967296" using assms(2) le_imp_power_dvd [of "32 - n" 32 "2 :: nat"] by simp
  have lt: "?B + i < 4294967296" if "i < ?k" for i
  proof -
    obtain t where t: "(4294967296 :: nat) = ?k * t" using dv by (rule dvdE)
    have "be_val q div ?k < t" using be_val_octets [OF assms(1)] t by (simp add: less_mult_imp_div_less mult.commute)
    then have "?k * Suc (be_val q div ?k) \<le> ?k * t" by (intro mult_le_mono2) simp
    with that show ?thesis by (simp add: t mult.commute)
  qed
  have host: "host_key (word_of_nat ?B) i = le32 (put_be32 (word_of_nat (?B + i)))" for i
    by (simp add: host_key_def)
  show ?thesis
  proof (intro set_eqI iffI)
    fix w assume "w \<in> host_key (word_of_nat ?B) ` {0..<?k}"
    then obtain i where i: "i < ?k" "w = le32 (put_be32 (word_of_nat (?B + i)))" by (auto simp only: host image_iff atLeastLessThan_iff)
    have "be_val (put_be32 (word_of_nat (?B + i))) = ?B + i"
      using lt [OF i(1)] by (simp only: be_val_put_be32 unat_word32)
    moreover have "(?B + i) div ?k = be_val q div ?k" using i(1) by simp
    ultimately have "same_prefix n q (put_be32 (word_of_nat (?B + i)))" by (simp only: same_prefix_def)
    with i(2) octets_put_be32 show "w \<in> le32 ` {r. octets r \<and> same_prefix n q r}" by blast
  next
    fix w assume "w \<in> le32 ` {r. octets r \<and> same_prefix n q r}"
    then obtain r where r: "w = le32 r" "octets r" "be_val q div ?k = be_val r div ?k" by (auto simp: same_prefix_def)
    have "be_val r = ?B + be_val r mod ?k" unfolding r(3) by (rule div_mult_mod_eq [symmetric])
    then have "r = put_be32 (word_of_nat (?B + be_val r mod ?k))" using put_be32_be_val [OF r(2)] by metis
    then have "w = host_key (word_of_nat ?B) (be_val r mod ?k)" using r(1) host by metis
    moreover have "be_val r mod ?k \<in> {0..<?k}" using pos by simp
    ultimately show "w \<in> host_key (word_of_nat ?B) ` {0..<?k}" by (rule image_eqI)
  qed
qed

subsection \<open>Trust\<close>

definition trusted :: "bpf_manager \<Rightarrow> 32 word set" where
  "trusted m = (case bgLSM m of None \<Rightarrow> {} | Some o1 \<Rightarrow> set (keys (bmEntries (loTrustedPids o1))))"

lemma RemoveTrustedPID_trusted:
  "RemoveTrustedPID pid m = (m', e) \<Longrightarrow> trusted m' = trusted m - {pid} \<and> (e = None \<longleftrightarrow> bgLSM m \<noteq> None) \<and> (bgLSM m' = None \<longleftrightarrow> bgLSM m = None)"
proof (cases "bgLSM m")
  case (Some o1)
  assume "RemoveTrustedPID pid m = (m', e)"
  then have "m' = m\<lparr>bgLSM := Some (o1\<lparr>loTrustedPids := bpf_delete pid (loTrustedPids o1)\<rparr>)\<rparr>" "e = None"
    using Some by (simp_all add: RemoveTrustedPID_def)
  with Some show ?thesis using bpf_delete_keys [of pid "loTrustedPids o1"] by (simp add: trusted_def)
qed (auto simp: RemoveTrustedPID_def trusted_def)

lemma prune_loop_trusted:
  "bgLSM m \<noteq> None \<Longrightarrow> prune_loop alive pids m n = (m', k) \<Longrightarrow>
     trusted m' = trusted m - {p \<in> set pids. \<not> alive p} \<and> k = n + length (filter (\<lambda>p. \<not> alive p) pids)"
proof (induction pids arbitrary: m n)
  case (Cons p pids)
  show ?case
  proof (cases "alive p")
    case True
    with Cons.IH [OF Cons.prems(1)] Cons.prems(2) show ?thesis by auto
  next
    case False
    obtain m1 e where r: "RemoveTrustedPID p m = (m1, e)" by fastforce
    note t = RemoveTrustedPID_trusted [OF r]
    with Cons.prems(1) have e: "e = None" "bgLSM m1 \<noteq> None" by auto
    have "prune_loop alive pids m1 (Suc n) = (m', k)" using Cons.prems(2) False r e by simp
    from Cons.IH [OF e(2) this] t False show ?thesis by auto
  qed
qed simp

end
