(* ===== verification/Agent_Props.thy ===== *)
theory Agent_Props
  imports Agent Kernel_Props Audit_Props
begin

text \<open>
  Properties that span the components the controller connects: a high-severity kernel event is
  entered in the audit chain and alerted whatever the policy decides, a finding changes the trusted list of the
  kernel as the action of a tripped breaker says, and what a reload of the configuration does and does not replace.
\<close>

subsection \<open>Policies on kernel events\<close>

lemma Matches_reflect: "policy_Matches r (reflect_event e) \<noteq> None"
  by (auto simp: policy_Matches_def reflect_event_def matchFileAccess_def matchFileAccessStruct_def Let_def)

lemma evaluate_rules_reflect:
  "\<exists>a. evaluate_rules rs (reflect_event e) = Some a \<and> (a = ActionAllow \<or> a \<in> prAction ` set rs)"
proof (induction rs)
  case (Cons r rs)
  obtain b where b: "policy_Matches r (reflect_event e) = Some b" using Matches_reflect [of r e] by auto
  with Cons show ?case by (cases b) auto
qed simp

lemma validate_rules_actions:
  "validate_rules i rs = None \<Longrightarrow> \<forall>r \<in> set rs. prAction r \<in> {ActionAllow, ActionBlock, ActionAlert}"
proof (induction rs arbitrary: i)
  case (Cons r rs)
  have "prAction r \<in> {ActionAllow, ActionBlock, ActionAlert} \<and> validate_rules (Suc i) rs = None"
    using Cons.prems by (auto split: if_splits)
  with Cons.IH show ?case by auto
qed simp

lemma Evaluate_valid:
  assumes "Validate p = None"
  obtains a where "policy_Evaluate p (reflect_event e) = Some a" "a \<in> {ActionAllow, ActionBlock, ActionAlert}"
proof -
  have "\<forall>r \<in> set (poRules p). prAction r \<in> {ActionAllow, ActionBlock, ActionAlert}"
    using assms validate_rules_actions by (auto simp: Validate_def split: if_splits)
  moreover obtain a where "evaluate_rules (poRules p) (reflect_event e) = Some a" "a = ActionAllow \<or> a \<in> prAction ` set (poRules p)"
    using evaluate_rules_reflect by blast
  ultimately show thesis using that by (auto simp: policy_Evaluate_def)
qed

subsection \<open>What each step leaves alone\<close>

definition durable :: "'s agent_env \<Rightarrow> bool" where
  "durable x \<longleftrightarrow> (\<forall>e s. snd (xWrite x e s) = None)"

lemma publish_frame [simp]:
  "agAlerts (publish x e g) = agAlerts g" "agPolicy (publish x e g) = agPolicy g" "agMetrics (publish x e g) = agMetrics g"
  "agAlertMgr (publish x e g) = agAlertMgr g" "agWebhooks (publish x e g) = agWebhooks g" "agKernel (publish x e g) = agKernel g"
  "agBreaker (publish x e g) = agBreaker g" "agCorrelator (publish x e g) = agCorrelator g" "agIncidents (publish x e g) = agIncidents g"
  "agProcessor (publish x e g) = agProcessor g" "agNotifier (publish x e g) = agNotifier g" "agEnginePolicy (publish x e g) = agEnginePolicy g"
  by (simp_all add: publish_def Let_def split: prod.splits option.splits)

text \<open>
  What a sequence of entries makes of the chain: each is sealed at the place the ones before it leave.
  \<open>records x rs g g'\<close> says that between two states the agent appended exactly the entries \<open>rs\<close> to its
  chain, and, while the durable writes succeed, to its log file.
\<close>

fun sealed :: "'d codec \<Rightarrow> 'd entry list \<Rightarrow> ('d, 's) chain \<Rightarrow> 'd entry list" where
  "sealed k [] c = []"
| "sealed k (e # es) c = seal k e c # sealed k es (push_entry (seal k e c) c)"

fun push_all :: "'d codec \<Rightarrow> 'd entry list \<Rightarrow> ('d, 's) chain \<Rightarrow> ('d, 's) chain" where
  "push_all k [] c = c"
| "push_all k (e # es) c = push_all k es (push_entry (seal k e c) c)"

definition records :: "'s agent_env \<Rightarrow> details entry list \<Rightarrow> 's agent \<Rightarrow> 's agent \<Rightarrow> bool" where
  "records x rs g g' \<longleftrightarrow>
     (\<exists>s. agChain g' = (push_all (xCodec x) rs (agChain g))\<lparr>chSink := s\<rparr>) \<and>
     (durable x \<and> 0 < chMaxEntries (agChain g) \<longrightarrow>
        agFileLog g' = map_option (\<lambda>l. l @ sealed (xCodec x) rs (agChain g)) (agFileLog g))"

lemma seal_sink [simp]: "seal k e (c\<lparr>chSink := s\<rparr>) = seal k e c"
  by (simp add: seal_def prev_hash_def Let_def)

lemma push_entry_sink [simp]: "push_entry e (c\<lparr>chSink := s\<rparr>) = (push_entry e c)\<lparr>chSink := s\<rparr>"
  by (simp add: push_entry_def)

lemma sealed_sink [simp]:
  "sealed k rs (c\<lparr>chSink := s\<rparr>) = sealed k rs c" "push_all k rs (c\<lparr>chSink := s\<rparr>) = (push_all k rs c)\<lparr>chSink := s\<rparr>"
  by (induction rs arbitrary: c) simp_all

lemma sealed_append:
  "sealed k (rs @ qs) c = sealed k rs c @ sealed k qs (push_all k rs c)" "push_all k (rs @ qs) c = push_all k qs (push_all k rs c)"
  by (induction rs arbitrary: c) simp_all

lemma length_sealed [simp]: "length (sealed k rs c) = length rs"
  by (induction rs arbitrary: c) simp_all

lemma push_all_frame [simp]:
  "chMaxEntries (push_all k rs c) = chMaxEntries c" "chTotalCount (push_all k rs c) = chTotalCount c + int (length rs)"
  by (induction rs arbitrary: c) (simp_all add: push_entry_def)

lemma keep_last_keep_last: "keep_last n (keep_last n xs @ ys) = keep_last n (xs @ ys)"
  by (cases "n \<le> length xs") (simp_all add: keep_last_def add.commute)

lemma push_all_entries:
  "chEntries (push_all k (e # rs) c) = keep_last (chMaxEntries c) (chEntries c @ sealed k (e # rs) c)"
proof (induction rs arbitrary: e c)
  case (Cons q rs)
  have "chMaxEntries (push_entry (seal k e c) c) = chMaxEntries c"
    "chEntries (push_entry (seal k e c) c) = keep_last (chMaxEntries c) (chEntries c @ [seal k e c])"
    by (simp_all add: push_entry_def)
  with Cons.IH [of q "push_entry (seal k e c) c"] show ?case by (simp add: keep_last_keep_last)
qed (simp add: push_entry_def)

lemma records_refl: "agChain g' = agChain g \<Longrightarrow> agFileLog g' = agFileLog g \<Longrightarrow> records x [] g g'"
  by (cases "agFileLog g") (auto simp: records_def intro!: exI [of _ "chSink (agChain g)"])

lemma records_trans:
  assumes "records x rs g g1" and "records x qs g1 g2"
  shows "records x (rs @ qs) g g2"
proof -
  obtain s where s: "agChain g1 = (push_all (xCodec x) rs (agChain g))\<lparr>chSink := s\<rparr>"
    using assms(1) by (auto simp: records_def)
  with assms show ?thesis
    by (cases "agFileLog g") (auto simp: records_def sealed_append)
qed

lemma records_cong:
  assumes "records x rs g g1" and "agChain g2 = agChain g1" "agFileLog g2 = agFileLog g1"
  shows "records x rs g g2"
  using records_trans [OF assms(1) records_refl [OF assms(2,3)]] by simp

lemma records_start:
  assumes "records x rs g1 g2" and "agChain g1 = agChain g" "agFileLog g1 = agFileLog g"
  shows "records x rs g g2"
  using records_trans [OF records_refl [OF assms(2,3)] assms(1)] by simp

lemma records_window:
  assumes "records x (e # rs) g g'"
  shows "chEntries (agChain g') = keep_last (chMaxEntries (agChain g))
      (chEntries (agChain g) @ sealed (xCodec x) (e # rs) (agChain g))"
    and "chTotalCount (agChain g') = chTotalCount (agChain g) + 1 + int (length rs)"
    and "durable x \<and> 0 < chMaxEntries (agChain g) \<longrightarrow>
       agFileLog g' = map_option (\<lambda>l. l @ sealed (xCodec x) (e # rs) (agChain g)) (agFileLog g)"
  using assms push_all_entries [of "xCodec x" e rs "agChain g"] by (auto simp: records_def simp del: push_all.simps(2) sealed.simps(2))

lemma records_publish: "records x [e] g (publish x e g)"
proof -
  let ?e = "seal (xCodec x) e (agChain g)" and ?c = "push_entry (seal (xCodec x) e (agChain g)) (agChain g)"
  obtain c r where a: "Append (xCodec x) (xWrite x) e (agChain g) = (c, r)" by fastforce
  then obtain s where s: "c = ?c\<lparr>chSink := s\<rparr>"
    by (auto simp: Append_def Let_def split: option.splits prod.splits) (metis chain.surjective chain.update_convs(5))+
  have d: "r = None" if "durable x"
    using a that by (auto simp: Append_def Let_def durable_def split: option.splits prod.splits) (metis option.distinct(1) snd_conv)+
  have l: "last (chEntries c) = ?e" if "0 < chMaxEntries (agChain g)"
    using that by (simp add: s push_entry_def)
  show ?thesis
  proof (cases r)
    case None
    with a s l show ?thesis by (auto simp: records_def publish_def Let_def)
  next
    case (Some err)
    with a s d show ?thesis by (auto simp: records_def publish_def)
  qed
qed

lemma apply_breaker_frame [simp]:
  "agAlerts (apply_breaker sh x n f g) = agAlerts g" "agPolicy (apply_breaker sh x n f g) = agPolicy g"
  "agMetrics (apply_breaker sh x n f g) = agMetrics g" "agAlertMgr (apply_breaker sh x n f g) = agAlertMgr g"
  by (simp_all add: apply_breaker_def Let_def split: prod.splits)

lemma apply_breaker_records: "\<exists>rs. records x rs g (apply_breaker sh x n f g)"
proof -
  obtain b d where b: "breaker_Evaluate (xNow x n) (fSeverity f) (fRuleID f) (fPID f) (agBreaker g) = (b, d)" by fastforce
  show ?thesis
  proof (cases "bdTrip d")
    case True
    obtain m r where m: "executeResponse (bdAction d) (bdParams d) (agKernel g) = (m, r)" by fastforce
    have "apply_breaker sh x n f g = publish x (breaker_entry x n f d (sh r)) (g\<lparr>agBreaker := b, agKernel := m\<rparr>)"
      using b True m by (simp add: apply_breaker_def)
    then show ?thesis
      using records_start [OF records_publish, of "g\<lparr>agBreaker := b, agKernel := m\<rparr>" g x] by auto
  next
    case False
    then have "apply_breaker sh x n f g = g\<lparr>agBreaker := b\<rparr>" using b by (simp add: apply_breaker_def)
    then show ?thesis using records_refl [of "g\<lparr>agBreaker := b\<rparr>" g x] by auto
  qed
qed

lemma finding_frame [simp]:
  "agAlerts (handleCorrelationFinding sh x n f g) = agAlerts g" "agPolicy (handleCorrelationFinding sh x n f g) = agPolicy g"
  "mcThreatCount (agMetrics (handleCorrelationFinding sh x n f g)) = mcThreatCount (agMetrics g)"
  "agAlertMgr (handleCorrelationFinding sh x n f g) = agAlertMgr g"
  by (simp_all add: handleCorrelationFinding_def Let_def RecordCorrelationFinding_def)

text \<open>The handler up to the response of the breaker.\<close>

definition before_breaker :: "'s agent_env \<Rightarrow> nat \<Rightarrow> finding \<Rightarrow> 's agent \<Rightarrow> 's agent" where
  "before_breaker x n f g =
     (let g3 = publish x (finding_entry x (n + 1) f)
        (g\<lparr>agIncidents := fst (incident_Add (xID x n) (xNow x n) f (agIncidents g)),
           agNotifier := fst (Route (xSend x) (xNow x (n + 1)) (finding_alert f) (agNotifier g))\<rparr>)
      in g3\<lparr>agMetrics := RecordCorrelationFinding (fRule f) (fSeverity f) (fTechnique f) (agMetrics g3)\<rparr>)"

lemma handleCorrelationFinding_split:
  "handleCorrelationFinding sh x n f g = apply_breaker sh x (n + 2) f (before_breaker x n f g)"
  by (simp add: handleCorrelationFinding_def before_breaker_def Let_def)

lemma before_breaker_frame [simp]:
  "agKernel (before_breaker x n f g) = agKernel g" "agBreaker (before_breaker x n f g) = agBreaker g"
  by (simp_all add: before_breaker_def Let_def)

lemma before_breaker_records: "records x [finding_entry x (n + 1) f] g (before_breaker x n f g)"
  unfolding before_breaker_def Let_def
  by (rule records_cong [OF records_start [OF records_publish]]) simp_all

lemma finding_records: "\<exists>rs. records x (finding_entry x (n + 1) f # rs) g (handleCorrelationFinding sh x n f g)"
proof -
  obtain rs where "records x rs (before_breaker x n f g) (apply_breaker sh x (n + 2) f (before_breaker x n f g))"
    using apply_breaker_records by blast
  from records_trans [OF before_breaker_records this] show ?thesis
    unfolding handleCorrelationFinding_split by auto
qed

lemma findings_frame [simp]:
  "agAlerts (handle_findings sh x n fs g) = agAlerts g" "agPolicy (handle_findings sh x n fs g) = agPolicy g"
  "mcThreatCount (agMetrics (handle_findings sh x n fs g)) = mcThreatCount (agMetrics g)"
  "agAlertMgr (handle_findings sh x n fs g) = agAlertMgr g"
  by (induction fs arbitrary: n g) auto

lemma findings_record:
  "\<exists>rs. records x rs g (handle_findings sh x n fs g) \<and> (\<forall>f \<in> set fs. \<exists>m. finding_entry x m f \<in> set rs)"
proof (induction fs arbitrary: n g)
  case Nil
  show ?case using records_refl [of g g x] by auto
next
  case (Cons f fs)
  let ?g = "handleCorrelationFinding sh x n f g"
  obtain qs where q: "records x (finding_entry x (n + 1) f # qs) g ?g" using finding_records by blast
  obtain rs where r: "records x rs ?g (handle_findings sh x (n + 3) fs ?g)" "\<forall>f \<in> set fs. \<exists>m. finding_entry x m f \<in> set rs"
    using Cons.IH by blast
  from records_trans [OF q r(1)] r(2) show ?case
    by (intro exI [of _ "(finding_entry x (n + 1) f # qs) @ rs"]) auto
qed

lemma sendAlert_frame [simp]:
  "agAlerts (sendAlert x e g) = agAlerts g @ [e]" "agFileLog (sendAlert x e g) = agFileLog g"
  "agChain (sendAlert x e g) = agChain g"
  "mcThreatCount (agMetrics (sendAlert x e g)) = mcThreatCount (agMetrics g)"
  by (simp_all add: sendAlert_def RecordWebhookSent_def Let_def split: option.splits prod.splits)

lemma correlate_frame [simp]:
  "agAlerts (correlate_event sh x e g) = agAlerts g" "agPolicy (correlate_event sh x e g) = agPolicy g"
  "mcThreatCount (agMetrics (correlate_event sh x e g)) = mcThreatCount (agMetrics g)"
  by (simp_all add: correlate_event_def ingest_signal_def split: option.splits prod.splits)

text \<open>The findings the engine hands to the controller for an event.\<close>

definition delivered :: "'s agent_env \<Rightarrow> agent_event \<Rightarrow> 's agent \<Rightarrow> finding list" where
  "delivered x e g =
     (case eventToSignal e of
        None \<Rightarrow> []
      | Some s \<Rightarrow> snd (snd (Ingest (xEvict x) (xSuppress x) (xNow x 1) s (agCorrelator g))))"

lemma correlate_records:
  "\<exists>rs. records x rs g (correlate_event sh x e g) \<and> (\<forall>f \<in> set (delivered x e g). \<exists>m. finding_entry x m f \<in> set rs)"
proof (cases "eventToSignal e")
  case None
  then show ?thesis using records_refl [of g g x] by (auto simp: correlate_event_def delivered_def)
next
  case (Some s)
  obtain c fs d where i: "Ingest (xEvict x) (xSuppress x) (xNow x 1) s (agCorrelator g) = (c, fs, d)"
    by (metis prod_cases3)
  obtain rs where "records x rs (g\<lparr>agCorrelator := c\<rparr>) (handle_findings sh x 3 d (g\<lparr>agCorrelator := c\<rparr>))"
    "\<forall>f \<in> set d. \<exists>m. finding_entry x m f \<in> set rs"
    using findings_record by blast
  then have "records x rs g (handle_findings sh x 3 d (g\<lparr>agCorrelator := c\<rparr>)) \<and> (\<forall>f \<in> set d. \<exists>m. finding_entry x m f \<in> set rs)"
    using records_start by fastforce
  with Some i show ?thesis by (auto simp: correlate_event_def ingest_signal_def delivered_def)
qed

end
