(* ===== verification/Agent_Claims.thy ===== *)
theory Agent_Claims
  imports Agent_Props Float64
begin

text \<open>
  The properties of the agent: decoding of kernel records, the default policy on them, the handling of
  threats, the automated response, the kernel allowlists and the reload of the configuration.
\<close>

subsection \<open>Settings of the witnesses\<close>

definition unit_codec :: "details codec" where
  "unit_codec = \<lparr>kSha = (\<lambda>s. of_nat (length s)), kMarshal = (\<lambda>_. ''''), kUnmarshal = (\<lambda>_. None),
     kFormat = (\<lambda>_. ''''), kLocal = ''UTC''\<rparr>"

definition demo_env :: "unit agent_env" where
  "demo_env = \<lparr>xCodec = unit_codec, xWrite = (\<lambda>e s. (s, None)), xID = itoa \<circ> int, xNow = (\<lambda>n. 1000000000 + int n), xZone = ''UTC'',
     xSend = (\<lambda>c a. True), xEvict = id, xSuppress = (\<lambda>n. id)\<rparr>"

definition demo_manager :: bpf_manager where
  "demo_manager = fst (AddTrustedPID 4242 (NewManager\<lparr>bgLSM := Some fresh_lsm\<rparr>))"

definition demo_agent :: "unit agent" where
  "demo_agent =
     \<lparr>agProcessor = Some (NewEventProcessorWithSampling (1 / 2)),
      agMetrics = \<lparr>mcEventCount = 0, mcThreatCount = 0, mcLastEvent = 0, mcByType = [], mcThreats = [], mcFindings = [], mcWebhooks = [], mcConfigReloads = 0\<rparr>,
      agChain = NewChain, agFileLog = Some [], agBroadcast = None, agCorrelator = NewCorrelator BuiltinRules,
      agIncidents = incident_NewStore, agNotifier = NewRouter 0, agBreaker = armed_breaker, agKernel = demo_manager,
      agPolicy = DefaultPolicy, agEnginePolicy = DefaultPolicy,
      agAlertMgr = Some (NewAlertManager ''https://soc'' 300), agAlerts = [], agWebhooks = []\<rparr>"

definition demo_record :: "byte list" where
  "demo_record = access_record 4242 1000 77 2 ''python3'' ''/models/llama.gguf''"

definition demo_event :: agent_event where
  "demo_event = \<lparr>aeType = ''file_blocked'', aeTimestamp = unix_epoch + 77, aeSeverity = ''high'',
     aeSource = no_source\<lparr>evPID := 4242, evUID := 1000, evComm := ''python3''\<rparr>,
     aeData = no_data\<lparr>edFilePath := ''/models/llama.gguf'', edFileAction := ''blocked''\<rparr>\<rparr>"

definition demo_finding :: finding where
  "demo_finding = \<lparr>fTimestamp = 1, fRuleID = ''NS-CORR-001'', fRule = ''r'', fPID = 4242, fTenantID = '''',
     fSeverity = ''critical'', fTechnique = ''T'', fDescription = ''d'', fChain = []\<rparr>"

definition demo_config :: protection_config where
  "demo_config = \<lparr>pcFIMEnabled = True, pcEnforceMode = True, pcLogAllAccess = False, pcProtectedExtensions = [''.gguf''],
     pcTrustedPIDs = [7], pcNetEnabled = True, pcBlockExfiltration = True, pcExfilThresholdMB = 100,
     pcAllowedEgress = [''10.0.0.0/8''], pcPickleEnabled = True, pcPyTorchEnabled = False, pcDangerousSymbols = []\<rparr>"

subsection \<open>Kernel records\<close>

text \<open>C10: Round trip of model access records. Whatever the kernel writes for an opened or blocked
  model file, in the layout of its C structure, the agent decodes to exactly those values: process,
  user, time (the 64 bits read as signed nanoseconds from the Unix epoch), program name and path, with the type, severity and action of the event; for program
  names shorter than 16 and paths shorter than 256 bytes.\<close>

theorem access_record_roundtrip:
  assumes "pid < 2 ^ 32" "uid < 2 ^ 32" "ts < 2 ^ 64" "et = 1 \<or> et = 2"
    and "length comm < 16" "length file < 256" "CHR 0x00 \<notin> set comm" "CHR 0x00 \<notin> set file"
  shows "ParseEvent (access_record pid uid ts et comm file) =
    Inr \<lparr>aeType = (if et = 2 then EventTypeFileBlocked else EventTypeFileAccess), 
         aeTimestamp = unix_epoch + wrap64 (int ts),
         aeSeverity = (if et = 2 then ''high'' else ''info''),
         aeSource = no_source\<lparr>evPID := int pid, evUID := int uid, evComm := comm\<rparr>,
         aeData = no_data\<lparr>edFilePath := file, edFileAction := (if et = 2 then ''blocked'' else ''allowed'')\<rparr>\<rparr>"
proof -
  note f = access_record_fields
  have l: "length comm \<le> 16" "length file \<le> 256" using assms by auto
  have u: "read_uint 0 4 (access_record pid uid ts et comm file) = int pid"
    "read_uint 4 4 (access_record pid uid ts et comm file) = int uid"
    "read_uint 8 8 (access_record pid uid ts et comm file) = int ts"
    "read_uint 16 4 (access_record pid uid ts et comm file) = int et"
    unfolding read_uint_def f(2-5) [OF l] using assms(1-4) by (auto simp: le_val_le_bytes simp del: le_bytes.simps)
  have s: "cGoString (c_string 16 comm) = comm" "cGoString (c_string 256 file) = file"
    using assms by (auto intro: cGoString_c_string)
  have et: "int et = 2 \<longleftrightarrow> et = 2" "int et = 1 \<or> int et = 2" using assms(4) by auto
  show ?thesis
    using et(2) unfolding ParseEvent_def parseModelAccessEvent_def Let_def f(1) [OF l] u f(6,7) [OF l] s et(1)
    by simp
qed

theorem access_record_roundtrip_witness: "ParseEvent demo_record = Inr demo_event"
proof -
  have c: "CHR 0x00 \<notin> set ''python3''" "CHR 0x00 \<notin> set ''/models/llama.gguf''" by code_simp+
  show ?thesis
    using access_record_roundtrip [of 4242 1000 77 2 "''python3''" "''/models/llama.gguf''", OF _ _ _ _ _ _ c]
    by (simp add: demo_record_def demo_event_def is_int64_def)
qed

text \<open>The sizes of the record layouts by the type number at offset 16.\<close>

definition record_size :: "int \<Rightarrow> nat option" where
  "record_size = map_of [(1, 296), (2, 296), (3, 72), (4, 72), (5, 336), (6, 552), (7, 552)]"

text \<open>The kinds and severities a record of each type number can decode to.\<close>

definition record_kinds :: "int \<Rightarrow> (string \<times> string) set" where
  "record_kinds t =
     (if t = 1 then {(EventTypeFileAccess, ''info'')} else if t = 2 then {(EventTypeFileBlocked, ''high'')}
      else if t = 3 \<or> t = 4 then {(EventTypeNetworkAllowed, ''info'')} else if t = 5 then {(EventTypeModelLoad, ''info'')}
      else {(EventTypePickleLoad, ''info''), (EventTypePickleDangerous, ''critical'')})"

text \<open>C30: Decoding of kernel records. Whatever bytes the ring buffer holds, a record decodes exactly when
  it has one of the seven type numbers and at least the size of that type's layout; the event then has the kind
  and the severity of its type number (a record of a network type is never decoded as a blocked connection), the process
  number and the time of its header, a user number and ports of their unsigned widths, a path without zero bytes of fewer
  than 256 characters, and for a connection addresses that parse as IPv4.\<close>

theorem ParseEvent_wellformed:
  "((\<exists>e. ParseEvent d = Inr e) \<longleftrightarrow> (\<exists>n. record_size (read_uint 16 4 d) = Some n \<and> n \<le> length d)) \<and>
   (\<forall>e. ParseEvent d = Inr e \<longrightarrow>
      (aeType e, aeSeverity e) \<in> record_kinds (read_uint 16 4 d) \<and>
      evPID (aeSource e) = read_uint 0 4 d \<and> evPID (aeSource e) < 2 ^ 32 \<and>
      aeTimestamp e = unix_epoch + wrap64 (read_uint 8 8 d) \<and>
      0 \<le> evUID (aeSource e) \<and> evUID (aeSource e) < 2 ^ 32 \<and>
      0 \<le> edSrcPort (aeData e) \<and> edSrcPort (aeData e) < 2 ^ 16 \<and> 0 \<le> edDstPort (aeData e) \<and> edDstPort (aeData e) < 2 ^ 16 \<and>
      length (edFilePath (aeData e)) < 256 \<and> CHR 0x00 \<notin> set (edFilePath (aeData e)) \<and>
      (aeType e = EventTypeNetworkAllowed \<longrightarrow>
         (\<exists>p q. octets p \<and> ParseIP (edSrcAddr (aeData e)) = Some (v4_prefix @ p) \<and>
                octets q \<and> ParseIP (edDstAddr (aeData e)) = Some (v4_prefix @ q))))"
proof (intro conjI allI impI)
  show "(\<exists>e. ParseEvent d = Inr e) \<longleftrightarrow> (\<exists>n. record_size (read_uint 16 4 d) = Some n \<and> n \<le> length d)"
    by (auto simp: ParseEvent_def parseModelAccessEvent_def parseNetworkEvent_def parseModelLoadEvent_def
        parsePickleEvent_def record_size_def Let_def)
next
  fix e assume e: "ParseEvent d = Inr e"
  let ?t = "read_uint 16 4 d"
  note b = read_uint_bound [of 0 4 d] read_uint_bound [of 4 4 d] read_uint_bound [of 28 2 d] read_uint_bound [of 30 2 d]
  have s: "length (cGoString (field i 256 d)) < 256" "CHR 0x00 \<notin> set (cGoString (field i 256 d))" for i
    using cGoString_field [of 256 i d] by simp_all
  have ip: "\<exists>q. octets q \<and> ParseIP (uint32ToIP v) = Some (v4_prefix @ q)" for v
    unfolding uint32ToIP_def by (simp add: ParseIP_dotted octets_def)
  show "(aeType e, aeSeverity e) \<in> record_kinds ?t"
    using e by (auto simp: ParseEvent_def parseModelAccessEvent_def parseNetworkEvent_def parseModelLoadEvent_def
        parsePickleEvent_def record_kinds_def Let_def split: if_splits)
  show "evPID (aeSource e) = read_uint 0 4 d" "aeTimestamp e = unix_epoch + wrap64 (read_uint 8 8 d)"
    using e by (auto simp: ParseEvent_def parseModelAccessEvent_def parseNetworkEvent_def parseModelLoadEvent_def
        parsePickleEvent_def no_source_def Let_def split: if_splits)
  then show "evPID (aeSource e) < 2 ^ 32" using b(1) by simp
  show "0 \<le> evUID (aeSource e)" "evUID (aeSource e) < 2 ^ 32"
    using e b(2) by (auto simp: ParseEvent_def parseModelAccessEvent_def parseNetworkEvent_def parseModelLoadEvent_def
        parsePickleEvent_def no_source_def Let_def split: if_splits)
  show "0 \<le> edSrcPort (aeData e)" "edSrcPort (aeData e) < 2 ^ 16" "0 \<le> edDstPort (aeData e)" "edDstPort (aeData e) < 2 ^ 16"
    using e b(3,4) by (auto simp: ParseEvent_def parseModelAccessEvent_def parseNetworkEvent_def parseModelLoadEvent_def
        parsePickleEvent_def no_data_def Let_def split: if_splits)
  show "length (edFilePath (aeData e)) < 256" "CHR 0x00 \<notin> set (edFilePath (aeData e))"
    using e by (auto simp: ParseEvent_def parseModelAccessEvent_def parseNetworkEvent_def parseModelLoadEvent_def
        parsePickleEvent_def no_data_def Let_def s split: if_splits)
  show "\<exists>p q. octets p \<and> ParseIP (edSrcAddr (aeData e)) = Some (v4_prefix @ p) \<and>
          octets q \<and> ParseIP (edDstAddr (aeData e)) = Some (v4_prefix @ q)" if "aeType e = EventTypeNetworkAllowed"
  proof -
    have "parseNetworkEvent d = Inr e"
      using e that by (auto simp: ParseEvent_def parseModelAccessEvent_def parseModelLoadEvent_def
          parsePickleEvent_def Let_def split: if_splits)
    then have "edSrcAddr (aeData e) = uint32ToIP (nat (read_uint 20 4 d))" "edDstAddr (aeData e) = uint32ToIP (nat (read_uint 24 4 d))"
      by (auto simp: parseNetworkEvent_def Let_def split: if_splits)
    then show ?thesis using ip by metis
  qed
qed

theorem ParseEvent_wellformed_witness:
  "evPID (aeSource demo_event) = 4242 \<and> length (edFilePath (aeData demo_event)) < 256 \<and> aeTimestamp demo_event = unix_epoch + 77"
proof -
  have "ParseEvent demo_record = Inr demo_event" "read_uint 0 4 demo_record = 4242" "read_uint 8 8 demo_record = 77" by code_simp+
  with ParseEvent_wellformed [of demo_record] show ?thesis by (simp add: is_int64_def)
qed

subsection \<open>The policy on kernel events\<close>

text \<open>The built-in policy never blocks a file access the kernel reports: no decoded event carries a
  file extension, so the rule for model files, which lists extensions, matches none of them, and only
  dangerous pickle events are blocked. Under any policy a rule for network egress matches every
  reported connection, whatever destinations it lists.\<close>

theorem kernel_events_miss_file_rule:
  assumes "ParseEvent d = Inr e"
  shows "policy_Evaluate DefaultPolicy (reflect_event e) =
      Some (if aeType e = EventTypePickleDangerous then ActionBlock else ActionAllow) \<and>
    (aeType e = EventTypeNetworkAllowed \<longrightarrow> matchNetworkEgress r (reflect_event e))"
proof -
  have x: "edExtension (aeData e) = ''''" by (rule ParseEvent_extension [OF assms])
  have "rcExtensions (prCondition (poRules DefaultPolicy ! 0)) = [''.safetensors'', ''.gguf'', ''.pth'', ''.pt'', ''.pkl'']"
    by (simp add: DefaultPolicy_def)
  then have "policy_Evaluate DefaultPolicy (reflect_event e) =
      Some (if aeType e = EventTypePickleDangerous then ActionBlock else ActionAllow)"
    using x by (simp add: policy_Evaluate_def DefaultPolicy_def policy_Matches_def matchFileAccess_def matchFileAccessStruct_def
        reflect_event_def condition_def matchPickleDangerous_def match_type_def matchNetworkEgress_def Let_def split: bool.split)
  then show ?thesis by (simp add: matchNetworkEgress_def matchNetworkEgressStruct_def reflect_event_def)
qed

theorem kernel_events_miss_file_rule_witness: "policy_Evaluate DefaultPolicy (reflect_event demo_event) = Some ActionAllow"
proof -
  have "ParseEvent demo_record = Inr demo_event" by code_simp
  from kernel_events_miss_file_rule [OF this] show ?thesis by (simp add: demo_event_def)
qed

subsection \<open>Threats\<close>

text \<open>C1: No threat is lost in the agent. Every event of high or critical severity, whatever the
  sampling rate and under every valid policy, is counted as a threat and alerted exactly once, and its entry is appended
  to the audit chain, followed by entries among which is one for every finding the correlation engine raised on it:
  the chain's window holds them sealed after what it held before, up to its capacity, and its total counts
  them. When the durable writes succeed and the chain has a capacity, the log file, if there is one, gets the same sealed entries.\<close>

theorem threat_audited_and_alerted:
  assumes "is_threat e" and "Validate (agPolicy g) = None"
  shows "\<exists>g' rs. handleEvent sh x e g = Some g' \<and> agAlerts g' = agAlerts g @ [e] \<and>
    mcThreatCount (agMetrics g') = mcThreatCount (agMetrics g) + 1 \<and>
    chEntries (agChain g') = keep_last (chMaxEntries (agChain g))
      (chEntries (agChain g) @ sealed (xCodec x) (event_entry x e # rs) (agChain g)) \<and>
    chTotalCount (agChain g') = chTotalCount (agChain g) + 1 + int (length rs) \<and>
    (durable x \<and> 0 < chMaxEntries (agChain g) \<longrightarrow>
       agFileLog g' = map_option (\<lambda>l. l @ sealed (xCodec x) (event_entry x e # rs) (agChain g)) (agFileLog g)) \<and>
    (\<forall>f \<in> set (delivered x e g). \<exists>n. finding_entry x n f \<in> set rs)"
proof -
  define g1 where "g1 = g\<lparr>agMetrics := RecordEvent (xNow x 0) e (agMetrics g)\<rparr>"
  define g2 where "g2 = recordAudit x e g1"
  define g3 where "g3 = correlate_event sh x e g2"
  have h: "handleEvent sh x e g = police_event x e g3"
    using assms(1) by (simp add: handleEvent_def g1_def g2_def g3_def)
  have p3: "agPolicy g3 = agPolicy g" "agAlerts g3 = agAlerts g"
    by (simp_all add: g3_def g2_def g1_def recordAudit_def)
  have t3: "mcThreatCount (agMetrics g3) = mcThreatCount (agMetrics g) + 1"
    using assms(1) by (simp add: g3_def g2_def g1_def recordAudit_def RecordEvent_def)
  have r2: "records x [event_entry x e] g g2"
    unfolding g2_def recordAudit_def by (rule records_start [OF records_publish]) (simp_all add: g1_def)
  have d2: "delivered x e g2 = delivered x e g" by (simp add: delivered_def g2_def g1_def recordAudit_def split: option.splits)
  obtain rs where r3: "records x rs g2 g3" and fs: "\<forall>f \<in> set (delivered x e g). \<exists>n. finding_entry x n f \<in> set rs"
    using correlate_records [of x g2 sh e] unfolding d2 g3_def by blast
  obtain a where "policy_Evaluate (agPolicy g3) (reflect_event e) = Some a" "a \<in> {ActionAllow, ActionBlock, ActionAlert}"
    using Evaluate_valid [OF assms(2)] p3(1) by metis
  then have "police_event x e g3 = Some (sendAlert x e g3)" using assms(1) by (auto simp: police_event_def)
  moreover have "records x (event_entry x e # rs) g (sendAlert x e g3)"
    using records_cong [OF records_trans [OF r2 r3]] by simp
  note records_window [OF this]
  ultimately show ?thesis using h p3 t3 fs by (intro exI [of _ "sendAlert x e g3"] exI [of _ rs]) simp
qed

theorem threat_audited_and_alerted_witness:
  "\<exists>g' rs. handleEvent (\<lambda>_. ([], [])) demo_env demo_event demo_agent = Some g' \<and> agAlerts g' = [demo_event] \<and>
     chTotalCount (agChain g') = 1 + int (length rs) \<and>
     agFileLog g' = Some (sealed unit_codec (event_entry demo_env demo_event # rs) (agChain demo_agent))"
proof -
  have t: "is_threat demo_event" "Validate (agPolicy demo_agent) = None" by code_simp+
  have c: "agAlerts demo_agent = []" "chTotalCount (agChain demo_agent) = 0" "durable demo_env"
    "0 < chMaxEntries (agChain demo_agent)" "agFileLog demo_agent = Some []" "xCodec demo_env = unit_codec"
    by (simp_all add: demo_agent_def NewChain_def durable_def demo_env_def)
  obtain g' and rs :: "details entry list" where
    "handleEvent (\<lambda>_. ([], [])) demo_env demo_event demo_agent = Some g'" "agAlerts g' = agAlerts demo_agent @ [demo_event]"
    "chTotalCount (agChain g') = chTotalCount (agChain demo_agent) + 1 + int (length rs)"
    "agFileLog g' = map_option (\<lambda>l. l @ sealed (xCodec demo_env) (event_entry demo_env demo_event # rs) (agChain demo_agent))
       (agFileLog demo_agent)"
    using threat_audited_and_alerted [OF t, of "\<lambda>_. ([], [])" demo_env] c(3,4) by blast
  then show ?thesis unfolding c by (intro exI [of _ g'] exI [of _ rs]) simp
qed

subsection \<open>The automated response\<close>

text \<open>When the breaker trips for a finding: it is armed, the finding names a process and reaches the
  minimum severity, and the action chosen for the rule is not cooling down for that process.\<close>

definition breaker_trips :: "time \<Rightarrow> finding \<Rightarrow> breaker \<Rightarrow> bool" where
  "breaker_trips now f b \<longleftrightarrow>
     bpEnabled (bPolicy b) \<and> 0 < fPID f \<and>
     mget 0 severityRank (bpMinSeverity (bPolicy b)) \<le> mget 0 severityRank (fSeverity f) \<and>
     (\<forall>t. map_of (bLastTrip b) (trip_key (fPID f) (breaker_action (bPolicy b) (fRuleID f))) = Some t \<longrightarrow>
        bpCooldownSecs (bPolicy b) \<le> seconds (time_sub now t))"

lemma breaker_Evaluate_trips:
  assumes "breaker_Evaluate now (fSeverity f) (fRuleID f) (fPID f) b = (b', d)"
  shows "bdTrip d \<longleftrightarrow> breaker_trips now f b"
    and "bdTrip d \<Longrightarrow> bdAction d = breaker_action (bPolicy b) (fRuleID f) \<and> bdParams d = [(''pid'', itoa (fPID f))]"
  using assms unfolding breaker_Evaluate_def breaker_trips_def refuse_def Let_def
  by (auto split: if_splits option.splits)

text \<open>The breaker passes its actions nothing but a process number, so only the two that need no more can succeed.\<close>

lemma breaker_response:
  assumes "0 < pid" "is_int64 pid"
  shows "fst (executeResponse act [(''pid'', itoa pid)] m) =
    (if act = ''untrust_pid'' then fst (RemoveTrustedPID (uint32 pid) m)
     else if act = ''trust_pid'' then fst (AddTrustedPID (uint32 pid) m) else m)"
proof -
  have p: "Atoi (mget '''' [(''pid'', itoa pid)] ''pid'') = Some pid"
    using Atoi_itoa [OF assms(2)] assms(1) by (simp add: mget_def)
  have e: "mget '''' [(''pid'', itoa pid)] ''extension'' = ''''" "mget '''' [(''pid'', itoa pid)] ''dst'' = ''''"
    by (simp_all add: mget_def)
  have i: "ParseIP (trim_space '''') = None" by code_simp
  have k: "fst (kernel_result r y) = fst y" for r y by (simp add: kernel_result_def split: prod.splits option.splits)
  show ?thesis unfolding executeResponse_def p e i Let_def using assms(1) by (simp add: k)
qed

text \<open>C9: From detection to enforcement. What the handling of a finding does to the kernel, for every state of the
  breaker: when the breaker trips (it is armed, the finding names a process and reaches the minimum severity,
  and the action is not cooling down for the process) and the action chosen for the rule is \<^verbatim>\<open>untrust_pid\<close>, the process
  number, truncated to 32 bits, is taken off the trusted list and nothing else leaves it; when the action is \<^verbatim>\<open>trust_pid\<close> the process is added;
  in every other case, a breaker that does not trip or any other configured action, the kernel maps are unchanged.\<close>

theorem finding_untrusts_process:
  assumes "is_int64 (fPID f)"
    and "act = breaker_action (bPolicy (agBreaker g)) (fRuleID f)"
    and "k' = agKernel (handleCorrelationFinding sh x n f g)"
  shows "(breaker_trips (xNow x (n + 2)) f (agBreaker g) \<and> act = ''untrust_pid'' \<longrightarrow>
      trusted k' = trusted (agKernel g) - {uint32 (fPID f)}) \<and>
    (breaker_trips (xNow x (n + 2)) f (agBreaker g) \<and> act = ''trust_pid'' \<longrightarrow>
      k' = fst (AddTrustedPID (uint32 (fPID f)) (agKernel g))) \<and>
    (\<not> breaker_trips (xNow x (n + 2)) f (agBreaker g) \<or> act \<notin> {''untrust_pid'', ''trust_pid''} \<longrightarrow> k' = agKernel g)"
proof -
  let ?g = "before_breaker x n f g"
  obtain b d where e: "breaker_Evaluate (xNow x (n + 2)) (fSeverity f) (fRuleID f) (fPID f) (agBreaker g) = (b, d)" by fastforce
  note t = breaker_Evaluate_trips [OF e]
  have k': "k' = (if bdTrip d then fst (executeResponse (bdAction d) (bdParams d) (agKernel g)) else agKernel g)"
    unfolding assms(3) handleCorrelationFinding_split apply_breaker_def using e by (simp split: prod.splits)
  have "k' = fst (executeResponse act [(''pid'', itoa (fPID f))] (agKernel g))" if "bdTrip d"
    using k' t(2) [OF that] that by (simp add: assms(2))
  moreover have "0 < fPID f" if "bdTrip d" using that t(1) by (simp add: breaker_trips_def)
  moreover have "trusted (fst (RemoveTrustedPID (uint32 (fPID f)) (agKernel g))) = trusted (agKernel g) - {uint32 (fPID f)}"
    using RemoveTrustedPID_trusted [of "uint32 (fPID f)" "agKernel g"] by (metis prod.collapse)
  ultimately show ?thesis
    using k' breaker_response [OF _ assms(1), of act "agKernel g"] unfolding t(1) [symmetric]
    by (cases "bdTrip d") simp_all
qed

theorem finding_untrusts_process_witness:
  "4242 \<in> trusted (agKernel demo_agent) \<and>
   4242 \<notin> trusted (agKernel (handleCorrelationFinding (\<lambda>_. ('''', '''')) demo_env 3 demo_finding demo_agent))"
proof -
  have b: "agBreaker demo_agent = armed_breaker" by (simp add: demo_agent_def)
  have "bpEnabled (bPolicy armed_breaker)" "breaker_action (bPolicy armed_breaker) (fRuleID demo_finding) = ''untrust_pid''"
    "mget 0 severityRank (bpMinSeverity (bPolicy armed_breaker)) \<le> mget 0 severityRank (fSeverity demo_finding)"
    "0 < fPID demo_finding" "map_of (bLastTrip armed_breaker) (trip_key (fPID demo_finding) ''untrust_pid'') = None"
    "is_int64 (fPID demo_finding)" by code_simp+
  then have a: "is_int64 (fPID demo_finding)" "breaker_action (bPolicy (agBreaker demo_agent)) (fRuleID demo_finding) = ''untrust_pid''"
    "breaker_trips t demo_finding (agBreaker demo_agent)" for t
    unfolding b breaker_trips_def by simp_all
  have "keys (bmEntries (loTrustedPids (the (bgLSM demo_manager)))) = [4242]" by code_simp
  moreover have "bgLSM demo_manager \<noteq> None" by code_simp
  ultimately have "4242 \<in> trusted (agKernel demo_agent)" by (auto simp: trusted_def demo_agent_def)
  moreover have "uint32 (fPID demo_finding) = 4242" by code_simp
  ultimately show ?thesis
    using finding_untrusts_process [OF a(1) refl refl, where g = demo_agent and sh = "\<lambda>_. ('''', '''')" and x = demo_env and n = 3] a(2,3) by simp
qed

text \<open>Process numbers beyond 32 bits wrap around. The trust action accepts any positive number that
  fits a 64-bit integer and truncates it, so asking to trust process \<open>2 ^ 32 + p\<close> puts process \<open>p\<close> on the
  kernel's trusted list and reports success.\<close>

theorem trust_pid_truncates:
  assumes "0 \<le> p" "p < 2 ^ 32" and "bgLSM m = Some o1" and "length (bmEntries (loTrustedPids o1)) < bmMax (loTrustedPids o1)"
  shows "\<exists>m'. executeResponse ''trust_pid'' [(''pid'', itoa (2 ^ 32 + p))] m = (m', Inr (PidTrusted (2 ^ 32 + p))) \<and>
    uint32 p \<in> trusted m'"
proof -
  have at: "Atoi (mget '''' [(''pid'', itoa (2 ^ 32 + p))] ''pid'') = Some (2 ^ 32 + p)"
    using Atoi_itoa [of "2 ^ 32 + p"] assms(1,2) by (simp add: mget_def is_int64_def)
  have w: "uint32 (2 ^ 32 + p) = uint32 p"
    by (simp add: uint32_def word_of_int_eq_iff take_bit_eq_mod)
  obtain t where t: "bpf_put (uint32 p) 1 (loTrustedPids o1) = Some t" using assms(4) by (auto simp: bpf_put_def)
  let ?m = "m\<lparr>bgLSM := Some (o1\<lparr>loTrustedPids := t\<rparr>)\<rparr>"
  have "AddTrustedPID (uint32 (2 ^ 32 + p)) m = (?m, None)" unfolding w using assms(3) t by (simp add: AddTrustedPID_def)
  then have "executeResponse ''trust_pid'' [(''pid'', itoa (2 ^ 32 + p))] m = (?m, Inr (PidTrusted (2 ^ 32 + p)))"
    using at assms(1) by (simp add: executeResponse_def kernel_result_def)
  moreover have "uint32 p \<in> trusted ?m" using bpf_put_keys [OF t] by (simp add: trusted_def)
  ultimately show ?thesis by blast
qed

theorem trust_pid_truncates_witness:
  "\<exists>m'. executeResponse ''trust_pid'' [(''pid'', itoa (2 ^ 32 + 1))] demo_manager = (m', Inr (PidTrusted (2 ^ 32 + 1))) \<and>
    uint32 1 \<in> trusted m'"
proof -
  have l: "bgLSM demo_manager = Some (the (bgLSM demo_manager))" by code_simp
  have r: "length (bmEntries (loTrustedPids (the (bgLSM demo_manager)))) < bmMax (loTrustedPids (the (bgLSM demo_manager)))"
    by code_simp
  from trust_pid_truncates [OF _ _ l r, of 1] show ?thesis by simp
qed

subsection \<open>Kernel allowlists\<close>

text \<open>Enumeration of an egress block. Adding an IPv4 block of prefix length 24 to 32 to the empty
  allowlist stores exactly the addresses that share the block's leading bits. For lengths 21 to 23 the
  call reports success as well, but the map holds 256 addresses and the rest of the block is missing.\<close>

theorem allowlist_enumeration:
  assumes "octets [a, b, c, d]" and "20 < n" and "n \<le> 32"
  shows "\<exists>x'. addCIDRToAllowlist (dotted a b c d @ ''/'' @ octet n) fresh_xdp = (x', None) \<and>
    (24 \<le> n \<longrightarrow> set (keys (bmEntries (xoAllowedEgressIps x'))) = le32 ` {r. octets r \<and> same_prefix n [a, b, c, d] r}) \<and>
    (n < 24 \<longrightarrow> length (bmEntries (xoAllowedEgressIps x')) = 256 \<and> 256 < card (le32 ` {r. octets r \<and> same_prefix n [a, b, c, d] r}))"
proof -
  define B :: "32 word" where "B = word_of_nat (be_val [a, b, c, d] div 2 ^ (32 - n) * 2 ^ (32 - n))"
  let ?m = "put_hosts B [0..<2 ^ (32 - n)] (bpf_empty 256)"
  have blk: "host_key B ` {0..<2 ^ (32 - n)} = le32 ` {r. octets r \<and> same_prefix n [a, b, c, d] r}"
    unfolding B_def by (rule block_hosts [OF assms(1,3)])
  have e: "bmEntries (bpf_empty 256 :: 32 word bpf_map) = []" "bmMax (bpf_empty 256 :: 32 word bpf_map) = 256" by (simp_all add: bpf_empty_def)
  have le: "(2 :: nat) ^ (32 - n) \<le> 2 ^ 11" using assms(2) by (intro power_increasing) auto
  have inj: "inj_on (host_key B) {0..<2 ^ (32 - n)}"
  proof (rule inj_onI)
    fix i j assume "i \<in> {0..<2 ^ (32 - n)}" "j \<in> {0..<2 ^ (32 - n)}" "host_key B i = host_key B j"
    with host_key_inject [of i j B] le show "i = j" by simp
  qed
  have small: "set (keys (bmEntries ?m)) = le32 ` {r. octets r \<and> same_prefix n [a, b, c, d] r}" if "24 \<le> n"
  proof -
    have "(2 :: nat) ^ (32 - n) \<le> 2 ^ 8" using that by (intro power_increasing) auto
    then show ?thesis
      using put_hosts_fits [of "bpf_empty 256" "[0..<2 ^ (32 - n)]" B] blk e by simp
  qed
  have big: "length (bmEntries ?m) = 256 \<and> 256 < card (le32 ` {r. octets r \<and> same_prefix n [a, b, c, d] r})" if n: "n < 24"
  proof -
    have two: "(2 :: nat) ^ 9 \<le> 2 ^ (32 - n)" using n by (intro power_increasing) auto
    define h where "h = put_hosts B [0..<256] (bpf_empty 256)"
    have h: "set (keys (bmEntries h)) = host_key B ` {0..<256}" "gomap_ok (bmEntries h)" "bmMax h = 256"
      using put_hosts_fits [of "bpf_empty 256" "[0..<256]" B] e by (auto simp: h_def bpf_ok_def)
    have inj2: "inj_on (host_key B) {0..<256}" using inj_on_subset [OF inj, of "{0..<256}"] two by auto
    have len: "length (bmEntries h) = 256"
      using distinct_card [of "keys (bmEntries h)"] h(1,2) card_image [OF inj2] by (simp add: gomap_ok_def)
    have up: "[0..<2 ^ (32 - n)] = [0..<256] @ [256..<2 ^ (32 - n)]"
      using two upt_add_eq_append [of 0 256 "2 ^ (32 - n) - 256"] by simp
    have "host_key B ` {0..<256} \<inter> host_key B ` {256..<2 ^ (32 - n)} = {}"
      using inj_on_image_Int [OF inj, of "{0..<256}" "{256..<2 ^ (32 - n)}"] two by auto
    then have "put_hosts B [256..<2 ^ (32 - n)] h = h"
      using h len by (intro put_hosts_full) auto
    then have "?m = h" unfolding up put_hosts_append by (simp add: h_def)
    moreover have "card (le32 ` {r. octets r \<and> same_prefix n [a, b, c, d] r}) = 2 ^ (32 - n)"
      using card_image [OF inj] by (simp add: blk)
    ultimately show ?thesis using len two by simp
  qed
  show ?thesis
    unfolding addCIDR_enumerates [OF assms, of fresh_xdp] B_def [symmetric] using small big by (simp add: fresh_xdp_def)
qed

theorem allowlist_enumeration_witness:
  "\<exists>x'. addCIDRToAllowlist (dotted 192 168 1 9 @ ''/'' @ octet 22) fresh_xdp = (x', None) \<and>
    length (bmEntries (xoAllowedEgressIps x')) = 256"
proof -
  have "octets [192, 168, 1, 9]" by (simp add: octets_def)
  from allowlist_enumeration [OF this, of 22] show ?thesis by auto
qed

text \<open>Dead processes lose their trust. A prune of the kernel's trusted list removes exactly the
  processes that no longer exist and reports their number.\<close>

theorem prune_exact:
  assumes "PruneDeadTrustedPIDs ord alive m = (m', Inr n)" and "range_order ord" and "bgLSM m = Some o1"
    and "bpf_ok (loTrustedPids o1)"
  shows "trusted m' = {p \<in> trusted m. alive p} \<and> n = card {p \<in> trusted m. \<not> alive p}"
proof -
  let ?ks = "keys (bmEntries (loTrustedPids o1))"
  obtain k where k: "prune_loop alive (ord ?ks) m 0 = (m', k)" "n = k"
    using assms(1,3) by (auto simp: PruneDeadTrustedPIDs_def split: prod.splits)
  have s: "set (ord ?ks) = trusted m" using range_orderD(1) [OF assms(2), of ?ks] assms(3) by (simp add: trusted_def)
  have d: "distinct (filter (\<lambda>p. \<not> alive p) (ord ?ks))"
    using assms(4) range_order_distinct [OF assms(2)] by (simp add: bpf_ok_def gomap_ok_def)
  have "trusted m' = trusted m - {p \<in> trusted m. \<not> alive p} \<and> n = length (filter (\<lambda>p. \<not> alive p) (ord ?ks))"
    using prune_loop_trusted [OF _ k(1)] assms(3) k(2) s by auto
  with distinct_card [OF d] s show ?thesis by auto
qed

theorem prune_exact_witness:
  "trusted (fst (PruneDeadTrustedPIDs id (\<lambda>p. False) demo_manager)) = {}"
proof -
  have l: "bgLSM demo_manager = Some (the (bgLSM demo_manager))" by code_simp
  have r: "snd (PruneDeadTrustedPIDs id (\<lambda>p. False) demo_manager) = Inr 1" by code_simp
  have ok: "bpf_ok (loTrustedPids (the (bgLSM demo_manager)))" by code_simp
  have "PruneDeadTrustedPIDs id (\<lambda>p. False) demo_manager = (fst (PruneDeadTrustedPIDs id (\<lambda>p. False) demo_manager), Inr 1)"
    by (metis prod.collapse r)
  from prune_exact [OF this _ l ok] show ?thesis by (simp add: id_def)
qed

subsection \<open>Reloading\<close>

lemma AddTrustedPID_trusted: "trusted (fst (AddTrustedPID p m)) \<subseteq> insert p (trusted m)"
proof (cases "bgLSM m")
  case (Some o1)
  then show ?thesis
    using bpf_put_keys [of p 1 "loTrustedPids o1"]
    by (cases "bpf_put p 1 (loTrustedPids o1)") (simp_all add: AddTrustedPID_def trusted_def subset_insertI)
qed (simp add: AddTrustedPID_def trusted_def)

lemma put_pids_trusted: "trusted (put_pids ps m) \<subseteq> uint32 ` set ps \<union> trusted m"
proof (induction ps arbitrary: m)
  case (Cons p ps)
  then show ?case using AddTrustedPID_trusted [of "uint32 p" m] by (fastforce simp: put_pids_def)
qed (simp add: put_pids_def)

lemma AddProtectedExtension_trusted: "trusted (fst (AddProtectedExtension e m)) = trusted m"
  by (auto simp: AddProtectedExtension_def trusted_def split: option.splits sum.splits)

lemma put_exts_trusted: "trusted (put_exts es m) = trusted m"
  by (induction es arbitrary: m) (simp_all add: put_exts_def AddProtectedExtension_trusted)

lemma AddAllowedIP_trusted: "trusted (fst (AddAllowedIP c m)) = trusted m"
  by (auto simp: AddAllowedIP_def trusted_def Let_def split: option.splits prod.splits)

lemma put_egress_trusted: "trusted (put_egress cs m) = trusted m"
  by (induction cs arbitrary: m) (simp_all add: put_egress_def AddAllowedIP_trusted)

lemma ClearMaps_trusted: "range_order ordw \<Longrightarrow> trusted (ClearMaps ordw ords m) = {}"
  using clearBPFMap_empty by (auto simp: ClearMaps_def trusted_def split: option.splits)

text \<open>A reload is incomplete. A successful reload of the configuration leaves the policy of the
  controller and of the policy engine as they were, although the new policy was loaded and validated,
  and afterwards only processes listed in the configuration can be trusted by the kernel: the agent's
  own process, trusted at start, no longer is.\<close>

theorem reload_incomplete:
  assumes "reloadConfig ordw ords load ne read parse file g = (g', True)" and "load file = Inr (cfg, path)" and "range_order ordw"
  shows "agPolicy g' = agPolicy g \<and> agEnginePolicy g' = agEnginePolicy g \<and>
    trusted (agKernel g') \<subseteq> uint32 ` set (pcTrustedPIDs cfg)"
proof -
  obtain p where "Load read parse (NewLoader ne path) = Inr p"
    using assms(1,2) by (auto simp: reloadConfig_def split: sum.splits)
  then have g': "g' = g\<lparr>agKernel := put_egress (pcAllowedEgress cfg) (put_pids (pcTrustedPIDs cfg)
      (put_exts (pcProtectedExtensions cfg) (ClearMaps ordw ords (agKernel g)))),
      agMetrics := RecordConfigReload (agMetrics g)\<rparr>"
    using assms(1,2) by (simp add: reloadConfig_def)
  then show ?thesis
    using put_pids_trusted [of "pcTrustedPIDs cfg" "put_exts (pcProtectedExtensions cfg) (ClearMaps ordw ords (agKernel g))"]
    by (simp add: put_egress_trusted put_exts_trusted ClearMaps_trusted [OF assms(3)])
qed

theorem reload_incomplete_witness:
  "4242 \<notin> trusted (agKernel (fst (reloadConfig id id (\<lambda>_. Inr (demo_config, '''')) (\<lambda>_. False) (\<lambda>_. Inl '''') (\<lambda>_. Inl '''') ''c.yaml'' demo_agent)))"
proof -
  let ?r = "reloadConfig id id (\<lambda>_. Inr (demo_config, '''')) (\<lambda>_. False) (\<lambda>_. Inl '''') (\<lambda>_. Inl '''') ''c.yaml'' demo_agent"
  have ok: "?r = (fst ?r, True)"
    by (simp add: reloadConfig_def NewLoader_def Load_def)
  have "uint32 ` set (pcTrustedPIDs demo_config) = {7}" by (simp add: demo_config_def uint32_def)
  moreover have "(4242 :: 32 word) \<noteq> 7" by simp
  ultimately show ?thesis using reload_incomplete [OF ok refl] by (auto simp: id_def)
qed

end
