(* ===== verification/PolicyAdvanced.thy ===== *)
theory PolicyAdvanced
  imports Policy
begin

text \<open>
  The context-aware evaluator, the container identification and the process chain of
  \<^verbatim>\<open>src/pkg/policy/advanced.go\<close>.  \<open>/proc\<close> is a parameter: the contents of the status file of a process.
\<close>

subsection \<open>Evaluation with context\<close>

record event_context =
  ecPID :: int
  ecUID :: int
  ecCGroup :: string
  ecContainerID :: string
  ecComm :: string
  ecCommandLine :: string
  ecExePath :: string
  ecParents :: "int list"
  ecDestinationIP :: string
  ecFilePath :: string

definition adv_matchFileAccess :: "policy_rule \<Rightarrow> event_context \<Rightarrow> bool" where
  "adv_matchFileAccess r ctx \<longleftrightarrow>
     (\<exists>e \<in> set (rcExtensions (prCondition r)). suffix e (ecFilePath ctx)) \<or>
     (\<exists>p \<in> set (rcPaths (prCondition r)). prefix p (ecFilePath ctx))"

definition adv_matchCIDR :: "string \<Rightarrow> string \<Rightarrow> bool" where
  "adv_matchCIDR cidr ip =
     (if cidr = ''0.0.0.0/0'' then True
      else case ParseIP ip of
        None \<Rightarrow> False
      | Some a \<Rightarrow>
          if CHR ''/'' \<notin> set cidr then cidr = ip
          else (case ParseCIDR cidr of None \<Rightarrow> False | Some net \<Rightarrow> Contains net a))"

definition adv_matchNetworkEgress :: "policy_rule \<Rightarrow> event_context \<Rightarrow> bool" where
  "adv_matchNetworkEgress r ctx \<longleftrightarrow> (\<exists>d \<in> set (rcDestinations (prCondition r)). adv_matchCIDR d (ecDestinationIP ctx))"

definition MatchesWithContext :: "policy_rule \<Rightarrow> event_context \<Rightarrow> bool" where
  "MatchesWithContext r ctx =
     (if \<not> prEnabled r then False
      else if rcType (prCondition r) = ''file_access'' then adv_matchFileAccess r ctx
      else if rcType (prCondition r) = ''network_egress'' then adv_matchNetworkEgress r ctx
      else rcType (prCondition r) = ''model_load'')"

definition trustedProcesses :: "string list" where
  "trustedProcesses = [''python'', ''python3'', ''python3.9'', ''python3.10'', ''python3.11'',
     ''triton-server'', ''torchserve'', ''vllmserve'']"

definition IsTrustedProcess :: "event_context \<Rightarrow> bool" where
  "IsTrustedProcess ctx \<longleftrightarrow> (\<exists>t \<in> set trustedProcesses. prefix t (ecComm ctx) \<or> prefix t (ecCommandLine ctx))"

subsection \<open>Container identification\<close>

definition isHexString :: "string \<Rightarrow> bool" where
  "isHexString s \<longleftrightarrow> list_all (\<lambda>c. is_digit c \<or> (97 \<le> code c \<and> code c \<le> 102) \<or> (65 \<le> code c \<and> code c \<le> 70)) s"

definition short_id :: "string \<Rightarrow> string option" where
  "short_id i = (if 12 \<le> length i then Some (take 12 i) else None)"

definition docker_id :: "string \<Rightarrow> string option" where
  "docker_id path =
     (if sublist ''/docker/'' path then
        let parts = Split ''/docker/'' path in
        if 1 < length parts then short_id (hd (Split ''/'' (parts ! 1))) else None
      else None)"

text \<open>The identifier between a marker and the next dot.\<close>

definition marked_id :: "string \<Rightarrow> string \<Rightarrow> string option" where
  "marked_id marker path =
     (case index_of marker path of
        None \<Rightarrow> None
      | Some i \<Rightarrow>
          let rest = drop (i + length marker) path in
          (case index_of ''.'' rest of
             None \<Rightarrow> None
           | Some d \<Rightarrow> if 0 < d then short_id (take d rest) else None))"

definition scope_id :: "string \<Rightarrow> string \<Rightarrow> string option" where
  "scope_id pre part = (if prefix pre part then short_id (TrimSuffix (TrimPrefix part pre) ''.scope'') else None)"

fun kube_id :: "string list \<Rightarrow> string option" where
  "kube_id [] = None"
| "kube_id (part # parts) =
     (case scope_id ''crio-'' part of
        Some i \<Rightarrow> Some i
      | None \<Rightarrow>
     (case scope_id ''cri-containerd-'' part of
        Some i \<Rightarrow> Some i
      | None \<Rightarrow>
        if length part = 64 \<and> isHexString part then Some (take 12 part) else kube_id parts))"

definition ExtractContainerID :: "string \<Rightarrow> string" where
  "ExtractContainerID path =
     (if path = '''' then ''''
      else case docker_id path of Some i \<Rightarrow> i | None \<Rightarrow>
        (case marked_id ''containerd-'' path of Some i \<Rightarrow> i | None \<Rightarrow>
        (case (if sublist ''/kubepods'' path then kube_id (Split ''/'' path) else None) of Some i \<Rightarrow> i | None \<Rightarrow>
        (case marked_id ''libpod-'' path of Some i \<Rightarrow> i | None \<Rightarrow> ''''))))"

subsection \<open>Process chain\<close>

datatype proc_error = NoStatus | BadPPid string | PPidNotFound

fun ppid_line :: "string list \<Rightarrow> proc_error + int" where
  "ppid_line [] = Inl PPidNotFound"
| "ppid_line (l # ls) =
     (if prefix ''PPid:'' l \<and> 2 \<le> length (Fields l)
      then (case Atoi (Fields l ! 1) of None \<Rightarrow> Inl (BadPPid (Fields l ! 1)) | Some p \<Rightarrow> Inr p)
      else ppid_line ls)"

definition getParentPID :: "(int \<Rightarrow> string list option) \<Rightarrow> int \<Rightarrow> proc_error + int" where
  "getParentPID status pid = (case status pid of None \<Rightarrow> Inl NoStatus | Some ls \<Rightarrow> ppid_line ls)"

primrec chain_loop :: "nat \<Rightarrow> (int \<Rightarrow> string list option) \<Rightarrow> int \<Rightarrow> int list" where
  "chain_loop 0 status pid = []"
| "chain_loop (Suc n) status pid =
     (if pid \<le> 0 then []
      else pid #
        (if pid = 1 then []
         else case getParentPID status pid of
           Inl e \<Rightarrow> []
         | Inr ppid \<Rightarrow> if ppid \<le> 0 then [] else chain_loop n status ppid))"

definition GetProcessChain :: "(int \<Rightarrow> string list option) \<Rightarrow> int \<Rightarrow> int list" where
  "GetProcessChain status pid = chain_loop 10 status pid"

subsection \<open>Lemmas\<close>

lemma short_id_length: "short_id i = Some j \<Longrightarrow> length j = 12"
  by (auto simp: short_id_def split: if_splits)

lemma scope_id_length: "scope_id pre part = Some j \<Longrightarrow> length j = 12"
  by (auto simp: scope_id_def short_id_length split: if_splits)

lemma marked_id_length: "marked_id m path = Some j \<Longrightarrow> length j = 12"
  by (auto simp: marked_id_def Let_def short_id_length split: option.splits if_splits)

lemma docker_id_length: "docker_id path = Some j \<Longrightarrow> length j = 12"
  by (auto simp: docker_id_def Let_def short_id_length split: if_splits)

lemma kube_id_length: "kube_id parts = Some j \<Longrightarrow> length j = 12"
  by (induction parts) (auto simp: scope_id_length split: option.splits if_splits)

lemma ExtractContainerID_length: "ExtractContainerID path = '''' \<or> length (ExtractContainerID path) = 12"
proof -
  have k: "length i = 12" if "(if sublist ''/kubepods'' path then kube_id (Split ''/'' path) else None) = Some i" for i
    using that kube_id_length by (auto split: if_splits)
  show ?thesis
    unfolding ExtractContainerID_def
    by (auto simp: docker_id_length marked_id_length k split: option.splits)
qed

lemma chain_loop_length: "length (chain_loop n status pid) \<le> n"
  by (induction n arbitrary: pid) (auto split: sum.splits)

lemma chain_loop_positive: "p \<in> set (chain_loop n status pid) \<Longrightarrow> 0 < p"
  by (induction n arbitrary: pid) (auto split: sum.splits if_splits)

lemma chain_loop_parents:
  "Suc i < length (chain_loop n status pid) \<Longrightarrow>
     getParentPID status (chain_loop n status pid ! i) = Inr (chain_loop n status pid ! Suc i)"
proof (induction n arbitrary: pid i)
  case (Suc n)
  let ?rest = "case getParentPID status pid of Inl e \<Rightarrow> [] | Inr ppid \<Rightarrow> if ppid \<le> 0 then [] else chain_loop n status ppid"
  have c: "chain_loop (Suc n) status pid = pid # ?rest" "?rest \<noteq> []"
    using Suc.prems by (auto split: if_splits)
  then obtain ppid where p: "getParentPID status pid = Inr ppid" "?rest = chain_loop n status ppid"
    by (cases "getParentPID status pid") (auto split: if_splits)
  have h: "hd (chain_loop n status ppid) = ppid" using c p by (cases n) (auto split: if_splits)
  show ?case
  proof (cases i)
    case 0
    then show ?thesis using c p h by (simp add: hd_conv_nth)
  next
    case (Suc j)
    then show ?thesis using Suc.IH [of j ppid] Suc.prems c p by simp
  qed
qed simp

text \<open>The whole ancestry of a process; \<open>None\<close> when the walk never ends, as on a cycle of parents.\<close>

partial_function (option) ancestry :: "(int \<Rightarrow> string list option) \<Rightarrow> int \<Rightarrow> int list option" where
  "ancestry status pid =
     (if pid \<le> 0 then Some []
      else if pid = 1 then Some [1]
      else case getParentPID status pid of
        Inl e \<Rightarrow> Some [pid]
      | Inr ppid \<Rightarrow> if ppid \<le> 0 then Some [pid] else Option.bind (ancestry status ppid) (\<lambda>ps. Some (pid # ps)))"

lemma ancestry_Some: "ancestry status pid = Some ps \<Longrightarrow> chain_loop n status pid = take n ps"
proof (induction n arbitrary: pid ps)
  case (Suc n)
  show ?case
  proof (cases "0 < pid \<and> pid \<noteq> 1 \<and> (\<exists>ppid. getParentPID status pid = Inr ppid \<and> 0 < ppid)")
    case True
    then obtain ppid where p: "getParentPID status pid = Inr ppid" "0 < ppid" by blast
    with True Suc.prems obtain qs where q: "ancestry status ppid = Some qs" "ps = pid # qs"
      by (subst (asm) ancestry.simps) (auto simp: bind_eq_Some_conv)
    with True p Suc.IH [OF q(1)] show ?thesis by simp
  next
    case False
    with Suc.prems show ?thesis by (subst (asm) ancestry.simps) (auto split: if_splits sum.splits)
  qed
qed simp

lemma ancestry_None: "ancestry status pid = None \<Longrightarrow> length (chain_loop n status pid) = n"
proof (induction n arbitrary: pid)
  case (Suc n)
  have "0 < pid \<and> pid \<noteq> 1 \<and> (\<exists>ppid. getParentPID status pid = Inr ppid \<and> 0 < ppid \<and> ancestry status ppid = None)"
    using Suc.prems by (subst (asm) ancestry.simps) (auto simp: bind_eq_None_conv split: if_splits sum.splits)
  with Suc.IH show ?case by auto
qed simp

lemma ancestry_diverges: "ancestry status pid = None \<longleftrightarrow> (\<forall>n. length (chain_loop n status pid) = n)"
proof
  assume all: "\<forall>n. length (chain_loop n status pid) = n"
  show "ancestry status pid = None"
  proof (cases "ancestry status pid")
    case (Some ps)
    from ancestry_Some [OF Some, of "Suc (length ps)"] all [rule_format, of "Suc (length ps)"] show ?thesis by simp
  qed
qed (simp add: ancestry_None)

text \<open>C35: The walk up the process tree ends. Whatever the process files say, the chain of a process is found in
  at most ten steps: it is the first ten members of the ancestry where the ancestry is finite, and ten
  members where parents form a cycle and the unbounded walk would never return (it fails to return
  exactly when it can be followed for any number of steps).\<close>

theorem process_chain_ends:
  "(case ancestry status pid of Some ps \<Rightarrow> GetProcessChain status pid = take 10 ps | None \<Rightarrow> length (GetProcessChain status pid) = 10) \<and>
   (ancestry status pid = None \<longleftrightarrow> (\<forall>n. length (chain_loop n status pid) = n))"
  using ancestry_Some [of status pid _ 10] ancestry_None [of status pid 10] ancestry_diverges
  by (auto simp: GetProcessChain_def split: option.split)

end
