(* ===== verification/MCP.thy ===== *)
theory MCP
  imports Agent
begin

text \<open>
  The MCP interceptor (\<^verbatim>\<open>src/pkg/mcp/protocol.go\<close>): JSON-RPC messages, extraction of tool calls, the
  tool and argument policy, the interceptor with its counters and bounded event history, and
  \<^verbatim>\<open>Controller.IngestSignal\<close>, which feeds a signal to the correlation engine and to the interceptor.
  The JSON decoder, the regular-expression compiler and the \<^verbatim>\<open>%v\<close> rendering of an argument are
  parameters; raw JSON is a string.
\<close>

subsection \<open>Messages and tool calls\<close>

record 'i message =
  msJSONRPC :: string
  msID :: "'i option"
  msMethod :: string
  msParams :: string
  msResult :: string
  msError :: string

definition IsRequest :: "'i message \<Rightarrow> bool" where
  "IsRequest m \<longleftrightarrow> msID m \<noteq> None \<and> msMethod m \<noteq> ''''"

definition IsNotification :: "'i message \<Rightarrow> bool" where
  "IsNotification m \<longleftrightarrow> msID m = None \<and> msMethod m \<noteq> ''''"

definition IsResponse :: "'i message \<Rightarrow> bool" where
  "IsResponse m \<longleftrightarrow> msID m \<noteq> None \<and> msMethod m = ''''"

record ('i, 'v) tool_call =
  tlName :: string
  tlArguments :: "(string, 'v) gomap"
  tlSessionID :: string
  tlRequestID :: "'i option"

record 'v tool_event =
  teTimestamp :: time
  teToolName :: string
  teArguments :: "(string, 'v) gomap"
  teAction :: string
  teReason :: string
  teSessionID :: string

datatype mcp_error = NotToolCall string | BadParams | BadPattern string

definition ExtractToolCall ::
  "(string \<Rightarrow> (string \<times> (string, 'v) gomap) option) \<Rightarrow> 'i message \<Rightarrow> mcp_error + ('i, 'v) tool_call" where
  "ExtractToolCall decode msg =
     (if msMethod msg \<noteq> ''tools/call'' then Inl (NotToolCall (msMethod msg))
      else case decode (msParams msg) of
        None \<Rightarrow> Inl BadParams
      | Some (nm, args) \<Rightarrow>
          Inr \<lparr>tlName = nm, tlArguments = args, tlSessionID = '''', tlRequestID = msID msg\<rparr>)"

definition ToEvent :: "time \<Rightarrow> string \<Rightarrow> string \<Rightarrow> ('i, 'v) tool_call \<Rightarrow> 'v tool_event" where
  "ToEvent now act why tc =
     \<lparr>teTimestamp = now, teToolName = tlName tc, teArguments = tlArguments tc, teAction = act, teReason = why,
      teSessionID = tlSessionID tc\<rparr>"

subsection \<open>The policy\<close>

record argument_rule =
  arToolName :: string
  arArgName :: string
  arPattern :: "string \<Rightarrow> bool"
  arAction :: string
  arReason :: string

record mcp_policy =
  mpAllowedTools :: "(string, bool) gomap"
  mpBlockedTools :: "(string, bool) gomap"
  mpArgRules :: "argument_rule list"

definition NewPolicy :: mcp_policy where
  "NewPolicy = \<lparr>mpAllowedTools = [], mpBlockedTools = [], mpArgRules = []\<rparr>"

definition tool_set :: "string list \<Rightarrow> (string, bool) gomap" where
  "tool_set tools = fold (\<lambda>t m. mput t True m) tools []"

definition SetAllowedTools :: "string list \<Rightarrow> mcp_policy \<Rightarrow> mcp_policy" where
  "SetAllowedTools tools p = p\<lparr>mpAllowedTools := tool_set tools\<rparr>"

definition SetBlockedTools :: "string list \<Rightarrow> mcp_policy \<Rightarrow> mcp_policy" where
  "SetBlockedTools tools p = p\<lparr>mpBlockedTools := tool_set tools\<rparr>"

definition AddArgumentRule ::
  "(string \<Rightarrow> (string \<Rightarrow> bool) option) \<Rightarrow> string \<Rightarrow> string \<Rightarrow> string \<Rightarrow> string \<Rightarrow> mcp_policy \<Rightarrow> mcp_error + mcp_policy" where
  "AddArgumentRule regex tool arg pattern why p =
     (case regex pattern of
        None \<Rightarrow> Inl (BadPattern pattern)
      | Some re \<Rightarrow>
          Inr (p\<lparr>mpArgRules := mpArgRules p @
                  [\<lparr>arToolName = tool, arArgName = arg, arPattern = re, arAction = ''block'', arReason = why\<rparr>]\<rparr>))"

definition IsAllowed :: "mcp_policy \<Rightarrow> string \<Rightarrow> bool" where
  "IsAllowed p tool =
     (if 0 < length (mpAllowedTools p) then mget False (mpAllowedTools p) tool
      else if 0 < length (mpBlockedTools p) then \<not> mget False (mpBlockedTools p) tool
      else True)"

definition rule_hits :: "('v \<Rightarrow> string) \<Rightarrow> ('i, 'v) tool_call \<Rightarrow> argument_rule \<Rightarrow> bool" where
  "rule_hits sprint tc r \<longleftrightarrow>
     (arToolName r = '''' \<or> arToolName r = tlName tc) \<and>
     (case map_of (tlArguments tc) (arArgName r) of None \<Rightarrow> False | Some v \<Rightarrow> arPattern r (sprint v))"

fun check_rules :: "('v \<Rightarrow> string) \<Rightarrow> ('i, 'v) tool_call \<Rightarrow> argument_rule list \<Rightarrow> bool \<times> string" where
  "check_rules sprint tc [] = (True, '''')"
| "check_rules sprint tc (r # rs) = (if rule_hits sprint tc r then (False, arReason r) else check_rules sprint tc rs)"

definition CheckArguments :: "('v \<Rightarrow> string) \<Rightarrow> mcp_policy \<Rightarrow> ('i, 'v) tool_call \<Rightarrow> bool \<times> string" where
  "CheckArguments sprint p tc = check_rules sprint tc (mpArgRules p)"

subsection \<open>The interceptor\<close>

record eval_result =
  erAction :: string
  erReason :: string

record interceptor_stats =
  isTotalCalls :: int
  isAllowed :: int
  isBlocked :: int
  isPerTool :: "(string, int) gomap"

record 'v interceptor =
  icPolicy :: mcp_policy
  icEvents :: "'v tool_event list"
  icStats :: interceptor_stats

abbreviation (input) maxEventHistory :: nat where "maxEventHistory \<equiv> 5000"

definition NewInterceptor :: "mcp_policy \<Rightarrow> 'v interceptor" where
  "NewInterceptor p = \<lparr>icPolicy = p, icEvents = [], icStats = \<lparr>isTotalCalls = 0, isAllowed = 0, isBlocked = 0, isPerTool = []\<rparr>\<rparr>"

definition record_event :: "'v tool_event \<Rightarrow> 'v interceptor \<Rightarrow> 'v interceptor" where
  "record_event e i = i\<lparr>icEvents := keep_last maxEventHistory (icEvents i @ [e])\<rparr>"

definition mcp_decide :: "('v \<Rightarrow> string) \<Rightarrow> mcp_policy \<Rightarrow> ('i, 'v) tool_call \<Rightarrow> eval_result" where
  "mcp_decide sprint p tc =
     (if \<not> IsAllowed p (tlName tc) then \<lparr>erAction = ''blocked'', erReason = ''tool not in allowlist''\<rparr>
      else case CheckArguments sprint p tc of
        (False, why) \<Rightarrow> \<lparr>erAction = ''blocked'', erReason = why\<rparr>
      | (True, _) \<Rightarrow> \<lparr>erAction = ''allowed'', erReason = ''''\<rparr>)"

definition count_call :: "string \<Rightarrow> string \<Rightarrow> interceptor_stats \<Rightarrow> interceptor_stats" where
  "count_call tool act s =
     s\<lparr>isTotalCalls := isTotalCalls s + 1, isPerTool := mput tool (mget 0 (isPerTool s) tool + 1) (isPerTool s),
       isBlocked := (if act = ''blocked'' then isBlocked s + 1 else isBlocked s),
       isAllowed := (if act = ''blocked'' then isAllowed s else isAllowed s + 1)\<rparr>"

definition mcp_Evaluate ::
  "('v \<Rightarrow> string) \<Rightarrow> time \<Rightarrow> ('i, 'v) tool_call \<Rightarrow> 'v interceptor \<Rightarrow> 'v interceptor \<times> eval_result" where
  "mcp_Evaluate sprint now tc i =
     (let res = mcp_decide sprint (icPolicy i) tc;
          i1 = i\<lparr>icStats := count_call (tlName tc) (erAction res) (icStats i)\<rparr>
      in (record_event (ToEvent now (erAction res) (erReason res) tc) i1, res))"

definition RecentEvents :: "int \<Rightarrow> 'v interceptor \<Rightarrow> 'v tool_event list" where
  "RecentEvents limit i =
     (let n = (if limit \<le> 0 \<or> int (length (icEvents i)) < limit then length (icEvents i) else nat limit)
      in drop (length (icEvents i) - n) (icEvents i))"

subsection \<open>Signals from every layer\<close>

definition signal_call :: "signal \<Rightarrow> (unit, string) tool_call" where
  "signal_call s =
     (let nm = mget '''' (sAttributes s) ''tool'' in
      \<lparr>tlName = (if nm = '''' then ''tool_call'' else nm), tlArguments = sAttributes s, tlSessionID = '''', tlRequestID = None\<rparr>)"

definition IngestSignal ::
  "(response_error + response_result \<Rightarrow> string \<times> string) \<Rightarrow> 's agent_env \<Rightarrow> signal \<Rightarrow>
     's agent \<times> string interceptor \<Rightarrow> 's agent \<times> string interceptor" where
  "IngestSignal shown x s st =
     (case st of (g, i) \<Rightarrow>
        (ingest_signal shown x s g,
         if sLayer s = LayerMCP \<and> sKind s = ''tool_call'' then fst (mcp_Evaluate (\<lambda>v. v) (xNow x 2) (signal_call s) i) else i))"

subsection \<open>Correctness\<close>

interpretation mcp_ring: bounded_history record_event icEvents "\<lambda>i. maxEventHistory"
  by unfold_locales (simp_all add: record_event_def)

definition eval_calls :: "('v \<Rightarrow> string) \<Rightarrow> (time \<times> ('i, 'v) tool_call) list \<Rightarrow> 'v interceptor \<Rightarrow> 'v interceptor" where
  "eval_calls sprint calls i = fold (\<lambda>(now, tc) i. fst (mcp_Evaluate sprint now tc i)) calls i"

definition call_event :: "('v \<Rightarrow> string) \<Rightarrow> mcp_policy \<Rightarrow> time \<times> ('i, 'v) tool_call \<Rightarrow> 'v tool_event" where
  "call_event sprint p c =
     (let res = mcp_decide sprint p (snd c) in ToEvent (fst c) (erAction res) (erReason res) (snd c))"

lemma tool_set_keys: "map_of (tool_set ts) = (\<lambda>t. if t \<in> set ts then Some True else None)"
proof -
  have "map_of (fold (\<lambda>t m. mput t True m) ts m) t = (if t \<in> set ts then Some True else map_of m t)"
    for t and m :: "(string, bool) gomap"
    by (induction ts arbitrary: m) auto
  then show ?thesis by (auto simp: tool_set_def)
qed

lemma tool_set_empty: "tool_set ts = [] \<longleftrightarrow> ts = []"
proof
  assume "tool_set ts = []"
  then have "\<And>t. (if t \<in> set ts then Some True else None) = None" using tool_set_keys [of ts] by (simp add: fun_eq_iff)
  then have "\<And>t. t \<notin> set ts" by (metis option.distinct(1))
  then show "ts = []" by (cases ts) auto
qed (simp add: tool_set_def)

lemma mget_tool_set [simp]: "mget False (tool_set ts) t \<longleftrightarrow> t \<in> set ts"
  by (simp add: mget_def tool_set_keys)

lemma check_rules_ok: "fst (check_rules sprint tc rs) \<longleftrightarrow> (\<forall>r \<in> set rs. \<not> rule_hits sprint tc r)"
  by (induction rs) auto

lemma decide_action:
  "erAction (mcp_decide sprint p tc) =
     (if IsAllowed p (tlName tc) \<and> (\<forall>r \<in> set (mpArgRules p). \<not> rule_hits sprint tc r) then ''allowed'' else ''blocked'')"
  using check_rules_ok [of sprint tc "mpArgRules p"]
  by (auto simp: mcp_decide_def CheckArguments_def split: prod.split bool.split)

lemma Evaluate_parts [simp]:
  "icPolicy (fst (mcp_Evaluate sprint now tc i)) = icPolicy i"
  "icStats (fst (mcp_Evaluate sprint now tc i)) = count_call (tlName tc) (erAction (mcp_decide sprint (icPolicy i) tc)) (icStats i)"
  "icEvents (fst (mcp_Evaluate sprint now tc i)) = keep_last maxEventHistory (icEvents i @ [call_event sprint (icPolicy i) (now, tc)])"
  by (simp_all add: mcp_Evaluate_def record_event_def call_event_def Let_def)

lemma eval_calls_Cons:
  "eval_calls sprint (c # cs) i = eval_calls sprint cs (fst (mcp_Evaluate sprint (fst c) (snd c) i))"
  by (cases c) (simp add: eval_calls_def)

lemma eval_calls_policy: "icPolicy (eval_calls sprint cs i) = icPolicy i"
  by (induction cs arbitrary: i) (simp_all add: eval_calls_Cons, simp add: eval_calls_def)

lemma eval_calls_events:
  "icEvents (eval_calls sprint cs i) = icEvents (fold record_event (map (call_event sprint (icPolicy i)) cs) i)"
proof (induction cs arbitrary: i)
  case (Cons c cs)
  have same: "icEvents (fold record_event es i) = icEvents (fold record_event es j)" if "icEvents i = icEvents j" for es and i j :: "'v interceptor"
    using that by (induction es arbitrary: i j) (simp_all add: record_event_def)
  let ?i = "fst (mcp_Evaluate sprint (fst c) (snd c) i)"
  have "icEvents ?i = icEvents (record_event (call_event sprint (icPolicy i) c) i)" by (simp add: record_event_def)
  from same [OF this] Cons.IH [of ?i] show ?case by (simp add: eval_calls_Cons)
qed (simp add: eval_calls_def)

lemma eval_calls_stats:
  fixes sprint :: "'v \<Rightarrow> string" and cs :: "(time \<times> ('i, 'v) tool_call) list"
  defines "blocked p c \<equiv> erAction (mcp_decide sprint p (snd c)) = ''blocked''"
  shows "isTotalCalls (icStats (eval_calls sprint cs i)) = isTotalCalls (icStats i) + int (length cs) \<and>
    isBlocked (icStats (eval_calls sprint cs i)) = isBlocked (icStats i) + int (length (filter (blocked (icPolicy i)) cs)) \<and>
    isAllowed (icStats (eval_calls sprint cs i)) =
      isAllowed (icStats i) + int (length (filter (\<lambda>c. \<not> blocked (icPolicy i) c) cs)) \<and>
    mget 0 (isPerTool (icStats (eval_calls sprint cs i))) t =
      mget 0 (isPerTool (icStats i)) t + int (length (filter (\<lambda>c. tlName (snd c) = t) cs))"
proof (induction cs arbitrary: i)
  case (Cons c cs)
  show ?case
    using Cons.IH [of "fst (mcp_Evaluate sprint (fst c) (snd c) i)"]
    by (simp add: eval_calls_Cons count_call_def blocked_def)
qed (simp add: eval_calls_def)

text \<open>The policy a configuration builds, and what it permits.\<close>

definition tool_policy :: "string list \<Rightarrow> string list \<Rightarrow> argument_rule list \<Rightarrow> mcp_policy" where
  "tool_policy al bl rs = (SetBlockedTools bl (SetAllowedTools al NewPolicy))\<lparr>mpArgRules := rs\<rparr>"

definition call_ok :: "('v \<Rightarrow> string) \<Rightarrow> string list \<Rightarrow> string list \<Rightarrow> argument_rule list \<Rightarrow> ('i, 'v) tool_call \<Rightarrow> bool" where
  "call_ok sprint al bl rs tc \<longleftrightarrow>
     (if al \<noteq> [] then tlName tc \<in> set al else tlName tc \<notin> set bl) \<and> \<not> (\<exists>r \<in> set rs. rule_hits sprint tc r)"

lemma decide_call_ok:
  "erAction (mcp_decide sprint (tool_policy al bl rs) tc) = (if call_ok sprint al bl rs tc then ''allowed'' else ''blocked'')"
proof -
  have "IsAllowed (tool_policy al bl rs) t \<longleftrightarrow> (if al \<noteq> [] then t \<in> set al else t \<notin> set bl)" for t
    by (auto simp: IsAllowed_def tool_policy_def SetAllowedTools_def SetBlockedTools_def NewPolicy_def tool_set_empty)
  then show ?thesis unfolding decide_action call_ok_def by (auto simp: tool_policy_def)
qed

lemma mget_Nil: "mget z [] k = z"
  by (simp add: mget_def)

lemma map_keep_last: "map f (keep_last n xs) = keep_last n (map f xs)"
  by (simp add: keep_last_def drop_map)

definition demo_rule :: argument_rule where
  "demo_rule = \<lparr>arToolName = '''', arArgName = ''path'', arPattern = sublist ''/etc/'', arAction = ''block'', arReason = ''secrets''\<rparr>"

definition demo_calls :: "(time \<times> (unit, string) tool_call) list" where
  "demo_calls =
     [(1, \<lparr>tlName = ''read'', tlArguments = [(''path'', ''/tmp/x'')], tlSessionID = '''', tlRequestID = None\<rparr>),
      (2, \<lparr>tlName = ''read'', tlArguments = [(''path'', ''/etc/shadow'')], tlSessionID = '''', tlRequestID = None\<rparr>),
      (3, \<lparr>tlName = ''exec'', tlArguments = [], tlSessionID = '''', tlRequestID = None\<rparr>)]"

text \<open>C12: Tool calls are decided and accounted exactly. Under a policy with allowed tools, blocked tools
  and argument rules, the interceptor allows a call just when no rule hits its arguments and the tool is
  listed as allowed (the block list counts only while the allow list is empty); after any sequence of
  calls the counters are the numbers of calls, of allowed and of blocked ones, in total and per tool, and
  the history holds the newest 5000 decisions in order.\<close>

theorem interceptor_exact:
  fixes sprint :: "'v \<Rightarrow> string" and calls :: "(time \<times> ('i, 'v) tool_call) list"
  defines "s al bl rs \<equiv> eval_calls sprint calls (NewInterceptor (tool_policy al bl rs))"
  shows "isTotalCalls (icStats (s al bl rs)) = int (length calls) \<and>
    isAllowed (icStats (s al bl rs)) = int (length (filter (\<lambda>c. call_ok sprint al bl rs (snd c)) calls)) \<and>
    isBlocked (icStats (s al bl rs)) = int (length (filter (\<lambda>c. \<not> call_ok sprint al bl rs (snd c)) calls)) \<and>
    mget 0 (isPerTool (icStats (s al bl rs))) t = int (length (filter (\<lambda>c. tlName (snd c) = t) calls)) \<and>
    map (\<lambda>e. (teTimestamp e, teToolName e, teAction e)) (icEvents (s al bl rs)) =
      keep_last 5000 (map (\<lambda>(now, tc). (now, tlName tc, if call_ok sprint al bl rs tc then ''allowed'' else ''blocked'')) calls)"
proof -
  have "icEvents (s al bl rs) = keep_last maxEventHistory (map (call_event sprint (tool_policy al bl rs)) calls)"
    using mcp_ring.hist_fold [of "NewInterceptor (tool_policy al bl rs)" "map (call_event sprint (tool_policy al bl rs)) calls"]
    by (simp add: s_def eval_calls_events NewInterceptor_def)
  then have "map (\<lambda>e. (teTimestamp e, teToolName e, teAction e)) (icEvents (s al bl rs)) =
      keep_last 5000 (map (\<lambda>(now, tc). (now, tlName tc, if call_ok sprint al bl rs tc then ''allowed'' else ''blocked'')) calls)"
    by (simp add: map_keep_last call_event_def ToEvent_def decide_call_ok Let_def comp_def case_prod_unfold [abs_def])
  then show ?thesis
    using eval_calls_stats [of sprint calls "NewInterceptor (tool_policy al bl rs)" t]
    by (simp add: s_def NewInterceptor_def decide_call_ok mget_Nil)
qed

theorem interceptor_exact_witness:
  "isBlocked (icStats (eval_calls id demo_calls (NewInterceptor (tool_policy [''read''] [] [demo_rule])))) = 2"
proof -
  have "length (filter (\<lambda>c. \<not> call_ok id [''read''] [] [demo_rule] (snd c)) demo_calls) = 2" by code_simp
  with interceptor_exact [of id demo_calls "[''read'']" "[]" "[demo_rule]"] show ?thesis by simp
qed

end
