(* ===== verification/Fleet.thy ===== *)
theory Fleet
  imports Correlator GoStrings
begin

text \<open>
  The fleet control plane: the registry of \<^verbatim>\<open>src/pkg/fleet/registry.go\<close> with enrolment, heartbeats,
  eviction, desired state, staged rollouts and snapshots, and the agent's side of convergence
  (\<^verbatim>\<open>applyDesired\<close> and the heartbeat tick of \<^verbatim>\<open>src/pkg/agent/controller.go\<close>).  Fresh identifiers, the
  clock, map orders and the JSON codec are parameters; the bucket hash is computed on 32-bit words.
\<close>

subsection \<open>State\<close>

abbreviation (input) StatusHealthy :: string where "StatusHealthy \<equiv> ''healthy''"
abbreviation (input) StatusStale :: string where "StatusStale \<equiv> ''stale''"

record agent_info =
  aiHostname :: string
  aiVersion :: string
  aiKernel :: string
  aiSupport :: string
  aiReady :: bool

record agent_record =
  rcID :: string
  rcInfo :: agent_info
  rcFirstSeen :: time
  rcLastSeen :: time
  rcBeats :: int
  rcStatus :: string

record desired_state =
  dsVersion :: int
  dsLearningMode :: "bool option"
  dsMinSeverity :: string

record rollout =
  roDesired :: desired_state
  roPercent :: int

record registry =
  rgAgents :: "(string, agent_record) gomap"
  rgDesired :: desired_state
  rgPending :: "rollout option"
  rgStaleAfter :: dur
  rgMaxAgents :: nat

definition no_info :: agent_info where
  "no_info = \<lparr>aiHostname = '''', aiVersion = '''', aiKernel = '''', aiSupport = '''', aiReady = False\<rparr>"

definition NewRegistry :: "dur \<Rightarrow> registry" where
  "NewRegistry stale =
     \<lparr>rgAgents = [], rgDesired = \<lparr>dsVersion = 0, dsLearningMode = None, dsMinSeverity = ''''\<rparr>, rgPending = None,
      rgStaleAfter = (if stale \<le> 0 then 90 * second else stale), rgMaxAgents = 100000\<rparr>"

subsection \<open>Rollouts\<close>

definition StartRollout :: "desired_state \<Rightarrow> int \<Rightarrow> registry \<Rightarrow> registry \<times> rollout" where
  "StartRollout d percent r =
     (let p = (if 100 < (if percent < 0 then 0 else percent) then 100 else if percent < 0 then 0 else percent);
          ro = \<lparr>roDesired = d\<lparr>dsVersion := dsVersion (rgDesired r) + 1\<rparr>, roPercent = p\<rparr>
      in (r\<lparr>rgPending := Some ro\<rparr>, ro))"

definition PromoteRollout :: "int \<Rightarrow> registry \<Rightarrow> registry \<times> rollout option" where
  "PromoteRollout percent r =
     (case rgPending r of
        None \<Rightarrow> (r, None)
      | Some ro \<Rightarrow>
          let p1 = (if 100 < percent then 100 else percent);
              p = (if p1 \<le> roPercent ro then 100 else p1)
          in if 100 \<le> p then (r\<lparr>rgDesired := roDesired ro, rgPending := None\<rparr>, Some \<lparr>roDesired = roDesired ro, roPercent = 100\<rparr>)
             else (r\<lparr>rgPending := Some (ro\<lparr>roPercent := p\<rparr>)\<rparr>, Some (ro\<lparr>roPercent := p\<rparr>)))"

definition AbortRollout :: "registry \<Rightarrow> registry \<times> bool" where
  "AbortRollout r = (case rgPending r of None \<Rightarrow> (r, False) | Some _ \<Rightarrow> (r\<lparr>rgPending := None\<rparr>, True))"

fun fnv1a :: "32 word \<Rightarrow> string \<Rightarrow> 32 word" where
  "fnv1a h [] = h"
| "fnv1a h (c # s) = fnv1a (xor h (of_nat (code c)) * 16777619) s"

definition bucket :: "string \<Rightarrow> int" where
  "bucket i = int (unat (fnv1a 2166136261 i) mod 100)"

definition RolloutStatus :: "registry \<Rightarrow> (rollout \<times> nat) option" where
  "RolloutStatus r =
     map_option (\<lambda>ro. (ro, length (filter (\<lambda>i. bucket i < roPercent ro) (keys (rgAgents r))))) (rgPending r)"

definition DesiredForAgent :: "string \<Rightarrow> registry \<Rightarrow> desired_state" where
  "DesiredForAgent i r =
     (case rgPending r of
        None \<Rightarrow> rgDesired r
      | Some ro \<Rightarrow> if bucket i < roPercent ro then roDesired ro else rgDesired r)"

definition SetDesired :: "desired_state \<Rightarrow> registry \<Rightarrow> registry \<times> desired_state" where
  "SetDesired d r = (let d' = d\<lparr>dsVersion := dsVersion (rgDesired r) + 1\<rparr> in (r\<lparr>rgDesired := d'\<rparr>, d'))"

subsection \<open>Snapshots\<close>

record registry_snapshot =
  snAgents :: "agent_record list"
  snDesired :: desired_state
  snPending :: "rollout option"

definition fleet_Snapshot :: "(registry_snapshot \<Rightarrow> string) \<Rightarrow> (agent_record list \<Rightarrow> agent_record list) \<Rightarrow> registry \<Rightarrow> string" where
  "fleet_Snapshot marshal ord r =
     marshal \<lparr>snAgents = ord (map snd (rgAgents r)), snDesired = rgDesired r, snPending = rgPending r\<rparr>"

definition put_record :: "agent_record \<Rightarrow> (string, agent_record) gomap \<Rightarrow> (string, agent_record) gomap" where
  "put_record a m = (if rcID a = '''' then m else mput (rcID a) a m)"

definition fleet_Restore :: "(string \<Rightarrow> registry_snapshot option) \<Rightarrow> string \<Rightarrow> registry \<Rightarrow> registry \<times> bool" where
  "fleet_Restore unmarshal data r =
     (if data = '''' then (r, True)
      else case unmarshal data of
        None \<Rightarrow> (r, False)
      | Some s \<Rightarrow>
          (r\<lparr>rgDesired := snDesired s, rgPending := snPending s, rgAgents := fold put_record (snAgents s) (rgAgents r)\<rparr>, True))"

subsection \<open>Agents\<close>

datatype fleet_error = RegistryFull | NoAgentID

definition new_record :: "string \<Rightarrow> time \<Rightarrow> agent_record" where
  "new_record i now = \<lparr>rcID = i, rcInfo = no_info, rcFirstSeen = now, rcLastSeen = 0, rcBeats = 0, rcStatus = ''''\<rparr>"

definition find_or_add :: "string \<Rightarrow> time \<Rightarrow> registry \<Rightarrow> agent_record option" where
  "find_or_add i now r =
     (case map_of (rgAgents r) i of
        Some a \<Rightarrow> Some a
      | None \<Rightarrow> if rgMaxAgents r \<le> length (rgAgents r) then None else Some (new_record i now))"

definition Enroll :: "string \<Rightarrow> time \<Rightarrow> string \<Rightarrow> agent_info \<Rightarrow> registry \<Rightarrow> registry \<times> (fleet_error + string)" where
  "Enroll fresh now id0 info r =
     (let i = (if id0 = '''' then fresh else id0) in
      case find_or_add i now r of
        None \<Rightarrow> (r, Inl RegistryFull)
      | Some a \<Rightarrow> (r\<lparr>rgAgents := mput i (a\<lparr>rcInfo := info, rcLastSeen := now\<rparr>) (rgAgents r)\<rparr>, Inr i))"

definition Heartbeat :: "time \<Rightarrow> string \<Rightarrow> agent_info \<Rightarrow> registry \<Rightarrow> registry \<times> fleet_error option" where
  "Heartbeat now i info r =
     (if i = '''' then (r, Some NoAgentID)
      else case find_or_add i now r of
        None \<Rightarrow> (r, Some RegistryFull)
      | Some a \<Rightarrow>
          (r\<lparr>rgAgents := mput i (a\<lparr>rcInfo := info, rcLastSeen := now, rcBeats := rcBeats a + 1\<rparr>) (rgAgents r)\<rparr>, None))"

definition EvictStale :: "time \<Rightarrow> dur \<Rightarrow> registry \<Rightarrow> registry \<times> nat" where
  "EvictStale now older r =
     (if older \<le> 0 then (r, 0)
      else
        let keep = filter (\<lambda>(i, a). \<not> rcLastSeen a < now - older) (rgAgents r)
        in (r\<lparr>rgAgents := keep\<rparr>, length (rgAgents r) - length keep))"

definition fleet_Remove :: "string \<Rightarrow> registry \<Rightarrow> registry \<times> bool" where
  "fleet_Remove i r =
     (if map_of (rgAgents r) i = None then (r, False) else (r\<lparr>rgAgents := mdel i (rgAgents r)\<rparr>, True))"

definition statusLocked :: "time \<Rightarrow> registry \<Rightarrow> agent_record \<Rightarrow> string" where
  "statusLocked now r a = (if time_sub now (rcLastSeen a) \<le> rgStaleAfter r then StatusHealthy else StatusStale)"

record fleet_stats =
  fsTotal :: nat
  fsHealthy :: nat
  fsStale :: nat

definition fleet_Stats :: "time \<Rightarrow> registry \<Rightarrow> fleet_stats" where
  "fleet_Stats now r =
     (let healthy = filter (\<lambda>(i, a). statusLocked now r a = StatusHealthy) (rgAgents r) in
      \<lparr>fsTotal = length (rgAgents r), fsHealthy = length healthy, fsStale = length (rgAgents r) - length healthy\<rparr>)"

text \<open>\<open>sorted_by\<close> is \<^verbatim>\<open>sort.Slice\<close> by last heartbeat, newest first, on records in map order.\<close>

definition fleet_List ::
  "(agent_record list \<Rightarrow> agent_record list) \<Rightarrow> (string list \<Rightarrow> string list) \<Rightarrow> time \<Rightarrow> registry \<Rightarrow> agent_record list" where
  "fleet_List sorted_by ord now r =
     sorted_by (map (\<lambda>i. let a = the (map_of (rgAgents r) i) in a\<lparr>rcStatus := statusLocked now r a\<rparr>) (ord (keys (rgAgents r))))"

subsection \<open>Convergence of an agent\<close>

definition applyDesired :: "desired_state \<Rightarrow> correlator \<Rightarrow> correlator" where
  "applyDesired d c =
     (case dsLearningMode d of
        None \<Rightarrow> c
      | Some b \<Rightarrow> if LearningMode c \<noteq> b then SetLearningMode b c else c)"

abbreviation (input) fleetEvictAfter :: dur where "fleetEvictAfter \<equiv> 3600 * second"

definition fleet_tick :: "time \<Rightarrow> string \<Rightarrow> agent_info \<Rightarrow> registry \<times> correlator \<Rightarrow> registry \<times> correlator" where
  "fleet_tick now i info st =
     (case st of (r, c) \<Rightarrow>
        let (r1, c1) = (if i \<noteq> '''' then let r1 = fst (Heartbeat now i info r) in (r1, applyDesired (DesiredForAgent i r1) c) else (r, c))
        in (fst (EvictStale now fleetEvictAfter r1), c1))"

subsection \<open>The registry\<close>

definition registry_ok :: "registry \<Rightarrow> bool" where
  "registry_ok r \<longleftrightarrow> gomap_ok (rgAgents r) \<and> length (rgAgents r) \<le> rgMaxAgents r \<and>
     list_all (\<lambda>(i, a). i \<noteq> '''' \<and> rcID a = i) (rgAgents r)"

lemma list_all_mput: "list_all P m \<Longrightarrow> P (k, v) \<Longrightarrow> list_all P (mput k v m)"
  by (induction m) auto

lemma find_or_add_ok:
  assumes "registry_ok r" and "find_or_add i now r = Some a" and "i \<noteq> ''''" and "rcID a' = rcID a"
  shows "registry_ok (r\<lparr>rgAgents := mput i a' (rgAgents r)\<rparr>)"
proof -
  have "rcID a = i"
    using assms(1,2) by (auto simp: find_or_add_def new_record_def registry_ok_def list_all_iff split: option.splits if_splits
        dest!: map_of_SomeD)
  moreover have "length (mput i a' (rgAgents r)) \<le> rgMaxAgents r"
  proof (cases "i \<in> set (keys (rgAgents r))")
    case False
    then have "map_of (rgAgents r) i = None" unfolding map_of_None_keys .
    with False assms(2) show ?thesis by (auto simp: length_mput find_or_add_def split: if_splits)
  qed (use assms(1) in \<open>simp add: length_mput registry_ok_def\<close>)
  ultimately show ?thesis using assms by (simp add: registry_ok_def list_all_mput)
qed

lemma Enroll_ok [wf_intros]: "registry_ok r \<Longrightarrow> fresh \<noteq> '''' \<Longrightarrow> registry_ok (fst (Enroll fresh now i info r))"
  by (auto simp: Enroll_def Let_def split: option.split intro: find_or_add_ok)

lemma Heartbeat_ok [wf_intros]: "registry_ok r \<Longrightarrow> registry_ok (fst (Heartbeat now i info r))"
  by (auto simp: Heartbeat_def split: option.split intro: find_or_add_ok)

lemma EvictStale_ok [wf_intros]: "registry_ok r \<Longrightarrow> registry_ok (fst (EvictStale now older r))"
  by (auto simp: EvictStale_def Let_def registry_ok_def list_all_iff intro: le_trans [OF length_filter_le])

lemma fleet_Remove_ok [wf_intros]: "registry_ok r \<Longrightarrow> registry_ok (fst (fleet_Remove i r))"
  by (auto simp: fleet_Remove_def registry_ok_def list_all_iff AList.delete_eq intro: le_trans [OF length_filter_le])

lemma NewRegistry_ok [wf_intros]: "registry_ok (NewRegistry stale)"
  by (simp add: NewRegistry_def registry_ok_def)

lemma rollout_ops_ok [wf_intros]:
  "registry_ok r \<Longrightarrow> registry_ok (fst (StartRollout d p r))" "registry_ok r \<Longrightarrow> registry_ok (fst (PromoteRollout p r))"
  "registry_ok r \<Longrightarrow> registry_ok (fst (AbortRollout r))" "registry_ok r \<Longrightarrow> registry_ok (fst (SetDesired d r))"
  by (simp_all add: StartRollout_def PromoteRollout_def AbortRollout_def SetDesired_def registry_ok_def Let_def split: option.split)

text \<open>The counters partition the fleet.\<close>

lemma fleet_Stats_total: "fsHealthy (fleet_Stats now r) + fsStale (fleet_Stats now r) = fsTotal (fleet_Stats now r)"
  by (simp add: fleet_Stats_def Let_def)

text \<open>A restart restores the registry, whatever order the snapshot lists the agents in.\<close>

lemma fold_put_record:
  "distinct (map rcID as) \<Longrightarrow> '''' \<notin> rcID ` set as \<Longrightarrow>
     map_of (fold put_record as m) i = (case map_of (map (\<lambda>a. (rcID a, a)) as) i of None \<Rightarrow> map_of m i | Some a \<Rightarrow> Some a)"
proof (induction as arbitrary: m)
  case (Cons a as)
  have "map_of (map (\<lambda>a. (rcID a, a)) as) (rcID a) = None" using Cons.prems by (force simp: map_of_eq_None_iff)
  with Cons show ?case by (auto simp: put_record_def split: option.splits)
qed simp

lemma fleet_restart:
  assumes "registry_ok r" and "range_order ord" and "\<And>s. unmarshal (marshal s) = Some s" and "\<And>s. marshal s \<noteq> ''''"
  shows "\<exists>r'. fleet_Restore unmarshal (fleet_Snapshot marshal ord r) (NewRegistry stale) = (r', True) \<and>
    map_of (rgAgents r') = map_of (rgAgents r) \<and> rgDesired r' = rgDesired r \<and> rgPending r' = rgPending r"
proof -
  let ?as = "ord (map snd (rgAgents r))"
  have ok: "gomap_ok (rgAgents r)" "\<And>p. p \<in> set (rgAgents r) \<Longrightarrow> fst p \<noteq> '''' \<and> rcID (snd p) = fst p"
    using assms(1) by (auto simp: registry_ok_def list_all_iff)
  have ids: "map (\<lambda>a. (rcID a, a)) (map snd (rgAgents r)) = rgAgents r"
    unfolding map_map comp_def by (rule map_idI) (use ok(2) in \<open>auto simp: prod_eq_iff\<close>)
  have "map rcID (map snd (rgAgents r)) = keys (rgAgents r)" using ok(2) by simp
  then have dr: "distinct (map rcID (map snd (rgAgents r)))" using ok(1) unfolding gomap_ok_def by metis
  then have inj: "inj_on rcID (set (map snd (rgAgents r)))" and dm: "distinct (map snd (rgAgents r))" by (simp_all only: distinct_map)
  have s: "set ?as = set (map snd (rgAgents r))" by (rule range_orderD [OF assms(2)])
  have d: "distinct (map rcID ?as)" using range_order_distinct [OF assms(2) dm] inj s by (simp add: distinct_map del: set_map)
  have ne: "'''' \<notin> rcID ` set ?as" unfolding s using ok(2) by force
  have "set (map (\<lambda>a. (rcID a, a)) ?as) = set (rgAgents r)" using s ids by (metis set_map)
  moreover have "distinct (map fst (map (\<lambda>a. (rcID a, a)) ?as))" using d by (simp add: comp_def)
  ultimately have "map_of (map (\<lambda>a. (rcID a, a)) ?as) = map_of (rgAgents r)"
    using ok(1) by (subst map_of_inject_set) (simp_all only: gomap_ok_def)
  then have "map_of (fold put_record ?as []) = map_of (rgAgents r)"
    using fold_put_record [OF d ne, of "[]"] by (auto simp: fun_eq_iff split: option.split)
  then show ?thesis using assms(3,4) by (simp add: fleet_Restore_def fleet_Snapshot_def NewRegistry_def)
qed

subsection \<open>Rollouts run to completion\<close>

definition promote_all :: "int list \<Rightarrow> registry \<Rightarrow> registry" where
  "promote_all ps r = fold (\<lambda>p r. fst (PromoteRollout p r)) ps r"

lemma promote_all_Cons: "promote_all (p # ps) r = promote_all ps (fst (PromoteRollout p r))"
  by (simp add: promote_all_def)

lemma promote_all_append: "promote_all (ps @ qs) r = promote_all qs (promote_all ps r)"
  by (simp add: promote_all_def)

text \<open>A rollout of a target is under way from a percentage on, or it is complete.\<close>

definition rolling :: "desired_state \<Rightarrow> int \<Rightarrow> registry \<Rightarrow> bool" where
  "rolling d p r \<longleftrightarrow>
     (case rgPending r of None \<Rightarrow> rgDesired r = d | Some ro \<Rightarrow> roDesired ro = d \<and> p \<le> roPercent ro \<and> roPercent ro \<le> 100)"

lemma PromoteRollout_rolling:
  assumes "rolling d p r"
  shows "rolling d (if rgPending r = None then p else p + 1) (fst (PromoteRollout q r)) \<or> rgPending (fst (PromoteRollout q r)) = None"
    and "rolling d p (fst (PromoteRollout q r))"
    and "rgPending r = Some ro \<Longrightarrow> rgPending (fst (PromoteRollout q r)) = Some ro' \<Longrightarrow> roPercent ro < roPercent ro' \<and> roPercent ro' < 100"
  using assms by (auto simp: PromoteRollout_def rolling_def Let_def split: option.splits if_splits)

lemma promote_all_rolling: "rolling d p r \<Longrightarrow> rolling d p (promote_all ps r)"
  by (induction ps arbitrary: r) (auto simp: promote_all_Cons PromoteRollout_rolling(2), simp add: promote_all_def)

lemma promote_all_done: "rgPending r = None \<Longrightarrow> promote_all ps r = r"
  by (induction ps) (simp_all add: promote_all_Cons PromoteRollout_def, simp add: promote_all_def)

lemma promote_all_completes:
  "rgPending r = Some ro \<Longrightarrow> roPercent ro \<le> 100 \<Longrightarrow> ps \<noteq> [] \<Longrightarrow> 100 - roPercent ro \<le> int (length ps) \<Longrightarrow>
     rgPending (promote_all ps r) = None"
proof (induction ps arbitrary: r ro)
  case (Cons q ps)
  let ?r = "fst (PromoteRollout q r)"
  have roll: "rolling (roDesired ro) (roPercent ro) r" using Cons.prems by (simp add: rolling_def)
  show ?case
  proof (cases "rgPending ?r")
    case None
    then show ?thesis by (simp add: promote_all_Cons promote_all_done)
  next
    case (Some ro')
    with PromoteRollout_rolling(3) [OF roll Cons.prems(1) Some] Cons.prems(4)
    have "roPercent ro' < 100" "ps \<noteq> []" "100 - roPercent ro' \<le> int (length ps)" by auto
    with Cons.IH [OF Some] show ?thesis by (simp add: promote_all_Cons)
  qed
qed simp

lemma bucket_range: "0 \<le> bucket i" "bucket i < 100"
  by (simp_all add: bucket_def)

text \<open>Once served the new state, an agent is served it through every further promotion.\<close>

lemma rolling_served:
  assumes "rgPending r = Some ro" and "roPercent ro \<le> 100" and "bucket i < roPercent ro"
  shows "DesiredForAgent i (promote_all ps r) = roDesired ro"
proof -
  have "rolling (roDesired ro) (roPercent ro) (promote_all ps r)"
    using assms by (intro promote_all_rolling) (simp add: rolling_def)
  with assms(3) show ?thesis by (auto simp: DesiredForAgent_def rolling_def split: option.splits)
qed

lemma Heartbeat_desired [simp]: "DesiredForAgent i (fst (Heartbeat now j info r)) = DesiredForAgent i r"
  by (simp add: Heartbeat_def DesiredForAgent_def split: option.splits)

lemma tick_learning:
  "i \<noteq> '''' \<Longrightarrow> dsLearningMode (DesiredForAgent i r) = Some b \<Longrightarrow> LearningMode (snd (fleet_tick now i info (r, c))) = b"
  by (simp add: fleet_tick_def applyDesired_def LearningMode_def SetLearningMode_def Let_def)

definition demo_target :: desired_state where
  "demo_target = \<lparr>dsVersion = 0, dsLearningMode = Some True, dsMinSeverity = ''high''\<rparr>"

text \<open>C11: Every rollout completes and converges. Started at any percentage, a rollout is complete after at
  most 100 promotions, whatever percentages the operator asks for, and its target is then the stable
  state with the next version; on the way an agent that has been served the new state is never served the
  old one again, and after completion every agent's next heartbeat sets its learning mode to the target.\<close>

theorem rollout_completes:
  fixes d :: desired_state and pct :: int and ps :: "int list"
  defines "r1 r \<equiv> fst (StartRollout d pct r)"
  assumes "100 \<le> length ps" and "i \<noteq> ''''" and "dsLearningMode d = Some b"
  shows "rgPending (promote_all ps (r1 r)) = None \<and>
    rgDesired (promote_all ps (r1 r)) = d\<lparr>dsVersion := dsVersion (rgDesired r) + 1\<rparr> \<and>
    (\<forall>j k. j \<le> k \<and> DesiredForAgent i (promote_all (take j ps) (r1 r)) \<noteq> rgDesired r \<longrightarrow>
       DesiredForAgent i (promote_all (take k ps) (r1 r)) = d\<lparr>dsVersion := dsVersion (rgDesired r) + 1\<rparr>) \<and>
    LearningMode (snd (fleet_tick now i info (promote_all ps (r1 r), c))) = b"
proof -
  let ?t = "d\<lparr>dsVersion := dsVersion (rgDesired r) + 1\<rparr>"
  obtain ro where ro: "rgPending (r1 r) = Some ro" "roDesired ro = ?t" "0 \<le> roPercent ro" "roPercent ro \<le> 100"
    "rgDesired (r1 r) = rgDesired r"
    by (auto simp: r1_def StartRollout_def Let_def)
  have stable: "rgPending s = None \<or> rgDesired s = rgDesired r" if "s = promote_all qs (r1 r)" for qs s
    unfolding that
  proof (induction qs rule: rev_induct)
    case (snoc q qs)
    then show ?case
      by (auto simp: promote_all_append promote_all_Cons PromoteRollout_def Let_def split: option.splits) (simp_all add: promote_all_def)
  qed (use ro in \<open>simp add: promote_all_def\<close>)
  have roll: "rolling ?t (roPercent ro) (promote_all qs (r1 r))" for qs
    using ro by (intro promote_all_rolling) (simp add: rolling_def)
  have fin: "rgPending (promote_all ps (r1 r)) = None"
    using assms(2) ro by (intro promote_all_completes [of _ ro]) auto
  then have des: "rgDesired (promote_all ps (r1 r)) = ?t" using roll [of ps] by (simp add: rolling_def)
  have keep: "DesiredForAgent i (promote_all (take k ps) (r1 r)) = ?t"
    if jk: "j \<le> k" "DesiredForAgent i (promote_all (take j ps) (r1 r)) \<noteq> rgDesired r" for j k
  proof -
    define s where "s = promote_all (take j ps) (r1 r)"
    have "take k ps = take j ps @ take (k - j) (drop j ps)" using jk(1) by (metis le_add_diff_inverse take_add)
    then have k: "promote_all (take k ps) (r1 r) = promote_all (take (k - j) (drop j ps)) s"
      by (simp add: promote_all_append s_def)
    have rs: "rolling ?t (roPercent ro) s" unfolding s_def by (rule roll)
    show ?thesis
    proof (cases "rgPending s")
      case None
      with rs show ?thesis unfolding k by (simp add: promote_all_done DesiredForAgent_def rolling_def)
    next
      case (Some ro')
      with stable [OF s_def] have "rgDesired s = rgDesired r" by simp
      with jk(2) Some have "bucket i < roPercent ro'" unfolding s_def [symmetric] by (auto simp: DesiredForAgent_def split: if_splits)
      with rolling_served [OF Some _ this] rs Some show ?thesis unfolding k by (simp add: rolling_def)
    qed
  qed
  have "dsLearningMode (DesiredForAgent i (promote_all ps (r1 r))) = Some b"
    using fin des assms(4) by (simp add: DesiredForAgent_def)
  from fin des keep tick_learning [OF assms(3) this] show ?thesis by blast
qed

theorem rollout_completes_witness:
  "LearningMode (snd (fleet_tick 5 ''agt-1'' no_info
     (promote_all (replicate 100 20) (fst (StartRollout demo_target 10 (NewRegistry 0))), NewCorrelator [])))"
proof -
  have "dsLearningMode demo_target = Some True" by (simp add: demo_target_def)
  from rollout_completes [OF _ _ this, of "replicate 100 20" "''agt-1''"] show ?thesis by simp
qed

text \<open>An aborted rollout is not undone. When the stable state leaves the learning mode unset, as that of a
  new registry does, an agent of the canary keeps the mode the aborted rollout gave it through every later
  heartbeat; and the next rollout carries the same version number as the aborted one.\<close>

theorem aborted_canary_sticks:
  fixes d :: desired_state and pct :: int
  defines "r1 r \<equiv> fst (StartRollout d pct r)"
  assumes "dsLearningMode (rgDesired r) = None" and "dsLearningMode d = Some b" and "i \<noteq> ''''" and "bucket i < pct" and "pct \<le> 100"
  shows "LearningMode (snd (fold (\<lambda>now. fleet_tick now i info) ts
      (fst (AbortRollout (fst (fleet_tick t0 i info (r1 r, c)))), snd (fleet_tick t0 i info (r1 r, c))))) = b \<and>
    dsVersion (roDesired (snd (StartRollout d2 pct2 (fst (AbortRollout (r1 r)))))) = dsVersion (roDesired (snd (StartRollout d pct r)))"
proof -
  have p: "(if 100 < (if pct < 0 then 0 else pct) then 100 else if pct < 0 then 0 else pct) = pct"
    using assms(5,6) bucket_range(1) [of i] by simp
  have "dsLearningMode (DesiredForAgent i (r1 r)) = Some b"
    using assms(3,5) unfolding r1_def StartRollout_def p by (simp add: DesiredForAgent_def Let_def)
  then have on: "LearningMode (snd (fleet_tick t0 i info (r1 r, c))) = b" using tick_learning assms(4) by blast
  have frame: "rgDesired (fst (fleet_tick t j inf (s, k))) = rgDesired s" "rgPending (fst (fleet_tick t j inf (s, k))) = rgPending s" for t j inf s k
    by (simp_all add: fleet_tick_def Heartbeat_def EvictStale_def Let_def split: option.split)
  have noop: "snd (fleet_tick t i info (s, k)) = k" if "rgPending s = None" "dsLearningMode (rgDesired s) = None" for t s k
    using that by (simp add: fleet_tick_def applyDesired_def DesiredForAgent_def Let_def Heartbeat_def split: option.split)
  have "snd (fold (\<lambda>now. fleet_tick now i info) ts (s, k)) = k" if "rgPending s = None" "dsLearningMode (rgDesired s) = None" for s k
    using that
  proof (induction ts arbitrary: s)
    case (Cons t ts)
    have "fleet_tick t i info (s, k) = (fst (fleet_tick t i info (s, k)), k)" using noop [OF Cons.prems] by (simp add: prod_eq_iff)
    with Cons.IH [of "fst (fleet_tick t i info (s, k))"] Cons.prems frame show ?case by (metis fold_simps(2))
  qed simp
  moreover have "rgPending (fst (AbortRollout s)) = None" "rgDesired (fst (AbortRollout s)) = rgDesired s" for s
    by (simp_all add: AbortRollout_def split: option.split)
  moreover have "rgDesired (r1 r) = rgDesired r" by (simp add: r1_def StartRollout_def Let_def)
  ultimately show ?thesis using on assms(2) frame by (simp add: StartRollout_def Let_def)
qed

theorem aborted_canary_sticks_witness:
  "LearningMode (snd (fold (\<lambda>now. fleet_tick now ''agt-1'' no_info) [100, 200, 300]
     (fst (AbortRollout (fst (fleet_tick 1 ''agt-1'' no_info (fst (StartRollout demo_target 100 (NewRegistry 0)), NewCorrelator [])))),
      snd (fleet_tick 1 ''agt-1'' no_info (fst (StartRollout demo_target 100 (NewRegistry 0)), NewCorrelator [])))))"
proof -
  have a: "dsLearningMode (rgDesired (NewRegistry 0)) = None" "dsLearningMode demo_target = Some True"
    by (simp_all add: NewRegistry_def demo_target_def)
  have b: "bucket ''agt-1'' < 100" by (rule bucket_range(2))
  have "LearningMode (snd (fold (\<lambda>now. fleet_tick now ''agt-1'' no_info) [100, 200, 300]
     (fst (AbortRollout (fst (fleet_tick 1 ''agt-1'' no_info (fst (StartRollout demo_target 100 (NewRegistry 0)), NewCorrelator [])))),
      snd (fleet_tick 1 ''agt-1'' no_info (fst (StartRollout demo_target 100 (NewRegistry 0)), NewCorrelator []))))) = True"
    by (rule aborted_canary_sticks [OF a _ b, THEN conjunct1]) simp_all
  then show ?thesis by (simp only: eq_True)
qed

end
