(* ===== verification/RateLimit.thy ===== *)
theory RateLimit
  imports Float64 GoStrings
begin

text \<open>
  The per-client token bucket in front of the web API (\<^verbatim>\<open>src/pkg/web/ratelimit.go\<close>).  Tokens are
  \<^verbatim>\<open>float64\<close>, rounded after every operation; the client is what \<^verbatim>\<open>clientIP\<close> reads from the request.
\<close>

record token_bucket =
  tbTokens :: float64
  tbLast :: time

record rate_limiter =
  rlBuckets :: "(string, token_bucket) gomap"
  rlRate :: float64
  rlBurst :: float64
  rlLastGC :: time

definition newRateLimiter :: "float64 \<Rightarrow> float64 \<Rightarrow> rate_limiter" where
  "newRateLimiter ratePerSec burst =
     \<lparr>rlBuckets = [], rlRate = (if ratePerSec \<le> 0 then 50 else ratePerSec), rlBurst = (if burst \<le> 0 then 100 else burst),
      rlLastGC = zero_time\<rparr>"

definition limiter_gc :: "time \<Rightarrow> rate_limiter \<Rightarrow> rate_limiter" where
  "limiter_gc now rl =
     (if minute < time_sub now (rlLastGC rl)
      then rl\<lparr>rlBuckets := filter (\<lambda>(k, b). \<not> 5 * minute < time_sub now (tbLast b)) (rlBuckets rl), rlLastGC := now\<rparr>
      else rl)"

definition refill :: "rate_limiter \<Rightarrow> time \<Rightarrow> token_bucket \<Rightarrow> float64" where
  "refill rl now b =
     (let elapsed = seconds (time_sub now (tbLast b));
          tokens = fround (tbTokens b + fround (elapsed * rlRate rl))
      in if rlBurst rl < tokens then rlBurst rl else tokens)"

definition limiter_allow :: "time \<Rightarrow> string \<Rightarrow> rate_limiter \<Rightarrow> rate_limiter \<times> bool" where
  "limiter_allow now key rl0 =
     (let rl = limiter_gc now rl0;
          b = (case map_of (rlBuckets rl) key of None \<Rightarrow> \<lparr>tbTokens = rlBurst rl, tbLast = now\<rparr> | Some b \<Rightarrow> b);
          tokens = refill rl now b
      in if tokens < 1
         then (rl\<lparr>rlBuckets := mput key \<lparr>tbTokens = tokens, tbLast = now\<rparr> (rlBuckets rl)\<rparr>, False)
         else (rl\<lparr>rlBuckets := mput key \<lparr>tbTokens = fround (tokens - 1), tbLast = now\<rparr> (rlBuckets rl)\<rparr>, True))"

subsection \<open>The client of a request\<close>

definition last_index :: "char \<Rightarrow> string \<Rightarrow> nat option" where
  "last_index c s = (case index_of [c] (rev s) of None \<Rightarrow> None | Some i \<Rightarrow> Some (length s - 1 - i))"

text \<open>\<^verbatim>\<open>net.SplitHostPort\<close>, its host part; \<open>None\<close> for each of its errors.\<close>

definition split_host :: "string \<Rightarrow> string option" where
  "split_host hp =
     (case last_index CHR '':'' hp of
        None \<Rightarrow> None
      | Some i \<Rightarrow>
          if hd hp = CHR ''['' then
            (case index_of '']'' hp of
               None \<Rightarrow> None
             | Some e \<Rightarrow>
                 if e + 1 \<noteq> i \<or> CHR ''['' \<in> set (drop 1 hp) \<or> CHR '']'' \<in> set (drop (e + 1) hp) then None
                 else Some (drop 1 (take e hp)))
          else if CHR '':'' \<in> set (take i hp) \<or> CHR ''['' \<in> set hp \<or> CHR '']'' \<in> set hp then None
          else Some (take i hp))"

record client_request =
  clPath :: string
  clForwarded :: string
  clRemoteAddr :: string

definition clientIP :: "client_request \<Rightarrow> string" where
  "clientIP r =
     (if clForwarded r \<noteq> '''' then
        (case index_of '','' (clForwarded r) of
           Some i \<Rightarrow> trim_space (take i (clForwarded r))
         | None \<Rightarrow> trim_space (clForwarded r))
      else case split_host (clRemoteAddr r) of None \<Rightarrow> clRemoteAddr r | Some h \<Rightarrow> h)"

text \<open>\<open>False\<close> is the reply 429.\<close>

definition limiter_middleware :: "time \<Rightarrow> client_request \<Rightarrow> rate_limiter \<Rightarrow> rate_limiter \<times> bool" where
  "limiter_middleware now r rl =
     (if prefix ''/api/'' (clPath r) \<and> clPath r \<noteq> ''/api/events/stream'' then limiter_allow now (clientIP r) rl else (rl, True))"

text \<open>A sequence of requests arriving at one instant.\<close>

fun arrive :: "time \<Rightarrow> client_request list \<Rightarrow> rate_limiter \<Rightarrow> rate_limiter \<times> bool list" where
  "arrive now [] rl = (rl, [])"
| "arrive now (r # rs) rl =
     (let (rl1, ok) = limiter_middleware now r rl; (rl2, oks) = arrive now rs rl1 in (rl2, ok # oks))"

subsection \<open>One instant\<close>

definition server_limiter :: "rate_limiter \<Rightarrow> bool" where
  "server_limiter rl \<longleftrightarrow> rlRate rl = 50 \<and> rlBurst rl = 100 \<and> gomap_ok (rlBuckets rl)"

lemma fround_small: "t \<le> 100 \<Longrightarrow> fround (of_nat t) = of_nat t"
  using fround_of_int [of "int t"] by simp

lemma seconds_0 [simp]: "seconds 0 = 0"
  by (simp add: seconds_def)

lemma refill_same: "rlBurst rl = 100 \<Longrightarrow> t \<le> 100 \<Longrightarrow> refill rl now \<lparr>tbTokens = of_nat t, tbLast = now\<rparr> = of_nat t"
  using of_nat_le_iff [of t 100, where ?'a = rat] by (auto simp: refill_def Let_def fround_small)

lemma gc_keeps:
  "server_limiter rl \<Longrightarrow> server_limiter (limiter_gc now rl)"
  "map_of (rlBuckets rl) k = None \<Longrightarrow> server_limiter rl \<Longrightarrow> map_of (rlBuckets (limiter_gc now rl)) k = None"
  "map_of (rlBuckets rl) k = Some b \<Longrightarrow> tbLast b = now \<Longrightarrow> server_limiter rl \<Longrightarrow> map_of (rlBuckets (limiter_gc now rl)) k = Some b"
  by (auto simp: server_limiter_def limiter_gc_def map_of_filter_key)

text \<open>A bucket filled or opened at this instant gives one token per request until it is empty.\<close>

lemma allow_bucket:
  assumes "server_limiter rl" and "map_of (rlBuckets rl) k = Some \<lparr>tbTokens = of_nat t, tbLast = now\<rparr> \<or> map_of (rlBuckets rl) k = None \<and> t = 100"
    and "t \<le> 100"
  shows "snd (limiter_allow now k rl) = (0 < t)" "server_limiter (fst (limiter_allow now k rl))"
    "map_of (rlBuckets (fst (limiter_allow now k rl))) k = Some \<lparr>tbTokens = of_nat (t - 1), tbLast = now\<rparr>"
    "j \<noteq> k \<Longrightarrow> map_of (rlBuckets rl) j = None \<Longrightarrow> map_of (rlBuckets (fst (limiter_allow now k rl))) j = None"
proof -
  let ?g = "limiter_gc now rl"
  have g: "server_limiter ?g" using gc_keeps(1) [OF assms(1)] .
  have b: "(case map_of (rlBuckets ?g) k of None \<Rightarrow> \<lparr>tbTokens = rlBurst ?g, tbLast = now\<rparr> | Some b \<Rightarrow> b) = \<lparr>tbTokens = of_nat t, tbLast = now\<rparr>"
    using assms(1,2) g gc_keeps(2) [of rl k now] gc_keeps(3) [of rl k _ now] by (auto simp: server_limiter_def)
  have r: "refill ?g now \<lparr>tbTokens = of_nat t, tbLast = now\<rparr> = of_nat t"
    using refill_same [of ?g t now] g assms(3) by (simp add: server_limiter_def)
  have lt: "(of_nat t < (1::rat)) = (t = 0)" by auto
  have dec: "0 < t \<Longrightarrow> fround (of_nat t - 1) = of_nat (t - 1)" using fround_small [of "t - 1"] assms(3) by (simp add: of_nat_diff)
  note step = limiter_allow_def [of now k rl, unfolded Let_def b r lt]
  show "snd (limiter_allow now k rl) = (0 < t)" "server_limiter (fst (limiter_allow now k rl))"
    "map_of (rlBuckets (fst (limiter_allow now k rl))) k = Some \<lparr>tbTokens = of_nat (t - 1), tbLast = now\<rparr>"
    using g dec by (simp_all add: step server_limiter_def)
  show "j \<noteq> k \<Longrightarrow> map_of (rlBuckets rl) j = None \<Longrightarrow> map_of (rlBuckets (fst (limiter_allow now k rl))) j = None"
    using gc_keeps(2) [of rl j now] assms(1) by (simp add: step)
qed

lemma arrive_same:
  assumes "prefix ''/api/'' (clPath r)" and "clPath r \<noteq> ''/api/events/stream''"
  shows "server_limiter rl \<Longrightarrow> t \<le> 100 \<Longrightarrow>
    map_of (rlBuckets rl) (clientIP r) = Some \<lparr>tbTokens = of_nat t, tbLast = now\<rparr> \<or> map_of (rlBuckets rl) (clientIP r) = None \<and> t = 100 \<Longrightarrow>
    snd (arrive now (replicate n r) rl) = replicate (min n t) True @ replicate (n - t) False"
proof (induction n arbitrary: rl t)
  case (Suc n)
  obtain rl1 ok where a: "limiter_allow now (clientIP r) rl = (rl1, ok)" by fastforce
  note b = allow_bucket [OF Suc.prems(1,3,2), unfolded a, simplified]
  have "snd (arrive now (replicate n r) rl1) = replicate (min n (t - 1)) True @ replicate (n - (t - 1)) False"
    using Suc.IH [of rl1 "t - 1"] b(2,3) Suc.prems(2) by simp
  then have "snd (arrive now (replicate (Suc n) r) rl) = (0 < t) # replicate (min n (t - 1)) True @ replicate (n - (t - 1)) False"
    using a b(1) assms by (cases "arrive now (replicate n r) rl1") (simp add: limiter_middleware_def)
  then show ?case by (cases t) (simp_all add: min_def)
qed simp

lemma arrive_distinct:
  "server_limiter rl \<Longrightarrow> distinct (map clientIP rs) \<Longrightarrow> (\<And>r. r \<in> set rs \<Longrightarrow> map_of (rlBuckets rl) (clientIP r) = None) \<Longrightarrow>
   snd (arrive now rs rl) = replicate (length rs) True"
proof (induction rs arbitrary: rl)
  case (Cons r rs)
  obtain rl1 ok where a: "limiter_middleware now r rl = (rl1, ok)" by fastforce
  have fr: "map_of (rlBuckets rl) (clientIP r) = None" using Cons.prems(3) by simp
  have b: "ok" "server_limiter rl1" "\<And>q. q \<in> set rs \<Longrightarrow> map_of (rlBuckets rl1) (clientIP q) = None"
  proof (atomize (full), cases "prefix ''/api/'' (clPath r) \<and> clPath r \<noteq> ''/api/events/stream''")
    case True
    then have a': "limiter_allow now (clientIP r) rl = (rl1, ok)" using a by (simp add: limiter_middleware_def)
    note b = allow_bucket [OF Cons.prems(1), of "clientIP r" 100 now, unfolded a', simplified, OF disjI2 [OF fr]]
    have "clientIP q \<noteq> clientIP r" if "q \<in> set rs" for q using Cons.prems(2) that by (auto simp: image_iff)
    with b Cons.prems(3) show "ok \<and> server_limiter rl1 \<and> (\<forall>q. q \<in> set rs \<longrightarrow> map_of (rlBuckets rl1) (clientIP q) = None)" by auto
  next
    case False
    with a Cons.prems show "ok \<and> server_limiter rl1 \<and> (\<forall>q. q \<in> set rs \<longrightarrow> map_of (rlBuckets rl1) (clientIP q) = None)"
      by (auto simp: limiter_middleware_def split: if_splits)
  qed
  have "snd (arrive now rs rl1) = replicate (length rs) True" by (rule Cons.IH) (use b Cons.prems(2) in auto)
  with a b(1) show ?case by (cases "arrive now rs rl1") simp
qed simp

text \<open>The limiter and its key. Of any number of API requests one client sends at one instant exactly the
  first hundred are served. But the client is whatever the forwarding header says: requests that each
  bear a different header value are all served, however many there are.\<close>

theorem limiter_keyed_by_header:
  assumes "prefix ''/api/'' (clPath r)" and "clPath r \<noteq> ''/api/events/stream''" and "distinct (map clientIP rs)"
  shows "snd (arrive now (replicate n r) (newRateLimiter 50 100)) = replicate (min n 100) True @ replicate (n - 100) False \<and>
    snd (arrive now rs (newRateLimiter 50 100)) = replicate (length rs) True"
proof -
  have "server_limiter (newRateLimiter 50 100)" "\<And>k. map_of (rlBuckets (newRateLimiter 50 100)) k = None"
    by (simp_all add: server_limiter_def newRateLimiter_def)
  with arrive_same [OF assms(1,2), of "newRateLimiter 50 100" 100 now n] arrive_distinct [of "newRateLimiter 50 100" rs now] assms(3)
  show ?thesis by auto
qed

definition api_call :: "nat \<Rightarrow> client_request" where
  "api_call n = \<lparr>clPath = ''/api/auth/login'', clForwarded = replicate (Suc n) CHR ''a'', clRemoteAddr = ''10.0.0.1:5000''\<rparr>"

lemma clientIP_api_call: "clientIP (api_call n) = replicate (Suc n) CHR ''a''"
proof -
  have "\<not> is_space CHR ''a''" by code_simp
  then have d: "dropWhile is_space (replicate m CHR ''a'') = replicate m CHR ''a''" for m by (cases m) simp_all
  have "index_of '','' (replicate m CHR ''a'') = None" for m by (induction m) simp_all
  from this [of "Suc n"] d [of "Suc n"] show ?thesis
    unfolding clientIP_def api_call_def trim_space_def by (simp del: replicate_Suc)
qed

theorem limiter_keyed_by_header_witness:
  "snd (arrive 7 (map api_call [0..<5000]) (newRateLimiter 50 100)) = replicate 5000 True \<and>
   snd (arrive 7 (replicate 150 (api_call 0)) (newRateLimiter 50 100)) = replicate 100 True @ replicate 50 False"
proof -
  have p: "prefix ''/api/'' (clPath (api_call 0))" "clPath (api_call 0) \<noteq> ''/api/events/stream''" by (simp_all add: api_call_def)
  have i: "inj_on (\<lambda>n. clientIP (api_call n)) A" for A
    by (rule inj_onI) (metis clientIP_api_call length_replicate nat.inject)
  then have "distinct (map clientIP (map api_call [0..<5000]))" by (simp add: distinct_map comp_def)
  from limiter_keyed_by_header [OF p this, of 7 150] show ?thesis by simp
qed

end
