(* ===== verification/Base64.thy ===== *)
theory Base64
  imports GoStrings
begin

text \<open>
  \<^verbatim>\<open>base64.RawURLEncoding\<close> of Go's standard library, as the token code uses it: the URL alphabet, no
  padding.  The decoder skips carriage returns and newlines, refuses every other character outside
  the alphabet and a rest of one digit, and ignores the unused low bits of the last digit.
\<close>

subsection \<open>Digits\<close>

definition b64char :: "nat \<Rightarrow> char" where
  "b64char n =
     (if n < 26 then char_of (65 + n) else if n < 52 then char_of (71 + n) else if n < 62 then char_of (n - 4)
      else if n = 62 then CHR ''-'' else CHR ''_'')"

definition b64val :: "char \<Rightarrow> nat option" where
  "b64val c =
     (let k = code c in
      if 65 \<le> k \<and> k \<le> 90 then Some (k - 65)
      else if 97 \<le> k \<and> k \<le> 122 then Some (k - 71)
      else if 48 \<le> k \<and> k \<le> 57 then Some (k + 4)
      else if k = 45 then Some 62 else if k = 95 then Some 63 else None)"

lemma b64val_b64char: "n < 64 \<Longrightarrow> b64val (b64char n) = Some n"
proof -
  assume "n < 64"
  then have "n \<in> set [0..<64]" by simp
  moreover have "list_all (\<lambda>n. b64val (b64char n) = Some n) [0..<64]" by code_simp
  ultimately show ?thesis unfolding list_all_iff by blast
qed

subsection \<open>Encoding\<close>

fun b64 :: "string \<Rightarrow> string" where
  "b64 [] = []"
| "b64 [a] = [b64char (code a div 4), b64char (code a mod 4 * 16)]"
| "b64 [a, b] = [b64char (code a div 4), b64char (code a mod 4 * 16 + code b div 16), b64char (code b mod 16 * 4)]"
| "b64 (a # b # c # s) =
     b64char (code a div 4) # b64char (code a mod 4 * 16 + code b div 16) #
     b64char (code b mod 16 * 4 + code c div 64) # b64char (code c mod 64) # b64 s"

subsection \<open>Decoding\<close>

fun b64_digits :: "string \<Rightarrow> nat list option" where
  "b64_digits [] = Some []"
| "b64_digits (c # s) =
     (case (b64val c, b64_digits s) of (Some v, Some vs) \<Rightarrow> Some (v # vs) | _ \<Rightarrow> None)"

fun b64_bytes :: "nat list \<Rightarrow> string option" where
  "b64_bytes [] = Some []"
| "b64_bytes [x] = None"
| "b64_bytes [x, y] = Some [char_of (x * 4 + y div 16)]"
| "b64_bytes [x, y, z] = Some [char_of (x * 4 + y div 16), char_of (y mod 16 * 16 + z div 4)]"
| "b64_bytes (x # y # z # w # vs) =
     map_option (\<lambda>r. char_of (x * 4 + y div 16) # char_of (y mod 16 * 16 + z div 4) # char_of (z mod 4 * 64 + w) # r)
       (b64_bytes vs)"

definition unb64 :: "string \<Rightarrow> string option" where
  "unb64 s =
     (case b64_digits (filter (\<lambda>c. code c \<noteq> 10 \<and> code c \<noteq> 13) s) of None \<Rightarrow> None | Some vs \<Rightarrow> b64_bytes vs)"

subsection \<open>Round trip\<close>

lemma quad_bounds:
  "code a div 4 < 64" "code a mod 4 * 16 < 64" "code a mod 4 * 16 + code b div 16 < 64"
  "code b mod 16 * 4 < 64" "code b mod 16 * 4 + code c div 64 < 64" "code c mod 64 < 64"
  using code_less [of a] code_less [of b] code_less [of c] by linarith+

lemma quad_rests: "code b div 16 div 16 = 0" "code b div 16 mod 16 = code b div 16" "code c div 64 div 4 = 0" "code c div 64 mod 4 = code c div 64"
  using code_less [of b] code_less [of c] by (simp_all add: div_eq_0_iff div_less_iff_less_mult mod_less div_mult2_eq [symmetric])

lemmas quad_simps = b64val_b64char [OF quad_bounds(1)] b64val_b64char [OF quad_bounds(2)] b64val_b64char [OF quad_bounds(3)]
  b64val_b64char [OF quad_bounds(4)] b64val_b64char [OF quad_bounds(5)] b64val_b64char [OF quad_bounds(6)] quad_rests

lemma b64_decodes: "\<exists>vs. b64_digits (b64 s) = Some vs \<and> b64_bytes vs = Some s"
proof (induction s rule: b64.induct)
  case (4 a b c s)
  then show ?case by (auto simp: quad_simps)
qed (simp_all add: quad_simps)

text \<open>What the encoder writes is in the alphabet, so a dot or a newline never is.\<close>

lemma b64_digits_val: "b64_digits s = Some vs \<Longrightarrow> c \<in> set s \<Longrightarrow> b64val c \<noteq> None"
  by (induction s arbitrary: vs) (auto split: option.splits)

lemma b64_alphabet: "b64val c = None \<Longrightarrow> c \<notin> set (b64 s)"
  using b64_decodes [of s] b64_digits_val by blast

theorem unb64_b64: "unb64 (b64 s) = Some s"
proof -
  have "\<forall>c \<in> set (b64 s). code c \<noteq> 10 \<and> code c \<noteq> 13"
  proof (intro ballI conjI notI)
    fix c assume c: "c \<in> set (b64 s)"
    { assume "code c = 10" then have "b64val c = None" by (simp add: b64val_def) with b64_alphabet c show False by blast }
    { assume "code c = 13" then have "b64val c = None" by (simp add: b64val_def) with b64_alphabet c show False by blast }
  qed
  then have "filter (\<lambda>c. code c \<noteq> 10 \<and> code c \<noteq> 13) (b64 s) = b64 s" by (simp add: filter_id_conv)
  with b64_decodes [of s] show ?thesis by (auto simp: unb64_def)
qed

lemma dot_notin_b64: "CHR ''.'' \<notin> set (b64 s)"
  by (rule b64_alphabet) code_simp

end
