(* ===== verification/Access.thy ===== *)
theory Access
  imports Base64
begin

text \<open>
  Role-based access control and tokens of the control plane: \<^verbatim>\<open>src/pkg/platform/rbac.go\<close> and
  \<^verbatim>\<open>src/pkg/platform/token.go\<close>, with \<^verbatim>\<open>TenantScoped\<close> of \<^verbatim>\<open>middleware.go\<close>.  HMAC-SHA-256 and the JSON
  codec are parameters (\<open>jwt_codec\<close>); a nil principal is \<open>None\<close>.
\<close>

subsection \<open>Permissions and roles\<close>

abbreviation (input) PermViewEvents :: string where "PermViewEvents \<equiv> ''events:view''"
abbreviation (input) PermViewAudit :: string where "PermViewAudit \<equiv> ''audit:view''"
abbreviation (input) PermVerifyAudit :: string where "PermVerifyAudit \<equiv> ''audit:verify''"
abbreviation (input) PermExportAudit :: string where "PermExportAudit \<equiv> ''audit:export''"
abbreviation (input) PermViewInventory :: string where "PermViewInventory \<equiv> ''inventory:view''"
abbreviation (input) PermManagePolicy :: string where "PermManagePolicy \<equiv> ''policy:manage''"
abbreviation (input) PermManageAlerts :: string where "PermManageAlerts \<equiv> ''alerts:manage''"
abbreviation (input) PermManageUsers :: string where "PermManageUsers \<equiv> ''users:manage''"
abbreviation (input) PermManageTenant :: string where "PermManageTenant \<equiv> ''tenant:manage''"
abbreviation (input) PermManageSystem :: string where "PermManageSystem \<equiv> ''system:manage''"
abbreviation (input) PermAll :: string where "PermAll \<equiv> ''*''"

abbreviation (input) RoleOwner :: string where "RoleOwner \<equiv> ''owner''"
abbreviation (input) RoleAdmin :: string where "RoleAdmin \<equiv> ''admin''"
abbreviation (input) RoleAnalyst :: string where "RoleAnalyst \<equiv> ''analyst''"
abbreviation (input) RoleViewer :: string where "RoleViewer \<equiv> ''viewer''"

definition rolePermissions :: "(string, string list) gomap" where
  "rolePermissions =
     [(RoleOwner, [PermAll]),
      (RoleAdmin, [PermViewEvents, PermViewAudit, PermVerifyAudit, PermExportAudit,
                   PermViewInventory, PermManagePolicy, PermManageAlerts, PermManageUsers]),
      (RoleAnalyst, [PermViewEvents, PermViewAudit, PermVerifyAudit, PermExportAudit,
                     PermViewInventory, PermManageAlerts]),
      (RoleViewer, [PermViewEvents, PermViewAudit, PermViewInventory])]"

definition KnownRole :: "string \<Rightarrow> bool" where
  "KnownRole r \<longleftrightarrow> map_of rolePermissions r \<noteq> None"

text \<open>The inner loop over one role's permissions; \<open>Inl\<close> is the early return.\<close>

fun grant_perms :: "string list \<Rightarrow> string list \<Rightarrow> string list + string list" where
  "grant_perms [] perms = Inr perms"
| "grant_perms (p # ps) perms = (if p = PermAll then Inl [PermAll] else grant_perms ps (List.insert p perms))"

fun grant_roles :: "string list \<Rightarrow> string list \<Rightarrow> string list" where
  "grant_roles [] perms = perms"
| "grant_roles (r # rs) perms =
     (case grant_perms (mget [] rolePermissions r) perms of Inl all \<Rightarrow> all | Inr perms' \<Rightarrow> grant_roles rs perms')"

definition PermissionsForRoles :: "string list \<Rightarrow> string list" where
  "PermissionsForRoles roles = grant_roles roles []"

record principal =
  ppUserID :: string
  ppTenantID :: string
  ppEmail :: string
  ppRoles :: "string list"
  ppPerms :: "string list"

definition NewPrincipal :: "string \<Rightarrow> string \<Rightarrow> string \<Rightarrow> string list \<Rightarrow> principal" where
  "NewPrincipal userID tenantID email roles =
     \<lparr>ppUserID = userID, ppTenantID = tenantID, ppEmail = email, ppRoles = roles, ppPerms = PermissionsForRoles roles\<rparr>"

definition Can :: "string \<Rightarrow> principal option \<Rightarrow> bool" where
  "Can perm p = (case p of None \<Rightarrow> False | Some q \<Rightarrow> PermAll \<in> set (ppPerms q) \<or> perm \<in> set (ppPerms q))"

definition HasRole :: "string \<Rightarrow> principal option \<Rightarrow> bool" where
  "HasRole r p = (case p of None \<Rightarrow> False | Some q \<Rightarrow> r \<in> set (ppRoles q))"

definition TenantScoped :: "string \<Rightarrow> principal option \<Rightarrow> bool" where
  "TenantScoped tenant p =
     (case p of None \<Rightarrow> False | Some q \<Rightarrow> if Can PermManageSystem p then True else ppTenantID q = tenant)"

subsection \<open>Tokens\<close>

record claims =
  clSubject :: string
  clTenantID :: string
  clEmail :: string
  clRoles :: "string list"
  clIssuedAt :: int
  clExpiresAt :: int
  clIssuer :: string

record jwt_header =
  jhAlg :: string
  jhTyp :: string

record jwt_codec =
  jHmac :: "string \<Rightarrow> string \<Rightarrow> string"
  jMarshalHeader :: "jwt_header \<Rightarrow> string"
  jUnmarshalHeader :: "string \<Rightarrow> jwt_header option"
  jMarshalClaims :: "claims \<Rightarrow> string"
  jUnmarshalClaims :: "string \<Rightarrow> claims option"

record token_issuer =
  tiKey :: string
  tiIssuer :: string
  tiTTL :: dur

definition NewTokenIssuer :: "string \<Rightarrow> string \<Rightarrow> dur \<Rightarrow> token_issuer" where
  "NewTokenIssuer key issuer ttl = \<lparr>tiKey = key, tiIssuer = issuer, tiTTL = (if ttl \<le> 0 then 43200 * second else ttl)\<rparr>"

text \<open>\<^verbatim>\<open>Time.Unix\<close>: whole seconds since 1970.\<close>

definition unix_time :: "time \<Rightarrow> int" where
  "unix_time t = t div second - 62135596800"

definition mac :: "jwt_codec \<Rightarrow> token_issuer \<Rightarrow> string \<Rightarrow> string" where
  "mac k ti input = jHmac k (tiKey ti) input"

definition sign :: "jwt_codec \<Rightarrow> token_issuer \<Rightarrow> claims \<Rightarrow> string" where
  "sign k ti c =
     (let signingInput = b64 (jMarshalHeader k \<lparr>jhAlg = ''HS256'', jhTyp = ''JWT''\<rparr>) @ ''.'' @ b64 (jMarshalClaims k c)
      in signingInput @ ''.'' @ b64 (mac k ti signingInput))"

definition claims_for :: "token_issuer \<Rightarrow> time \<Rightarrow> principal \<Rightarrow> claims" where
  "claims_for ti now p =
     \<lparr>clSubject = ppUserID p, clTenantID = ppTenantID p, clEmail = ppEmail p, clRoles = ppRoles p,
      clIssuedAt = unix_time now, clExpiresAt = unix_time (now + tiTTL ti), clIssuer = tiIssuer ti\<rparr>"

definition Issue :: "jwt_codec \<Rightarrow> token_issuer \<Rightarrow> time \<Rightarrow> principal \<Rightarrow> string" where
  "Issue k ti now p = sign k ti (claims_for ti now p)"

datatype token_error = MalformedToken | BadSignatureEncoding | SignatureMismatch | BadHeaderEncoding | BadHeader
  | UnexpectedAlg string | BadClaimsEncoding | BadClaims | TokenExpired

definition token_Verify :: "jwt_codec \<Rightarrow> token_issuer \<Rightarrow> time \<Rightarrow> string \<Rightarrow> token_error + claims" where
  "token_Verify k ti now token =
     (let parts = Split ''.'' token in
      if length parts \<noteq> 3 then Inl MalformedToken
      else
        let signingInput = parts ! 0 @ ''.'' @ parts ! 1; expectedSig = mac k ti signingInput in
        case unb64 (parts ! 2) of
          None \<Rightarrow> Inl BadSignatureEncoding
        | Some gotSig \<Rightarrow>
        if expectedSig \<noteq> gotSig then Inl SignatureMismatch
        else case unb64 (parts ! 0) of
          None \<Rightarrow> Inl BadHeaderEncoding
        | Some hb \<Rightarrow>
        (case jUnmarshalHeader k hb of
          None \<Rightarrow> Inl BadHeader
        | Some hdr \<Rightarrow>
        if jhAlg hdr \<noteq> ''HS256'' then Inl (UnexpectedAlg (jhAlg hdr))
        else case unb64 (parts ! 1) of
          None \<Rightarrow> Inl BadClaimsEncoding
        | Some cb \<Rightarrow>
        (case jUnmarshalClaims k cb of
          None \<Rightarrow> Inl BadClaims
        | Some c \<Rightarrow> if clExpiresAt c \<noteq> 0 \<and> clExpiresAt c \<le> unix_time now then Inl TokenExpired else Inr c)))"

definition PrincipalFromClaims :: "claims \<Rightarrow> principal" where
  "PrincipalFromClaims c = NewPrincipal (clSubject c) (clTenantID c) (clEmail c) (clRoles c)"

subsection \<open>What roles grant\<close>

lemma grant_perms_Inl: "grant_perms ps perms = Inl all \<Longrightarrow> all = [PermAll] \<and> PermAll \<in> set ps"
  by (induction ps arbitrary: perms) (auto split: if_splits)

lemma grant_perms_Inr: "grant_perms ps perms = Inr perms' \<Longrightarrow> set perms' = set perms \<union> set ps \<and> PermAll \<notin> set ps"
  by (induction ps arbitrary: perms) (auto split: if_splits)

definition role_grants :: "string \<Rightarrow> string list" where
  "role_grants r = mget [] rolePermissions r"

lemma grants_all: "PermAll \<in> set (role_grants r) \<longleftrightarrow> r = RoleOwner"
proof -
  have "list_all (\<lambda>(r, ps). PermAll \<in> set ps \<longleftrightarrow> r = RoleOwner) rolePermissions" by code_simp
  then show ?thesis
    by (cases "map_of rolePermissions r")
      (auto simp: role_grants_def mget_def list_all_iff dest!: map_of_SomeD, simp add: rolePermissions_def)
qed

lemma grant_roles_set:
  "PermAll \<notin> set perms \<Longrightarrow>
     set (grant_roles rs perms) =
       (if RoleOwner \<in> set rs then {PermAll} else set perms \<union> (\<Union>r \<in> set rs. set (role_grants r)))"
proof (induction rs arbitrary: perms)
  case (Cons r rs)
  show ?case
  proof (cases "grant_perms (mget [] rolePermissions r) perms")
    case (Inl all)
    with grant_perms_Inl [OF Inl] grants_all [of r] show ?thesis by (simp add: role_grants_def)
  next
    case (Inr perms')
    from grant_perms_Inr [OF Inr] grants_all [of r] Cons.prems
    have "r \<noteq> RoleOwner" "set perms' = set perms \<union> set (role_grants r)" "PermAll \<notin> set perms'"
      by (auto simp: role_grants_def)
    with Cons.IH [of perms'] Inr show ?thesis by auto
  qed
qed simp

text \<open>A permission is held exactly through a role that grants it, or through ownership.\<close>

lemma Can_iff:
  "Can perm (Some (NewPrincipal u t e roles)) \<longleftrightarrow> RoleOwner \<in> set roles \<or> (\<exists>r \<in> set roles. perm \<in> set (role_grants r))"
proof -
  have "set (PermissionsForRoles roles) = (if RoleOwner \<in> set roles then {PermAll} else (\<Union>r \<in> set roles. set (role_grants r)))"
    unfolding PermissionsForRoles_def by (subst grant_roles_set) auto
  moreover have "PermAll \<notin> (\<Union>r \<in> set roles. set (role_grants r))" if "RoleOwner \<notin> set roles"
    using that grants_all by auto
  ultimately show ?thesis by (auto simp: Can_def NewPrincipal_def)
qed

text \<open>Only owners hold the system permission.\<close>

lemma system_grant: "PermManageSystem \<notin> set (role_grants r)"
proof -
  have "list_all (\<lambda>(r, ps). PermManageSystem \<notin> set ps) rolePermissions" by code_simp
  then show ?thesis
    by (cases "map_of rolePermissions r") (auto simp: role_grants_def mget_def list_all_iff dest!: map_of_SomeD)
qed

text \<open>Tenant isolation and its exception. The isolation guard admits a principal to a tenant just when
  the tenant is its own or it holds the owner role in whatever tenant it belongs to; an analyst's rights
  include a viewer's, an admin's include an analyst's, and no role but owner may manage the system.\<close>

theorem tenant_scope_exact:
  "(TenantScoped t (Some (NewPrincipal u tid e roles)) \<longleftrightarrow> tid = t \<or> RoleOwner \<in> set roles) \<and>
   (Can PermManageSystem (Some (NewPrincipal u tid e roles)) \<longleftrightarrow> RoleOwner \<in> set roles) \<and>
   set (role_grants RoleViewer) \<subseteq> set (role_grants RoleAnalyst) \<and> set (role_grants RoleAnalyst) \<subseteq> set (role_grants RoleAdmin)"
proof -
  have can: "Can PermManageSystem (Some (NewPrincipal u tid e roles)) \<longleftrightarrow> RoleOwner \<in> set roles"
    unfolding Can_iff using system_grant by auto
  moreover have "ppTenantID (NewPrincipal u tid e roles) = tid" by (simp add: NewPrincipal_def)
  moreover have "set (role_grants RoleViewer) \<subseteq> set (role_grants RoleAnalyst)" "set (role_grants RoleAnalyst) \<subseteq> set (role_grants RoleAdmin)"
    by (code_simp)+
  ultimately show ?thesis by (auto simp: TenantScoped_def)
qed

subsection \<open>Tokens are authentic\<close>

text \<open>What an accepted token carries.\<close>

definition token_for :: "jwt_codec \<Rightarrow> token_issuer \<Rightarrow> time \<Rightarrow> string \<Rightarrow> claims \<Rightarrow> bool" where
  "token_for k ti now token c \<longleftrightarrow>
     (\<exists>h p s hb hdr cb. token = h @ ''.'' @ p @ ''.'' @ s \<and> unb64 s = Some (jHmac k (tiKey ti) (h @ ''.'' @ p)) \<and>
        unb64 h = Some hb \<and> jUnmarshalHeader k hb = Some hdr \<and> jhAlg hdr = ''HS256'' \<and>
        unb64 p = Some cb \<and> jUnmarshalClaims k cb = Some c \<and> (clExpiresAt c = 0 \<or> unix_time now < clExpiresAt c))"

lemma Verify_token_for: "token_Verify k ti now token = Inr c \<Longrightarrow> token_for k ti now token c"
proof -
  assume v: "token_Verify k ti now token = Inr c"
  have l: "length (Split ''.'' token) = 3" using v by (simp add: token_Verify_def Let_def split: if_splits)
  then obtain h p s where parts: "Split ''.'' token = [h, p, s]"
    by (auto simp: numeral_3_eq_3 length_Suc_conv)
  then have t: "token = h @ ''.'' @ p @ ''.'' @ s" using join_Split [of "''.''" token] by simp
  let ?m = "jHmac k (tiKey ti) (h @ ''.'' @ p)"
  note v' = v [unfolded token_Verify_def Let_def parts mac_def, simplified]
  have sig: "unb64 s = Some ?m" using v' by (simp split: option.splits if_splits)
  then obtain hb where hb: "unb64 h = Some hb" using v' by (simp split: option.splits)
  then obtain hdr where hdr: "jUnmarshalHeader k hb = Some hdr" "jhAlg hdr = ''HS256''"
    using v' sig by (simp split: option.splits if_splits)
  then obtain cb where cb: "unb64 p = Some cb" using v' sig hb by (simp split: option.splits)
  have c: "jUnmarshalClaims k cb = Some c" "clExpiresAt c = 0 \<or> unix_time now < clExpiresAt c"
    using v' sig hb hdr cb by (auto split: option.splits if_splits)
  show ?thesis unfolding token_for_def using t sig hb hdr cb c by blast
qed

lemma Verify_sign:
  assumes "jUnmarshalHeader k (jMarshalHeader k \<lparr>jhAlg = ''HS256'', jhTyp = ''JWT''\<rparr>) = Some \<lparr>jhAlg = ''HS256'', jhTyp = ''JWT''\<rparr>"
    and "jUnmarshalClaims k (jMarshalClaims k c) = Some c"
    and "clExpiresAt c = 0 \<or> unix_time now < clExpiresAt c"
  shows "token_Verify k ti now (sign k ti c) = Inr c"
proof -
  let ?h = "b64 (jMarshalHeader k \<lparr>jhAlg = ''HS256'', jhTyp = ''JWT''\<rparr>)" and ?p = "b64 (jMarshalClaims k c)"
  let ?s = "b64 (mac k ti (?h @ ''.'' @ ?p))"
  have "sign k ti c = ?h @ CHR ''.'' # ?p @ CHR ''.'' # ?s" by (simp add: sign_def Let_def)
  then have "Split ''.'' (sign k ti c) = [?h, ?p, ?s]"
    by (simp add: Split_char_Cons Split_char_Nil dot_notin_b64)
  then show ?thesis using assms by (auto simp: token_Verify_def Let_def unb64_b64)
qed

definition principal_ok :: "principal \<Rightarrow> bool" where
  "principal_ok p \<longleftrightarrow> ppPerms p = PermissionsForRoles (ppRoles p)"

lemma principal_roundtrip: "principal_ok p \<Longrightarrow> PrincipalFromClaims (claims_for ti now p) = p"
  by (simp add: principal_ok_def PrincipalFromClaims_def claims_for_def NewPrincipal_def)

lemma principal_ok_New [simp]: "principal_ok (NewPrincipal u t e rs)"
  by (simp add: principal_ok_def NewPrincipal_def)

lemma unix_time_mono: "t \<le> u \<Longrightarrow> unix_time t \<le> unix_time u"
  by (simp add: unix_time_def zdiv_mono1)

end
