(* ===== verification/Tenants.thy ===== *)
theory Tenants
  imports Prelude
begin

text \<open>
  The in-memory tenant store of \<^verbatim>\<open>src/pkg/platform/tenant.go\<close> and its snapshot and restore
  (\<^verbatim>\<open>persist.go\<close>).  The store keeps copies, so tenants are values; the two indexes hold the same copy.
\<close>

abbreviation (input) TenantActive :: string where "TenantActive \<equiv> ''active''"
abbreviation (input) PlanFree :: string where "PlanFree \<equiv> ''free''"

record tenant =
  tnID :: string
  tnSlug :: string
  tnName :: string
  tnPlan :: string
  tnStatus :: string
  tnCreatedAt :: time

record tenant_store =
  tsByID :: "(string, tenant) gomap"
  tsBySlug :: "(string, tenant) gomap"

datatype store_error = FieldsRequired | ErrConflict | ErrNotFound

definition NewMemTenantStore :: tenant_store where
  "NewMemTenantStore = \<lparr>tsByID = [], tsBySlug = []\<rparr>"

definition normalizeSlug :: "string \<Rightarrow> string" where
  "normalizeSlug s = to_lower (trim_space s)"

definition tenant_Create :: "string \<Rightarrow> time \<Rightarrow> tenant \<Rightarrow> tenant_store \<Rightarrow> tenant_store \<times> (store_error + tenant)" where
  "tenant_Create fresh now t s =
     (if tnSlug t = '''' \<or> tnName t = '''' then (s, Inl FieldsRequired)
      else
        let slug = normalizeSlug (tnSlug t) in
        if map_of (tsBySlug s) slug \<noteq> None then (s, Inl ErrConflict)
        else
          let t1 = t\<lparr>tnID := (if tnID t = '''' then fresh else tnID t)\<rparr> in
          if map_of (tsByID s) (tnID t1) \<noteq> None then (s, Inl ErrConflict)
          else
            let t2 = t1\<lparr>tnSlug := slug, tnStatus := (if tnStatus t = '''' then TenantActive else tnStatus t),
                        tnPlan := (if tnPlan t = '''' then PlanFree else tnPlan t),
                        tnCreatedAt := (if tnCreatedAt t = zero_time then now else tnCreatedAt t)\<rparr>
            in (s\<lparr>tsByID := mput (tnID t2) t2 (tsByID s), tsBySlug := mput slug t2 (tsBySlug s)\<rparr>, Inr t2))"

definition tenant_Get :: "string \<Rightarrow> tenant_store \<Rightarrow> store_error + tenant" where
  "tenant_Get i s = (case map_of (tsByID s) i of None \<Rightarrow> Inl ErrNotFound | Some t \<Rightarrow> Inr t)"

definition GetBySlug :: "string \<Rightarrow> tenant_store \<Rightarrow> store_error + tenant" where
  "GetBySlug slug s = (case map_of (tsBySlug s) (normalizeSlug slug) of None \<Rightarrow> Inl ErrNotFound | Some t \<Rightarrow> Inr t)"

definition tenant_List :: "(string list \<Rightarrow> string list) \<Rightarrow> tenant_store \<Rightarrow> tenant list" where
  "tenant_List ord s = map (\<lambda>i. the (map_of (tsByID s) i)) (ord (keys (tsByID s)))"

definition tenant_Update :: "tenant \<Rightarrow> tenant_store \<Rightarrow> tenant_store \<times> (store_error + tenant)" where
  "tenant_Update t s =
     (case map_of (tsByID s) (tnID t) of
        None \<Rightarrow> (s, Inl ErrNotFound)
      | Some old \<Rightarrow>
          let t' = t\<lparr>tnSlug := tnSlug old, tnCreatedAt := tnCreatedAt old\<rparr>
          in (s\<lparr>tsByID := mput (tnID t) t' (tsByID s), tsBySlug := mput (tnSlug t') t' (tsBySlug s)\<rparr>, Inr t'))"

definition tenant_Delete :: "string \<Rightarrow> tenant_store \<Rightarrow> tenant_store \<times> store_error option" where
  "tenant_Delete i s =
     (case map_of (tsByID s) i of
        None \<Rightarrow> (s, Some ErrNotFound)
      | Some t \<Rightarrow> (s\<lparr>tsByID := mdel i (tsByID s), tsBySlug := mdel (tnSlug t) (tsBySlug s)\<rparr>, None))"

text \<open>A restart: the tenants in map order, put back one by one.\<close>

definition restoreTenants :: "tenant list \<Rightarrow> tenant_store" where
  "restoreTenants ts =
     fold (\<lambda>t s. s\<lparr>tsByID := mput (tnID t) t (tsByID s), tsBySlug := mput (tnSlug t) t (tsBySlug s)\<rparr>) ts NewMemTenantStore"

subsection \<open>The two indexes agree\<close>

text \<open>
  The abstract store is the identifier index; the slug index is its inverse on slugs: every entry of
  one is found in the other.
\<close>

definition tenants_ok :: "tenant_store \<Rightarrow> bool" where
  "tenants_ok s \<longleftrightarrow>
     (\<forall>i t. map_of (tsByID s) i = Some t \<longrightarrow> tnID t = i \<and> map_of (tsBySlug s) (tnSlug t) = Some t) \<and>
     (\<forall>l t. map_of (tsBySlug s) l = Some t \<longrightarrow> tnSlug t = l \<and> map_of (tsByID s) (tnID t) = Some t)"

lemma tenants_ok_New [wf_intros]: "tenants_ok NewMemTenantStore"
  by (simp add: tenants_ok_def NewMemTenantStore_def)

lemma tenants_okD:
  assumes "tenants_ok s"
  shows "map_of (tsByID s) i = Some t \<Longrightarrow> tnID t = i" "map_of (tsByID s) i = Some t \<Longrightarrow> map_of (tsBySlug s) (tnSlug t) = Some t"
    "map_of (tsBySlug s) l = Some t \<Longrightarrow> tnSlug t = l" "map_of (tsBySlug s) l = Some t \<Longrightarrow> map_of (tsByID s) (tnID t) = Some t"
  using assms by (auto simp: tenants_ok_def)

lemma tenants_ok_insert:
  assumes "tenants_ok s" and "map_of (tsByID s) (tnID t) = None" and "map_of (tsBySlug s) (tnSlug t) = None"
  shows "tenants_ok (s\<lparr>tsByID := mput (tnID t) t (tsByID s), tsBySlug := mput (tnSlug t) t (tsBySlug s)\<rparr>)"
  using assms unfolding tenants_ok_def
  by (auto split: if_splits) (metis option.distinct(1))+

lemma tenant_Create_ok [wf_intros]: "tenants_ok s \<Longrightarrow> tenants_ok (fst (tenant_Create fresh now t s))"
proof -
  assume ok: "tenants_ok s"
  let ?t1 = "t\<lparr>tnID := (if tnID t = '''' then fresh else tnID t)\<rparr>"
  let ?t = "?t1\<lparr>tnSlug := normalizeSlug (tnSlug t), tnStatus := (if tnStatus t = '''' then TenantActive else tnStatus t),
     tnPlan := (if tnPlan t = '''' then PlanFree else tnPlan t), tnCreatedAt := (if tnCreatedAt t = zero_time then now else tnCreatedAt t)\<rparr>"
  show ?thesis
  proof (cases "tnSlug t = '''' \<or> tnName t = '''' \<or> map_of (tsBySlug s) (normalizeSlug (tnSlug t)) \<noteq> None \<or>
      map_of (tsByID s) (tnID ?t1) \<noteq> None")
    case True
    with ok show ?thesis by (auto simp: tenant_Create_def Let_def)
  next
    case False
    with tenants_ok_insert [OF ok, of ?t] show ?thesis by (simp add: tenant_Create_def Let_def)
  qed
qed

lemma tenant_Update_ok [wf_intros]: "tenants_ok s \<Longrightarrow> tenants_ok (fst (tenant_Update t s))"
  unfolding tenants_ok_def tenant_Update_def Let_def
  by (auto split: option.splits if_splits) (metis option.inject)+

lemma tenant_Delete_ok [wf_intros]: "tenants_ok s \<Longrightarrow> tenants_ok (fst (tenant_Delete i s))"
  unfolding tenants_ok_def tenant_Delete_def
  by (auto split: option.splits if_splits) (metis option.inject)+

end
