(* ===== verification/Identity.thy ===== *)
theory Identity
  imports Tenants Events
begin

text \<open>
  Users, passwords and API keys (\<^verbatim>\<open>src/pkg/platform/identity.go\<close>, \<^verbatim>\<open>persist.go\<close>).  The store shares user
  objects by pointer between its indexes and its callers, so users live in a heap (a list, addressed
  by position) and the indexes hold addresses.  HMAC-SHA-256 (\<open>prf\<close>, keyed by the password), SHA-256 in
  hexadecimal (\<open>sha\<close>), random salts, keys and identifiers are parameters; the key derivation is computed.
\<close>

subsection \<open>Password hashing\<close>

abbreviation (input) pbkdf2Iterations :: nat where "pbkdf2Iterations \<equiv> 210000"
abbreviation (input) pbkdf2KeyLen :: nat where "pbkdf2KeyLen \<equiv> 32"

definition xor_bytes :: "byte list \<Rightarrow> byte list \<Rightarrow> byte list" where
  "xor_bytes = map2 xor"

definition block_index :: "nat \<Rightarrow> byte list" where
  "block_index b = [of_nat (b div 16777216), of_nat (b div 65536), of_nat (b div 256), of_nat b]"

text \<open>The inner loop from iteration \<open>n\<close> on, with \<open>todo\<close> iterations left.\<close>

primrec pbkdf2_iter :: "nat \<Rightarrow> (byte list \<Rightarrow> byte list) \<Rightarrow> byte list \<Rightarrow> byte list \<Rightarrow> byte list" where
  "pbkdf2_iter 0 prf t u = t"
| "pbkdf2_iter (Suc todo) prf t u = (let u' = prf u in pbkdf2_iter todo prf (xor_bytes t u') u')"

primrec pbkdf2_blocks :: "nat \<Rightarrow> nat \<Rightarrow> (byte list \<Rightarrow> byte list) \<Rightarrow> byte list \<Rightarrow> nat \<Rightarrow> byte list \<Rightarrow> byte list" where
  "pbkdf2_blocks 0 block prf salt iter dk = dk"
| "pbkdf2_blocks (Suc todo) block prf salt iter dk =
     (let t = prf (salt @ block_index block)
      in pbkdf2_blocks todo (Suc block) prf salt iter (dk @ pbkdf2_iter (iter - 1) prf t t))"

definition pbkdf2Key :: "(byte list \<Rightarrow> byte list \<Rightarrow> byte list) \<Rightarrow> nat \<Rightarrow> byte list \<Rightarrow> byte list \<Rightarrow> nat \<Rightarrow> nat \<Rightarrow> byte list" where
  "pbkdf2Key hmac hashLen password salt iter keyLen =
     take keyLen (pbkdf2_blocks ((keyLen + hashLen - 1) div hashLen) 1 (hmac password) salt iter [])"

subsection \<open>Users\<close>

abbreviation (input) UserActive :: string where "UserActive \<equiv> ''active''"
abbreviation (input) UserDisabled :: string where "UserDisabled \<equiv> ''disabled''"

record user =
  uID :: string
  uTenantID :: string
  uEmail :: string
  uUsername :: string
  uRoles :: "string list"
  uStatus :: string
  uCreatedAt :: time
  uPasswordHash :: "byte list"
  uPasswordSalt :: "byte list"
  uApiKeyHashes :: "(string, unit) gomap"

record user_store =
  usHeap :: "user list"
  usByID :: "(string, nat) gomap"
  usByEmail :: "(string, nat) gomap"
  usByAPIKey :: "(string, string) gomap"

definition SetPassword :: "(byte list \<Rightarrow> byte list \<Rightarrow> byte list) \<Rightarrow> byte list \<Rightarrow> string \<Rightarrow> user \<Rightarrow> user option" where
  "SetPassword hmac salt password u =
     (if length password < 8 then None
      else Some (u\<lparr>uPasswordSalt := salt, uPasswordHash := pbkdf2Key hmac 32 (of_chars password) salt pbkdf2Iterations pbkdf2KeyLen\<rparr>))"

definition CheckPassword :: "(byte list \<Rightarrow> byte list \<Rightarrow> byte list) \<Rightarrow> string \<Rightarrow> user \<Rightarrow> bool" where
  "CheckPassword hmac password u =
     (if length (uPasswordHash u) = 0 then False
      else pbkdf2Key hmac 32 (of_chars password) (uPasswordSalt u) pbkdf2Iterations pbkdf2KeyLen = uPasswordHash u)"

definition NewMemUserStore :: user_store where
  "NewMemUserStore = \<lparr>usHeap = [], usByID = [], usByEmail = [], usByAPIKey = []\<rparr>"

definition emailKey :: "string \<Rightarrow> string \<Rightarrow> string" where
  "emailKey tenantID email = tenantID @ [CHR 0x00] @ to_lower (trim_space email)"

definition put_keys :: "string list \<Rightarrow> string \<Rightarrow> (string, string) gomap \<Rightarrow> (string, string) gomap" where
  "put_keys hs uid m = fold (\<lambda>h m. mput h uid m) hs m"

definition user_Create :: "string \<Rightarrow> time \<Rightarrow> user \<Rightarrow> user_store \<Rightarrow> user_store \<times> (store_error + nat)" where
  "user_Create fresh now u s =
     (if uTenantID u = '''' \<or> uEmail u = '''' then (s, Inl FieldsRequired)
      else
        let ek = emailKey (uTenantID u) (uEmail u) in
        if map_of (usByEmail s) ek \<noteq> None then (s, Inl ErrConflict)
        else
          let u1 = u\<lparr>uID := (if uID u = '''' then fresh else uID u)\<rparr> in
          if map_of (usByID s) (uID u1) \<noteq> None then (s, Inl ErrConflict)
          else
            let u2 = u1\<lparr>uStatus := (if uStatus u = '''' then UserActive else uStatus u),
                        uCreatedAt := (if uCreatedAt u = zero_time then now else uCreatedAt u)\<rparr>;
                a = length (usHeap s)
            in (s\<lparr>usHeap := usHeap s @ [u2], usByID := mput (uID u2) a (usByID s), usByEmail := mput ek a (usByEmail s),
                  usByAPIKey := put_keys (keys (uApiKeyHashes u2)) (uID u2) (usByAPIKey s)\<rparr>, Inr a))"

definition user_Get :: "string \<Rightarrow> user_store \<Rightarrow> store_error + nat" where
  "user_Get i s = (case map_of (usByID s) i of None \<Rightarrow> Inl ErrNotFound | Some a \<Rightarrow> Inr a)"

definition GetByEmail :: "string \<Rightarrow> string \<Rightarrow> user_store \<Rightarrow> store_error + nat" where
  "GetByEmail tenantID email s = (case map_of (usByEmail s) (emailKey tenantID email) of None \<Rightarrow> Inl ErrNotFound | Some a \<Rightarrow> Inr a)"

definition ListByTenant :: "(string list \<Rightarrow> string list) \<Rightarrow> string \<Rightarrow> user_store \<Rightarrow> nat list" where
  "ListByTenant ord tenantID s =
     filter (\<lambda>a. uTenantID (usHeap s ! a) = tenantID) (map (\<lambda>i. the (map_of (usByID s) i)) (ord (keys (usByID s))))"

definition user_Update :: "nat \<Rightarrow> user_store \<Rightarrow> user_store \<times> store_error option" where
  "user_Update a s =
     (let u = usHeap s ! a in
      if map_of (usByID s) (uID u) = None then (s, Some ErrNotFound)
      else
        (s\<lparr>usByID := mput (uID u) a (usByID s), usByEmail := mput (emailKey (uTenantID u) (uEmail u)) a (usByEmail s),
           usByAPIKey := put_keys (keys (uApiKeyHashes u)) (uID u) (filter (\<lambda>(h, uid). uid \<noteq> uID u) (usByAPIKey s))\<rparr>, None))"

definition user_Delete :: "string \<Rightarrow> user_store \<Rightarrow> user_store \<times> store_error option" where
  "user_Delete i s =
     (case map_of (usByID s) i of
        None \<Rightarrow> (s, Some ErrNotFound)
      | Some a \<Rightarrow>
          let u = usHeap s ! a in
          (s\<lparr>usByID := mdel i (usByID s), usByEmail := mdel (emailKey (uTenantID u) (uEmail u)) (usByEmail s),
             usByAPIKey := filter (\<lambda>(h, uid). uid \<noteq> i) (usByAPIKey s)\<rparr>, None))"

text \<open>The inner option is the pointer the identifier index holds, nil when there is none.\<close>

definition ResolveAPIKey :: "(string \<Rightarrow> string) \<Rightarrow> string \<Rightarrow> user_store \<Rightarrow> store_error + nat option" where
  "ResolveAPIKey sha raw s =
     (case map_of (usByAPIKey s) (sha raw) of None \<Rightarrow> Inl ErrNotFound | Some uid \<Rightarrow> Inr (map_of (usByID s) uid))"

definition set_user :: "nat \<Rightarrow> (user \<Rightarrow> user) \<Rightarrow> user_store \<Rightarrow> user_store" where
  "set_user a f s = s\<lparr>usHeap := (usHeap s)[a := f (usHeap s ! a)]\<rparr>"

definition GenerateAPIKey :: "(string \<Rightarrow> string) \<Rightarrow> string \<Rightarrow> user \<Rightarrow> user \<times> string" where
  "GenerateAPIKey sha hex u =
     (let raw = ''nsk_'' @ hex in (u\<lparr>uApiKeyHashes := mput (sha raw) () (uApiKeyHashes u)\<rparr>, raw))"

definition RevokeAPIKey :: "(string \<Rightarrow> string) \<Rightarrow> string \<Rightarrow> user \<Rightarrow> user" where
  "RevokeAPIKey sha raw u = u\<lparr>uApiKeyHashes := mdel (sha raw) (uApiKeyHashes u)\<rparr>"

subsection \<open>Snapshots\<close>

definition snapshotUsers :: "(string list \<Rightarrow> string list) \<Rightarrow> user_store \<Rightarrow> user list" where
  "snapshotUsers ord s = map (\<lambda>i. usHeap s ! the (map_of (usByID s) i)) (ord (keys (usByID s)))"

fun restore_users :: "user list \<Rightarrow> user_store \<Rightarrow> user_store" where
  "restore_users [] s = s"
| "restore_users (u # us) s =
     (let a = length (usHeap s) in
      restore_users us (s\<lparr>usHeap := usHeap s @ [u], usByID := mput (uID u) a (usByID s),
        usByEmail := mput (emailKey (uTenantID u) (uEmail u)) a (usByEmail s),
        usByAPIKey := put_keys (keys (uApiKeyHashes u)) (uID u) (usByAPIKey s)\<rparr>))"

definition restoreUsers :: "user list \<Rightarrow> user_store" where
  "restoreUsers us = restore_users us NewMemUserStore"

subsection \<open>The key derivation is PBKDF2\<close>

text \<open>
  The specification of RFC 8018: block \<open>i\<close> is the bytewise exclusive or of the iterates \<open>U\<^sub>1, \<dots>, U\<^sub>c\<close> of the
  pseudo-random function on the salt and the four-byte block number, and the key is the first bytes of
  the concatenated blocks.
\<close>

definition rfc_U :: "(byte list \<Rightarrow> byte list) \<Rightarrow> byte list \<Rightarrow> nat \<Rightarrow> nat \<Rightarrow> byte list" where
  "rfc_U prf salt i j = (prf ^^ j) (salt @ block_index i)"

definition rfc_block :: "(byte list \<Rightarrow> byte list) \<Rightarrow> nat \<Rightarrow> byte list \<Rightarrow> nat \<Rightarrow> nat \<Rightarrow> byte list" where
  "rfc_block prf hLen salt c i = map (\<lambda>k. foldr xor (map (\<lambda>j. rfc_U prf salt i j ! k) [1..<Suc c]) 0) [0..<hLen]"

definition rfc_pbkdf2 :: "(byte list \<Rightarrow> byte list) \<Rightarrow> nat \<Rightarrow> byte list \<Rightarrow> nat \<Rightarrow> nat \<Rightarrow> byte list" where
  "rfc_pbkdf2 prf hLen salt c dkLen =
     take dkLen (concat (map (rfc_block prf hLen salt c) [1..<Suc ((dkLen + hLen - 1) div hLen)]))"

lemma foldr_xor_start: "foldr xor xs (xor a b) = xor b (foldr xor xs (a :: byte))"
  by (induction xs) (simp_all add: ac_simps)

lemma length_xor_bytes [simp]: "length (xor_bytes t u) = min (length t) (length u)"
  by (simp add: xor_bytes_def)

lemma nth_xor_bytes: "k < length t \<Longrightarrow> k < length u \<Longrightarrow> xor_bytes t u ! k = xor (t ! k) (u ! k)"
  by (simp add: xor_bytes_def)

lemma upt_Suc_map: "[Suc m..<Suc n] = map Suc [m..<n]"
  by (simp add: map_Suc_upt)

lemma pbkdf2_iter_spec:
  assumes "\<And>x. length (prf x) = h"
  shows "length t = h \<Longrightarrow> length (pbkdf2_iter n prf t u) = h \<and>
    (\<forall>k < h. pbkdf2_iter n prf t u ! k = foldr xor (map (\<lambda>j. (prf ^^ j) u ! k) [1..<Suc n]) (t ! k))"
proof (induction n arbitrary: t u)
  case (Suc n)
  have "[1..<Suc (Suc n)] = 1 # map Suc [1..<Suc n]" by (simp add: upt_conv_Cons map_Suc_upt)
  then have split: "map (\<lambda>j. (prf ^^ j) u ! k) [1..<Suc (Suc n)] = prf u ! k # map (\<lambda>j. (prf ^^ j) (prf u) ! k) [1..<Suc n]" for k
    by (simp add: comp_def funpow_swap1)
  have l: "length (xor_bytes t (prf u)) = h" using Suc.prems assms by simp
  show ?case
  proof (intro conjI allI impI)
    show "length (pbkdf2_iter (Suc n) prf t u) = h" using Suc.IH [OF l, of "prf u"] by (simp add: Let_def)
    fix k assume k: "k < h"
    then have "pbkdf2_iter (Suc n) prf t u ! k = foldr xor (map (\<lambda>j. (prf ^^ j) (prf u) ! k) [1..<Suc n]) (xor (t ! k) (prf u ! k))"
      using Suc.IH [OF l, of "prf u"] Suc.prems assms by (simp add: Let_def nth_xor_bytes)
    then show "pbkdf2_iter (Suc n) prf t u ! k = foldr xor (map (\<lambda>j. (prf ^^ j) u ! k) [1..<Suc (Suc n)]) (t ! k)"
      unfolding split foldr_xor_start by simp
  qed
qed simp

lemma pbkdf2_block_spec:
  assumes "\<And>x. length (prf x) = h" and "0 < c"
  shows "pbkdf2_iter (c - 1) prf (prf (salt @ block_index i)) (prf (salt @ block_index i)) = rfc_block prf h salt c i"
proof (rule nth_equalityI)
  let ?t = "prf (salt @ block_index i)"
  have spec: "length (pbkdf2_iter (c - 1) prf ?t ?t) = h \<and>
      (\<forall>k < h. pbkdf2_iter (c - 1) prf ?t ?t ! k = foldr xor (map (\<lambda>j. (prf ^^ j) ?t ! k) [1..<Suc (c - 1)]) (?t ! k))"
    by (rule pbkdf2_iter_spec [OF assms(1) assms(1)])
  then show "length (pbkdf2_iter (c - 1) prf ?t ?t) = length (rfc_block prf h salt c i)" by (simp add: rfc_block_def)
  fix k assume "k < length (pbkdf2_iter (c - 1) prf ?t ?t)"
  with spec have k: "k < h" by simp
  have "[1..<Suc c] = 1 # map Suc [1..<Suc (c - 1)]" using assms(2) by (simp add: upt_conv_Cons map_Suc_upt)
  then have "map (\<lambda>j. rfc_U prf salt i j ! k) [1..<Suc c] = ?t ! k # map (\<lambda>j. (prf ^^ j) ?t ! k) [1..<Suc (c - 1)]"
    by (simp add: comp_def funpow_swap1 rfc_U_def)
  moreover have "foldr xor xs (?t ! k) = xor (?t ! k) (foldr xor xs 0)" for xs :: "byte list"
    using foldr_xor_start [of xs 0 "?t ! k"] by simp
  ultimately show "pbkdf2_iter (c - 1) prf ?t ?t ! k = rfc_block prf h salt c i ! k"
    using spec k by (simp add: rfc_block_def)
qed

lemma pbkdf2_blocks_spec:
  assumes "\<And>x. length (prf x) = h" and "0 < c"
  shows "pbkdf2_blocks n i prf salt c dk = dk @ concat (map (rfc_block prf h salt c) [i..<i + n])"
proof (induction n arbitrary: i dk)
  case (Suc n)
  have "[i..<i + Suc n] = i # [Suc i..<Suc i + n]" by (simp add: upt_conv_Cons)
  with Suc pbkdf2_block_spec [of "prf" h c salt i, OF assms] show ?case by (simp add: Let_def)
qed simp

definition toy_hmac :: "byte list \<Rightarrow> byte list \<Rightarrow> byte list" where
  "toy_hmac key x = [of_nat (length x) + sum_list key, sum_list x * 3 + 1]"

text \<open>C33: The password hash is PBKDF2. For every pseudo-random function with digests of a fixed positive
  length and every positive iteration count, the key derivation loop computes the key RFC 8018 specifies,
  and the key has the length asked for.\<close>

theorem pbkdf2_correct:
  assumes "\<And>x. length (hmac password x) = hLen" and "0 < hLen" and "0 < c"
  shows "pbkdf2Key hmac hLen password salt c dkLen = rfc_pbkdf2 (hmac password) hLen salt c dkLen \<and>
    length (pbkdf2Key hmac hLen password salt c dkLen) = dkLen"
proof -
  let ?l = "(dkLen + hLen - 1) div hLen"
  have eq: "pbkdf2Key hmac hLen password salt c dkLen = rfc_pbkdf2 (hmac password) hLen salt c dkLen"
    unfolding pbkdf2Key_def rfc_pbkdf2_def pbkdf2_blocks_spec [of "hmac password", OF assms(1,3)] by simp
  have "length (concat (map (rfc_block (hmac password) hLen salt c) xs)) = length xs * hLen" for xs
    by (induction xs) (simp_all add: rfc_block_def)
  moreover have "dkLen \<le> ?l * hLen"
    using assms(2) div_mult_mod_eq [of "dkLen + hLen - 1" hLen] mod_less_divisor [of hLen "dkLen + hLen - 1"] by linarith
  ultimately have "length (rfc_pbkdf2 (hmac password) hLen salt c dkLen) = dkLen"
    by (simp only: rfc_pbkdf2_def length_take length_upt diff_Suc_1 min_absorb2)
  with eq show ?thesis by simp
qed

theorem pbkdf2_correct_witness:
  "pbkdf2Key toy_hmac 2 [1, 2] [7] 3 5 = rfc_pbkdf2 (toy_hmac [1, 2]) 2 [7] 3 5 \<and> length (pbkdf2Key toy_hmac 2 [1, 2] [7] 3 5) = 5"
  by (rule pbkdf2_correct) (simp_all add: toy_hmac_def)

end
