(* ===== verification/Auth.thy ===== *)
theory Auth
  imports Access Identity LoginGuard
begin

text \<open>
  Authentication and authorization of requests: the local identity provider and the authenticator
  (\<^verbatim>\<open>src/pkg/platform/provider.go\<close>), the middleware (\<^verbatim>\<open>middleware.go\<close>), and the guards of the web server
  (\<^verbatim>\<open>src/pkg/web/server.go\<close>).  A request is its method, its relevant headers and its query token; a
  handler that would dereference a nil user panics, which is the outcome \<open>Panic\<close>.
\<close>

datatype 'a outcome = Done 'a | Panic

record http_request =
  rqMethod :: string
  rqAuthorization :: string
  rqAPIKey :: string
  rqToken :: string

text \<open>The cryptographic functions, the JSON codec of tokens and the key of the issuer.\<close>

record auth_env =
  aeJwt :: jwt_codec
  aeHmac :: "byte list \<Rightarrow> byte list \<Rightarrow> byte list"
  aeSha :: "string \<Rightarrow> string"
  aeIssuer :: token_issuer

subsection \<open>Providers\<close>

record credentials =
  crTenantID :: string
  crEmail :: string
  crUsername :: string
  crPassword :: string
  crAPIKey :: string
  crIDToken :: string

datatype auth_error = InvalidAPIKey | UserIsDisabled | CredentialsRequired | InvalidCredentials | UnknownProvider string

definition principalOf :: "user \<Rightarrow> principal" where
  "principalOf u = NewPrincipal (uID u) (uTenantID u) (uEmail u) (uRoles u)"

definition local_Authenticate :: "auth_env \<Rightarrow> credentials \<Rightarrow> user_store \<Rightarrow> (auth_error + principal) outcome" where
  "local_Authenticate x cr s =
     (if crAPIKey cr \<noteq> '''' then
        (case ResolveAPIKey (aeSha x) (crAPIKey cr) s of
           Inl e \<Rightarrow> Done (Inl InvalidAPIKey)
         | Inr None \<Rightarrow> Panic
         | Inr (Some a) \<Rightarrow>
             let u = usHeap s ! a in
             if uStatus u \<noteq> UserActive then Done (Inl UserIsDisabled) else Done (Inr (principalOf u)))
      else if crEmail cr = '''' \<or> crPassword cr = '''' then Done (Inl CredentialsRequired)
      else
        (case GetByEmail (crTenantID cr) (crEmail cr) s of
           Inl e \<Rightarrow> Done (Inl InvalidCredentials)
         | Inr a \<Rightarrow>
             let u = usHeap s ! a in
             if uStatus u \<noteq> UserActive then Done (Inl UserIsDisabled)
             else if \<not> CheckPassword (aeHmac x) (crPassword cr) u then Done (Inl InvalidCredentials)
             else Done (Inr (principalOf u))))"

type_synonym provider = "credentials \<Rightarrow> user_store \<Rightarrow> (auth_error + principal) outcome"

definition NewAuthenticator :: "auth_env \<Rightarrow> (string, provider) gomap" where
  "NewAuthenticator x = mput ''local'' (local_Authenticate x) []"

definition Register :: "string \<Rightarrow> provider \<Rightarrow> (string, provider) gomap \<Rightarrow> (string, provider) gomap" where
  "Register nm p m = mput nm p m"

definition Login ::
  "auth_env \<Rightarrow> (string, provider) gomap \<Rightarrow> time \<Rightarrow> string \<Rightarrow> credentials \<Rightarrow> user_store \<Rightarrow> (auth_error + string \<times> principal) outcome" where
  "Login x providers now name0 cr s =
     (let nm = (if name0 = '''' then ''local'' else name0) in
      case map_of providers nm of
        None \<Rightarrow> Done (Inl (UnknownProvider nm))
      | Some auth \<Rightarrow>
          (case auth cr s of
             Panic \<Rightarrow> Panic
           | Done (Inl e) \<Rightarrow> Done (Inl e)
           | Done (Inr p) \<Rightarrow> Done (Inr (Issue (aeJwt x) (aeIssuer x) now p, p))))"

subsection \<open>Middleware\<close>

definition bearer_principal :: "auth_env \<Rightarrow> time \<Rightarrow> string \<Rightarrow> principal option" where
  "bearer_principal x now auth =
     (if prefix ''Bearer '' auth then
        (case token_Verify (aeJwt x) (aeIssuer x) now (trim_space (TrimPrefix auth ''Bearer '')) of
           Inl e \<Rightarrow> None
         | Inr c \<Rightarrow> Some (PrincipalFromClaims c))
      else None)"

definition resolve :: "auth_env \<Rightarrow> time \<Rightarrow> user_store \<Rightarrow> http_request \<Rightarrow> principal option outcome" where
  "resolve x now s r =
     (case bearer_principal x now (rqAuthorization r) of
        Some p \<Rightarrow> Done (Some p)
      | None \<Rightarrow>
          if rqAPIKey r \<noteq> '''' then
            (case ResolveAPIKey (aeSha x) (rqAPIKey r) s of
               Inl e \<Rightarrow> Done None
             | Inr None \<Rightarrow> Panic
             | Inr (Some a) \<Rightarrow> if uStatus (usHeap s ! a) = UserActive then Done (Some (principalOf (usHeap s ! a))) else Done None)
          else Done None)"

text \<open>\<open>Inl\<close> is the refusal's status, \<open>Inr\<close> the principal the handler runs for.\<close>

definition Require ::
  "auth_env \<Rightarrow> time \<Rightarrow> user_store \<Rightarrow> string \<Rightarrow> principal option \<Rightarrow> http_request \<Rightarrow> (int + principal) outcome" where
  "Require x now s perm ctx r =
     (case (case ctx of Some p \<Rightarrow> Done (Some p) | None \<Rightarrow> resolve x now s r) of
        Panic \<Rightarrow> Panic
      | Done None \<Rightarrow> Done (Inl 401)
      | Done (Some p) \<Rightarrow> if Can perm (Some p) then Done (Inr p) else Done (Inl 403))"

subsection \<open>Guards of the server\<close>

text \<open>
  \<open>on\<close> says whether the control plane is enabled; without it the handlers are open (\<open>Inr None\<close>).
\<close>

definition method_guard ::
  "string \<Rightarrow> bool \<Rightarrow> auth_env \<Rightarrow> time \<Rightarrow> user_store \<Rightarrow> string \<Rightarrow> http_request \<Rightarrow> (int + principal option) outcome" where
  "method_guard meth on x now s perm r =
     (if rqMethod r \<noteq> meth then Done (Inl 405)
      else if on then
        (case Require x now s perm None r of Panic \<Rightarrow> Panic | Done (Inl c) \<Rightarrow> Done (Inl c) | Done (Inr p) \<Rightarrow> Done (Inr (Some p)))
      else Done (Inr None))"

definition mutationGuard ::
  "bool \<Rightarrow> auth_env \<Rightarrow> time \<Rightarrow> user_store \<Rightarrow> string \<Rightarrow> http_request \<Rightarrow> (int + principal option) outcome" where
  "mutationGuard = method_guard ''POST''"

definition dataGuard ::
  "bool \<Rightarrow> auth_env \<Rightarrow> time \<Rightarrow> user_store \<Rightarrow> string \<Rightarrow> http_request \<Rightarrow> (int + principal option) outcome" where
  "dataGuard = method_guard ''GET''"

text \<open>The check of the live event stream; no middleware puts a principal into its context.\<close>

definition sse_authed :: "bool \<Rightarrow> auth_env \<Rightarrow> time \<Rightarrow> http_request \<Rightarrow> bool" where
  "sse_authed on x now r =
     (if on then
        (let authed = (rqToken r \<noteq> '''' \<and> (case token_Verify (aeJwt x) (aeIssuer x) now (rqToken r) of Inl e \<Rightarrow> False | Inr c \<Rightarrow> True))
         in if \<not> authed then rqAuthorization r \<noteq> '''' else True)
      else True)"

subsection \<open>Well-formed user stores\<close>

definition users_ok :: "user_store \<Rightarrow> bool" where
  "users_ok s \<longleftrightarrow>
     (\<forall>i a. map_of (usByID s) i = Some a \<longrightarrow> a < length (usHeap s) \<and> uID (usHeap s ! a) = i \<and>
        map_of (usByEmail s) (emailKey (uTenantID (usHeap s ! a)) (uEmail (usHeap s ! a))) = Some a) \<and>
     (\<forall>k a. map_of (usByEmail s) k = Some a \<longrightarrow> a < length (usHeap s) \<and> map_of (usByID s) (uID (usHeap s ! a)) = Some a \<and>
        emailKey (uTenantID (usHeap s ! a)) (uEmail (usHeap s ! a)) = k) \<and>
     (\<forall>h i. map_of (usByAPIKey s) h = Some i \<longrightarrow> map_of (usByID s) i \<noteq> None) \<and>
     gomap_ok (usByAPIKey s)"

lemma users_okD:
  assumes "users_ok s"
  shows "map_of (usByID s) i = Some a \<Longrightarrow> a < length (usHeap s) \<and> uID (usHeap s ! a) = i \<and>
      map_of (usByEmail s) (emailKey (uTenantID (usHeap s ! a)) (uEmail (usHeap s ! a))) = Some a"
    and "map_of (usByEmail s) k = Some a \<Longrightarrow> a < length (usHeap s) \<and> map_of (usByID s) (uID (usHeap s ! a)) = Some a \<and>
      emailKey (uTenantID (usHeap s ! a)) (uEmail (usHeap s ! a)) = k"
    and "map_of (usByAPIKey s) h = Some i \<Longrightarrow> \<exists>a. map_of (usByID s) i = Some a"
    and "gomap_ok (usByAPIKey s)"
  using assms unfolding users_ok_def by blast+

lemma users_okI:
  assumes "usHeap s = hp" "usByID s = d" "usByEmail s = e" "usByAPIKey s = m"
    and "\<And>i a. map_of d i = Some a \<Longrightarrow> a < length hp \<and> uID (hp ! a) = i \<and> map_of e (emailKey (uTenantID (hp ! a)) (uEmail (hp ! a))) = Some a"
    and "\<And>k a. map_of e k = Some a \<Longrightarrow> a < length hp \<and> map_of d (uID (hp ! a)) = Some a \<and> emailKey (uTenantID (hp ! a)) (uEmail (hp ! a)) = k"
    and "\<And>h i. map_of m h = Some i \<Longrightarrow> map_of d i \<noteq> None" and "gomap_ok m"
  shows "users_ok s"
  unfolding users_ok_def assms(1-4) using assms(5-8) by blast

lemma map_of_put_keys: "map_of (put_keys hs i m) h = (if h \<in> set hs then Some i else map_of m h)"
  by (induction hs arbitrary: m) (auto simp: put_keys_def)

lemma gomap_ok_put_keys [simp]: "gomap_ok m \<Longrightarrow> gomap_ok (put_keys hs i m)"
  by (induction hs arbitrary: m) (auto simp: put_keys_def)

lemma users_ok_New [wf_intros]: "users_ok NewMemUserStore"
  by (simp add: users_ok_def NewMemUserStore_def)

lemma users_ok_alloc:
  assumes ok: "users_ok s" and "map_of (usByID s) (uID u) = None"
    and "map_of (usByEmail s) (emailKey (uTenantID u) (uEmail u)) = None"
  shows "users_ok (s\<lparr>usHeap := usHeap s @ [u], usByID := mput (uID u) (length (usHeap s)) (usByID s),
      usByEmail := mput (emailKey (uTenantID u) (uEmail u)) (length (usHeap s)) (usByEmail s),
      usByAPIKey := put_keys hs (uID u) (usByAPIKey s)\<rparr>)"
  (is "users_ok ?s")
proof -
  have id: "a < length (usHeap ?s) \<and> uID (usHeap ?s ! a) = i \<and>
      map_of (usByEmail ?s) (emailKey (uTenantID (usHeap ?s ! a)) (uEmail (usHeap ?s ! a))) = Some a"
    if "map_of (usByID ?s) i = Some a" for i a
    using that users_okD(1) [OF ok, of i a] assms(3) by (auto simp: nth_append split: if_splits)
  have em: "a < length (usHeap ?s) \<and> map_of (usByID ?s) (uID (usHeap ?s ! a)) = Some a \<and>
      emailKey (uTenantID (usHeap ?s ! a)) (uEmail (usHeap ?s ! a)) = k"
    if "map_of (usByEmail ?s) k = Some a" for k a
    using that users_okD(2) [OF ok, of k a] assms(2) by (auto simp: nth_append split: if_splits)
  have key: "map_of (usByID ?s) i \<noteq> None" if "map_of (usByAPIKey ?s) h = Some i" for h i
    using that users_okD(3) [OF ok, of h i] by (auto simp: map_of_put_keys split: if_splits)
  from id em key users_okD(4) [OF ok] show ?thesis unfolding users_ok_def by simp
qed

lemma user_Create_ok [wf_intros]: "users_ok s \<Longrightarrow> users_ok (fst (user_Create fresh now u s))"
proof -
  assume ok: "users_ok s"
  let ?u1 = "u\<lparr>uID := (if uID u = '''' then fresh else uID u)\<rparr>"
  let ?u = "?u1\<lparr>uStatus := (if uStatus u = '''' then UserActive else uStatus u),
     uCreatedAt := (if uCreatedAt u = zero_time then now else uCreatedAt u)\<rparr>"
  show ?thesis
  proof (cases "uTenantID u = '''' \<or> uEmail u = '''' \<or> map_of (usByEmail s) (emailKey (uTenantID u) (uEmail u)) \<noteq> None \<or>
      map_of (usByID s) (uID ?u1) \<noteq> None")
    case True
    with ok show ?thesis by (auto simp: user_Create_def Let_def)
  next
    case False
    with users_ok_alloc [OF ok, of ?u "keys (uApiKeyHashes u)"] show ?thesis by (simp add: user_Create_def Let_def)
  qed
qed

text \<open>A change that keeps identity, tenant and email, followed by the update.\<close>

lemma user_Update_ok [wf_intros]:
  assumes ok: "users_ok s" and a: "map_of (usByID s) i = Some a"
    and f: "\<And>u. uID (f u) = uID u \<and> uTenantID (f u) = uTenantID u \<and> uEmail (f u) = uEmail u"
  shows "users_ok (fst (user_Update a (set_user a f s)))"
proof -
  let ?h = "(usHeap s)[a := f (usHeap s ! a)]"
  have al: "a < length (usHeap s)" "uID (usHeap s ! a) = i"
    and em: "map_of (usByEmail s) (emailKey (uTenantID (usHeap s ! a)) (uEmail (usHeap s ! a))) = Some a"
    using users_okD(1) [OF ok a] by auto
  have h: "uID (?h ! b) = uID (usHeap s ! b)" "uTenantID (?h ! b) = uTenantID (usHeap s ! b)" "uEmail (?h ! b) = uEmail (usHeap s ! b)"
    if "b < length (usHeap s)" for b
    using that f by (cases "b = a"; simp)+
  have u: "uID (f (usHeap s ! a)) = i" "emailKey (uTenantID (f (usHeap s ! a))) (uEmail (f (usHeap s ! a))) =
      emailKey (uTenantID (usHeap s ! a)) (uEmail (usHeap s ! a))" using f al by simp_all
  have upd: "(map_of (usByID s))(i \<mapsto> a) = map_of (usByID s)"
    "(map_of (usByEmail s))(emailKey (uTenantID (usHeap s ! a)) (uEmail (usHeap s ! a)) \<mapsto> a) = map_of (usByEmail s)"
    using a em by (simp_all add: fun_upd_idem)
  let ?k = "put_keys (keys (uApiKeyHashes (f (usHeap s ! a)))) i (filter (\<lambda>(h, uid). uid \<noteq> i) (usByAPIKey s))"
  have key: "map_of (usByID s) j \<noteq> None" if "map_of ?k hh = Some j" for hh j
    using that users_okD(3) [OF ok, of hh j] a users_okD(4) [OF ok]
    by (auto simp: map_of_put_keys map_of_filter_key split: if_splits option.splits)
  have step: "fst (user_Update a (set_user a f s)) =
      s\<lparr>usHeap := ?h, usByID := mput i a (usByID s),
        usByEmail := mput (emailKey (uTenantID (usHeap s ! a)) (uEmail (usHeap s ! a))) a (usByEmail s), usByAPIKey := ?k\<rparr>"
    using al a u by (simp add: user_Update_def set_user_def Let_def)
  have id: "b < length ?h \<and> uID (?h ! b) = j \<and> map_of (usByEmail s) (emailKey (uTenantID (?h ! b)) (uEmail (?h ! b))) = Some b"
    if "map_of (usByID s) j = Some b" for j b
    using users_okD(1) [OF ok that] h [of b] by simp
  have el: "b < length ?h \<and> map_of (usByID s) (uID (?h ! b)) = Some b \<and> emailKey (uTenantID (?h ! b)) (uEmail (?h ! b)) = k"
    if "map_of (usByEmail s) k = Some b" for k b
    using users_okD(2) [OF ok that] h [of b] by simp
  show ?thesis
    unfolding step users_ok_def using id el key users_okD(4) [OF ok] by (simp add: upd)
qed

lemma user_Delete_ok [wf_intros]: "users_ok s \<Longrightarrow> users_ok (fst (user_Delete i s))"
proof (cases "map_of (usByID s) i")
  case (Some a)
  assume ok: "users_ok s"
  let ?k = "emailKey (uTenantID (usHeap s ! a)) (uEmail (usHeap s ! a))"
  have id: "b < length (usHeap s) \<and> uID (usHeap s ! b) = j \<and>
      emailKey (uTenantID (usHeap s ! b)) (uEmail (usHeap s ! b)) \<noteq> ?k \<and>
      map_of (usByEmail s) (emailKey (uTenantID (usHeap s ! b)) (uEmail (usHeap s ! b))) = Some b"
    if "map_of (usByID s) j = Some b" "j \<noteq> i" for j b
    using users_okD(1) [OF ok that(1)] users_okD(1) [OF ok Some] that(2) by (metis option.inject)
  have em: "b < length (usHeap s) \<and> uID (usHeap s ! b) \<noteq> i \<and> map_of (usByID s) (uID (usHeap s ! b)) = Some b \<and>
      emailKey (uTenantID (usHeap s ! b)) (uEmail (usHeap s ! b)) = k"
    if "map_of (usByEmail s) k = Some b" "k \<noteq> ?k" for k b
    using users_okD(2) [OF ok that(1)] that(2) Some by auto
  have key: "j \<noteq> i \<and> map_of (usByID s) j \<noteq> None"
    if "map_of (filter (\<lambda>(h, uid). uid \<noteq> i) (usByAPIKey s)) h = Some j" for h j
    using that users_okD(3) [OF ok, of h j] users_okD(4) [OF ok] by (auto simp: map_of_filter_key split: if_splits option.splits)
  have step: "fst (user_Delete i s) = s\<lparr>usByID := mdel i (usByID s), usByEmail := mdel ?k (usByEmail s),
      usByAPIKey := filter (\<lambda>(h, uid). uid \<noteq> i) (usByAPIKey s)\<rparr>"
    using Some by (simp add: user_Delete_def Let_def)
  have "users_ok (s\<lparr>usByID := d, usByEmail := e, usByAPIKey := m\<rparr>)"
    if "map_of d = (map_of (usByID s))(i := None)" "map_of e = (map_of (usByEmail s))(?k := None)"
      "m = filter (\<lambda>(h, uid). uid \<noteq> i) (usByAPIKey s)" for d e m
  proof -
    have dd: "map_of d j = (if j = i then None else map_of (usByID s) j)" for j using that(1) by simp
    have ee: "map_of e k = (if k = ?k then None else map_of (usByEmail s) k)" for k using that(2) by simp
    have 1: "b < length (usHeap s) \<and> uID (usHeap s ! b) = j \<and>
        map_of e (emailKey (uTenantID (usHeap s ! b)) (uEmail (usHeap s ! b))) = Some b" if "map_of d j = Some b" for j b
      using id [of j b] that unfolding dd ee by (cases "j = i") simp_all
    have 2: "b < length (usHeap s) \<and> map_of d (uID (usHeap s ! b)) = Some b \<and>
        emailKey (uTenantID (usHeap s ! b)) (uEmail (usHeap s ! b)) = k" if "map_of e k = Some b" for k b
      using em [of k b] that unfolding dd ee by (cases "k = ?k") simp_all
    have 3: "map_of d j \<noteq> None" if "map_of m h = Some j" for h j
      using key [of h j] that \<open>m = _\<close> unfolding dd by simp
    show ?thesis
      by (rule users_okI [of _ "usHeap s" d e m]) (use 1 2 3 that(3) users_okD(4) [OF ok] in simp_all)
  qed
  then show ?thesis unfolding step by simp
qed (simp add: user_Delete_def)

text \<open>In a well-formed store no key resolves to a nil user, so nothing panics.\<close>

lemma ResolveAPIKey_not_nil: "users_ok s \<Longrightarrow> ResolveAPIKey sha raw s \<noteq> Inr None"
  using users_okD(3) [of s "sha raw"] by (auto simp: ResolveAPIKey_def split: option.splits)

subsection \<open>Mediation\<close>

text \<open>
  The principals a request may speak for: the subject of an authentic, unexpired token in its bearer
  header, or the active user one of whose API keys it carries.
\<close>

definition authentic :: "auth_env \<Rightarrow> time \<Rightarrow> user_store \<Rightarrow> http_request \<Rightarrow> principal \<Rightarrow> bool" where
  "authentic x now s r p \<longleftrightarrow>
     (\<exists>tok c. prefix ''Bearer '' (rqAuthorization r) \<and> tok = trim_space (TrimPrefix (rqAuthorization r) ''Bearer '') \<and>
        token_for (aeJwt x) (aeIssuer x) now tok c \<and> p = PrincipalFromClaims c) \<or>
     (\<exists>uid a. rqAPIKey r \<noteq> '''' \<and> map_of (usByAPIKey s) (aeSha x (rqAPIKey r)) = Some uid \<and> map_of (usByID s) uid = Some a \<and>
        uStatus (usHeap s ! a) = UserActive \<and> p = principalOf (usHeap s ! a))"

lemma resolve_authentic:
  assumes "resolve x now s r = Done (Some p)"
  shows "authentic x now s r p"
proof (cases "bearer_principal x now (rqAuthorization r)")
  case (Some q)
  let ?tok = "trim_space (TrimPrefix (rqAuthorization r) ''Bearer '')"
  from Some assms have "q = p" by (simp add: resolve_def)
  from Some have b: "prefix ''Bearer '' (rqAuthorization r)" unfolding bearer_principal_def by (metis option.distinct(1))
  obtain c where c: "token_Verify (aeJwt x) (aeIssuer x) now ?tok = Inr c" and p: "p = PrincipalFromClaims c"
    using Some b \<open>q = p\<close> unfolding bearer_principal_def
    by (cases "token_Verify (aeJwt x) (aeIssuer x) now ?tok") simp_all
  from b p Verify_token_for [OF c] show ?thesis
    unfolding authentic_def by (intro disjI1 exI [of _ ?tok] exI [of _ c]) simp
next
  case None
  note r = assms [unfolded resolve_def None option.case]
  have key: "rqAPIKey r \<noteq> ''''" using r by (auto split: if_splits)
  obtain a where a: "ResolveAPIKey (aeSha x) (rqAPIKey r) s = Inr (Some a)" "uStatus (usHeap s ! a) = UserActive"
    "p = principalOf (usHeap s ! a)"
    using r key by (auto split: sum.splits option.splits if_splits)
  from a(1) obtain uid where "map_of (usByAPIKey s) (aeSha x (rqAPIKey r)) = Some uid" "map_of (usByID s) uid = Some a"
    by (auto simp: ResolveAPIKey_def split: option.splits)
  with key a(2,3) show ?thesis unfolding authentic_def by blast
qed

lemma resolve_returns: "users_ok s \<Longrightarrow> \<exists>v. resolve x now s r = Done v"
  using ResolveAPIKey_not_nil [of s] by (auto simp: resolve_def split: option.splits sum.splits)

lemma Require_returns: "users_ok s \<Longrightarrow> \<exists>v. Require x now s perm None r = Done v"
  using resolve_returns [of s x now r] by (auto simp: Require_def split: option.splits)

lemma Require_mediates:
  assumes "Require x now s perm None r = Done (Inr p)"
  shows "Can perm (Some p) \<and> authentic x now s r p"
  using assms resolve_authentic by (fastforce simp: Require_def split: outcome.splits option.splits if_splits)

lemma method_guard_mediates:
  assumes "method_guard meth True x now s perm r = Done (Inr q)"
  shows "\<exists>p. q = Some p \<and> rqMethod r = meth \<and> Can perm (Some p) \<and> authentic x now s r p"
proof -
  from assms have m: "rqMethod r = meth" by (auto simp: method_guard_def split: if_splits)
  from assms obtain p where "Require x now s perm None r = Done (Inr p)" "q = Some p"
    by (auto simp: method_guard_def split: if_splits outcome.splits sum.splits)
  with m Require_mediates show ?thesis by blast
qed

end
