(* ===== verification/Dashboard.thy ===== *)
theory Dashboard
  imports Auth Agent Scenarios
begin

text \<open>
  The handlers of the management API (\<^verbatim>\<open>src/pkg/web/server.go\<close>), wired to the agent's components the way
  \<^verbatim>\<open>initComponents\<close> of \<^verbatim>\<open>src/pkg/agent/controller.go\<close> wires them.  A handler takes the decoded request
  (\<open>None\<close> where decoding its body fails), the principal of the request (\<open>None\<close> when the control plane is
  off) and the agent, and returns the agent with its reply; \<open>Refused\<close> carries the status of an error
  reply.  The clock and the identifiers are those of \<open>agent_env\<close>, read at increasing positions.
\<close>

datatype 'b resp = Refused int | Reply int 'b

primrec status_of :: "'b resp \<Rightarrow> int" where
  "status_of (Refused c) = c"
| "status_of (Reply c b) = c"

definition callerEmail :: "principal option \<Rightarrow> string" where
  "callerEmail p = (case p of None \<Rightarrow> '''' | Some q \<Rightarrow> ppEmail q)"

definition callerID :: "principal option \<Rightarrow> string" where
  "callerID p = (case p of None \<Rightarrow> '''' | Some q \<Rightarrow> ppUserID q)"

subsection \<open>The administrative audit trail\<close>

definition admin_details :: "string \<Rightarrow> string \<Rightarrow> details \<Rightarrow> details" where
  "admin_details actorEmail actorID details =
     (let d = (if actorEmail \<noteq> '''' then mput ''actor_email'' (DStr actorEmail) details else details)
      in if actorID \<noteq> '''' then mput ''actor_user_id'' (DStr actorID) d else d)"

definition admin_entry :: "'s agent_env \<Rightarrow> nat \<Rightarrow> string \<Rightarrow> string \<Rightarrow> string \<Rightarrow> string \<Rightarrow> details \<Rightarrow> details entry" where
  "admin_entry x n eventType sev actorEmail actorID details =
     SetCategory CategorySecurity ClassFinding
       (NewEntry (xID x n) (stamp_at x n) eventType sev (Some (admin_details actorEmail actorID details)))"

definition recordAdminAudit ::
  "'s agent_env \<Rightarrow> nat \<Rightarrow> string \<Rightarrow> string \<Rightarrow> string \<Rightarrow> string \<Rightarrow> details \<Rightarrow> 's agent \<Rightarrow> 's agent" where
  "recordAdminAudit x n eventType sev actorEmail actorID details g =
     (case Append (xCodec x) (xWrite x) (admin_entry x n eventType sev actorEmail actorID details) (agChain g) of
        (c, Some err) \<Rightarrow> g\<lparr>agChain := c\<rparr>
      | (c, None) \<Rightarrow> g\<lparr>agChain := c, agBroadcast := map_option (\<lambda>l. l @ [last (chEntries c)]) (agBroadcast g)\<rparr>)"

abbreviation audit_as :: "'s agent_env \<Rightarrow> nat \<Rightarrow> principal option \<Rightarrow> string \<Rightarrow> string \<Rightarrow> details \<Rightarrow> 's agent \<Rightarrow> 's agent" where
  "audit_as x n caller eventType sev details \<equiv>
     recordAdminAudit x n eventType sev (callerEmail caller) (callerID caller) details"

subsection \<open>Cases\<close>

definition author_of :: "principal option \<Rightarrow> string" where
  "author_of p = (case p of None \<Rightarrow> ''operator'' | Some q \<Rightarrow> ppEmail q)"

text \<open>A positive number in the query replaces the default.\<close>

definition limit_param :: "int \<Rightarrow> string \<Rightarrow> int" where
  "limit_param dflt l =
     (if l \<noteq> '''' then (case Atoi l of None \<Rightarrow> dflt | Some n \<Rightarrow> if n > 0 then n else dflt) else dflt)"

definition handleCases ::
  "(ref list \<Rightarrow> ref list) \<Rightarrow> string \<Rightarrow> string \<Rightarrow> string \<Rightarrow> 's agent \<Rightarrow> (incident_case list \<times> incident_stats) resp" where
  "handleCases ord status severity lq g =
     Reply 200 (incident_List ord \<lparr>cfStatus = status, cfSeverity = severity, cfLimit = limit_param 100 lq\<rparr> (agIncidents g),
                incident_Stats (agIncidents g))"

definition handleCaseCreate ::
  "'s agent_env \<Rightarrow> principal option \<Rightarrow> finding option \<Rightarrow> 's agent \<Rightarrow> 's agent \<times> incident_case resp" where
  "handleCaseCreate x caller body g =
     (case body of
        None \<Rightarrow> (g, Refused 400)
      | Some f \<Rightarrow>
          if fRule f = '''' \<and> fRuleID f = '''' then (g, Refused 400)
          else
            let (st, r) = incident_Add (xID x 0) (xNow x 0) f (agIncidents g); c = case_at st r
            in (audit_as x 1 caller ''case:created'' ''info''
                  [(''case_id'', DStr (icID c)), (''rule'', DStr (icRule c)), (''pid'', DInt (icPID c))] (g\<lparr>agIncidents := st\<rparr>),
                Reply 201 c))"

definition handleCaseStatus ::
  "'s agent_env \<Rightarrow> principal option \<Rightarrow> string \<Rightarrow> string option \<Rightarrow> 's agent \<Rightarrow> 's agent \<times> (string \<times> string) resp" where
  "handleCaseStatus x caller i body g =
     (case body of
        None \<Rightarrow> (g, Refused 400)
      | Some status \<Rightarrow>
          (case SetStatus (xNow x 0) i status (agIncidents g) of
             (st, False) \<Rightarrow> (g\<lparr>agIncidents := st\<rparr>, Refused 404)
           | (st, True) \<Rightarrow>
               (audit_as x 1 caller ''case:status_change'' ''info'' [(''case_id'', DStr i), (''status'', DStr status)]
                  (g\<lparr>agIncidents := st\<rparr>), Reply 200 (i, status))))"

definition handleCaseAssign ::
  "'s agent_env \<Rightarrow> principal option \<Rightarrow> string \<Rightarrow> string option \<Rightarrow> 's agent \<Rightarrow> 's agent \<times> (string \<times> string) resp" where
  "handleCaseAssign x caller i body g =
     (case body of
        None \<Rightarrow> (g, Refused 400)
      | Some assignee \<Rightarrow>
          (case Assign (xNow x 0) i assignee (agIncidents g) of
             (st, False) \<Rightarrow> (g\<lparr>agIncidents := st\<rparr>, Refused 404)
           | (st, True) \<Rightarrow> (g\<lparr>agIncidents := st\<rparr>, Reply 200 (i, assignee))))"

definition handleCaseNote ::
  "'s agent_env \<Rightarrow> principal option \<Rightarrow> string \<Rightarrow> string option \<Rightarrow> 's agent \<Rightarrow> 's agent \<times> case_note resp" where
  "handleCaseNote x caller i body g =
     (case body of
        None \<Rightarrow> (g, Refused 400)
      | Some txt \<Rightarrow>
          if txt = '''' then (g, Refused 400)
          else case AddNote (xID x 0) (xNow x 0) (xNow x 1) i (author_of caller) txt (agIncidents g) of
             (st, None) \<Rightarrow> (g\<lparr>agIncidents := st\<rparr>, Refused 404)
           | (st, Some n) \<Rightarrow>
               (audit_as x 2 caller ''case:note:add'' ''low'' [(''case'', DStr i), (''note'', DStr (nID n))]
                  (g\<lparr>agIncidents := st\<rparr>), Reply 200 n))"

definition handleCaseNoteEdit ::
  "'s agent_env \<Rightarrow> principal option \<Rightarrow> string \<Rightarrow> string \<Rightarrow> string option \<Rightarrow> 's agent \<Rightarrow> 's agent \<times> case_note resp" where
  "handleCaseNoteEdit x caller i noteID body g =
     (case body of
        None \<Rightarrow> (g, Refused 400)
      | Some txt \<Rightarrow>
          if txt = '''' then (g, Refused 400)
          else case EditNote (xNow x 0) (xNow x 1) (xNow x 2) i noteID (author_of caller) txt (agIncidents g) of
             (st, None) \<Rightarrow> (g\<lparr>agIncidents := st\<rparr>, Refused 404)
           | (st, Some n) \<Rightarrow>
               (audit_as x 3 caller ''case:note:edit'' ''low''
                  [(''case'', DStr i), (''note'', DStr noteID), (''revisions'', DInt (int (length (nRevisions n))))]
                  (g\<lparr>agIncidents := st\<rparr>), Reply 200 n))"

definition handleCaseNoteDelete ::
  "'s agent_env \<Rightarrow> principal option \<Rightarrow> string \<Rightarrow> string \<Rightarrow> 's agent \<Rightarrow> 's agent \<times> case_note resp" where
  "handleCaseNoteDelete x caller i noteID g =
     (case DeleteNote (xNow x 0) (xNow x 1) i noteID (author_of caller) (agIncidents g) of
        (st, None) \<Rightarrow> (g\<lparr>agIncidents := st\<rparr>, Refused 404)
      | (st, Some n) \<Rightarrow>
          (audit_as x 2 caller ''case:note:delete'' ''medium'' [(''case'', DStr i), (''note'', DStr noteID)]
             (g\<lparr>agIncidents := st\<rparr>), Reply 200 n))"

definition handleCaseNoteRestore ::
  "'s agent_env \<Rightarrow> principal option \<Rightarrow> string \<Rightarrow> string \<Rightarrow> 's agent \<Rightarrow> 's agent \<times> case_note resp" where
  "handleCaseNoteRestore x caller i noteID g =
     (case RestoreNote (xNow x 0) i noteID (agIncidents g) of
        (st, None) \<Rightarrow> (g\<lparr>agIncidents := st\<rparr>, Refused 404)
      | (st, Some n) \<Rightarrow>
          (audit_as x 1 caller ''case:note:restore'' ''low'' [(''case'', DStr i), (''note'', DStr noteID)]
             (g\<lparr>agIncidents := st\<rparr>), Reply 200 n))"

subsection \<open>Detections, suppressions, responses\<close>

definition handleDetectionToggle ::
  "'s agent_env \<Rightarrow> principal option \<Rightarrow> string \<Rightarrow> bool option \<Rightarrow> 's agent \<Rightarrow> 's agent \<times> (string \<times> bool) resp" where
  "handleDetectionToggle x caller i body g =
     (case body of
        None \<Rightarrow> (g, Refused 400)
      | Some on \<Rightarrow>
          (case SetEnabled i on (agCorrelator g) of
             (c, False) \<Rightarrow> (g\<lparr>agCorrelator := c\<rparr>, Refused 404)
           | (c, True) \<Rightarrow>
               (audit_as x 0 caller (if on then ''detection:enabled'' else ''detection:disabled'') ''medium''
                  [(''rule_id'', DStr i)] (g\<lparr>agCorrelator := c\<rparr>), Reply 200 (i, on))))"

definition handleDetectionCreate ::
  "regexp \<Rightarrow> 's agent_env \<Rightarrow> principal option \<Rightarrow> rule_spec option \<Rightarrow> 's agent \<Rightarrow> 's agent \<times> string resp" where
  "handleDetectionCreate re x caller body g =
     (case body of
        None \<Rightarrow> (g, Refused 400)
      | Some spec \<Rightarrow>
          (case AddRule re (xID x 0) spec (agCorrelator g) of
             (c, Inl e) \<Rightarrow> (g\<lparr>agCorrelator := c\<rparr>, Refused 400)
           | (c, Inr i) \<Rightarrow>
               (audit_as x 1 caller ''detection:created'' ''medium'' [(''rule_id'', DStr i), (''name'', DStr (spName spec))]
                  (g\<lparr>agCorrelator := c\<rparr>), Reply 201 i)))"

definition handleDetectionUpdate ::
  "regexp \<Rightarrow> 's agent_env \<Rightarrow> principal option \<Rightarrow> string \<Rightarrow> rule_spec option \<Rightarrow> 's agent \<Rightarrow> 's agent \<times> string resp" where
  "handleDetectionUpdate re x caller i body g =
     (case body of
        None \<Rightarrow> (g, Refused 400)
      | Some spec \<Rightarrow>
          (case UpdateRule re (xID x 0) (spec\<lparr>spID := i\<rparr>) (agCorrelator g) of
             (c, Inl e) \<Rightarrow> (g\<lparr>agCorrelator := c\<rparr>, Refused (if e = ErrRuleNotFound \<or> e = ErrRuleNotCustom then 404 else 400))
           | (c, Inr r) \<Rightarrow>
               (audit_as x 1 caller ''detection:updated'' ''medium'' [(''rule_id'', DStr (rID r)), (''name'', DStr (rName r))]
                  (g\<lparr>agCorrelator := c\<rparr>), Reply 200 (rID r))))"

definition handleDetectionDelete ::
  "'s agent_env \<Rightarrow> principal option \<Rightarrow> string \<Rightarrow> 's agent \<Rightarrow> 's agent \<times> string resp" where
  "handleDetectionDelete x caller i g =
     (case RemoveRule i (agCorrelator g) of
        (c, Inl e) \<Rightarrow> (g\<lparr>agCorrelator := c\<rparr>, Refused 400)
      | (c, Inr _) \<Rightarrow>
          (audit_as x 0 caller ''detection:deleted'' ''medium'' [(''rule_id'', DStr i)] (g\<lparr>agCorrelator := c\<rparr>), Reply 200 i))"

definition handleSuppressionCreate ::
  "regexp \<Rightarrow> 's agent_env \<Rightarrow> principal option \<Rightarrow> suppression_spec option \<Rightarrow> 's agent \<Rightarrow> 's agent \<times> string resp" where
  "handleSuppressionCreate re x caller body g =
     (case body of
        None \<Rightarrow> (g, Refused 400)
      | Some spec \<Rightarrow>
          (case AddSuppression re (xID x 0) spec (agCorrelator g) of
             (c, Inl e) \<Rightarrow> (g\<lparr>agCorrelator := c\<rparr>, Refused 400)
           | (c, Inr i) \<Rightarrow>
               (audit_as x 1 caller ''suppression:created'' ''medium''
                  [(''id'', DStr i), (''rule_id'', DStr (ssRuleID spec)), (''reason'', DStr (ssReason spec))]
                  (g\<lparr>agCorrelator := c\<rparr>), Reply 201 i)))"

definition handleSuppressionDelete ::
  "'s agent_env \<Rightarrow> principal option \<Rightarrow> string \<Rightarrow> 's agent \<Rightarrow> 's agent \<times> string resp" where
  "handleSuppressionDelete x caller i g =
     (case RemoveSuppression i (agCorrelator g) of
        (c, Inl e) \<Rightarrow> (g\<lparr>agCorrelator := c\<rparr>, Refused 400)
      | (c, Inr _) \<Rightarrow>
          (audit_as x 0 caller ''suppression:deleted'' ''medium'' [(''id'', DStr i)] (g\<lparr>agCorrelator := c\<rparr>), Reply 200 i))"

definition handleBreaker :: "'s agent_env \<Rightarrow> principal option \<Rightarrow> bool option \<Rightarrow> 's agent \<Rightarrow> 's agent \<times> bool resp" where
  "handleBreaker x caller body g =
     (case body of
        None \<Rightarrow> (g, Refused 400)
      | Some armed \<Rightarrow>
          (audit_as x 0 caller (if armed then ''breaker:armed'' else ''breaker:disarmed'') ''high'' [(''armed'', DBool armed)]
             (g\<lparr>agBreaker := SetArmed armed (agBreaker g)\<rparr>), Reply 200 armed))"

definition handleLearning :: "'s agent_env \<Rightarrow> principal option \<Rightarrow> bool option \<Rightarrow> 's agent \<Rightarrow> 's agent \<times> bool resp" where
  "handleLearning x caller body g =
     (case body of
        None \<Rightarrow> (g, Refused 400)
      | Some on \<Rightarrow>
          (audit_as x 0 caller (if on then ''detections:learning_enabled'' else ''detections:enforce_enabled'') ''medium''
             [(''learning'', DBool on)] (g\<lparr>agCorrelator := SetLearningMode on (agCorrelator g)\<rparr>), Reply 200 on))"

text \<open>\<open>shown\<close> renders the result and the error of a response, \<open>params\<close> its parameters (\<^verbatim>\<open>fmt.Sprintf\<close>).\<close>

definition handleResponse ::
  "(response_error + response_result \<Rightarrow> string \<times> string) \<Rightarrow> ((string, string) gomap \<Rightarrow> string) \<Rightarrow> 's agent_env \<Rightarrow> principal option \<Rightarrow>
   (string \<times> (string, string) gomap) option \<Rightarrow> 's agent \<Rightarrow> 's agent \<times> string resp" where
  "handleResponse shown show_params x caller body g =
     (case body of
        None \<Rightarrow> (g, Refused 400)
      | Some (act, params) \<Rightarrow>
          if act = '''' then (g, Refused 400)
          else case executeResponse act params (agKernel g) of
             (m, Inl e) \<Rightarrow>
               (audit_as x 0 caller ''response:failed'' ''medium'' [(''action'', DStr act), (''error'', DStr (snd (shown (Inl e))))]
                  (g\<lparr>agKernel := m\<rparr>), Refused 400)
           | (m, Inr r) \<Rightarrow>
               (audit_as x 0 caller (''response:'' @ act) ''high''
                  [(''params'', DStr (show_params params)), (''result'', DStr (fst (shown (Inr r))))]
                  (g\<lparr>agKernel := m\<rparr>), Reply 200 (fst (shown (Inr r)))))"

definition test_alert :: alert where
  "test_alert =
     \<lparr>alTimestamp = zero_time, alTitle = ''NeuroSentry test notification'', alSeverity = ''critical'', alSource = ''console'',
      alMessage = ''This is a test alert triggered from the NeuroSentry console.'', alFields = []\<rparr>"

definition handleNotifyTest :: "'s agent_env \<Rightarrow> principal option \<Rightarrow> 's agent \<Rightarrow> 's agent \<times> (int \<times> int) resp" where
  "handleNotifyTest x caller g =
     (case Route (xSend x) (xNow x 0) test_alert (agNotifier g) of
        (r, out, _) \<Rightarrow>
          let delivered = int (length (filter snd out)); channels = int (length (rtChannels r))
          in (audit_as x 1 caller ''notify:test'' ''info'' [(''delivered'', DInt delivered), (''channels'', DInt channels)]
                (g\<lparr>agNotifier := r\<rparr>), Reply 200 (delivered, channels)))"

subsection \<open>Views\<close>

definition handleRawEvents :: "string \<Rightarrow> 's agent \<Rightarrow> (signal list \<times> nat) resp" where
  "handleRawEvents lq g = (let out = rev (RecentSignals (agCorrelator g) (limit_param 500 lq)) in Reply 200 (out, length out))"

definition handleCorrelateFindings :: "string \<Rightarrow> 's agent \<Rightarrow> (finding list \<times> nat) resp" where
  "handleCorrelateFindings lq g = (let fs = RecentFindings (agCorrelator g) (limit_param 100 lq) in Reply 200 (fs, length fs))"

definition handleDetections :: "'s agent \<Rightarrow> (detection_info list \<times> nat \<times> bool \<times> bool \<times> int) resp" where
  "handleDetections g =
     (let dets = Detections (agCorrelator g)
      in Reply 200 (dets, length dets, LearningMode (agCorrelator g), Armed (agBreaker g), TripCount (agBreaker g)))"

definition handleSuppressions :: "'s agent \<Rightarrow> ((suppression_spec \<times> int) list \<times> nat) resp" where
  "handleSuppressions g = (let ss = Suppressions (agCorrelator g) in Reply 200 (ss, length ss))"

definition handleDetectionValidate :: "(validation_result list \<times> nat \<times> nat \<times> bool) resp" where
  "handleDetectionValidate =
     (let results = ValidateRules BuiltinScenarios; passed = length (filter vrFired results)
      in Reply 200 (results, length results, passed, passed = length results))"

definition handleAudit :: "details codec \<Rightarrow> string \<Rightarrow> 's agent \<Rightarrow> (nat \<times> bool \<times> details entry list) resp" where
  "handleAudit k lq g =
     (let entries = Entries (agChain g); limit = limit_param 100 lq
      in Reply 200 (Len (agChain g), Verify k (agChain g) = None,
           if limit < int (length entries) then drop (length entries - nat limit) entries else entries))"

definition handleAuditVerify :: "details codec \<Rightarrow> 's agent \<Rightarrow> (nat \<times> audit_error option) resp" where
  "handleAuditVerify k g = Reply 200 (Len (agChain g), Verify k (agChain g))"

definition handleAuditExport :: "details codec \<Rightarrow> 's agent \<Rightarrow> (nat \<times> bool \<times> details entry list) resp" where
  "handleAuditExport k g = Reply 200 (Len (agChain g), Verify k (agChain g) = None, Entries (agChain g))"

definition handleDurableAudit :: "details codec \<Rightarrow> db option \<Rightarrow> (int \<times> nat \<times> audit_error option) resp" where
  "handleDurableAudit k d =
     (case d of None \<Rightarrow> Refused 503 | Some s \<Rightarrow> (case VerifyChain k s of (n, err) \<Rightarrow> Reply 200 (Count s, n, err)))"

subsection \<open>Search\<close>

text \<open>\<open>shw\<close> is \<^verbatim>\<open>fmt.Sprintf("%v", v)\<close> of a detail and \<open>rfc\<close> is \<^verbatim>\<open>time.Parse\<close>; integers are 64 bits wide.\<close>

definition entryMatchesText :: "(detail \<Rightarrow> string) \<Rightarrow> string \<Rightarrow> details entry \<Rightarrow> bool" where
  "entryMatchesText shw q e \<longleftrightarrow>
     sublist q (to_lower (enEventType e)) \<or>
     (\<exists>kv \<in> set (case enDetails e of None \<Rightarrow> [] | Some d \<Rightarrow> d). sublist q (to_lower (fst kv)) \<or> sublist q (to_lower (shw (snd kv)))) \<or>
     (case enActor e of None \<Rightarrow> False | Some a \<Rightarrow> sublist q (to_lower (aComm a)))"

record search_query =
  sqText :: string
  sqSeverity :: string
  sqType :: string
  sqLimit :: string
  sqOffset :: string
  sqSince :: string
  sqUntil :: string

definition search_time :: "(string \<Rightarrow> time option) \<Rightarrow> string \<Rightarrow> time" where
  "search_time rfc v = (if v \<noteq> '''' then (case rfc v of None \<Rightarrow> zero_time | Some t \<Rightarrow> t) else zero_time)"

definition search_passes :: "(detail \<Rightarrow> string) \<Rightarrow> (string \<Rightarrow> time option) \<Rightarrow> search_query \<Rightarrow> details entry \<Rightarrow> bool" where
  "search_passes shw rfc r e =
     (let q = to_lower (sqText r); since = search_time rfc (sqSince r); until = search_time rfc (sqUntil r);
          ts = tInstant (enTimestamp e) in
      if sqSeverity r \<noteq> '''' \<and> enSeverity e \<noteq> sqSeverity r then False
      else if sqType r \<noteq> '''' \<and> \<not> prefix (sqType r) (enEventType e) then False
      else if since \<noteq> zero_time \<and> ts < since then False
      else if until \<noteq> zero_time \<and> until < ts then False
      else if q \<noteq> '''' \<and> \<not> entryMatchesText shw q e then False
      else True)"

definition search_limit :: "search_query \<Rightarrow> int" where
  "search_limit r =
     (if sqLimit r \<noteq> '''' then (case Atoi (sqLimit r) of None \<Rightarrow> 50 | Some n \<Rightarrow> if 0 < n \<and> n \<le> 1000 then n else 50) else 50)"

definition search_offset :: "search_query \<Rightarrow> int" where
  "search_offset r =
     (if sqOffset r \<noteq> '''' then (case Atoi (sqOffset r) of None \<Rightarrow> 0 | Some n \<Rightarrow> if 0 \<le> n then n else 0) else 0)"

text \<open>\<^verbatim>\<open>xs[a:b]\<close> panics unless \<open>0 \<le> a \<le> b\<close> (the upper bound is clamped before).\<close>

definition go_slice :: "int \<Rightarrow> int \<Rightarrow> 'a list \<Rightarrow> 'a list outcome" where
  "go_slice a b xs = (if 0 \<le> a \<and> a \<le> b \<and> b \<le> int (length xs) then Done (take (nat (b - a)) (drop (nat a) xs)) else Panic)"

definition handleSearch ::
  "(detail \<Rightarrow> string) \<Rightarrow> (string \<Rightarrow> time option) \<Rightarrow> search_query \<Rightarrow> 's agent \<Rightarrow>
   (int \<times> int \<times> int \<times> details entry list) outcome" where
  "handleSearch shw rfc r g =
     (let limit = search_limit r; offset0 = search_offset r;
          matched = filter (search_passes shw rfc r) (rev (Entries (agChain g)));
          total = int (length matched);
          end0 = sint (word_of_int (offset0 + limit) :: 64 word);
          offset = (if total < offset0 then total else offset0);
          end1 = (if total < end0 then total else end0)
      in case go_slice offset end1 matched of Panic \<Rightarrow> Panic | Done results \<Rightarrow> Done (total, offset, limit, results))"

subsection \<open>Trends\<close>

text \<open>The samples are counts; a count is exact as a \<^verbatim>\<open>float64\<close> below \<open>2 ^ 53\<close>.\<close>

record trend_series =
  trCap :: nat
  trEvents :: "nat list"
  trThreats :: "nat list"
  trCases :: "nat list"
  trMCP :: "nat list"

definition newTrendSeries :: "nat \<Rightarrow> trend_series" where
  "newTrendSeries capacity = \<lparr>trCap = capacity, trEvents = [], trThreats = [], trCases = [], trMCP = []\<rparr>"

definition trend_push :: "nat \<Rightarrow> nat \<Rightarrow> nat \<Rightarrow> nat \<Rightarrow> trend_series \<Rightarrow> trend_series" where
  "trend_push events threats cases mcp t =
     (let push = (\<lambda>s v. keep_last (trCap t) (s @ [v]))
      in t\<lparr>trEvents := push (trEvents t) events, trThreats := push (trThreats t) threats,
           trCases := push (trCases t) cases, trMCP := push (trMCP t) mcp\<rparr>)"

definition trend_sample :: "'s agent \<Rightarrow> nat \<Rightarrow> trend_series \<Rightarrow> trend_series" where
  "trend_sample g mcpCalls t =
     trend_push (Len (agChain g)) (length (RecentFindings (agCorrelator g) 1000)) (stOpen (incident_Stats (agIncidents g))) mcpCalls t"

subsection \<open>Searching\<close>

lemma search_limit_bounds: "1 \<le> search_limit r \<and> search_limit r \<le> 1000"
  by (auto simp: search_limit_def split: option.splits)

lemma Atoi_int64: "Atoi s = Some n \<Longrightarrow> is_int64 n"
  by (auto simp: Atoi_def Let_def split: if_splits)

lemma search_offset_bounds: "0 \<le> search_offset r \<and> search_offset r < 2 ^ 63"
  using Atoi_int64 [of "sqOffset r"] by (auto simp: search_offset_def is_int64_def split: option.splits)

lemma sint64_add:
  assumes "0 \<le> a" "a < 2 ^ 63" "1 \<le> b" "b \<le> (1000::int)"
  shows "sint (word_of_int (a + b) :: 64 word) = (if a + b < 2 ^ 63 then a + b else a + b - 2 ^ 64)"
proof -
  have "sint (word_of_int c :: 64 word) = signed_take_bit 63 c" for c
    by (subst sint_sbintrunc') simp
  then have "sint (word_of_int (a + b) :: 64 word) = signed_take_bit 63 (a + b)" .
  also have "\<dots> = (a + b + 2 ^ 63) mod 2 ^ 64 - 2 ^ 63"
    by (simp add: signed_take_bit_eq_take_bit_shift take_bit_eq_mod add.commute)
  also have "\<dots> = (if a + b < 2 ^ 63 then a + b else a + b - 2 ^ 64)"
    using assms by (auto simp: mod_pos_pos_trivial mod_pos_geq)
  finally show ?thesis .
qed

text \<open>C34: Search pages. The audit search answers with exactly the page the query asks for: of the entries
  that pass its filters, newest first, those from the offset on, at most the limit, with the total before
  paging; offsets past the end give an empty page. The one exception is an offset so large that offset
  plus limit exceeds a 64-bit integer: there the slice bounds are inverted and the handler panics.\<close>

theorem search_page:
  "handleSearch shw rfc r g =
    (let matched = filter (search_passes shw rfc r) (rev (chEntries (agChain g))) in
     if search_offset r + search_limit r < 2 ^ 63
     then Done (int (length matched), min (search_offset r) (int (length matched)), search_limit r,
       take (nat (search_limit r)) (drop (nat (search_offset r)) matched))
     else Panic)"
proof -
  let ?m = "filter (search_passes shw rfc r) (rev (chEntries (agChain g)))"
  let ?o = "search_offset r" and ?l = "search_limit r"
  note b = search_limit_bounds [of r] search_offset_bounds [of r]
  have e: "sint (word_of_int (?o + ?l) :: 64 word) = (if ?o + ?l < 2 ^ 63 then ?o + ?l else ?o + ?l - 2 ^ 64)"
    using b by (intro sint64_add) auto
  show ?thesis
  proof (cases "?o + ?l < 2 ^ 63")
    case True
    have s: "go_slice (min ?o (int (length ?m))) (min (?o + ?l) (int (length ?m))) ?m = Done (take (nat ?l) (drop (nat ?o) ?m))"
    proof (cases "?o \<le> int (length ?m)")
      case le: True
      show ?thesis
      proof (cases "?o + ?l \<le> int (length ?m)")
        case True
        then show ?thesis using b le by (simp add: go_slice_def)
      next
        case False
        then have "take (nat (int (length ?m) - ?o)) (drop (nat ?o) ?m) = take (nat ?l) (drop (nat ?o) ?m)"
          using b le by (subst (1 2) take_all) (auto simp: nat_le_iff)
        then show ?thesis using b le False by (simp add: go_slice_def)
      qed
    next
      case False
      then have "length ?m \<le> nat ?o" by linarith
      then show ?thesis using b False by (simp add: go_slice_def)
    qed
    have "(if int (length ?m) < ?o then int (length ?m) else ?o) = min ?o (int (length ?m))"
      "(if int (length ?m) < ?o + ?l then int (length ?m) else ?o + ?l) = min (?o + ?l) (int (length ?m))" by auto
    then show ?thesis
      unfolding handleSearch_def Let_def Entries_def e if_P [OF True] using s by simp
  next
    case False
    then have "?o + ?l - 2 ^ 64 < 0" using b by simp
    then have "go_slice off (if int (length ?m) < ?o + ?l - 2 ^ 64 then int (length ?m) else ?o + ?l - 2 ^ 64) ?m = Panic" for off
      by (auto simp: go_slice_def)
    then show ?thesis unfolding handleSearch_def Let_def Entries_def e if_not_P [OF False] by simp
  qed
qed

end
