(* ===== verification/Console.thy ===== *)
theory Console
  imports Dashboard Tenants
begin

text \<open>
  The control-plane handlers: login, tenants, users and API keys (\<^verbatim>\<open>src/pkg/web/auth_api.go\<close>), the common
  tail of single sign-on (\<^verbatim>\<open>sso_api.go\<close>), user provisioning over SCIM (\<^verbatim>\<open>scim_api.go\<close>) and the first-boot
  administrator (\<^verbatim>\<open>bootstrapAdmin\<close> of \<^verbatim>\<open>src/pkg/agent/controller.go\<close>).  They share the server's state: the two
  stores, the login guard and the agent, whose audit chain they write to.
\<close>

record 's console =
  cnTenants :: tenant_store
  cnUsers :: user_store
  cnGuard :: "login_guard option"
  cnAgent :: "'s agent"

text \<open>Fresh identifiers, password salts and API-key material come from the random source.\<close>

record platform_env =
  peAuth :: auth_env
  peProviders :: "(string, provider) gomap"
  peFresh :: string
  peSalt :: "byte list"
  peHex :: string
  peScimToken :: string
  peScimTenant :: string

definition admin_audit ::
  "'s agent_env \<Rightarrow> nat \<Rightarrow> string \<Rightarrow> string \<Rightarrow> string \<Rightarrow> string \<Rightarrow> details \<Rightarrow> 's console \<Rightarrow> 's console" where
  "admin_audit x n eventType sev em i d s = s\<lparr>cnAgent := recordAdminAudit x n eventType sev em i d (cnAgent s)\<rparr>"

subsection \<open>Login\<close>

record login_request =
  lrTenantSlug :: string
  lrProvider :: string
  lrEmail :: string
  lrPassword :: string
  lrAPIKey :: string

record login_response =
  lpToken :: string
  lpUserID :: string
  lpTenantID :: string
  lpEmail :: string
  lpRoles :: "string list"

definition login_response_of :: "string \<Rightarrow> principal \<Rightarrow> login_response" where
  "login_response_of tok p =
     \<lparr>lpToken = tok, lpUserID = ppUserID p, lpTenantID = ppTenantID p, lpEmail = ppEmail p, lpRoles = ppRoles p\<rparr>"

definition guard_key :: "login_request \<Rightarrow> string" where
  "guard_key r = (if lrAPIKey r \<noteq> '''' then ''apikey'' else lrTenantSlug r @ '':'' @ lrEmail r)"

definition note_failure :: "time \<Rightarrow> string \<Rightarrow> 's console \<Rightarrow> 's console" where
  "note_failure now k s = s\<lparr>cnGuard := map_option (RecordFailure now k) (cnGuard s)\<rparr>"

definition note_success :: "string \<Rightarrow> 's console \<Rightarrow> 's console" where
  "note_success k s = s\<lparr>cnGuard := map_option (RecordSuccess k) (cnGuard s)\<rparr>"

text \<open>The guard's verdict, with the record it may have expired; no guard allows everything.\<close>

definition guard_allows :: "time \<Rightarrow> string \<Rightarrow> 's console \<Rightarrow> 's console \<times> bool" where
  "guard_allows now k s =
     (case cnGuard s of None \<Rightarrow> (s, True) | Some lg \<Rightarrow> (case Allowed now k lg of (lg', ok) \<Rightarrow> (s\<lparr>cnGuard := Some lg'\<rparr>, ok)))"

definition handleLogin ::
  "platform_env \<Rightarrow> 's agent_env \<Rightarrow> login_request option \<Rightarrow> 's console \<Rightarrow> ('s console \<times> login_response resp) outcome" where
  "handleLogin pe x body s =
     (case body of
        None \<Rightarrow> Done (s, Refused 400)
      | Some r \<Rightarrow>
          let k = guard_key r; cr = \<lparr>crTenantID = '''', crEmail = lrEmail r, crUsername = '''', crPassword = lrPassword r, crAPIKey = lrAPIKey r, crIDToken = ''''\<rparr>;
              tenant = [(''tenant'', DStr (lrTenantSlug r))]
          in case guard_allows (xNow x 0) k s of
            (s1, False) \<Rightarrow> Done (admin_audit x 1 ''auth:lockout'' ''high'' (lrEmail r) '''' tenant s1, Refused 429)
          | (s1, True) \<Rightarrow>
              (case (if lrAPIKey r = '''' \<and> lrTenantSlug r \<noteq> '''' then
                       (case GetBySlug (lrTenantSlug r) (cnTenants s1) of Inl e \<Rightarrow> None | Inr t \<Rightarrow> Some (cr\<lparr>crTenantID := tnID t\<rparr>))
                     else Some cr) of
                 None \<Rightarrow> Done (note_failure (xNow x 1) k s1, Refused 401)
               | Some cr1 \<Rightarrow>
                   (case Login (peAuth pe) (peProviders pe) (xNow x 1) (lrProvider r) cr1 (cnUsers s1) of
                      Panic \<Rightarrow> Panic
                    | Done (Inl e) \<Rightarrow>
                        Done (admin_audit x 3 ''auth:login_failed'' ''medium'' (lrEmail r) '''' tenant (note_failure (xNow x 2) k s1), Refused 401)
                    | Done (Inr (tok, p)) \<Rightarrow>
                        Done (admin_audit x 2 ''auth:login'' ''info'' (ppEmail p) (ppUserID p) tenant (note_success k s1),
                              Reply 200 (login_response_of tok p)))))"

subsection \<open>Tenants and users\<close>

definition handleMe :: "principal \<Rightarrow> (string \<times> string \<times> string \<times> string list) resp" where
  "handleMe p = Reply 200 (ppUserID p, ppTenantID p, ppEmail p, ppRoles p)"

definition handleListTenants :: "(string list \<Rightarrow> string list) \<Rightarrow> 's console \<Rightarrow> tenant list resp" where
  "handleListTenants ord s = Reply 200 (tenant_List ord (cnTenants s))"

definition new_tenant :: "string \<Rightarrow> string \<Rightarrow> string \<Rightarrow> tenant" where
  "new_tenant slug nm plan = \<lparr>tnID = '''', tnSlug = slug, tnName = nm, tnPlan = plan, tnStatus = '''', tnCreatedAt = zero_time\<rparr>"

definition handleCreateTenant ::
  "platform_env \<Rightarrow> 's agent_env \<Rightarrow> principal \<Rightarrow> (string \<times> string \<times> string) option \<Rightarrow> 's console \<Rightarrow> 's console \<times> tenant resp" where
  "handleCreateTenant pe x p body s =
     (case body of
        None \<Rightarrow> (s, Refused 400)
      | Some (slug, nm, plan) \<Rightarrow>
          (case tenant_Create (peFresh pe) (xNow x 0) (new_tenant slug nm plan) (cnTenants s) of
             (ts, Inl ErrConflict) \<Rightarrow> (s\<lparr>cnTenants := ts\<rparr>, Refused 409)
           | (ts, Inl _) \<Rightarrow> (s\<lparr>cnTenants := ts\<rparr>, Refused 400)
           | (ts, Inr t) \<Rightarrow>
               (admin_audit x 1 ''iam:tenant_created'' ''medium'' (ppEmail p) (ppUserID p)
                  [(''tenant_slug'', DStr (tnSlug t)), (''plan'', DStr (tnPlan t))] (s\<lparr>cnTenants := ts\<rparr>), Reply 201 t)))"

definition handleListUsers ::
  "(string list \<Rightarrow> string list) \<Rightarrow> principal \<Rightarrow> string \<Rightarrow> 's console \<Rightarrow> user list resp" where
  "handleListUsers ord p tenantID s =
     (if \<not> TenantScoped tenantID (Some p) then Refused 403
      else Reply 200 (map ((!) (usHeap (cnUsers s))) (ListByTenant ord tenantID (cnUsers s))))"

record create_user_request =
  cuEmail :: string
  cuUsername :: string
  cuPassword :: string
  cuRoles :: "string list"

definition new_user :: "string \<Rightarrow> string \<Rightarrow> string \<Rightarrow> string list \<Rightarrow> string \<Rightarrow> user" where
  "new_user tenantID email username roles status =
     \<lparr>uID = '''', uTenantID = tenantID, uEmail = email, uUsername = username, uRoles = roles, uStatus = status,
      uCreatedAt = zero_time, uPasswordHash = [], uPasswordSalt = [], uApiKeyHashes = []\<rparr>"

definition handleCreateUser ::
  "platform_env \<Rightarrow> 's agent_env \<Rightarrow> principal \<Rightarrow> string \<Rightarrow> create_user_request option \<Rightarrow> 's console \<Rightarrow>
   's console \<times> (string \<times> string \<times> string list) resp" where
  "handleCreateUser pe x p tenantID body s =
     (if \<not> TenantScoped tenantID (Some p) then (s, Refused 403)
      else case body of
        None \<Rightarrow> (s, Refused 400)
      | Some r \<Rightarrow>
          if \<not> list_all KnownRole (cuRoles r) then (s, Refused 400)
          else case SetPassword (aeHmac (peAuth pe)) (peSalt pe) (cuPassword r) (new_user tenantID (cuEmail r) (cuUsername r) (cuRoles r) '''') of
            None \<Rightarrow> (s, Refused 400)
          | Some u \<Rightarrow>
              (case user_Create (peFresh pe) (xNow x 0) u (cnUsers s) of
                 (us, Inl ErrConflict) \<Rightarrow> (s\<lparr>cnUsers := us\<rparr>, Refused 409)
               | (us, Inl _) \<Rightarrow> (s\<lparr>cnUsers := us\<rparr>, Refused 400)
               | (us, Inr a) \<Rightarrow>
                   (admin_audit x 1 ''iam:user_created'' ''medium'' (ppEmail p) (ppUserID p)
                      [(''new_user_email'', DStr (uEmail (usHeap us ! a))), (''roles'', DList (cuRoles r)), (''tenant_id'', DStr tenantID)]
                      (s\<lparr>cnUsers := us\<rparr>),
                    Reply 201 (uID (usHeap us ! a), uEmail (usHeap us ! a), cuRoles r))))"

text \<open>The user object is changed in place before the store's indexes are updated.\<close>

definition handleCreateAPIKey ::
  "platform_env \<Rightarrow> 's agent_env \<Rightarrow> principal \<Rightarrow> string \<Rightarrow> 's console \<Rightarrow> 's console \<times> (string \<times> string) resp" where
  "handleCreateAPIKey pe x p userID s =
     (case user_Get userID (cnUsers s) of
        Inl e \<Rightarrow> (s, Refused 404)
      | Inr a \<Rightarrow>
          let u = usHeap (cnUsers s) ! a in
          if \<not> TenantScoped (uTenantID u) (Some p) then (s, Refused 403)
          else
            let raw = snd (GenerateAPIKey (aeSha (peAuth pe)) (peHex pe) u);
                us1 = set_user a (\<lambda>v. fst (GenerateAPIKey (aeSha (peAuth pe)) (peHex pe) v)) (cnUsers s)
            in case user_Update a us1 of
                 (us, Some e) \<Rightarrow> (s\<lparr>cnUsers := us\<rparr>, Refused 500)
               | (us, None) \<Rightarrow>
                   (admin_audit x 0 ''iam:apikey_issued'' ''high'' (ppEmail p) (ppUserID p)
                      [(''target_user_id'', DStr (uID u)), (''target_email'', DStr (uEmail u))] (s\<lparr>cnUsers := us\<rparr>),
                    Reply 201 (raw, uID u)))"

subsection \<open>Single sign-on\<close>

definition sso_details :: "string \<Rightarrow> string \<Rightarrow> details" where
  "sso_details slug protocol = [(''tenant'', DStr slug), (''protocol'', DStr protocol)]"

definition sso_session :: "platform_env \<Rightarrow> 's agent_env \<Rightarrow> string \<Rightarrow> string \<Rightarrow> nat \<Rightarrow> 's console \<Rightarrow> 's console \<times> login_response resp" where
  "sso_session pe x slug protocol a s =
     (let p = principalOf (usHeap (cnUsers s) ! a); tok = Issue (aeJwt (peAuth pe)) (aeIssuer (peAuth pe)) (xNow x 2) p
      in (admin_audit x 3 ''auth:sso_login'' ''info'' (ppEmail p) (ppUserID p) (sso_details slug protocol) s,
          Reply 200 (login_response_of tok p)))"

definition ssoIssue ::
  "platform_env \<Rightarrow> 's agent_env \<Rightarrow> string \<Rightarrow> string \<Rightarrow> string list \<Rightarrow> string \<Rightarrow> 's console \<Rightarrow> 's console \<times> login_response resp" where
  "ssoIssue pe x slug email roles protocol s =
     (case GetBySlug slug (cnTenants s) of
        Inl e \<Rightarrow> (s, Refused 500)
      | Inr t \<Rightarrow>
          (case GetByEmail (tnID t) email (cnUsers s) of
             Inl e \<Rightarrow>
               (case user_Create (peFresh pe) (xNow x 0) (new_user (tnID t) email email roles UserActive) (cnUsers s) of
                  (us, Inl err) \<Rightarrow> (s\<lparr>cnUsers := us\<rparr>, Refused 500)
                | (us, Inr a) \<Rightarrow>
                    sso_session pe x slug protocol a
                      (admin_audit x 1 ''auth:sso_provision'' ''info'' email (uID (usHeap us ! a)) (sso_details slug protocol) (s\<lparr>cnUsers := us\<rparr>)))
           | Inr a \<Rightarrow>
               sso_session pe x slug protocol a
                 (s\<lparr>cnUsers := fst (user_Update a (set_user a (\<lambda>u. u\<lparr>uRoles := roles, uStatus := UserActive\<rparr>) (cnUsers s)))\<rparr>)))"

subsection \<open>SCIM provisioning\<close>

record scim_email =
  seValue :: string
  sePrimary :: bool

record scim_user =
  suID :: string
  suUserName :: string
  suActive :: bool
  suEmails :: "scim_email list"

definition scimAuth :: "platform_env \<Rightarrow> http_request \<Rightarrow> int option" where
  "scimAuth pe r =
     (if peScimToken pe = '''' then Some 503
      else if TrimPrefix (rqAuthorization r) ''Bearer '' \<noteq> peScimToken pe then Some 401
      else None)"

definition scimTenantID :: "platform_env \<Rightarrow> 's console \<Rightarrow> string option" where
  "scimTenantID pe s = (case GetBySlug (peScimTenant pe) (cnTenants s) of Inl e \<Rightarrow> None | Inr t \<Rightarrow> Some (tnID t))"

definition toSCIM :: "user \<Rightarrow> scim_user" where
  "toSCIM u = \<lparr>suID = uID u, suUserName = firstNonEmpty (uUsername u) (uEmail u), suActive = (uStatus u = UserActive),
     suEmails = [\<lparr>seValue = uEmail u, sePrimary = True\<rparr>]\<rparr>"

fun first_email :: "(scim_email \<Rightarrow> bool) \<Rightarrow> scim_email list \<Rightarrow> string option" where
  "first_email P [] = None"
| "first_email P (e # es) = (if P e then Some (seValue e) else first_email P es)"

definition primaryEmail :: "scim_user \<Rightarrow> string" where
  "primaryEmail i =
     (case first_email (\<lambda>e. sePrimary e \<and> seValue e \<noteq> '''') (suEmails i) of
        Some v \<Rightarrow> v
      | None \<Rightarrow> (case first_email (\<lambda>e. seValue e \<noteq> '''') (suEmails i) of Some v \<Rightarrow> v | None \<Rightarrow> suUserName i))"

definition activeStatus :: "bool \<Rightarrow> string" where
  "activeStatus on = (if on then UserActive else UserDisabled)"

definition handleSCIMCreateUser ::
  "platform_env \<Rightarrow> 's agent_env \<Rightarrow> scim_user option \<Rightarrow> 's console \<Rightarrow> 's console \<times> scim_user resp" where
  "handleSCIMCreateUser pe x body s =
     (case scimTenantID pe s of
        None \<Rightarrow> (s, Refused 500)
      | Some tenantID \<Rightarrow>
          (case body of
             None \<Rightarrow> (s, Refused 400)
           | Some i \<Rightarrow>
               if suUserName i = '''' then (s, Refused 400)
               else
                 let email = primaryEmail i in
                 case GetByEmail tenantID email (cnUsers s) of
                   Inr a \<Rightarrow> (s, Reply 200 (toSCIM (usHeap (cnUsers s) ! a)))
                 | Inl e \<Rightarrow>
                     (case user_Create (peFresh pe) (xNow x 0)
                             (new_user tenantID email (suUserName i) [RoleViewer] (activeStatus (suActive i))) (cnUsers s) of
                        (us, Inl err) \<Rightarrow> (s\<lparr>cnUsers := us\<rparr>, Refused 409)
                      | (us, Inr a) \<Rightarrow>
                          (admin_audit x 1 ''scim:user_created'' ''info'' email (uID (usHeap us ! a)) [(''tenant'', DStr (peScimTenant pe))]
                             (s\<lparr>cnUsers := us\<rparr>), Reply 201 (toSCIM (usHeap us ! a))))))"

definition handleSCIMGetUser :: "string \<Rightarrow> 's console \<Rightarrow> scim_user resp" where
  "handleSCIMGetUser i s =
     (case user_Get i (cnUsers s) of Inl e \<Rightarrow> Refused 404 | Inr a \<Rightarrow> Reply 200 (toSCIM (usHeap (cnUsers s) ! a)))"

text \<open>What lies between the first and the last double quote.\<close>

definition parseUserNameEq :: "string \<Rightarrow> string" where
  "parseUserNameEq filt =
     (let q = CHR 0x22 in
      if 2 \<le> length (filter (\<lambda>c. c = q) filt)
      then rev (tl (dropWhile (\<lambda>c. c \<noteq> q) (rev (tl (dropWhile (\<lambda>c. c \<noteq> q) filt)))))
      else '''')"

definition EqualFold :: "string \<Rightarrow> string \<Rightarrow> bool" where
  "EqualFold a b \<longleftrightarrow> to_lower a = to_lower b"

definition handleSCIMListUsers ::
  "(string list \<Rightarrow> string list) \<Rightarrow> platform_env \<Rightarrow> string \<Rightarrow> 's console \<Rightarrow> scim_user list resp" where
  "handleSCIMListUsers ord pe filt s =
     (case scimTenantID pe s of
        None \<Rightarrow> Refused 500
      | Some tenantID \<Rightarrow>
          let all = map ((!) (usHeap (cnUsers s))) (ListByTenant ord tenantID (cnUsers s)); want = parseUserNameEq filt;
              kept = (if filt \<noteq> '''' then filter (\<lambda>u. EqualFold (uUsername u) want \<or> EqualFold (uEmail u) want) all else all)
          in Reply 200 (map toSCIM kept))"

text \<open>
  A patch operation: \<open>svBool\<close> and \<open>svActive\<close> are its raw value read as a boolean and as an object with an
  \<^verbatim>\<open>active\<close> field, \<open>None\<close> where that decoding fails (or the field is missing).
\<close>

record scim_op =
  soOp :: string
  soPath :: string
  svBool :: "bool option"
  svActive :: "bool option"

fun apply_scim_ops :: "scim_op list \<Rightarrow> bool \<Rightarrow> bool" where
  "apply_scim_ops [] on = on"
| "apply_scim_ops (o1 # ops) on =
     apply_scim_ops ops
       (if \<not> EqualFold (soOp o1) ''replace'' \<and> \<not> EqualFold (soOp o1) ''add'' then on
        else if EqualFold (soPath o1) ''active'' then (case svBool o1 of Some b \<Rightarrow> b | None \<Rightarrow> on)
        else (case svActive o1 of Some b \<Rightarrow> b | None \<Rightarrow> on))"

definition handleSCIMPatchUser ::
  "platform_env \<Rightarrow> 's agent_env \<Rightarrow> string \<Rightarrow> (scim_op list \<times> bool option) option \<Rightarrow> 's console \<Rightarrow> 's console \<times> scim_user resp" where
  "handleSCIMPatchUser pe x i body s =
     (case user_Get i (cnUsers s) of
        Inl e \<Rightarrow> (s, Refused 404)
      | Inr a \<Rightarrow>
          (case body of
             None \<Rightarrow> (s, Refused 400)
           | Some (ops, act) \<Rightarrow>
               let u = usHeap (cnUsers s) ! a;
                   on = apply_scim_ops ops (case act of Some b \<Rightarrow> b | None \<Rightarrow> uStatus u = UserActive);
                   us1 = set_user a (\<lambda>v. v\<lparr>uStatus := activeStatus on\<rparr>) (cnUsers s)
               in case user_Update a us1 of
                    (us, Some e) \<Rightarrow> (s\<lparr>cnUsers := us\<rparr>, Refused 500)
                  | (us, None) \<Rightarrow>
                      (admin_audit x 0 (if on then ''scim:user_activated'' else ''scim:user_deactivated'') ''info'' (uEmail u) (uID u)
                         [(''tenant'', DStr (peScimTenant pe))] (s\<lparr>cnUsers := us\<rparr>), Reply 200 (toSCIM (usHeap us ! a)))))"

definition handleSCIMDeleteUser ::
  "platform_env \<Rightarrow> 's agent_env \<Rightarrow> string \<Rightarrow> 's console \<Rightarrow> 's console \<times> unit resp" where
  "handleSCIMDeleteUser pe x i s =
     (case user_Get i (cnUsers s) of
        Inl e \<Rightarrow> (s, Refused 404)
      | Inr a \<Rightarrow>
          (case user_Delete i (cnUsers s) of
             (us, Some e) \<Rightarrow> (s\<lparr>cnUsers := us\<rparr>, Refused 500)
           | (us, None) \<Rightarrow>
               (admin_audit x 0 ''scim:user_deleted'' ''medium'' (uEmail (usHeap (cnUsers s) ! a)) i [(''tenant'', DStr (peScimTenant pe))]
                  (s\<lparr>cnUsers := us\<rparr>), Reply 204 ())))"

subsection \<open>First boot\<close>

record bootstrap_config =
  bcTenant :: string
  bcEmail :: string
  bcPassword :: string

text \<open>\<open>gen\<close> is the generated password and \<open>uid\<close> the user's fresh identifier; the snapshot that follows is written elsewhere.\<close>

definition bootstrapAdmin ::
  "platform_env \<Rightarrow> string \<Rightarrow> string \<Rightarrow> time \<Rightarrow> time \<Rightarrow> bootstrap_config \<Rightarrow> tenant_store \<Rightarrow> user_store \<Rightarrow> tenant_store \<times> user_store \<times> bool" where
  "bootstrapAdmin pe gen uid t1 t2 bc ts us =
     (case tenant_Create (peFresh pe) t1
             (new_tenant (if bcTenant bc = '''' then ''default'' else bcTenant bc) ''Default Organization'' ''enterprise'') ts of
        (ts1, Inl e) \<Rightarrow> (ts1, us, False)
      | (ts1, Inr t) \<Rightarrow>
          (case SetPassword (aeHmac (peAuth pe)) (peSalt pe) (if bcPassword bc = '''' then gen else bcPassword bc)
                  (new_user (tnID t) (if bcEmail bc = '''' then ''admin@neurosentry.local'' else bcEmail bc) '''' [RoleOwner] '''') of
             None \<Rightarrow> (ts1, us, False)
           | Some u \<Rightarrow>
               (case user_Create uid t2 u us of
                  (us1, Inl e) \<Rightarrow> (ts1, us1, False)
                | (us1, Inr a) \<Rightarrow> (ts1, us1, True))))"

text \<open>\<open>snap\<close> is the decoded snapshot file, if there is one; a store without tenants is bootstrapped.\<close>

definition setupPlatform ::
  "platform_env \<Rightarrow> string \<Rightarrow> string \<Rightarrow> time \<Rightarrow> time \<Rightarrow> bootstrap_config \<Rightarrow> (tenant list \<times> user list) option \<Rightarrow> 's agent \<Rightarrow> 's console option" where
  "setupPlatform pe gen uid t1 t2 bc snap g =
     (let (ts, us) = (case snap of None \<Rightarrow> (NewMemTenantStore, NewMemUserStore) | Some (tns, usrs) \<Rightarrow> (restoreTenants tns, restoreUsers usrs));
          (ts1, us1, ok) = (if keys (tsByID ts) = [] then bootstrapAdmin pe gen uid t1 t2 bc ts us else (ts, us, True))
      in if ok then Some \<lparr>cnTenants = ts1, cnUsers = us1, cnGuard = Some (NewLoginGuard 5 (15 * minute) (15 * minute)), cnAgent = g\<rparr>
         else None)"

end
