(* ===== verification/Console_Props.thy ===== *)
theory Console_Props
  imports Console
begin

text \<open>
  Facts about the control plane the claims share: what creating a user gives, that the password set is
  the password checked, that a token issued is the token accepted, and that every handler keeps the
  stores consistent.
\<close>

subsection \<open>Passwords\<close>

lemma pbkdf2Key_length:
  assumes "\<And>k m. length (hmac k m) = 32" and "0 < iter"
  shows "length (pbkdf2Key hmac 32 pw salt iter 32) = 32"
proof -
  have "pbkdf2_blocks 1 1 (hmac pw) salt iter [] = rfc_block (hmac pw) 32 salt iter 1"
    using pbkdf2_blocks_spec [of "hmac pw" 32 iter 1 1 salt "[]"] assms by simp
  then show ?thesis by (simp add: pbkdf2Key_def rfc_block_def)
qed

lemma CheckPassword_SetPassword:
  assumes "\<And>k m. length (hmac k m) = 32" and "SetPassword hmac salt pw u = Some v"
  shows "CheckPassword hmac pw v"
proof -
  have "v = u\<lparr>uPasswordSalt := salt, uPasswordHash := pbkdf2Key hmac 32 (of_chars pw) salt pbkdf2Iterations pbkdf2KeyLen\<rparr>"
    using assms(2) unfolding SetPassword_def by (metis option.distinct(1) option.inject)
  moreover have "length (pbkdf2Key hmac 32 (of_chars pw) salt pbkdf2Iterations pbkdf2KeyLen) = 32"
    by (rule pbkdf2Key_length [OF assms(1)]) simp
  ultimately show ?thesis by (simp add: CheckPassword_def)
qed

lemma SetPassword_keeps:
  assumes "SetPassword hmac salt pw u = Some v"
  shows "uTenantID v = uTenantID u" "uEmail v = uEmail u" "uRoles v = uRoles u" "uStatus v = uStatus u" "uID v = uID u"
    "uApiKeyHashes v = uApiKeyHashes u" "8 \<le> length pw"
  using assms by (auto simp: SetPassword_def split: if_splits)

subsection \<open>Creating users\<close>

definition created_user :: "string \<Rightarrow> time \<Rightarrow> user \<Rightarrow> user" where
  "created_user fresh now u = u\<lparr>uID := (if uID u = '''' then fresh else uID u),
     uStatus := (if uStatus u = '''' then UserActive else uStatus u), uCreatedAt := (if uCreatedAt u = zero_time then now else uCreatedAt u)\<rparr>"

lemma CheckPassword_created [simp]: "CheckPassword hmac pw (created_user fresh now u) = CheckPassword hmac pw u"
  unfolding CheckPassword_def created_user_def by simp

lemma user_Create_Inr:
  assumes "user_Create fresh now u s = (s', Inr a)"
  shows "a = length (usHeap s)" "usHeap s' = usHeap s @ [created_user fresh now u]"
    "GetByEmail (uTenantID u) (uEmail u) s' = Inr a" "uTenantID u \<noteq> ''''" "uEmail u \<noteq> ''''"
    "map_of (usByID s') (uID (created_user fresh now u)) = Some a"
  using assms by (auto simp: user_Create_def created_user_def GetByEmail_def Let_def split: if_splits)

lemma user_Create_fresh:
  assumes "uTenantID u \<noteq> ''''" "uEmail u \<noteq> ''''" "map_of (usByEmail s) (emailKey (uTenantID u) (uEmail u)) = None"
    "map_of (usByID s) (uID (created_user fresh now u)) = None"
  shows "\<exists>s'. user_Create fresh now u s = (s', Inr (length (usHeap s)))"
  using assms by (auto simp: user_Create_def created_user_def Let_def)

subsection \<open>Bearer tokens\<close>

text \<open>
  What a session rests on of JSON: the fixed header and the claims of the token at hand read back as they were
  written (\<^verbatim>\<open>encoding/json\<close> would replace invalid UTF-8 in them).
\<close>

definition codec_ok :: "jwt_codec \<Rightarrow> claims \<Rightarrow> bool" where
  "codec_ok k c \<longleftrightarrow>
     jUnmarshalHeader k (jMarshalHeader k \<lparr>jhAlg = ''HS256'', jhTyp = ''JWT''\<rparr>) = Some \<lparr>jhAlg = ''HS256'', jhTyp = ''JWT''\<rparr> \<and>
     jUnmarshalClaims k (jMarshalClaims k c) = Some c"

lemma trim_space_id: "list_all (\<lambda>c. \<not> is_space c) s \<Longrightarrow> trim_space s = s"
proof -
  assume s: "list_all (\<lambda>c. \<not> is_space c) s"
  have "dropWhile is_space t = t" if "set t \<subseteq> set s" for t
    using s that by (cases t) (auto simp: list_all_iff)
  from this [of s] this [of "rev s"] show ?thesis by (simp add: trim_space_def)
qed

lemma space_not_b64: "is_space c \<Longrightarrow> b64val c = None"
  by (auto simp: is_space_def b64val_def)

lemma b64_no_space: "list_all (\<lambda>c. \<not> is_space c) (b64 s)"
  using space_not_b64 b64_alphabet by (auto simp: list_all_iff)

lemma TrimPrefix_append [simp]: "TrimPrefix (p @ s) p = s"
  by (simp add: TrimPrefix_def)

lemma dot_no_space: "\<not> is_space CHR ''.''"
  by code_simp

lemma Issue_no_space: "trim_space (Issue k ti now p) = Issue k ti now p"
  by (rule trim_space_id) (simp add: Issue_def sign_def Let_def b64_no_space dot_no_space)

text \<open>A token is accepted until it expires, whatever became of the user.\<close>

lemma resolve_issued:
  assumes "codec_ok (aeJwt x) (claims_for (aeIssuer x) t p)" and "principal_ok p" and "unix_time now < unix_time (t + tiTTL (aeIssuer x))"
    and "rqAuthorization r = ''Bearer '' @ Issue (aeJwt x) (aeIssuer x) t p"
  shows "resolve x now s r = Done (Some p)"
proof -
  have "token_Verify (aeJwt x) (aeIssuer x) now (Issue (aeJwt x) (aeIssuer x) t p) = Inr (claims_for (aeIssuer x) t p)"
    unfolding Issue_def using assms(1,3) by (intro Verify_sign) (simp_all add: codec_ok_def claims_for_def)
  then have "bearer_principal x now (rqAuthorization r) = Some p"
    unfolding bearer_principal_def assms(4)
    by (simp add: Issue_no_space principal_roundtrip [OF assms(2)] del: append.simps)
  then show ?thesis by (simp add: resolve_def)
qed

subsection \<open>Logging in\<close>

lemma guard_allows_keeps:
  "guard_allows now k s = (s1, ok) \<Longrightarrow> cnTenants s1 = cnTenants s \<and> cnUsers s1 = cnUsers s \<and> cnAgent s1 = cnAgent s"
  by (auto simp: guard_allows_def split: option.splits prod.splits)

lemma guard_allows_cong: "cnGuard s' = cnGuard s \<Longrightarrow> snd (guard_allows now k s') = snd (guard_allows now k s)"
  by (simp add: guard_allows_def split: option.splits prod.splits)

lemma console_frame [simp]:
  "cnUsers (admin_audit x n ty sev em i d s) = cnUsers s" "cnTenants (admin_audit x n ty sev em i d s) = cnTenants s"
  "cnGuard (admin_audit x n ty sev em i d s) = cnGuard s"
  "cnUsers (note_failure now k s) = cnUsers s" "cnTenants (note_failure now k s) = cnTenants s"
  "cnUsers (note_success k s) = cnUsers s" "cnTenants (note_success k s) = cnTenants s"
  by (simp_all add: admin_audit_def note_failure_def note_success_def)

definition password_login :: "string \<Rightarrow> string \<Rightarrow> string \<Rightarrow> login_request" where
  "password_login slug email pw = \<lparr>lrTenantSlug = slug, lrProvider = '''', lrEmail = email, lrPassword = pw, lrAPIKey = ''''\<rparr>"

text \<open>The credentials of an active user open a session for the user's principal.\<close>

lemma handleLogin_password:
  assumes "peProviders pe = NewAuthenticator (peAuth pe)" and "slug \<noteq> ''''" "email \<noteq> ''''" "pw \<noteq> ''''"
    and t: "GetBySlug slug (cnTenants s) = Inr t" and a: "GetByEmail (tnID t) email (cnUsers s) = Inr a"
    and u: "usHeap (cnUsers s) ! a = u" "uStatus u = UserActive" "CheckPassword (aeHmac (peAuth pe)) pw u"
    and g: "snd (guard_allows (xNow x 0) (slug @ '':'' @ email) s)"
  shows "\<exists>s'. handleLogin pe x (Some (password_login slug email pw)) s =
      Done (s', Reply 200 (login_response_of (Issue (aeJwt (peAuth pe)) (aeIssuer (peAuth pe)) (xNow x 1) (principalOf u)) (principalOf u))) \<and>
    cnUsers s' = cnUsers s"
proof -
  obtain s1 where s1: "guard_allows (xNow x 0) (slug @ '':'' @ email) s = (s1, True)" using g by (metis prod.collapse)
  note keep = guard_allows_keeps [OF s1]
  have "Login (peAuth pe) (peProviders pe) (xNow x 1) ''''
      \<lparr>crTenantID = tnID t, crEmail = email, crUsername = '''', crPassword = pw, crAPIKey = '''', crIDToken = ''''\<rparr> (cnUsers s1) =
      Done (Inr (Issue (aeJwt (peAuth pe)) (aeIssuer (peAuth pe)) (xNow x 1) (principalOf u), principalOf u))"
    using assms(1,3,4) a u keep by (simp add: Login_def NewAuthenticator_def local_Authenticate_def Let_def)
  then show ?thesis
    using assms(2) t s1 keep
    by (simp add: handleLogin_def password_login_def guard_key_def Let_def)
qed

text \<open>A disabled user's credentials are refused.\<close>

lemma local_Authenticate_disabled:
  assumes "GetByEmail tid email s = Inr a" and "uStatus (usHeap s ! a) \<noteq> UserActive"
    and "crAPIKey cr = ''''" "crEmail cr = email" "crTenantID cr = tid" "crPassword cr \<noteq> ''''" "email \<noteq> ''''"
  shows "local_Authenticate x cr s = Done (Inl UserIsDisabled)"
  using assms by (simp add: local_Authenticate_def Let_def)

lemma handleCreateUser_created:
  assumes "handleCreateUser pe x p tid (Some r) s = (s1, Reply c b)"
  obtains u a where "SetPassword (aeHmac (peAuth pe)) (peSalt pe) (cuPassword r) (new_user tid (cuEmail r) (cuUsername r) (cuRoles r) '''') = Some u"
    "user_Create (peFresh pe) (xNow x 0) u (cnUsers s) = (cnUsers s1, Inr a)" "cnTenants s1 = cnTenants s" "cnGuard s1 = cnGuard s"
    "b = (uID (usHeap (cnUsers s1) ! a), uEmail (usHeap (cnUsers s1) ! a), cuRoles r)" "c = 201" "TenantScoped tid (Some p)"
proof -
  note h = assms [unfolded handleCreateUser_def option.case]
  have sc: "TenantScoped tid (Some p)" using h by (auto split: if_splits)
  note h1 = h [simplified sc if_True if_False not_True_eq_False]
  have kr: "list_all KnownRole (cuRoles r)" using h1 by (auto split: if_splits)
  note h2 = h1 [simplified kr if_True if_False not_True_eq_False]
  obtain u where u: "SetPassword (aeHmac (peAuth pe)) (peSalt pe) (cuPassword r) (new_user tid (cuEmail r) (cuUsername r) (cuRoles r) '''') = Some u"
    using h2 by (cases "SetPassword (aeHmac (peAuth pe)) (peSalt pe) (cuPassword r) (new_user tid (cuEmail r) (cuUsername r) (cuRoles r) '''')") simp_all
  note h3 = h2 [unfolded u option.case]
  obtain us res where c: "user_Create (peFresh pe) (xNow x 0) u (cnUsers s) = (us, res)" by fastforce
  show ?thesis
  proof (cases res)
    case (Inl e)
    with h3 c show ?thesis by (cases e) auto
  next
    case (Inr a)
    with h3 c that [OF u] sc show ?thesis by auto
  qed
qed

text \<open>Creating a user succeeds for a caller of the tenant, known roles, a long enough password and an unused email.\<close>

lemma handleCreateUser_succeeds:
  assumes "TenantScoped tid (Some p)" and "list_all KnownRole (cuRoles r)" and "8 \<le> length (cuPassword r)"
    and "tid \<noteq> ''''" "cuEmail r \<noteq> ''''" "map_of (usByEmail (cnUsers s)) (emailKey tid (cuEmail r)) = None"
    and "map_of (usByID (cnUsers s)) (peFresh pe) = None"
  shows "\<exists>s1. handleCreateUser pe x p tid (Some r) s = (s1, Reply 201 (peFresh pe, cuEmail r, cuRoles r)) \<and> cnGuard s1 = cnGuard s"
proof -
  let ?n = "new_user tid (cuEmail r) (cuUsername r) (cuRoles r) ''''"
  obtain u where u: "SetPassword (aeHmac (peAuth pe)) (peSalt pe) (cuPassword r) ?n = Some u"
    using assms(3) unfolding SetPassword_def by (metis linorder_not_less)
  note keep = SetPassword_keeps [OF u, unfolded new_user_def, simplified]
  obtain us where c: "user_Create (peFresh pe) (xNow x 0) u (cnUsers s) = (us, Inr (length (usHeap (cnUsers s))))"
    using user_Create_fresh [of u "cnUsers s" "peFresh pe" "xNow x 0"] assms(4-7) keep by (auto simp: created_user_def)
  from user_Create_Inr(2) [OF c] keep have "usHeap us ! length (usHeap (cnUsers s)) = created_user (peFresh pe) (xNow x 0) u" by simp
  with u c assms(1,2) keep show ?thesis by (simp add: handleCreateUser_def created_user_def)
qed

lemma login_after_create:
  assumes "codec_ok (aeJwt (peAuth pe)) (claims_for (aeIssuer (peAuth pe)) (xNow y 1) (NewPrincipal (fst b) tid (cuEmail r) (cuRoles r)))"
    and "\<And>k m. length (aeHmac (peAuth pe) k m) = 32"
    and "peProviders pe = NewAuthenticator (peAuth pe)"
    and c: "handleCreateUser pe x p tid (Some r) s = (s1, Reply 201 b)"
    and t: "GetBySlug slug (cnTenants s) = Inr t" "tnID t = tid" "slug \<noteq> ''''"
    and g: "snd (guard_allows (xNow y 0) (slug @ '':'' @ cuEmail r) s1)"
    and now: "unix_time now < unix_time (xNow y 1 + tiTTL (aeIssuer (peAuth pe)))"
  shows "\<exists>s2 resp. handleLogin pe y (Some (password_login slug (cuEmail r) (cuPassword r))) s1 = Done (s2, Reply 200 resp) \<and>
     lpUserID resp = fst b \<and> lpRoles resp = cuRoles r \<and>
     (\<forall>us m. resolve (peAuth pe) now us \<lparr>rqMethod = m, rqAuthorization = ''Bearer '' @ lpToken resp, rqAPIKey = '''', rqToken = ''''\<rparr> =
       Done (Some (NewPrincipal (fst b) tid (cuEmail r) (cuRoles r))))"
proof -
  from handleCreateUser_created [OF c] obtain u a where
    u: "SetPassword (aeHmac (peAuth pe)) (peSalt pe) (cuPassword r) (new_user tid (cuEmail r) (cuUsername r) (cuRoles r) '''') = Some u"
    and a: "user_Create (peFresh pe) (xNow x 0) u (cnUsers s) = (cnUsers s1, Inr a)" and k: "cnTenants s1 = cnTenants s"
    and b: "b = (uID (usHeap (cnUsers s1) ! a), uEmail (usHeap (cnUsers s1) ! a), cuRoles r)" by metis
  note keep = SetPassword_keeps [OF u, unfolded new_user_def, simplified]
  note mk = user_Create_Inr [OF a]
  let ?v = "created_user (peFresh pe) (xNow x 0) u"
  have v: "usHeap (cnUsers s1) ! a = ?v" using mk(1,2) by simp
  have st: "uStatus ?v = UserActive" "uTenantID ?v = tid" "uEmail ?v = cuEmail r" "uRoles ?v = cuRoles r"
    using keep by (simp_all add: created_user_def)
  have pw: "CheckPassword (aeHmac (peAuth pe)) (cuPassword r) ?v"
    using CheckPassword_SetPassword [OF assms(2) u] by (simp add: CheckPassword_created)
  have ne: "cuEmail r \<noteq> ''''" "cuPassword r \<noteq> ''''" using mk(5) keep(2,7) by auto
  from mk(3) keep t(2) have em: "GetByEmail (tnID t) (cuEmail r) (cnUsers s1) = Inr a" by simp
  let ?p = "principalOf ?v" and ?tok = "Issue (aeJwt (peAuth pe)) (aeIssuer (peAuth pe)) (xNow y 1) (principalOf ?v)"
  from handleLogin_password [OF assms(3) t(3) ne _ em v st(1) pw g] t(1) k obtain s2 where
    s2: "handleLogin pe y (Some (password_login slug (cuEmail r) (cuPassword r))) s1 = Done (s2, Reply 200 (login_response_of ?tok ?p))"
    by auto
  have p: "?p = NewPrincipal (fst b) tid (cuEmail r) (cuRoles r)" using b v st by (simp add: principalOf_def)
  have "resolve (peAuth pe) now us \<lparr>rqMethod = m, rqAuthorization = ''Bearer '' @ ?tok, rqAPIKey = '''', rqToken = ''''\<rparr> = Done (Some ?p)" for us m
    by (rule resolve_issued [OF assms(1) [folded p] _ now]) (simp_all add: principalOf_def)
  with s2 p b v st show ?thesis
    by (intro exI [of _ s2] exI [of _ "login_response_of ?tok ?p"]) (simp add: login_response_of_def principalOf_def NewPrincipal_def)
qed

subsection \<open>The control plane as a state machine\<close>

datatype platform_op =
    PLogin "login_request option"
  | PCreateTenant principal "(string \<times> string \<times> string) option"
  | PCreateUser principal string "create_user_request option"
  | PCreateAPIKey principal string
  | PSso string string "string list" string
  | PScimCreate "scim_user option"
  | PScimPatch string "(scim_op list \<times> bool option) option"
  | PScimDelete string

fun platform_step :: "platform_env \<Rightarrow> 's agent_env \<Rightarrow> platform_op \<Rightarrow> 's console \<Rightarrow> 's console outcome" where
  "platform_step pe x (PLogin b) s = (case handleLogin pe x b s of Panic \<Rightarrow> Panic | Done r \<Rightarrow> Done (fst r))"
| "platform_step pe x (PCreateTenant p b) s = Done (fst (handleCreateTenant pe x p b s))"
| "platform_step pe x (PCreateUser p t b) s = Done (fst (handleCreateUser pe x p t b s))"
| "platform_step pe x (PCreateAPIKey p i) s = Done (fst (handleCreateAPIKey pe x p i s))"
| "platform_step pe x (PSso slug em rs pr) s = Done (fst (ssoIssue pe x slug em rs pr s))"
| "platform_step pe x (PScimCreate b) s = Done (fst (handleSCIMCreateUser pe x b s))"
| "platform_step pe x (PScimPatch i b) s = Done (fst (handleSCIMPatchUser pe x i b s))"
| "platform_step pe x (PScimDelete i) s = Done (fst (handleSCIMDeleteUser pe x i s))"

text \<open>The requests may come with any random material, clock and provider configuration.\<close>

inductive platform_reach :: "'s console \<Rightarrow> 's console \<Rightarrow> bool" where
  start: "platform_reach s s"
| step: "platform_reach s0 s \<Longrightarrow> platform_step pe x op s = Done s' \<Longrightarrow> platform_reach s0 s'"

definition console_ok :: "'s console \<Rightarrow> bool" where
  "console_ok s \<longleftrightarrow> tenants_ok (cnTenants s) \<and> users_ok (cnUsers s)"

lemma console_ok_admin [simp]: "console_ok (admin_audit x n ty sev em i d s) = console_ok s"
  "console_ok (note_failure now k s) = console_ok s" "console_ok (note_success k s) = console_ok s"
  by (simp_all add: console_ok_def)

lemma console_ok_users: "console_ok s \<Longrightarrow> users_ok us \<Longrightarrow> console_ok (s\<lparr>cnUsers := us\<rparr>)"
  by (simp add: console_ok_def)

lemma GetByEmail_ID:
  "users_ok s \<Longrightarrow> GetByEmail tid em s = Inr a \<Longrightarrow> map_of (usByID s) (uID (usHeap s ! a)) = Some a"
  using users_okD(2) [of s _ a] by (auto simp: GetByEmail_def split: option.splits)

lemma user_Get_ID: "user_Get i s = Inr a \<Longrightarrow> map_of (usByID s) i = Some a"
  by (auto simp: user_Get_def split: option.splits)

lemma create_keeps_ok:
  "console_ok s \<Longrightarrow> user_Create fr now u (cnUsers s) = (us, res) \<Longrightarrow> console_ok (s\<lparr>cnUsers := us\<rparr>)"
  using user_Create_ok [of "cnUsers s" fr now u] by (simp add: console_ok_def)

lemma update_keeps_ok:
  assumes "console_ok s" "map_of (usByID (cnUsers s)) i = Some a"
    and "\<And>u. uID (f u) = uID u \<and> uTenantID (f u) = uTenantID u \<and> uEmail (f u) = uEmail u"
  shows "console_ok (s\<lparr>cnUsers := fst (user_Update a (set_user a f (cnUsers s)))\<rparr>)"
  using assms user_Update_ok [of "cnUsers s" i a f] by (simp add: console_ok_def)

lemma guard_allows_ok: "guard_allows now k s = (s1, ok) \<Longrightarrow> console_ok s1 = console_ok s"
  using guard_allows_keeps [of now k s s1 ok] by (simp add: console_ok_def)

lemma handleLogin_ok: "console_ok s \<Longrightarrow> handleLogin pe x b s = Done (s', r) \<Longrightarrow> console_ok s'"
  by (auto simp: handleLogin_def Let_def guard_allows_ok
      split: option.splits prod.splits bool.splits sum.splits outcome.splits if_splits)

lemma handleCreateTenant_ok: "console_ok s \<Longrightarrow> console_ok (fst (handleCreateTenant pe x p b s))"
proof (cases b)
  case (Some r)
  assume ok: "console_ok s"
  obtain slug nm plan where r: "r = (slug, nm, plan)" by (metis prod_cases3)
  obtain ts res where c: "tenant_Create (peFresh pe) (xNow x 0) (new_tenant slug nm plan) (cnTenants s) = (ts, res)" by fastforce
  with tenant_Create_ok [of "cnTenants s" "peFresh pe" "xNow x 0" "new_tenant slug nm plan"] ok
  have "console_ok (s\<lparr>cnTenants := ts\<rparr>)" by (simp add: console_ok_def)
  with Some r c show ?thesis by (auto simp: handleCreateTenant_def split: sum.splits store_error.splits)
qed (simp add: handleCreateTenant_def)

lemma handleCreateUser_ok: "console_ok s \<Longrightarrow> console_ok (fst (handleCreateUser pe x p t b s))"
  using create_keeps_ok [of s]
  by (auto simp: handleCreateUser_def split: option.splits prod.splits sum.splits store_error.splits)

lemma handleCreateAPIKey_ok: "console_ok s \<Longrightarrow> console_ok (fst (handleCreateAPIKey pe x p i s))"
proof (cases "user_Get i (cnUsers s)")
  case (Inr a)
  assume ok: "console_ok s"
  let ?us = "user_Update a (set_user a (\<lambda>v. fst (GenerateAPIKey (aeSha (peAuth pe)) (peHex pe) v)) (cnUsers s))"
  have "console_ok (s\<lparr>cnUsers := fst ?us\<rparr>)"
    by (rule update_keeps_ok [OF ok user_Get_ID [OF Inr]]) (simp add: GenerateAPIKey_def Let_def)
  with ok Inr show ?thesis
    by (cases ?us) (auto simp: handleCreateAPIKey_def Let_def split: option.splits)
qed (simp add: handleCreateAPIKey_def)

lemma ssoIssue_ok: "console_ok s \<Longrightarrow> console_ok (fst (ssoIssue pe x slug em rs pr s))"
proof (cases "GetBySlug slug (cnTenants s)")
  case (Inr t)
  assume ok: "console_ok s"
  then have us: "users_ok (cnUsers s)" by (simp add: console_ok_def)
  show ?thesis
  proof (cases "GetByEmail (tnID t) em (cnUsers s)")
    case (Inl e)
    with Inr ok create_keeps_ok [of s] show ?thesis
      by (auto simp: ssoIssue_def sso_session_def Let_def split: prod.splits sum.splits)
  next
    case r: (Inr a)
    have "console_ok (s\<lparr>cnUsers := fst (user_Update a (set_user a (\<lambda>u. u\<lparr>uRoles := rs, uStatus := UserActive\<rparr>) (cnUsers s)))\<rparr>)"
      by (rule update_keeps_ok [OF ok GetByEmail_ID [OF us r]]) simp
    with Inr r show ?thesis by (simp add: ssoIssue_def sso_session_def Let_def)
  qed
qed (simp add: ssoIssue_def)

lemma handleSCIMCreateUser_ok: "console_ok s \<Longrightarrow> console_ok (fst (handleSCIMCreateUser pe x b s))"
  using create_keeps_ok [of s]
  by (auto simp: handleSCIMCreateUser_def Let_def split: option.splits prod.splits sum.splits)

lemma handleSCIMPatchUser_ok: "console_ok s \<Longrightarrow> console_ok (fst (handleSCIMPatchUser pe x i b s))"
proof (cases "user_Get i (cnUsers s)")
  case (Inr a)
  assume ok: "console_ok s"
  let ?us = "\<lambda>on. user_Update a (set_user a (\<lambda>v. v\<lparr>uStatus := activeStatus on\<rparr>) (cnUsers s))"
  have "console_ok (s\<lparr>cnUsers := fst (?us on)\<rparr>)" for on
    by (rule update_keeps_ok [OF ok user_Get_ID [OF Inr]]) simp
  then have "?us on = (us, e) \<Longrightarrow> console_ok (s\<lparr>cnUsers := us\<rparr>)" for on us e by (metis fst_conv)
  with ok Inr show ?thesis by (auto simp: handleSCIMPatchUser_def Let_def split: option.splits prod.splits)
qed (simp add: handleSCIMPatchUser_def)

lemma handleSCIMDeleteUser_ok: "console_ok s \<Longrightarrow> console_ok (fst (handleSCIMDeleteUser pe x i s))"
  using user_Delete_ok [of "cnUsers s" i]
  by (auto simp: handleSCIMDeleteUser_def console_ok_def split: option.splits prod.splits sum.splits)

lemmas console_ok_handlers = handleCreateTenant_ok handleCreateUser_ok handleCreateAPIKey_ok ssoIssue_ok
  handleSCIMCreateUser_ok handleSCIMPatchUser_ok handleSCIMDeleteUser_ok

lemma platform_step_ok: "console_ok s \<Longrightarrow> platform_step pe x op s = Done s' \<Longrightarrow> console_ok s'"
  by (cases op) (auto simp: console_ok_handlers split: outcome.splits dest: handleLogin_ok)

lemma platform_reach_ok: "platform_reach s0 s \<Longrightarrow> console_ok s0 \<Longrightarrow> console_ok s"
  by (induction rule: platform_reach.induct) (auto dest: platform_step_ok)

lemma setupPlatform_ok: "setupPlatform pe gen uid t1 t2 bc None g = Some s \<Longrightarrow> console_ok s"
proof -
  assume st: "setupPlatform pe gen uid t1 t2 bc None g = Some s"
  obtain ts us ok where b: "bootstrapAdmin pe gen uid t1 t2 bc NewMemTenantStore NewMemUserStore = (ts, us, ok)"
    by (metis prod_cases3)
  have t: "tenant_Create fr now tn NewMemTenantStore = (ts', r) \<Longrightarrow> tenants_ok ts'" for fr now tn ts' r
    using tenant_Create_ok [OF tenants_ok_New, of fr now tn] by simp
  have u: "user_Create fr now v NewMemUserStore = (us', r) \<Longrightarrow> users_ok us'" for fr now v us' r
    using user_Create_ok [OF users_ok_New, of fr now v] by simp
  have "tenants_ok ts \<and> users_ok us"
    using b users_ok_New by (auto simp: bootstrapAdmin_def t u split: prod.splits sum.splits option.splits)
  moreover have "keys (tsByID NewMemTenantStore) = []" by (simp add: NewMemTenantStore_def)
  ultimately show ?thesis using st b by (auto simp: setupPlatform_def console_ok_def split: if_splits)
qed

text \<open>Logging in with the local provider panics for no request while the indexes agree.\<close>

lemma handleLogin_returns:
  assumes "console_ok s" and "peProviders pe = NewAuthenticator (peAuth pe)"
  shows "\<exists>r. handleLogin pe x b s = Done r"
proof -
  have "\<exists>v. local_Authenticate y cr us = Done v" if "users_ok us" for y cr us
    using ResolveAPIKey_not_nil [OF that] by (auto simp: local_Authenticate_def Let_def split: sum.splits option.splits)
  note auth = this
  have l: "\<exists>v. Login (peAuth pe) (peProviders pe) now nm cr us = Done v" if us: "users_ok us" for now nm cr us
  proof (cases "nm = '''' \<or> nm = ''local''")
    case True
    obtain v where "local_Authenticate (peAuth pe) cr us = Done v" using auth [OF us] by blast
    with True assms(2) show ?thesis by (cases v) (auto simp: Login_def NewAuthenticator_def Let_def)
  next
    case False
    with assms(2) show ?thesis by (simp add: Login_def NewAuthenticator_def Let_def)
  qed
  have "users_ok (cnUsers s1)" if "guard_allows now k s = (s1, ok)" for now k s1 ok
    using guard_allows_keeps [OF that] assms(1) by (simp add: console_ok_def)
  then have "Login (peAuth pe) (peProviders pe) now nm cr (cnUsers s1) \<noteq> Panic" if "guard_allows now' k s = (s1, ok)" for now nm cr now' k s1 ok
    using l that by (metis outcome.distinct(1))
  then show ?thesis
    unfolding handleLogin_def Let_def by (fastforce split: option.splits prod.splits bool.splits outcome.splits sum.splits)
qed

end
