(* ===== verification/Siem.thy ===== *)
theory Siem
  imports Dashboard
begin

text \<open>
  The export of audit trail and findings to a SIEM (\<^verbatim>\<open>src/pkg/web/siem_export.go\<close>), as OCSF objects or as
  CEF lines.  \<open>json\<close> is the value given to the JSON encoder; \<open>shw\<close> is \<^verbatim>\<open>fmt.Sprintf("%v", v)\<close> of a detail,
  \<open>rfc\<close> parses and \<open>fmt\<close> prints an RFC 3339 time, and \<open>ord\<close> is the order in which Go visits a map.
\<close>

subsection \<open>Values\<close>

definition FormatInt :: "int \<Rightarrow> string" where
  "FormatInt i = (if i = 0 then ''0'' else if i < 0 then CHR ''-'' # itoa_loop (- i) [] else itoa_loop i [])"

text \<open>Milliseconds since 1970, rounded down.\<close>

definition UnixMilli :: "time \<Rightarrow> int" where
  "UnixMilli t = (t - 62135596800 * second) div 1000000"

datatype json =
    JNull | JStr string | JInt int | JBool bool | JDetails "details option" | JAttrs "(string, string) gomap" | JArr "json list"
  | JObj "(string \<times> json) list"

definition ReplaceAll :: "char \<Rightarrow> string \<Rightarrow> string \<Rightarrow> string" where
  "ReplaceAll c r s = concat (map (\<lambda>x. if x = c then r else [x]) s)"

abbreviation (input) backslash :: char where "backslash \<equiv> CHR 0x5C"
abbreviation (input) newline :: char where "newline \<equiv> CHR 0x0A"
abbreviation (input) carriage :: char where "carriage \<equiv> CHR 0x0D"

definition upper_char :: "char \<Rightarrow> char" where
  "upper_char c = (if 97 \<le> code c \<and> code c \<le> 122 then char_of (code c - 32) else c)"

definition titleCase :: "string \<Rightarrow> string" where
  "titleCase s = (if s = '''' then ''Unknown'' else map upper_char (take 1 s) @ drop 1 s)"

definition severityToID :: "string \<Rightarrow> int" where
  "severityToID s =
     (let t = to_lower s
      in if t = ''critical'' then 5 else if t = ''high'' then 4 else if t = ''medium'' then 3 else if t = ''low'' then 2 else 1)"

definition cefSeverity :: "string \<Rightarrow> int" where
  "cefSeverity s =
     (let t = to_lower s
      in if t = ''critical'' then 10 else if t = ''high'' then 8 else if t = ''medium'' then 5 else if t = ''low'' then 3 else 1)"

subsection \<open>OCSF\<close>

definition auditToOCSF :: "(time \<Rightarrow> string) \<Rightarrow> details entry \<Rightarrow> json" where
  "auditToOCSF fmt e =
     (let catUID = (if enCategoryUID e = 0 then CategorySecurity else enCategoryUID e);
          classUID = (if enClassUID e = 0 then ClassFinding else enClassUID e);
          t = tInstant (enTimestamp e)
      in JObj (
        [(''category_uid'', JInt catUID), (''class_uid'', JInt classUID), (''activity_id'', JInt 1),
         (''type_uid'', JInt (classUID * 100 + 1)), (''severity_id'', JInt (enSeverityID e)),
         (''severity'', JStr (titleCase (enSeverity e))), (''time'', JInt (UnixMilli t)), (''time_dt'', JStr (fmt t)),
         (''message'', JStr (enEventType e)), (''status'', JStr ''New''),
         (''metadata'', JObj [(''uid'', JStr (enID e)), (''sequence'', JInt (uint (enSequenceNum e))), (''version'', JStr ''1.1.0''),
            (''product'', JObj [(''name'', JStr ''NeuroSentry''), (''vendor_name'', JStr ''NeuroSentry'')]),
            (''log_provider'', JStr ''neurosentry'')]),
         (''unmapped'', JObj [(''event_type'', JStr (enEventType e)), (''details'', JDetails (enDetails e)),
            (''prev_hash'', JStr (enPrevHash e)), (''hash'', JStr (enHash e))])] @
        (case enActor e of
           None \<Rightarrow> []
         | Some a \<Rightarrow> [(''actor'', JObj [(''process'', JObj [(''pid'', JInt (aPID a)), (''name'', JStr (aComm a)),
              (''user'', JObj [(''uid'', JStr (FormatInt (aUID a)))])])])])))"

definition chain_json :: "(time \<Rightarrow> string) \<Rightarrow> signal \<Rightarrow> json" where
  "chain_json fmt s =
     JObj [(''layer'', JStr (sLayer s)), (''kind'', JStr (sKind s)), (''time_dt'', JStr (fmt (sTimestamp s))),
           (''attributes'', JAttrs (sAttributes s))]"

definition findingToOCSF :: "(time \<Rightarrow> string) \<Rightarrow> finding \<Rightarrow> json" where
  "findingToOCSF fmt f =
     (let info = [(''title'', JStr (fRule f)), (''desc'', JStr (fDescription f)), (''uid'', JStr (fRuleID f)),
                  (''types'', JArr [JStr ''cross-layer-correlation''])] @
                 (if fTechnique f \<noteq> ''''
                  then [(''attacks'', JArr [JObj [(''technique'', JObj [(''uid'', JStr (fTechnique f))])]])] else [])
      in JObj
        [(''category_uid'', JInt CategorySecurity), (''class_uid'', JInt ClassFinding), (''activity_id'', JInt 1),
         (''type_uid'', JInt (ClassFinding * 100 + 1)), (''severity_id'', JInt (severityToID (fSeverity f))),
         (''severity'', JStr (titleCase (fSeverity f))), (''time'', JInt (UnixMilli (fTimestamp f))),
         (''time_dt'', JStr (fmt (fTimestamp f))), (''message'', JStr (fDescription f)), (''status'', JStr ''New''),
         (''finding_info'', JObj info),
         (''metadata'', JObj [(''version'', JStr ''1.1.0''), (''log_provider'', JStr ''neurosentry''),
            (''product'', JObj [(''name'', JStr ''NeuroSentry''), (''vendor_name'', JStr ''NeuroSentry'')])]),
         (''actor'', JObj [(''process'', JObj [(''pid'', JInt (fPID f))])]),
         (''unmapped'', JObj [(''tenant_id'', JStr (fTenantID f)), (''chain'', JArr (map (chain_json fmt) (fChain f)))])])"

subsection \<open>CEF\<close>

definition cefEscapeHeader :: "string \<Rightarrow> string" where
  "cefEscapeHeader s = ReplaceAll CHR ''|'' [backslash, CHR ''|''] (ReplaceAll backslash [backslash, backslash] s)"

definition cefEscapeVal :: "string \<Rightarrow> string" where
  "cefEscapeVal s =
     ReplaceAll carriage '' '' (ReplaceAll newline '' '' (ReplaceAll CHR ''='' [backslash, CHR ''='']
       (ReplaceAll backslash [backslash, backslash] s)))"

definition is_alnum :: "char \<Rightarrow> bool" where
  "is_alnum c \<longleftrightarrow> 97 \<le> code c \<and> code c \<le> 122 \<or> 65 \<le> code c \<and> code c \<le> 90 \<or> is_digit c"

definition cefSanitize :: "string \<Rightarrow> string" where
  "cefSanitize s = (let b = filter is_alnum s in if b = [] then ''field'' else b)"

definition cefHeader :: "string \<Rightarrow> string \<Rightarrow> int \<Rightarrow> string" where
  "cefHeader sigID name sev =
     ''CEF:0|NeuroSentry|NeuroSentry|0.2.0|'' @ cefEscapeHeader sigID @ ''|'' @ cefEscapeHeader name @ ''|'' @ FormatInt sev @ ''|''"

fun cef_fields :: "bool \<Rightarrow> (string \<times> string) list \<Rightarrow> string" where
  "cef_fields first [] = ''''"
| "cef_fields first ((k, v) # kvs) =
     (if v = '''' then cef_fields first kvs
      else (if first then '''' else '' '') @ k @ ''='' @ v @ cef_fields False kvs)"

definition cefExtension :: "(string list \<Rightarrow> string list) \<Rightarrow> (string, string) gomap \<Rightarrow> string" where
  "cefExtension ord ext = cef_fields True (map (\<lambda>k. (k, mget '''' ext k)) (ord (keys ext)))"

definition put_detail :: "(detail \<Rightarrow> string) \<Rightarrow> string \<times> detail \<Rightarrow> (string, string) gomap \<Rightarrow> (string, string) gomap" where
  "put_detail shw kv ext = mput (''cs_'' @ cefSanitize (fst kv)) (cefEscapeVal (shw (snd kv))) ext"

text \<open>\<open>dord\<close> is the order of the range over the details.\<close>

definition audit_ext :: "(details \<Rightarrow> details) \<Rightarrow> (detail \<Rightarrow> string) \<Rightarrow> details entry \<Rightarrow> (string, string) gomap" where
  "audit_ext dord shw e =
     (let ext = [(''rt'', FormatInt (UnixMilli (tInstant (enTimestamp e)))), (''externalId'', enID e), (''cs1Label'', ''hashChain''),
                 (''cs1'', enHash e)];
          ext1 = (case enActor e of
                    None \<Rightarrow> ext
                  | Some a \<Rightarrow> mput ''duid'' (FormatInt (aUID a)) (mput ''dproc'' (aComm a) (mput ''dpid'' (FormatInt (aPID a)) ext)))
      in fold (put_detail shw) (dord (case enDetails e of None \<Rightarrow> [] | Some d \<Rightarrow> d)) ext1)"

definition auditToCEF :: "(string list \<Rightarrow> string list) \<Rightarrow> (details \<Rightarrow> details) \<Rightarrow> (detail \<Rightarrow> string) \<Rightarrow> details entry \<Rightarrow> string" where
  "auditToCEF ord dord shw e =
     cefHeader (enEventType e) (enEventType e) (cefSeverity (enSeverity e)) @ cefExtension ord (audit_ext dord shw e)"

definition finding_ext :: "finding \<Rightarrow> (string, string) gomap" where
  "finding_ext f =
     (let ext = [(''rt'', FormatInt (UnixMilli (fTimestamp f))), (''dpid'', FormatInt (fPID f)), (''msg'', cefEscapeVal (fDescription f)),
                 (''cs2Label'', ''mitre''), (''cs2'', fTechnique f)]
      in if fTenantID f \<noteq> '''' then mput ''cs3'' (fTenantID f) (mput ''cs3Label'' ''tenant'' ext) else ext)"

definition findingToCEF :: "(string list \<Rightarrow> string list) \<Rightarrow> finding \<Rightarrow> string" where
  "findingToCEF ord f =
     cefHeader (if fRuleID f = '''' then fRule f else fRuleID f) (fRule f) (cefSeverity (fSeverity f)) @ cefExtension ord (finding_ext f)"

subsection \<open>The export\<close>

record siem_env =
  meShow :: "detail \<Rightarrow> string"
  meParse :: "string \<Rightarrow> time option"
  meFormat :: "time \<Rightarrow> string"
  meOrd :: "string list \<Rightarrow> string list"
  meDetails :: "details \<Rightarrow> details"

record siem_query =
  eqFormat :: string
  eqType :: string
  eqLimit :: string
  eqSince :: string

datatype siem_line = CefLine string | NdJson json

definition siem_lines :: "siem_env \<Rightarrow> bool \<Rightarrow> string \<Rightarrow> int \<Rightarrow> time \<Rightarrow> 's agent \<Rightarrow> siem_line list" where
  "siem_lines m cef kind limit since g =
     (let old = (\<lambda>t. since \<noteq> zero_time \<and> t < since)
      in (if kind = ''audit'' \<or> kind = ''all''
          then map (\<lambda>e. if cef then CefLine (auditToCEF (meOrd m) (meDetails m) (meShow m) e) else NdJson (auditToOCSF (meFormat m) e))
                 (filter (\<lambda>e. \<not> old (tInstant (enTimestamp e))) (keep_last (nat limit) (chEntries (agChain g))))
          else []) @
         (if kind = ''findings'' \<or> kind = ''all''
          then map (\<lambda>f. if cef then CefLine (findingToCEF (meOrd m) f) else NdJson (findingToOCSF (meFormat m) f))
                 (filter (\<lambda>f. \<not> old (fTimestamp f)) (RecentFindings (agCorrelator g) limit))
          else []))"

definition handleSIEMExport :: "siem_env \<Rightarrow> siem_query \<Rightarrow> 's agent \<Rightarrow> (string \<times> siem_line list) resp" where
  "handleSIEMExport m q g =
     (let format = (if to_lower (eqFormat q) = '''' then ''ocsf'' else to_lower (eqFormat q));
          kind = (if to_lower (eqType q) = '''' then ''all'' else to_lower (eqType q));
          limit = limit_param 1000 (eqLimit q);
          since = search_time (meParse m) (eqSince q)
      in if format = ''cef'' then Reply 200 (''neurosentry-'' @ kind @ ''.cef'', siem_lines m True kind limit since g)
         else if format \<in> {''ocsf'', ''ndjson'', ''json''}
         then Reply 200 (''neurosentry-'' @ kind @ ''.ndjson'', siem_lines m False kind limit since g)
         else Refused 400)"


subsection \<open>Reading a CEF header\<close>

text \<open>A field of the header ends at the first pipe that no backslash precedes.\<close>

fun cef_field :: "string \<Rightarrow> (string \<times> string) option" where
  "cef_field [] = None"
| "cef_field (c # s) =
     (if c = CHR ''|'' then Some ([], s)
      else if c = backslash then (case s of [] \<Rightarrow> None | d # s' \<Rightarrow> map_option (\<lambda>(f, r). (d # f, r)) (cef_field s'))
      else map_option (\<lambda>(f, r). (c # f, r)) (cef_field s))"

fun cef_read :: "nat \<Rightarrow> string \<Rightarrow> (string list \<times> string) option" where
  "cef_read 0 s = Some ([], s)"
| "cef_read (Suc n) s =
     (case cef_field s of
        None \<Rightarrow> None
      | Some (f, r) \<Rightarrow> (case cef_read n r of None \<Rightarrow> None | Some (fs, r') \<Rightarrow> Some (f # fs, r')))"

lemma cefEscapeHeader_simps [simp]:
  "cefEscapeHeader [] = []"
  "cefEscapeHeader (c # s) =
     (if c = backslash then [backslash, backslash] else if c = CHR ''|'' then [backslash, CHR ''|''] else [c]) @ cefEscapeHeader s"
  by (simp_all add: cefEscapeHeader_def ReplaceAll_def)

lemma cef_field_escaped: "cef_field (cefEscapeHeader s @ CHR ''|'' # r) = Some (s, r)"
  by (induction s) simp_all

lemma cef_field_plain: "\<forall>c \<in> set s. c \<noteq> CHR ''|'' \<and> c \<noteq> backslash \<Longrightarrow> cef_field (s @ CHR ''|'' # r) = Some (s, r)"
  by (induction s) simp_all

lemma FormatInt_chars: "c \<in> set (FormatInt i) \<Longrightarrow> is_digit c \<or> c = CHR ''-''"
  using itoa_loop_chars by (auto simp: FormatInt_def is_digit_def code_def split: if_splits)

lemma not_digits: "\<not> is_digit CHR ''|''" "\<not> is_digit backslash" "\<not> is_digit newline"
  by (simp_all add: is_digit_def code_def)

lemma cef_header_read:
  "cef_read 7 (cefHeader sg name sev @ r) = Some ([''CEF:0'', ''NeuroSentry'', ''NeuroSentry'', ''0.2.0'', sg, name, FormatInt sev], r)"
proof -
  have n: "cef_field (FormatInt sev @ CHR ''|'' # r) = Some (FormatInt sev, r)"
    by (rule cef_field_plain) (use FormatInt_chars not_digits in fastforce)
  have "cef_read 3 (cefEscapeHeader sg @ CHR ''|'' # cefEscapeHeader name @ CHR ''|'' # FormatInt sev @ CHR ''|'' # r) =
      Some ([sg, name, FormatInt sev], r)"
    by (simp add: numeral_3_eq_3 cef_field_escaped n)
  moreover have "cef_read 7 (''CEF:0|NeuroSentry|NeuroSentry|0.2.0|'' @ s) =
      (case cef_read 3 s of None \<Rightarrow> None | Some (fs, r) \<Rightarrow> Some ([''CEF:0'', ''NeuroSentry'', ''NeuroSentry'', ''0.2.0''] @ fs, r))" for s
    by (simp add: eval_nat_numeral split: option.splits prod.splits)
  ultimately show ?thesis by (simp add: cefHeader_def)
qed

subsection \<open>Line breaks\<close>

lemma set_ReplaceAll: "x \<in> set (ReplaceAll c r s) \<longleftrightarrow> x \<in> set s \<and> x \<noteq> c \<or> c \<in> set s \<and> x \<in> set r"
  by (induction s) (auto simp: ReplaceAll_def)

lemma newline_header: "newline \<in> set (cefEscapeHeader s) \<longleftrightarrow> newline \<in> set s"
  by (simp add: cefEscapeHeader_def set_ReplaceAll)

lemma newline_value: "newline \<notin> set (cefEscapeVal s)" "carriage \<notin> set (cefEscapeVal s)"
  by (simp_all add: cefEscapeVal_def set_ReplaceAll)

lemma newline_int: "newline \<notin> set (FormatInt i)"
  using FormatInt_chars [of newline i] not_digits by auto

lemma newline_name: "newline \<notin> set (cefSanitize s)"
  by (auto simp: cefSanitize_def Let_def is_alnum_def is_digit_def code_def)

definition breaks :: "string \<times> string \<Rightarrow> bool" where
  "breaks kv \<longleftrightarrow> snd kv \<noteq> '''' \<and> (newline \<in> set (fst kv) \<or> newline \<in> set (snd kv))"

lemma newline_fields: "newline \<in> set (cef_fields first kvs) \<longleftrightarrow> list_ex breaks kvs"
proof (induction kvs arbitrary: first)
  case (Cons kv kvs)
  then show ?case by (cases kv) (auto simp: breaks_def)
qed simp

lemma newline_extension:
  assumes "range_order ord" "gomap_ok ext"
  shows "newline \<in> set (cefExtension ord ext) \<longleftrightarrow> list_ex breaks ext"
proof -
  have o: "set (ord (keys ext)) = set (keys ext)" using range_orderD [OF assms(1)] assms(2) by (simp add: gomap_ok_def)
  have "(\<lambda>k. (k, mget '''' ext k)) ` set (keys ext) = set ext"
  proof -
    have "(fst kv, mget '''' ext (fst kv)) = kv" if "kv \<in> set ext" for kv
      using map_of_eq_Some_iff_mem [OF assms(2), of "fst kv" "snd kv"] that by (simp add: mget_def)
    then show ?thesis by (force simp: image_iff)
  qed
  then have "set (map (\<lambda>k. (k, mget '''' ext k)) (ord (keys ext))) = set ext" using o by simp
  then show ?thesis unfolding cefExtension_def newline_fields by (simp add: list_ex_iff)
qed


lemma list_ex_map_of: "gomap_ok m \<Longrightarrow> list_ex P m \<longleftrightarrow> (\<exists>k v. map_of m k = Some v \<and> P (k, v))"
  by (auto simp: list_ex_iff map_of_eq_Some_iff_mem)

lemma put_details_gomap_ok [simp]: "gomap_ok ext \<Longrightarrow> gomap_ok (fold (put_detail shw) ds ext)"
  by (induction ds arbitrary: ext) (simp_all add: put_detail_def)

lemma put_details_other: "\<not> prefix ''cs_'' k \<Longrightarrow> map_of (fold (put_detail shw) ds ext) k = map_of ext k"
  by (induction ds arbitrary: ext) (auto simp: put_detail_def)

lemma put_details_safe:
  "(\<And>v. map_of ext k = Some v \<Longrightarrow> \<not> breaks (k, v)) \<Longrightarrow> map_of (fold (put_detail shw) ds ext) k = Some v \<Longrightarrow>
     prefix ''cs_'' k \<Longrightarrow> \<not> breaks (k, v)"
proof (induction ds arbitrary: ext)
  case (Cons d ds)
  have "\<not> breaks (k, w)" if "map_of (put_detail shw d ext) k = Some w" for w
    using that Cons.prems(1) newline_value(1) newline_name by (auto simp: put_detail_def breaks_def split: if_splits)
  with Cons.IH [of "put_detail shw d ext"] Cons.prems(2,3) show ?case by simp
qed simp

lemma put_details_breaks:
  assumes "gomap_ok ext" "list_all (\<lambda>kv. \<not> prefix ''cs_'' (fst kv)) ext"
  shows "list_ex breaks (fold (put_detail shw) ds ext) \<longleftrightarrow> list_ex breaks ext"
proof -
  let ?m = "fold (put_detail shw) ds ext"
  have n: "map_of ext k = None" if "prefix ''cs_'' k" for k
    using that assms(2) by (auto simp: map_of_None_keys list_all_iff)
  have "(\<exists>v. map_of ?m k = Some v \<and> breaks (k, v)) \<longleftrightarrow> (\<exists>v. map_of ext k = Some v \<and> breaks (k, v))" for k
  proof (cases "prefix ''cs_'' k")
    case True
    then show ?thesis using put_details_safe [of ext k shw ds] n by fastforce
  qed (simp add: put_details_other)
  then show ?thesis using assms(1) by (simp add: list_ex_map_of)
qed

definition plain_actor :: "actor option \<Rightarrow> bool" where
  "plain_actor a \<longleftrightarrow> (case a of None \<Rightarrow> True | Some b \<Rightarrow> newline \<notin> set (aComm b))"

lemma audit_ext_ok: "gomap_ok (audit_ext dord shw e)"
  unfolding audit_ext_def Let_def by (rule put_details_gomap_ok) (simp add: gomap_ok_def split: option.splits)

lemma audit_ext_breaks:
  "list_ex breaks (audit_ext dord shw e) \<longleftrightarrow>
     newline \<in> set (enID e) \<or> newline \<in> set (enHash e) \<or> \<not> plain_actor (enActor e)"
proof (cases "enActor e")
  case None
  show ?thesis unfolding audit_ext_def Let_def None
    by (simp add: put_details_breaks gomap_ok_def, auto simp: breaks_def newline_int plain_actor_def)
next
  case (Some a)
  show ?thesis unfolding audit_ext_def Let_def Some
    by (simp add: put_details_breaks gomap_ok_def, auto simp: breaks_def newline_int plain_actor_def)
qed

text \<open>
  C36: what a CEF record guarantees its reader.  The header always reads back to the event type and severity it was
  built from, whatever they contain, and the details of the entry never break the line.  A record is split over
  several lines exactly if its event type, identifier, hash or the name of the acting process contains a line
  break: the process name, which a process chooses itself, is not escaped.
\<close>

theorem cef_record_integrity:
  assumes "range_order ord"
  shows "cef_read 7 (auditToCEF ord dord shw e) =
      Some ([''CEF:0'', ''NeuroSentry'', ''NeuroSentry'', ''0.2.0'', enEventType e, enEventType e,
             FormatInt (cefSeverity (enSeverity e))], cefExtension ord (audit_ext dord shw e)) \<and>
    (newline \<in> set (auditToCEF ord dord shw e) \<longleftrightarrow>
      newline \<in> set (enEventType e) \<or> newline \<in> set (enID e) \<or> newline \<in> set (enHash e) \<or> \<not> plain_actor (enActor e))"
proof -
  have "newline \<in> set (cefHeader s s n) \<longleftrightarrow> newline \<in> set s" for s n
    by (auto simp: cefHeader_def newline_header newline_int)
  with newline_extension [OF assms audit_ext_ok, of dord shw e] audit_ext_breaks [of dord shw e]
  have "newline \<in> set (auditToCEF ord dord shw e) \<longleftrightarrow>
      newline \<in> set (enEventType e) \<or> newline \<in> set (enID e) \<or> newline \<in> set (enHash e) \<or> \<not> plain_actor (enActor e)"
    by (auto simp: auditToCEF_def)
  then show ?thesis by (simp add: auditToCEF_def cef_header_read)
qed

definition named_process :: "string \<Rightarrow> details entry" where
  "named_process comm =
     SetActor 7 0 comm (NewEntry ''e1'' \<lparr>tInstant = 63835596800000000000, tZone = ''UTC''\<rparr> ''file_blocked'' ''high'' None)"

theorem cef_record_integrity_witness:
  "newline \<in> set (auditToCEF (\<lambda>ks. ks) (\<lambda>d. d) (\<lambda>_. '''') (named_process (''x'' @ newline # ''CEF:0|''))) \<and>
   newline \<notin> set (auditToCEF (\<lambda>ks. ks) (\<lambda>d. d) (\<lambda>_. '''') (named_process ''bash''))"
  using cef_record_integrity [OF range_order_id, of "\<lambda>d. d" "\<lambda>_. ''''" "named_process (''x'' @ newline # ''CEF:0|'')"]
    cef_record_integrity [OF range_order_id, of "\<lambda>d. d" "\<lambda>_. ''''" "named_process ''bash''"]
  by (simp add: named_process_def NewEntry_def SetActor_def plain_actor_def)

end
