(* ===== verification/Config.thy ===== *)
theory Config
  imports KernelMaps Float64 GoStrings
begin

text \<open>
  The configuration of \<^verbatim>\<open>src/pkg/config/config.go\<close>: its structures, the defaults, loading and validation.
  Reading YAML, the environment and filling the structures is the library \<^verbatim>\<open>viper\<close>, a parameter of
  \<open>config_Load\<close>; \<open>config_tags\<close> lists the \<^verbatim>\<open>mapstructure\<close> keys of the structures with the fields they
  fill.
\<close>

subsection \<open>The structures\<close>

record model_fim_config =
  fimEnabled :: bool
  fimProtectedExtensions :: "string list"
  fimProtectedPaths :: "string list"
  fimTrustedPIDs :: "int list"
  fimTrustedContainers :: "string list"
  fimEnforceMode :: bool
  fimLogAllAccess :: bool
  fimAllowProcessWhitelist :: bool

record network_containment_config =
  netEnabled :: bool
  netAllowedEgress :: "string list"
  netBlockedIPs :: "string list"
  netBlockExfiltration :: bool
  netExfilThresholdMB :: int
  netInterfaces :: "string list"
  netAllowDNS :: bool

record pickle_protection_config =
  pklEnabled :: bool
  pklDangerousSymbols :: "string list"
  pklBlockOnDetect :: bool
  pklStackTraceDepth :: int

record pytorch_observability_config =
  pytEnabled :: bool
  pytLibtorchPath :: string
  pytMonitorModelLoads :: bool
  pytCalculateHashes :: bool

record agent_config =
  agcMetricsPort :: int
  agcLogLevel :: string
  agcLogFormat :: string
  agcAlertWebhook :: string
  agcAlertSilenceSec :: int
  agcKubernetesEnabled :: bool
  agcKubeletPath :: string
  agcEventSampleRate :: float64
  agcEventBufferSize :: int
  agcPIDPruneInterval :: dur

record bpf_config =
  bpcLogLevel :: int
  bpcRingBufferSizeKB :: int
  bpcPerCPUMapSize :: int
  bpcVerifierLogLevel :: int
  bpcDisableCORE :: bool

record sandbox_config =
  sbcEnabled :: bool
  sbcReadOnlyPaths :: "string list"
  sbcReadWritePaths :: "string list"
  sbcDenyPaths :: "string list"

record mcp_config =
  mccEnabled :: bool
  mccListenAddr :: string
  mccUpstreamAddr :: string
  mccAllowedTools :: "string list"
  mccBlockedTools :: "string list"
  mccLogToolCalls :: bool

record audit_config =
  aucEnabled :: bool
  aucLogPath :: string
  aucMaxSizeMB :: int
  aucDBDriver :: string
  aucDBPath :: string
  aucDBDSN :: string

record web_config =
  wbcEnabled :: bool
  wbcListenAddr :: string

record platform_config =
  plcEnabled :: bool
  plcSnapshotPath :: string
  plcJWTSecret :: string
  plcBootstrapTenant :: string
  plcBootstrapEmail :: string
  plcBootstrapPassword :: string

record notify_config =
  ntcEnabled :: bool
  ntcWebhookURL :: string
  ntcSlackWebhook :: string
  ntcMinSeverity :: string
  ntcSplunkHECURL :: string
  ntcSplunkHECToken :: string
  ntcSplunkIndex :: string
  ntcSentinelWorkspaceID :: string
  ntcSentinelSharedKey :: string
  ntcSentinelLogType :: string

record gateway_settings =
  gwcEnabled :: bool
  gwcListenAddr :: string
  gwcBlockOnDetect :: bool
  gwcAllowedProviders :: "string list"
  gwcDefaultProvider :: string

record fleet_config =
  flcEnabled :: bool
  flcEnrollToken :: string
  flcHeartbeatSecs :: int
  flcMTLSEnabled :: bool
  flcMTLSListen :: string
  flcPKIDir :: string

record breaker_config =
  brcEnabled :: bool
  brcMinSeverity :: string
  brcDefaultAction :: string
  brcCooldownSecs :: float64

record self_protect_config =
  spcEnabled :: bool
  spcIntervalSecs :: int

record protection =
  prModelFIM :: model_fim_config
  prNetworkContainment :: network_containment_config
  prPickleProtection :: pickle_protection_config
  prPyTorchObservability :: pytorch_observability_config

record config =
  cfProtection :: protection
  cfAgent :: agent_config
  cfBPF :: bpf_config
  cfSandbox :: sandbox_config
  cfMCP :: mcp_config
  cfAudit :: audit_config
  cfWeb :: web_config
  cfPlatform :: platform_config
  cfNotify :: notify_config
  cfGateway :: gateway_settings
  cfFleet :: fleet_config
  cfBreaker :: breaker_config
  cfSelfProtect :: self_protect_config
  cfPolicyPath :: string
  cfConfigPath :: string

subsection \<open>Keys and values\<close>

datatype config_value = CBool bool | CInt int | CFloat float64 | CStr string | CList "string list" | CInts "int list" | CDur dur

definition config_tags :: "(string \<times> (config \<Rightarrow> config_value)) list" where
  "config_tags =
     [(''protection.model_fim.enabled'', \<lambda>c. CBool (fimEnabled (prModelFIM (cfProtection c)))),
      (''protection.model_fim.protected_extensions'', \<lambda>c. CList (fimProtectedExtensions (prModelFIM (cfProtection c)))),
      (''protection.model_fim.protected_paths'', \<lambda>c. CList (fimProtectedPaths (prModelFIM (cfProtection c)))),
      (''protection.model_fim.trusted_pids'', \<lambda>c. CInts (fimTrustedPIDs (prModelFIM (cfProtection c)))),
      (''protection.model_fim.trusted_containers'', \<lambda>c. CList (fimTrustedContainers (prModelFIM (cfProtection c)))),
      (''protection.model_fim.enforce_mode'', \<lambda>c. CBool (fimEnforceMode (prModelFIM (cfProtection c)))),
      (''protection.model_fim.log_all_access'', \<lambda>c. CBool (fimLogAllAccess (prModelFIM (cfProtection c)))),
      (''protection.model_fim.allow_process_whitelist'', \<lambda>c. CBool (fimAllowProcessWhitelist (prModelFIM (cfProtection c)))),
      (''protection.network_containment.enabled'', \<lambda>c. CBool (netEnabled (prNetworkContainment (cfProtection c)))),
      (''protection.network_containment.allowed_egress'', \<lambda>c. CList (netAllowedEgress (prNetworkContainment (cfProtection c)))),
      (''protection.network_containment.blocked_ips'', \<lambda>c. CList (netBlockedIPs (prNetworkContainment (cfProtection c)))),
      (''protection.network_containment.block_exfiltration'', \<lambda>c. CBool (netBlockExfiltration (prNetworkContainment (cfProtection c)))),
      (''protection.network_containment.exfil_threshold_mb'', \<lambda>c. CInt (netExfilThresholdMB (prNetworkContainment (cfProtection c)))),
      (''protection.network_containment.interfaces'', \<lambda>c. CList (netInterfaces (prNetworkContainment (cfProtection c)))),
      (''protection.network_containment.allow_dns'', \<lambda>c. CBool (netAllowDNS (prNetworkContainment (cfProtection c)))),
      (''protection.pickle_protection.enabled'', \<lambda>c. CBool (pklEnabled (prPickleProtection (cfProtection c)))),
      (''protection.pickle_protection.dangerous_symbols'', \<lambda>c. CList (pklDangerousSymbols (prPickleProtection (cfProtection c)))),
      (''protection.pickle_protection.block_on_detect'', \<lambda>c. CBool (pklBlockOnDetect (prPickleProtection (cfProtection c)))),
      (''protection.pickle_protection.stack_trace_depth'', \<lambda>c. CInt (pklStackTraceDepth (prPickleProtection (cfProtection c)))),
      (''protection.pytorch_observability.enabled'', \<lambda>c. CBool (pytEnabled (prPyTorchObservability (cfProtection c)))),
      (''protection.pytorch_observability.libtorch_path'', \<lambda>c. CStr (pytLibtorchPath (prPyTorchObservability (cfProtection c)))),
      (''protection.pytorch_observability.monitor_model_loads'', \<lambda>c. CBool (pytMonitorModelLoads (prPyTorchObservability (cfProtection c)))),
      (''protection.pytorch_observability.calculate_hashes'', \<lambda>c. CBool (pytCalculateHashes (prPyTorchObservability (cfProtection c)))),
      (''agent.metrics_port'', \<lambda>c. CInt (agcMetricsPort (cfAgent c))),
      (''agent.log_level'', \<lambda>c. CStr (agcLogLevel (cfAgent c))),
      (''agent.log_format'', \<lambda>c. CStr (agcLogFormat (cfAgent c))),
      (''agent.alert_webhook'', \<lambda>c. CStr (agcAlertWebhook (cfAgent c))),
      (''agent.alert_silence_sec'', \<lambda>c. CInt (agcAlertSilenceSec (cfAgent c))),
      (''agent.kubernetes_enabled'', \<lambda>c. CBool (agcKubernetesEnabled (cfAgent c))),
      (''agent.kubelet_path'', \<lambda>c. CStr (agcKubeletPath (cfAgent c))),
      (''agent.event_sample_rate'', \<lambda>c. CFloat (agcEventSampleRate (cfAgent c))),
      (''agent.event_buffer_size'', \<lambda>c. CInt (agcEventBufferSize (cfAgent c))),
      (''agent.pid_prune_interval'', \<lambda>c. CDur (agcPIDPruneInterval (cfAgent c))),
      (''bpf.log_level'', \<lambda>c. CInt (bpcLogLevel (cfBPF c))),
      (''bpf.ring_buffer_size_kb'', \<lambda>c. CInt (bpcRingBufferSizeKB (cfBPF c))),
      (''bpf.per_cpu_map_size'', \<lambda>c. CInt (bpcPerCPUMapSize (cfBPF c))),
      (''bpf.verifier_log_level'', \<lambda>c. CInt (bpcVerifierLogLevel (cfBPF c))),
      (''bpf.disable_core'', \<lambda>c. CBool (bpcDisableCORE (cfBPF c))),
      (''sandbox.enabled'', \<lambda>c. CBool (sbcEnabled (cfSandbox c))),
      (''sandbox.read_only_paths'', \<lambda>c. CList (sbcReadOnlyPaths (cfSandbox c))),
      (''sandbox.read_write_paths'', \<lambda>c. CList (sbcReadWritePaths (cfSandbox c))),
      (''sandbox.deny_paths'', \<lambda>c. CList (sbcDenyPaths (cfSandbox c))),
      (''mcp.enabled'', \<lambda>c. CBool (mccEnabled (cfMCP c))),
      (''mcp.listen_addr'', \<lambda>c. CStr (mccListenAddr (cfMCP c))),
      (''mcp.upstream_addr'', \<lambda>c. CStr (mccUpstreamAddr (cfMCP c))),
      (''mcp.allowed_tools'', \<lambda>c. CList (mccAllowedTools (cfMCP c))),
      (''mcp.blocked_tools'', \<lambda>c. CList (mccBlockedTools (cfMCP c))),
      (''mcp.log_tool_calls'', \<lambda>c. CBool (mccLogToolCalls (cfMCP c))),
      (''audit.enabled'', \<lambda>c. CBool (aucEnabled (cfAudit c))),
      (''audit.log_path'', \<lambda>c. CStr (aucLogPath (cfAudit c))),
      (''audit.max_size_mb'', \<lambda>c. CInt (aucMaxSizeMB (cfAudit c))),
      (''audit.db_driver'', \<lambda>c. CStr (aucDBDriver (cfAudit c))),
      (''audit.db_path'', \<lambda>c. CStr (aucDBPath (cfAudit c))),
      (''audit.db_dsn'', \<lambda>c. CStr (aucDBDSN (cfAudit c))),
      (''web.enabled'', \<lambda>c. CBool (wbcEnabled (cfWeb c))),
      (''web.listen_addr'', \<lambda>c. CStr (wbcListenAddr (cfWeb c))),
      (''platform.enabled'', \<lambda>c. CBool (plcEnabled (cfPlatform c))),
      (''platform.snapshot_path'', \<lambda>c. CStr (plcSnapshotPath (cfPlatform c))),
      (''platform.jwt_secret'', \<lambda>c. CStr (plcJWTSecret (cfPlatform c))),
      (''platform.bootstrap_tenant'', \<lambda>c. CStr (plcBootstrapTenant (cfPlatform c))),
      (''platform.bootstrap_email'', \<lambda>c. CStr (plcBootstrapEmail (cfPlatform c))),
      (''platform.bootstrap_password'', \<lambda>c. CStr (plcBootstrapPassword (cfPlatform c))),
      (''notify.enabled'', \<lambda>c. CBool (ntcEnabled (cfNotify c))),
      (''notify.webhook_url'', \<lambda>c. CStr (ntcWebhookURL (cfNotify c))),
      (''notify.slack_webhook'', \<lambda>c. CStr (ntcSlackWebhook (cfNotify c))),
      (''notify.min_severity'', \<lambda>c. CStr (ntcMinSeverity (cfNotify c))),
      (''notify.splunk_hec_url'', \<lambda>c. CStr (ntcSplunkHECURL (cfNotify c))),
      (''notify.splunk_hec_token'', \<lambda>c. CStr (ntcSplunkHECToken (cfNotify c))),
      (''notify.splunk_index'', \<lambda>c. CStr (ntcSplunkIndex (cfNotify c))),
      (''notify.sentinel_workspace_id'', \<lambda>c. CStr (ntcSentinelWorkspaceID (cfNotify c))),
      (''notify.sentinel_shared_key'', \<lambda>c. CStr (ntcSentinelSharedKey (cfNotify c))),
      (''notify.sentinel_log_type'', \<lambda>c. CStr (ntcSentinelLogType (cfNotify c))),
      (''gateway.enabled'', \<lambda>c. CBool (gwcEnabled (cfGateway c))),
      (''gateway.listen_addr'', \<lambda>c. CStr (gwcListenAddr (cfGateway c))),
      (''gateway.block_on_detect'', \<lambda>c. CBool (gwcBlockOnDetect (cfGateway c))),
      (''gateway.allowed_providers'', \<lambda>c. CList (gwcAllowedProviders (cfGateway c))),
      (''gateway.default_provider'', \<lambda>c. CStr (gwcDefaultProvider (cfGateway c))),
      (''fleet.enabled'', \<lambda>c. CBool (flcEnabled (cfFleet c))),
      (''fleet.enroll_token'', \<lambda>c. CStr (flcEnrollToken (cfFleet c))),
      (''fleet.heartbeat_secs'', \<lambda>c. CInt (flcHeartbeatSecs (cfFleet c))),
      (''fleet.mtls_enabled'', \<lambda>c. CBool (flcMTLSEnabled (cfFleet c))),
      (''fleet.mtls_listen'', \<lambda>c. CStr (flcMTLSListen (cfFleet c))),
      (''fleet.pki_dir'', \<lambda>c. CStr (flcPKIDir (cfFleet c))),
      (''breaker.enabled'', \<lambda>c. CBool (brcEnabled (cfBreaker c))),
      (''breaker.min_severity'', \<lambda>c. CStr (brcMinSeverity (cfBreaker c))),
      (''breaker.default_action'', \<lambda>c. CStr (brcDefaultAction (cfBreaker c))),
      (''breaker.cooldown_secs'', \<lambda>c. CFloat (brcCooldownSecs (cfBreaker c))),
      (''self_protect.enabled'', \<lambda>c. CBool (spcEnabled (cfSelfProtect c))),
      (''self_protect.interval_secs'', \<lambda>c. CInt (spcIntervalSecs (cfSelfProtect c))),
      (''policy_path'', \<lambda>c. CStr (cfPolicyPath c))]"

definition zero_config :: config where
  "zero_config =
     \<lparr>cfProtection = \<lparr>prModelFIM = \<lparr>fimEnabled = False, fimProtectedExtensions = [], fimProtectedPaths = [], fimTrustedPIDs = [], fimTrustedContainers = [], fimEnforceMode = False, fimLogAllAccess = False, fimAllowProcessWhitelist = False\<rparr>,
        prNetworkContainment = \<lparr>netEnabled = False, netAllowedEgress = [], netBlockedIPs = [], netBlockExfiltration = False, netExfilThresholdMB = 0, netInterfaces = [], netAllowDNS = False\<rparr>,
        prPickleProtection = \<lparr>pklEnabled = False, pklDangerousSymbols = [], pklBlockOnDetect = False, pklStackTraceDepth = 0\<rparr>,
        prPyTorchObservability = \<lparr>pytEnabled = False, pytLibtorchPath = '''', pytMonitorModelLoads = False, pytCalculateHashes = False\<rparr>\<rparr>,
      cfAgent = \<lparr>agcMetricsPort = 0, agcLogLevel = '''', agcLogFormat = '''', agcAlertWebhook = '''', agcAlertSilenceSec = 0, agcKubernetesEnabled = False, agcKubeletPath = '''', agcEventSampleRate = 0, agcEventBufferSize = 0, agcPIDPruneInterval = 0\<rparr>,
      cfBPF = \<lparr>bpcLogLevel = 0, bpcRingBufferSizeKB = 0, bpcPerCPUMapSize = 0, bpcVerifierLogLevel = 0, bpcDisableCORE = False\<rparr>,
      cfSandbox = \<lparr>sbcEnabled = False, sbcReadOnlyPaths = [], sbcReadWritePaths = [], sbcDenyPaths = []\<rparr>,
      cfMCP = \<lparr>mccEnabled = False, mccListenAddr = '''', mccUpstreamAddr = '''', mccAllowedTools = [], mccBlockedTools = [], mccLogToolCalls = False\<rparr>,
      cfAudit = \<lparr>aucEnabled = False, aucLogPath = '''', aucMaxSizeMB = 0, aucDBDriver = '''', aucDBPath = '''', aucDBDSN = ''''\<rparr>,
      cfWeb = \<lparr>wbcEnabled = False, wbcListenAddr = ''''\<rparr>,
      cfPlatform = \<lparr>plcEnabled = False, plcSnapshotPath = '''', plcJWTSecret = '''', plcBootstrapTenant = '''', plcBootstrapEmail = '''', plcBootstrapPassword = ''''\<rparr>,
      cfNotify = \<lparr>ntcEnabled = False, ntcWebhookURL = '''', ntcSlackWebhook = '''', ntcMinSeverity = '''', ntcSplunkHECURL = '''', ntcSplunkHECToken = '''', ntcSplunkIndex = '''', ntcSentinelWorkspaceID = '''', ntcSentinelSharedKey = '''', ntcSentinelLogType = ''''\<rparr>,
      cfGateway = \<lparr>gwcEnabled = False, gwcListenAddr = '''', gwcBlockOnDetect = False, gwcAllowedProviders = [], gwcDefaultProvider = ''''\<rparr>,
      cfFleet = \<lparr>flcEnabled = False, flcEnrollToken = '''', flcHeartbeatSecs = 0, flcMTLSEnabled = False, flcMTLSListen = '''', flcPKIDir = ''''\<rparr>,
      cfBreaker = \<lparr>brcEnabled = False, brcMinSeverity = '''', brcDefaultAction = '''', brcCooldownSecs = 0\<rparr>,
      cfSelfProtect = \<lparr>spcEnabled = False, spcIntervalSecs = 0\<rparr>,
      cfPolicyPath = '''', cfConfigPath = ''''\<rparr>"

definition config_Default :: config where
  "config_Default =
     \<lparr>cfProtection = \<lparr>prModelFIM = \<lparr>fimEnabled = True, fimProtectedExtensions = [''.safetensors'', ''.gguf'', ''.pth'', ''.pt'', ''.pkl''], fimProtectedPaths = [], fimTrustedPIDs = [], fimTrustedContainers = [], fimEnforceMode = True, fimLogAllAccess = False, fimAllowProcessWhitelist = False\<rparr>,
        prNetworkContainment = \<lparr>netEnabled = True, netAllowedEgress = [''10.0.0.0/8'', ''172.16.0.0/12''], netBlockedIPs = [], netBlockExfiltration = True, netExfilThresholdMB = 100, netInterfaces = [], netAllowDNS = True\<rparr>,
        prPickleProtection = \<lparr>pklEnabled = True, pklDangerousSymbols = [''os.system'', ''eval'', ''exec'', ''__import__'', ''subprocess''], pklBlockOnDetect = True, pklStackTraceDepth = 0\<rparr>,
        prPyTorchObservability = \<lparr>pytEnabled = True, pytLibtorchPath = '''', pytMonitorModelLoads = True, pytCalculateHashes = False\<rparr>\<rparr>,
      cfAgent = \<lparr>agcMetricsPort = 2112, agcLogLevel = ''info'', agcLogFormat = ''json'', agcAlertWebhook = '''', agcAlertSilenceSec = 300, agcKubernetesEnabled = True, agcKubeletPath = '''', agcEventSampleRate = 1, agcEventBufferSize = 1000, agcPIDPruneInterval = 5 * second\<rparr>,
      cfBPF = \<lparr>bpcLogLevel = 0, bpcRingBufferSizeKB = 256, bpcPerCPUMapSize = 1024, bpcVerifierLogLevel = 0, bpcDisableCORE = False\<rparr>,
      cfSandbox = \<lparr>sbcEnabled = False, sbcReadOnlyPaths = [], sbcReadWritePaths = [], sbcDenyPaths = []\<rparr>,
      cfMCP = \<lparr>mccEnabled = False, mccListenAddr = ''127.0.0.1:8081'', mccUpstreamAddr = '''', mccAllowedTools = [], mccBlockedTools = [], mccLogToolCalls = True\<rparr>,
      cfAudit = \<lparr>aucEnabled = True, aucLogPath = ''/var/log/neurosentry/audit.jsonl'', aucMaxSizeMB = 100, aucDBDriver = ''sqlite'', aucDBPath = '''', aucDBDSN = ''''\<rparr>,
      cfWeb = \<lparr>wbcEnabled = False, wbcListenAddr = '':8080''\<rparr>,
      cfPlatform = \<lparr>plcEnabled = False, plcSnapshotPath = ''/var/lib/neurosentry/control-plane.json'', plcJWTSecret = '''', plcBootstrapTenant = ''default'', plcBootstrapEmail = ''admin@neurosentry.local'', plcBootstrapPassword = ''''\<rparr>,
      cfNotify = \<lparr>ntcEnabled = False, ntcWebhookURL = '''', ntcSlackWebhook = '''', ntcMinSeverity = '''', ntcSplunkHECURL = '''', ntcSplunkHECToken = '''', ntcSplunkIndex = '''', ntcSentinelWorkspaceID = '''', ntcSentinelSharedKey = '''', ntcSentinelLogType = ''''\<rparr>,
      cfGateway = \<lparr>gwcEnabled = False, gwcListenAddr = '''', gwcBlockOnDetect = False, gwcAllowedProviders = [], gwcDefaultProvider = ''''\<rparr>,
      cfFleet = \<lparr>flcEnabled = False, flcEnrollToken = '''', flcHeartbeatSecs = 0, flcMTLSEnabled = False, flcMTLSListen = '''', flcPKIDir = ''''\<rparr>,
      cfBreaker = \<lparr>brcEnabled = False, brcMinSeverity = '''', brcDefaultAction = '''', brcCooldownSecs = 0\<rparr>,
      cfSelfProtect = \<lparr>spcEnabled = False, spcIntervalSecs = 0\<rparr>,
      cfPolicyPath = ''/etc/neurosentry/policy.yaml'', cfConfigPath = ''''\<rparr>"

definition setDefaults :: "config \<Rightarrow> (string, config_value) gomap" where
  "setDefaults cfg =
     (let p = cfProtection cfg in
      [(''protection.model_fim.enabled'', CBool (fimEnabled (prModelFIM p))),
       (''protection.model_fim.protected_extensions'', CList (fimProtectedExtensions (prModelFIM p))),
       (''protection.model_fim.enforce_mode'', CBool (fimEnforceMode (prModelFIM p))),
       (''protection.network_containment.enabled'', CBool (netEnabled (prNetworkContainment p))),
       (''protection.network_containment.block_exfiltration'', CBool (netBlockExfiltration (prNetworkContainment p))),
       (''protection.network_containment.exfil_threshold_mb'', CInt (netExfilThresholdMB (prNetworkContainment p))),
       (''protection.pickle_protection.enabled'', CBool (pklEnabled (prPickleProtection p))),
       (''protection.pytorch_observability.enabled'', CBool (pytEnabled (prPyTorchObservability p))),
       (''agent.metrics_port'', CInt (agcMetricsPort (cfAgent cfg))),
       (''agent.log_level'', CStr (agcLogLevel (cfAgent cfg))),
       (''audit.db_driver'', CStr (aucDBDriver (cfAudit cfg))),
       (''policy_path'', CStr (cfPolicyPath cfg))])"

subsection \<open>Validation and loading\<close>

datatype config_error =
    InvalidMetricsPort int | ExfilThresholdNotPositive | NoProtectedExtensions | SampleRateOutOfRange float64
  | ReadFailed | UnmarshalFailed

text \<open>A valid configuration is returned with its buffer size raised to the minimum.\<close>

definition config_Validate :: "config \<Rightarrow> config_error + config" where
  "config_Validate c =
     (let a = cfAgent c; p = cfProtection c in
      if agcMetricsPort a < 1 \<or> agcMetricsPort a > 65535 then Inl (InvalidMetricsPort (agcMetricsPort a))
      else if netBlockExfiltration (prNetworkContainment p) \<and> netExfilThresholdMB (prNetworkContainment p) < 1
      then Inl ExfilThresholdNotPositive
      else if fimEnabled (prModelFIM p) \<and> fimProtectedExtensions (prModelFIM p) = [] then Inl NoProtectedExtensions
      else if agcEventSampleRate a < 0 \<or> agcEventSampleRate a > 1 then Inl (SampleRateOutOfRange (agcEventSampleRate a))
      else Inr (if agcEventBufferSize a < 100 then c\<lparr>cfAgent := a\<lparr>agcEventBufferSize := 100\<rparr>\<rparr> else c))"

text \<open>
  \<open>vRead\<close> is \<^verbatim>\<open>ReadInConfig\<close> of a file that exists (\<open>vExists\<close>), \<open>vUnmarshal\<close> is \<^verbatim>\<open>Unmarshal\<close> after the
  defaults were set and the file (\<open>None\<close>: none) was read.
\<close>

record 'y viper =
  vExists :: "string \<Rightarrow> bool"
  vRead :: "string \<Rightarrow> 'y option"
  vUnmarshal :: "(string, config_value) gomap \<Rightarrow> 'y option \<Rightarrow> config option"

definition config_Load :: "'y viper \<Rightarrow> string \<Rightarrow> config_error + config" where
  "config_Load v path =
     (let ds = setDefaults config_Default;
          finish = (\<lambda>file. case vUnmarshal v ds file of
              None \<Rightarrow> Inl UnmarshalFailed
            | Some result \<Rightarrow>
                (case config_Validate result of
                   Inl e \<Rightarrow> Inl e
                 | Inr c \<Rightarrow> Inr (c\<lparr>cfConfigPath := path\<rparr>)))
      in if path \<noteq> '''' \<and> vExists v path
         then (case vRead v path of None \<Rightarrow> Inl ReadFailed | Some y \<Rightarrow> finish (Some y))
         else finish None)"

definition IsModelProtected :: "config \<Rightarrow> string \<Rightarrow> bool" where
  "IsModelProtected c ext \<longleftrightarrow> ext \<in> set (fimProtectedExtensions (prModelFIM (cfProtection c)))"

text \<open>The part of the configuration the kernel manager and the policy engine read.\<close>

definition protection_of :: "config \<Rightarrow> protection_config" where
  "protection_of c =
     (let p = cfProtection c; m = prModelFIM p; n = prNetworkContainment p in
      \<lparr>pcFIMEnabled = fimEnabled m, pcEnforceMode = fimEnforceMode m, pcLogAllAccess = fimLogAllAccess m,
       pcProtectedExtensions = fimProtectedExtensions m, pcTrustedPIDs = fimTrustedPIDs m, pcNetEnabled = netEnabled n,
       pcBlockExfiltration = netBlockExfiltration n, pcExfilThresholdMB = netExfilThresholdMB n,
       pcAllowedEgress = netAllowedEgress n, pcPickleEnabled = pklEnabled (prPickleProtection p),
       pcPyTorchEnabled = pytEnabled (prPyTorchObservability p), pcDangerousSymbols = pklDangerousSymbols (prPickleProtection p)\<rparr>)"


subsection \<open>What validation guarantees\<close>

definition valid_config :: "config \<Rightarrow> bool" where
  "valid_config c \<longleftrightarrow>
     1 \<le> agcMetricsPort (cfAgent c) \<and> agcMetricsPort (cfAgent c) \<le> 65535 \<and>
     (netBlockExfiltration (prNetworkContainment (cfProtection c)) \<longrightarrow> 1 \<le> netExfilThresholdMB (prNetworkContainment (cfProtection c))) \<and>
     (fimEnabled (prModelFIM (cfProtection c)) \<longrightarrow> fimProtectedExtensions (prModelFIM (cfProtection c)) \<noteq> []) \<and>
     0 \<le> agcEventSampleRate (cfAgent c) \<and> agcEventSampleRate (cfAgent c) \<le> 1 \<and> 100 \<le> agcEventBufferSize (cfAgent c)"

lemma Validate_sound: "config_Validate c = Inr c' \<Longrightarrow> valid_config c'"
  by (auto simp: config_Validate_def valid_config_def Let_def split: if_splits)

lemma Validate_id: "config_Validate c = Inr c \<longleftrightarrow> valid_config c"
proof
  assume "valid_config c"
  then show "config_Validate c = Inr c" by (auto simp: config_Validate_def valid_config_def Let_def)
qed (rule Validate_sound)

lemma valid_config_path [simp]: "valid_config (c\<lparr>cfConfigPath := p\<rparr>) = valid_config c"
  by (simp add: valid_config_def)

lemma Load_valid: "config_Load v path = Inr c \<Longrightarrow> valid_config c \<and> cfConfigPath c = path"
  by (auto simp: config_Load_def Let_def dest!: Validate_sound split: if_splits option.splits sum.splits)

subsection \<open>Loading without a file\<close>

text \<open>
  The documented behaviour of the library when neither file nor environment set a key: a field takes the default
  that was set for its key, and its zero value where none was set.
\<close>

definition viper_documented :: "'y viper \<Rightarrow> bool" where
  "viper_documented v \<longleftrightarrow>
     (\<forall>cfg. \<exists>c. vUnmarshal v (setDefaults cfg) None = Some c \<and>
        (\<forall>(k, get) \<in> set config_tags. get c = (case map_of (setDefaults cfg) k of Some x \<Rightarrow> x | None \<Rightarrow> get zero_config)))"

definition defaulted_keys :: "string list" where
  "defaulted_keys = keys (setDefaults config_Default)"

lemma defaults_from_tags:
  "(k, get) \<in> set config_tags \<Longrightarrow>
     (case map_of (setDefaults config_Default) k of Some x \<Rightarrow> x | None \<Rightarrow> get zero_config) =
     (if k \<in> set defaulted_keys then get config_Default else get zero_config)"
proof -
  have "list_all (\<lambda>(k, get). (case map_of (setDefaults config_Default) k of Some x \<Rightarrow> x | None \<Rightarrow> get zero_config) =
     (if k \<in> set defaulted_keys then get config_Default else get zero_config)) config_tags"
    by code_simp
  then show "(k, get) \<in> set config_tags \<Longrightarrow> ?thesis" by (auto simp: list_all_iff)
qed


lemma config_values:
  "(if ''agent.metrics_port'' \<in> set defaulted_keys then agcMetricsPort (cfAgent config_Default) else 0) = 2112"
  "(if ''protection.network_containment.exfil_threshold_mb'' \<in> set defaulted_keys
    then netExfilThresholdMB (prNetworkContainment (cfProtection config_Default)) else 0) = 100"
  "(if ''protection.model_fim.protected_extensions'' \<in> set defaulted_keys
    then fimProtectedExtensions (prModelFIM (cfProtection config_Default)) else []) \<noteq> []"
  "''agent.event_sample_rate'' \<notin> set defaulted_keys" "''agent.event_buffer_size'' \<notin> set defaulted_keys"
  "''audit.enabled'' \<notin> set defaulted_keys" "''protection.network_containment.allow_dns'' \<notin> set defaulted_keys"
  "''protection.pickle_protection.dangerous_symbols'' \<notin> set defaulted_keys"
  by code_simp+

lemma config_zero_values:
  "agcMetricsPort (cfAgent zero_config) = 0" "netExfilThresholdMB (prNetworkContainment (cfProtection zero_config)) = 0"
  "fimProtectedExtensions (prModelFIM (cfProtection zero_config)) = []" "agcEventSampleRate (cfAgent zero_config) = 0"
  "agcEventBufferSize (cfAgent zero_config) = 0" "aucEnabled (cfAudit zero_config) = False"
  "netAllowDNS (prNetworkContainment (cfProtection zero_config)) = False"
  "pklDangerousSymbols (prPickleProtection (cfProtection zero_config)) = []"
  by (simp_all add: zero_config_def)

lemma tags_ignore_buffer:
  "list_all (\<lambda>(k, get). k = ''agent.event_buffer_size'' \<or>
      get (c\<lparr>cfAgent := (cfAgent c)\<lparr>agcEventBufferSize := 100\<rparr>, cfConfigPath := path\<rparr>) = get c) config_tags"
  unfolding config_tags_def by simp

text \<open>
  C38: a start without a configuration file.  Loading succeeds and gives a valid configuration, but not the default
  one: a key has its default exactly if \<^verbatim>\<open>setDefaults\<close> lists it, and its zero value otherwise (the event buffer the
  minimum).  So auditing, which the defaults switch on, is off, the dangerous symbols are empty and DNS is not allowed.
\<close>

theorem load_without_file:
  assumes "viper_documented v" and "\<not> vExists v path"
  shows "\<exists>c. config_Load v path = Inr c \<and> valid_config c \<and>
     (\<forall>(k, get) \<in> set config_tags. k \<noteq> ''agent.event_buffer_size'' \<longrightarrow>
        get c = (if k \<in> set defaulted_keys then get config_Default else get zero_config)) \<and>
     aucEnabled (cfAudit config_Default) \<and> \<not> aucEnabled (cfAudit c) \<and>
     pklDangerousSymbols (prPickleProtection (cfProtection c)) = [] \<and>
     netAllowDNS (prNetworkContainment (cfProtection config_Default)) \<and> \<not> netAllowDNS (prNetworkContainment (cfProtection c))"
proof -
  obtain c0 where c0: "vUnmarshal v (setDefaults config_Default) None = Some c0"
    and tags: "\<And>k get. (k, get) \<in> set config_tags \<Longrightarrow> get c0 = (if k \<in> set defaulted_keys then get config_Default else get zero_config)"
    using assms(1) unfolding viper_documented_def by (fastforce simp: defaults_from_tags)
  have in_tags: "(''agent.metrics_port'', \<lambda>c. CInt (agcMetricsPort (cfAgent c))) \<in> set config_tags"
    "(''protection.network_containment.exfil_threshold_mb'', \<lambda>c. CInt (netExfilThresholdMB (prNetworkContainment (cfProtection c)))) \<in> set config_tags"
    "(''protection.model_fim.protected_extensions'', \<lambda>c. CList (fimProtectedExtensions (prModelFIM (cfProtection c)))) \<in> set config_tags"
    "(''agent.event_sample_rate'', \<lambda>c. CFloat (agcEventSampleRate (cfAgent c))) \<in> set config_tags"
    "(''agent.event_buffer_size'', \<lambda>c. CInt (agcEventBufferSize (cfAgent c))) \<in> set config_tags"
    "(''audit.enabled'', \<lambda>c. CBool (aucEnabled (cfAudit c))) \<in> set config_tags"
    "(''protection.network_containment.allow_dns'', \<lambda>c. CBool (netAllowDNS (prNetworkContainment (cfProtection c)))) \<in> set config_tags"
    "(''protection.pickle_protection.dangerous_symbols'', \<lambda>c. CList (pklDangerousSymbols (prPickleProtection (cfProtection c)))) \<in> set config_tags"
    by (simp_all add: config_tags_def)
  have f: "agcMetricsPort (cfAgent c0) = 2112" "netExfilThresholdMB (prNetworkContainment (cfProtection c0)) = 100"
    "fimProtectedExtensions (prModelFIM (cfProtection c0)) \<noteq> []"
    using tags [OF in_tags(1)] tags [OF in_tags(2)] tags [OF in_tags(3)] config_values(1-3) config_zero_values(1-3)
    by (auto split: if_splits)
  have z: "agcEventSampleRate (cfAgent c0) = 0" "agcEventBufferSize (cfAgent c0) = 0" "\<not> aucEnabled (cfAudit c0)"
    "\<not> netAllowDNS (prNetworkContainment (cfProtection c0))" "pklDangerousSymbols (prPickleProtection (cfProtection c0)) = []"
    using tags [OF in_tags(4)] tags [OF in_tags(5)] tags [OF in_tags(6)] tags [OF in_tags(7)] tags [OF in_tags(8)]
      config_values(4-8) config_zero_values(4-8) by auto
  define c where "c = c0\<lparr>cfAgent := (cfAgent c0)\<lparr>agcEventBufferSize := 100\<rparr>, cfConfigPath := path\<rparr>"
  have "config_Load v path = Inr c"
    using assms(2) c0 f z by (simp add: config_Load_def Let_def config_Validate_def c_def)
  moreover have "get c = get c0" if "(k, get) \<in> set config_tags" "k \<noteq> ''agent.event_buffer_size''" for k get
    using tags_ignore_buffer [where c = c0 and path = path] that by (auto simp: list_all_iff c_def)
  ultimately have c: "config_Load v path = Inr c" and same: "\<And>k get. (k, get) \<in> set config_tags \<Longrightarrow> k \<noteq> ''agent.event_buffer_size'' \<Longrightarrow> get c = get c0"
    by blast+
  have "\<forall>(k, get) \<in> set config_tags. k \<noteq> ''agent.event_buffer_size'' \<longrightarrow>
        get c = (if k \<in> set defaulted_keys then get config_Default else get zero_config)"
  proof (intro ballI, clarify)
    fix k get
    assume "(k, get) \<in> set config_tags" "k \<noteq> ''agent.event_buffer_size''"
    then show "get c = (if k \<in> set defaulted_keys then get config_Default else get zero_config)"
      using same tags by presburger
  qed
  moreover have "valid_config c" using Load_valid [OF c] by blast
  moreover have "\<not> aucEnabled (cfAudit c)" "\<not> netAllowDNS (prNetworkContainment (cfProtection c))"
    "pklDangerousSymbols (prPickleProtection (cfProtection c)) = []"
    using z by (simp_all add: c_def)
  moreover have "aucEnabled (cfAudit config_Default)" "netAllowDNS (prNetworkContainment (cfProtection config_Default))"
    by (simp_all add: config_Default_def)
  ultimately show ?thesis using c by blast
qed

definition demo_bool :: "(string, config_value) gomap \<Rightarrow> string \<Rightarrow> bool" where
  "demo_bool ds k = (map_of ds k = Some (CBool True))"

definition demo_int :: "(string, config_value) gomap \<Rightarrow> string \<Rightarrow> int" where
  "demo_int ds k = (case map_of ds k of Some (CInt i) \<Rightarrow> i | _ \<Rightarrow> 0)"

definition demo_str :: "(string, config_value) gomap \<Rightarrow> string \<Rightarrow> string" where
  "demo_str ds k = (case map_of ds k of Some (CStr s) \<Rightarrow> s | _ \<Rightarrow> '''')"

definition demo_unmarshal :: "(string, config_value) gomap \<Rightarrow> unit option \<Rightarrow> config option" where
  "demo_unmarshal ds file =
     (let p = cfProtection zero_config in
      Some (zero_config
        \<lparr>cfProtection := p
           \<lparr>prModelFIM := (prModelFIM p)
              \<lparr>fimEnabled := demo_bool ds ''protection.model_fim.enabled'',
               fimProtectedExtensions := (case map_of ds ''protection.model_fim.protected_extensions'' of Some (CList l) \<Rightarrow> l | _ \<Rightarrow> []),
               fimEnforceMode := demo_bool ds ''protection.model_fim.enforce_mode''\<rparr>,
            prNetworkContainment := (prNetworkContainment p)
              \<lparr>netEnabled := demo_bool ds ''protection.network_containment.enabled'',
               netBlockExfiltration := demo_bool ds ''protection.network_containment.block_exfiltration'',
               netExfilThresholdMB := demo_int ds ''protection.network_containment.exfil_threshold_mb''\<rparr>,
            prPickleProtection := (prPickleProtection p)\<lparr>pklEnabled := demo_bool ds ''protection.pickle_protection.enabled''\<rparr>,
            prPyTorchObservability := (prPyTorchObservability p)\<lparr>pytEnabled := demo_bool ds ''protection.pytorch_observability.enabled''\<rparr>\<rparr>,
         cfAgent := (cfAgent zero_config)\<lparr>agcMetricsPort := demo_int ds ''agent.metrics_port'', agcLogLevel := demo_str ds ''agent.log_level''\<rparr>,
         cfAudit := (cfAudit zero_config)\<lparr>aucDBDriver := demo_str ds ''audit.db_driver''\<rparr>,
         cfPolicyPath := demo_str ds ''policy_path''\<rparr>))"

lemma demo_viper:
  "viper_documented \<lparr>vExists = (\<lambda>_. False), vRead = (\<lambda>_. None :: unit option), vUnmarshal = demo_unmarshal\<rparr>"
  unfolding viper_documented_def
proof (intro allI exI conjI)
  fix cfg
  show "vUnmarshal \<lparr>vExists = (\<lambda>_. False), vRead = (\<lambda>_. None :: unit option), vUnmarshal = demo_unmarshal\<rparr> (setDefaults cfg) None =
      Some (the (demo_unmarshal (setDefaults cfg) None))"
    by (simp add: demo_unmarshal_def Let_def)
  show "\<forall>(k, get) \<in> set config_tags. get (the (demo_unmarshal (setDefaults cfg) None)) =
      (case map_of (setDefaults cfg) k of Some x \<Rightarrow> x | None \<Rightarrow> get zero_config)"
    unfolding config_tags_def
    by (simp add: demo_unmarshal_def demo_bool_def demo_int_def demo_str_def setDefaults_def Let_def)
qed

theorem load_without_file_witness:
  "\<exists>c. config_Load \<lparr>vExists = (\<lambda>_. False), vRead = (\<lambda>_. None :: unit option), vUnmarshal = demo_unmarshal\<rparr> ''/etc/none.yaml'' = Inr c \<and>
     \<not> aucEnabled (cfAudit c)"
  using load_without_file [OF demo_viper, of "''/etc/none.yaml''"] by auto

end
