(* ===== verification/Alerting.thy ===== *)
theory Alerting
  imports Siem Config Base64 "HOL-Library.List_Lexorder" "HOL-Library.Char_ord"
begin

text \<open>
  The configuration of the notification channels (\<^verbatim>\<open>applyNotify\<close>, \<^verbatim>\<open>setNotifyConfig\<close>, \<^verbatim>\<open>notifyConfigView\<close> in
  \<^verbatim>\<open>src/pkg/agent/controller.go\<close> and \<^verbatim>\<open>handleNotifyConfig\<close> in \<^verbatim>\<open>src/pkg/web/server.go\<close>) and what the channels
  send (\<^verbatim>\<open>src/pkg/notify\<close>: webhook, Slack, Splunk, Sentinel).  The exchange itself is \<open>http\<close>: the status of
  the answer, \<open>None\<close> when the request fails.
\<close>

subsection \<open>Standard base64\<close>

definition std64_char :: "char \<Rightarrow> char" where
  "std64_char c = (if c = CHR ''-'' then CHR ''+'' else if c = CHR ''_'' then CHR ''/'' else c)"

definition std64 :: "string \<Rightarrow> string" where
  "std64 s = map std64_char (b64 s) @ replicate ((3 - length s mod 3) mod 3) CHR ''=''"

definition url64_char :: "char \<Rightarrow> char option" where
  "url64_char c =
     (if c = CHR ''-'' \<or> c = CHR ''_'' then None
      else if c = CHR ''+'' then Some CHR ''-'' else if c = CHR ''/'' then Some CHR ''_'' else Some c)"

fun url64 :: "string \<Rightarrow> string option" where
  "url64 [] = Some []"
| "url64 (c # s) = (case (url64_char c, url64 s) of (Some d, Some t) \<Rightarrow> Some (d # t) | _ \<Rightarrow> None)"

definition unstd64 :: "string \<Rightarrow> string option" where
  "unstd64 s0 =
     (let s = filter (\<lambda>c. code c \<noteq> 10 \<and> code c \<noteq> 13) s0;
          n = length s;
          pads = (if suffix ''=='' s then 2 else if suffix ''='' s then 1 else 0)
      in if n mod 4 \<noteq> 0 then None
         else case url64 (take (n - pads) s) of None \<Rightarrow> None | Some t \<Rightarrow> unb64 t)"

subsection \<open>The channels\<close>

definition Unix :: "time \<Rightarrow> int" where
  "Unix t = (t - 62135596800 * second) div second"

record outgoing_request =
  hqURL :: string
  hqHeaders :: "(string \<times> string) list"
  hqBody :: string

type_synonym http = "outgoing_request \<Rightarrow> int option"

text \<open>\<open>enc\<close> is \<^verbatim>\<open>json.Marshal\<close> of an alert, \<open>jenc\<close> of a JSON value.\<close>

definition WebhookChannel_Send :: "(alert \<Rightarrow> string) \<Rightarrow> http \<Rightarrow> string \<Rightarrow> alert \<Rightarrow> bool" where
  "WebhookChannel_Send enc http url a =
     (case http \<lparr>hqURL = url, hqHeaders = [(''Content-Type'', ''application/json'')], hqBody = enc a\<rparr> of
        None \<Rightarrow> False | Some status \<Rightarrow> status < 400)"

definition slackColor :: "(string, string) gomap" where
  "slackColor =
     [(''critical'', ''#ef4444''), (''high'', ''#f59e0b''), (''medium'', ''#3b82f6''), (''low'', ''#94a3b8''), (''info'', ''#94a3b8'')]"

definition middle_dot :: string where
  "middle_dot = [char_of (194 :: nat), char_of (183 :: nat)]"

definition slack_payload :: "alert \<Rightarrow> json" where
  "slack_payload a =
     (let ks = sort (keys (alFields a));
          fields = map (\<lambda>k. JObj [(''title'', JStr k), (''value'', JStr (mget '''' (alFields a) k)), (''short'', JBool True)]) ks
      in JObj [(''attachments'', JArr [JObj
           [(''color'', JStr (mget '''' slackColor (alSeverity a))),
            (''title'', JStr (''['' @ alSeverity a @ ''] '' @ alTitle a)), (''text'', JStr (alMessage a)),
            (''footer'', JStr (''NeuroSentry '' @ middle_dot @ '' '' @ alSource a)), (''ts'', JInt (Unix (alTimestamp a))),
            (''fields'', if fields = [] then JNull else JArr fields), (''mrkdwn_in'', JArr [JStr ''text''])]])])"

definition SlackChannel_Send :: "(json \<Rightarrow> string) \<Rightarrow> http \<Rightarrow> string \<Rightarrow> alert \<Rightarrow> bool" where
  "SlackChannel_Send jenc http url a =
     (case http \<lparr>hqURL = url, hqHeaders = [(''Content-Type'', ''application/json'')], hqBody = jenc (slack_payload a)\<rparr> of
        None \<Rightarrow> False | Some status \<Rightarrow> status < 400)"

record splunk_channel =
  scURL :: string
  scToken :: string
  scSourceType :: string
  scIndex :: string

definition NewSplunkHECChannel :: "string \<Rightarrow> string \<Rightarrow> string \<Rightarrow> string \<Rightarrow> splunk_channel" where
  "NewSplunkHECChannel url token index sourceType =
     \<lparr>scURL = url, scToken = token, scSourceType = (if sourceType = '''' then ''neurosentry:alert'' else sourceType), scIndex = index\<rparr>"

record hec_envelope =
  heTime :: int
  heSource :: string
  heSourceType :: string
  heIndex :: string
  heEvent :: alert

definition SplunkHECChannel_Send :: "(hec_envelope \<Rightarrow> string) \<Rightarrow> http \<Rightarrow> time \<Rightarrow> splunk_channel \<Rightarrow> alert \<Rightarrow> bool" where
  "SplunkHECChannel_Send enc http now c a =
     (let t = Unix (alTimestamp a);
          env = \<lparr>heTime = (if t = 0 then Unix now else t), heSource = ''neurosentry'', heSourceType = scSourceType c, heIndex = scIndex c, heEvent = a\<rparr>
      in case http \<lparr>hqURL = scURL c, hqHeaders = [(''Authorization'', ''Splunk '' @ scToken c), (''Content-Type'', ''application/json'')],
                    hqBody = enc env\<rparr> of
           None \<Rightarrow> False | Some status \<Rightarrow> status = 200)"

record sentinel_channel =
  snWorkspaceID :: string
  snSharedKey :: string
  snLogType :: string
  snEndpoint :: string

definition NewSentinelChannel :: "string \<Rightarrow> string \<Rightarrow> string \<Rightarrow> sentinel_channel option" where
  "NewSentinelChannel workspaceID sharedKeyB64 logType =
     map_option (\<lambda>key. \<lparr>snWorkspaceID = workspaceID, snSharedKey = key, snLogType = (if logType = '''' then ''NeuroSentry'' else logType),
        snEndpoint = ''https://'' @ workspaceID @ ''.ods.opinsights.azure.com/api/logs?api-version=2016-04-01''\<rparr>) (unstd64 sharedKeyB64)"

definition replaceSuffix :: "string \<Rightarrow> string \<Rightarrow> string \<Rightarrow> string" where
  "replaceSuffix s frm to =
     (if length frm \<le> length s \<and> drop (length s - length frm) s = frm then take (length s - length frm) s @ to else s)"

definition string_to_sign :: "nat \<Rightarrow> string \<Rightarrow> string" where
  "string_to_sign contentLen date =
     ''POST'' @ [newline] @ FormatInt (int contentLen) @ [newline] @ ''application/json'' @ [newline] @ ''x-ms-date:'' @ date @ [newline] @ ''/api/logs''"

definition buildSignature :: "(string \<Rightarrow> string \<Rightarrow> string) \<Rightarrow> sentinel_channel \<Rightarrow> nat \<Rightarrow> string \<Rightarrow> string" where
  "buildSignature hmac c contentLen date = std64 (hmac (snSharedKey c) (string_to_sign contentLen date))"

text \<open>\<open>enc\<close> encodes the list with the alert, \<open>rfc1123\<close> is the current time in UTC.\<close>

definition sentinel_request ::
  "(alert list \<Rightarrow> string) \<Rightarrow> (string \<Rightarrow> string \<Rightarrow> string) \<Rightarrow> string \<Rightarrow> sentinel_channel \<Rightarrow> alert \<Rightarrow> outgoing_request" where
  "sentinel_request enc hmac rfc1123 c a =
     (let body = enc [a]; date = replaceSuffix rfc1123 ''UTC'' ''GMT''
      in \<lparr>hqURL = snEndpoint c,
          hqHeaders = [(''Content-Type'', ''application/json''), (''Log-Type'', snLogType c), (''x-ms-date'', date),
            (''time-generated-field'', ''timestamp''),
            (''Authorization'', ''SharedKey '' @ snWorkspaceID c @ '':'' @ buildSignature hmac c (length body) date)],
          hqBody = body\<rparr>)"

definition SentinelChannel_Send ::
  "(alert list \<Rightarrow> string) \<Rightarrow> (string \<Rightarrow> string \<Rightarrow> string) \<Rightarrow> http \<Rightarrow> string \<Rightarrow> sentinel_channel \<Rightarrow> alert \<Rightarrow> bool" where
  "SentinelChannel_Send enc hmac http rfc1123 c a =
     (case http (sentinel_request enc hmac rfc1123 c a) of None \<Rightarrow> False | Some status \<Rightarrow> status = 200)"

subsection \<open>Configuring the router\<close>

record notify_settings =
  nsWebhook :: string
  nsSlack :: string
  nsMinSev :: string

definition applyNotify :: "notify_config \<Rightarrow> string \<Rightarrow> string \<Rightarrow> string \<Rightarrow> router \<Rightarrow> notify_settings \<times> router \<times> nat" where
  "applyNotify cfg webhook slack minSev0 r0 =
     (let minSev = (if minSev0 = '''' then ''high'' else minSev0);
          chans = (if webhook \<noteq> '''' then [''webhook''] else []) @ (if slack \<noteq> '''' then [''slack''] else []) @
            (if ntcSplunkHECURL cfg \<noteq> '''' \<and> ntcSplunkHECToken cfg \<noteq> '''' then [''splunk-hec''] else []) @
            (if ntcSentinelWorkspaceID cfg \<noteq> '''' \<and> ntcSentinelSharedKey cfg \<noteq> '''' \<and>
                NewSentinelChannel (ntcSentinelWorkspaceID cfg) (ntcSentinelSharedKey cfg) (ntcSentinelLogType cfg) \<noteq> None
             then [''sentinel''] else [])
      in (\<lparr>nsWebhook = webhook, nsSlack = slack, nsMinSev = minSev\<rparr>, fold (\<lambda>c. AddChannel c minSev) chans (router_Reset r0), length chans))"

record notify_view =
  nvWebhookURL :: string
  nvSlackURL :: string
  nvMinSeverity :: string
  nvChannels :: nat
  nvSiem :: bool

definition notifyConfigView :: "notify_config \<Rightarrow> notify_settings \<Rightarrow> router \<Rightarrow> notify_view" where
  "notifyConfigView cfg ns r =
     \<lparr>nvWebhookURL = nsWebhook ns, nvSlackURL = nsSlack ns, nvMinSeverity = nsMinSev ns, nvChannels = length (rtChannels r),
      nvSiem = (ntcSplunkHECURL cfg \<noteq> '''' \<or> ntcSentinelWorkspaceID cfg \<noteq> '''')\<rparr>"

definition setNotifyConfig :: "notify_config \<Rightarrow> string \<Rightarrow> string \<Rightarrow> string \<Rightarrow> router \<Rightarrow> notify_settings \<times> router \<times> nat" where
  "setNotifyConfig cfg webhook slack minSev r = applyNotify cfg (trim_space webhook) (trim_space slack) (trim_space minSev) r"

text \<open>The handler; \<open>body\<close> is the decoded request of a POST (webhook, Slack, severity).\<close>

definition handleNotifyConfig ::
  "'s agent_env \<Rightarrow> notify_config \<Rightarrow> principal option \<Rightarrow> bool \<Rightarrow> (string \<times> string \<times> string) option \<Rightarrow> notify_settings \<times> 's agent \<Rightarrow>
     (notify_settings \<times> 's agent) \<times> (notify_view + nat) resp" where
  "handleNotifyConfig x cfg caller is_get body st =
     (case st of (ns, g) \<Rightarrow>
        if is_get then (st, Reply 200 (Inl (notifyConfigView cfg ns (agNotifier g))))
        else case body of
          None \<Rightarrow> (st, Refused 400)
        | Some (webhook, slack, minSev) \<Rightarrow>
            (case setNotifyConfig cfg webhook slack minSev (agNotifier g) of
               (ns1, r1, n) \<Rightarrow>
                 ((ns1, audit_as x 0 caller ''notify:config'' ''medium'' [(''channels'', DInt (int n)), (''min_severity'', DStr minSev)] (g\<lparr>agNotifier := r1\<rparr>)),
                  Reply 200 (Inr n))))"


subsection \<open>Base64 reads back\<close>

lemma url64_std64: "CHR ''+'' \<notin> set s \<Longrightarrow> CHR ''/'' \<notin> set s \<Longrightarrow> url64 (map std64_char s) = Some s"
  by (induction s) (auto simp: std64_char_def url64_char_def)

lemma b64_length: "length (b64 s) mod 4 = (if length s mod 3 = 0 then 0 else length s mod 3 + 1)"
  by (induction s rule: b64.induct) (auto simp: mod_Suc split: if_splits)

lemma b64_plain: "CHR ''+'' \<notin> set (b64 s)" "CHR ''/'' \<notin> set (b64 s)" "CHR ''='' \<notin> set (b64 s)"
  "CHR 0x0A \<notin> set (b64 s)" "CHR 0x0D \<notin> set (b64 s)"
  by (rule b64_alphabet, code_simp)+

lemma std64_body_plain:
  assumes "c \<in> set (map std64_char (b64 s))"
  shows "c \<noteq> CHR ''=''" "code c \<noteq> 10 \<and> code c \<noteq> 13"
proof -
  obtain d where d: "d \<in> set (b64 s)" "c = std64_char d" using assms by auto
  have "CHR ''='' \<noteq> d" "CHR 0x0A \<noteq> d" "CHR 0x0D \<noteq> d" using d(1) b64_plain by metis+
  moreover have "code c = 10 \<longleftrightarrow> c = CHR 0x0A" "code c = 13 \<longleftrightarrow> c = CHR 0x0D"
    using code_inject [of c "CHR 0x0A"] code_inject [of c "CHR 0x0D"] by (simp_all add: code_def)
  ultimately show "c \<noteq> CHR ''=''" "code c \<noteq> 10 \<and> code c \<noteq> 13"
    using d(2) by (auto simp: std64_char_def split: if_splits)
qed

lemma unstd64_std64: "unstd64 (std64 s) = Some s"
proof -
  define t where "t = map std64_char (b64 s)"
  define p where "p = (3 - length s mod 3) mod 3"
  have l: "length t = length (b64 s)" by (simp add: t_def)
  have plain: "c \<noteq> CHR ''=''" "code c \<noteq> 10 \<and> code c \<noteq> 13" if "c \<in> set t" for c
    using that std64_body_plain unfolding t_def by blast+
  have e: "std64 s = t @ replicate p CHR ''=''" by (simp add: std64_def t_def p_def)
  have keep: "filter (\<lambda>c. code c \<noteq> 10 \<and> code c \<noteq> 13) (std64 s) = std64 s"
    unfolding e using plain(2) by (auto simp: filter_id_conv code_def)
  have m: "(length t + p) mod 4 = 0"
  proof -
    consider "length s mod 3 = 0" | "length s mod 3 = 1" | "length s mod 3 = 2" by linarith
    then show ?thesis
    proof cases
      case 1
      then have "p = 0" "length t mod 4 = 0" using b64_length [of s] by (simp_all add: p_def l)
      then show ?thesis by simp
    next
      case 2
      then have "p = 2" "length t mod 4 = 2" using b64_length [of s] by (simp_all add: p_def l)
      then show ?thesis by presburger
    next
      case 3
      then have "p = 1" "length t mod 4 = 3" using b64_length [of s] by (simp_all add: p_def l)
      then show ?thesis by presburger
    qed
  qed
  have p3: "p \<in> {0, 1, 2}" by (auto simp: p_def)
  have ne: "CHR ''='' \<notin> set t" using plain(1) by blast
  then have ends: "\<not> suffix ''='' t" "\<not> suffix ''=='' t" by (auto simp: suffix_def)
  have one: "\<not> suffix ''=='' (t @ ''='')" using ne by (auto simp: suffix_def append_eq_append_conv2 Cons_eq_append_conv)
  have two: "suffix ''=='' (std64 s) \<longleftrightarrow> p = 2" "suffix ''='' (std64 s) \<longleftrightarrow> p \<noteq> 0"
    using p3 ends one suffixI [of "t @ ''=''" t "''=''"] suffixI [of "t @ ''==''" "t @ ''=''" "''=''"]
      suffixI [of "t @ ''==''" t "''==''"] unfolding e by (auto simp: numeral_2_eq_2)
  have "take (length (std64 s) - p) (std64 s) = t" unfolding e by simp
  moreover have "(if suffix ''=='' (std64 s) then 2 else if suffix ''='' (std64 s) then 1 else 0) = p" using two p3 by auto
  moreover have "length (std64 s) mod 4 = 0" using m by (simp add: e)
  moreover have "url64 t = Some (b64 s)" unfolding t_def using b64_plain url64_std64 by blast
  ultimately show ?thesis unfolding unstd64_def keep Let_def by (simp add: unb64_b64)
qed

end
