(* ===== verification/Files.thy ===== *)
theory Files
  imports Audit_Props GoStrings "HOL-Library.Multiset"
begin

text \<open>
  What the agent sees of the file system.  A host is the answers of the operating system at one
  moment: \<open>fsStat\<close> and \<open>fsRead\<close> are \<^verbatim>\<open>os.Stat\<close> (the size) and the bytes \<^verbatim>\<open>io.Copy\<close> gets from an
  opened file (\<open>None\<close> when opening or reading fails), \<open>fsWalk\<close> lists the calls
  \<^verbatim>\<open>filepath.WalkDir\<close> makes for a root.  The digest is SHA-256 of the content, a parameter.
  \<open>path_Ext\<close> and \<open>path_Base\<close> are \<^verbatim>\<open>filepath.Ext\<close> and \<^verbatim>\<open>filepath.Base\<close> on Unix.
\<close>

record walk_entry =
  wePath :: string
  weErr :: bool
  weIsDir :: bool
  weInfo :: "(int \<times> time) option"

record host_files =
  fsStat :: "string \<Rightarrow> int option"
  fsRead :: "string \<Rightarrow> string option"
  fsWalk :: "string \<Rightarrow> walk_entry list"

type_synonym sha = "string \<Rightarrow> 256 word"

definition path_Ext :: "string \<Rightarrow> string" where
  "path_Ext p =
     (let e = rev (takeWhile (\<lambda>c. c \<noteq> CHR ''/'') (rev p))
      in if CHR ''.'' \<in> set e then CHR ''.'' # rev (takeWhile (\<lambda>c. c \<noteq> CHR ''.'') (rev e)) else '''')"

definition path_Base :: "string \<Rightarrow> string" where
  "path_Base p =
     (if p = '''' then ''.''
      else let b = rev (takeWhile (\<lambda>c. c \<noteq> CHR ''/'') (dropWhile (\<lambda>c. c = CHR ''/'') (rev p)))
           in if b = '''' then ''/'' else b)"

definition hashFile :: "sha \<Rightarrow> host_files \<Rightarrow> string \<Rightarrow> string option" where
  "hashFile sha fs p = map_option (\<lambda>d. hex256 (sha d)) (fsRead fs p)"

text \<open>The hash of a file that was read, or the empty string.\<close>

definition hash_or_empty :: "sha \<Rightarrow> host_files \<Rightarrow> string \<Rightarrow> string" where
  "hash_or_empty sha fs p = (case hashFile sha fs p of None \<Rightarrow> '''' | Some h \<Rightarrow> h)"

lemma hash_or_empty_iff [simp]: "hash_or_empty sha fs p = '''' \<longleftrightarrow> fsRead fs p = None"
  by (simp add: hash_or_empty_def hashFile_def split: option.splits)

lemma hash_or_empty_read: "fsRead fs p = Some d \<Longrightarrow> hash_or_empty sha fs p = hex256 (sha d)"
  by (simp add: hash_or_empty_def hashFile_def)

text \<open>Two contents the digest tells apart.\<close>

definition distinguishes :: "sha \<Rightarrow> string \<Rightarrow> string \<Rightarrow> bool" where
  "distinguishes sha a b \<longleftrightarrow> sha a \<noteq> sha b"

lemma path_examples:
  "path_Ext ''/m/a.tar.GGUF'' = ''.GGUF''" "path_Ext ''/m.d/model'' = ''''" "path_Base ''/m/a.pt/'' = ''a.pt''" "path_Base ''//'' = ''/''"
  by code_simp+

end
