(* ===== verification/Inventory.thy ===== *)
theory Inventory
  imports Files
begin

text \<open>
  The model asset inventory of \<^verbatim>\<open>src/pkg/agent/inventory.go\<close>: which files the scanner indexes, how it
  classifies them and when it reports one as modified.  A scan is a function of the host's answers
  and the clock.
\<close>

subsection \<open>Assets\<close>

record model_asset =
  maPath :: string
  maName :: string
  maExtension :: string
  maSize :: int
  maModTime :: time
  maSHA256 :: string
  maFramework :: string
  maStatus :: string
  maSafety :: string

record inventory_summary =
  isTotal :: nat
  isTotalSize :: int
  isByFramework :: "(string, int) gomap"
  isModified :: nat
  isUnreadable :: nat
  isUnsafe :: nat
  isScannedAt :: time

record inventory =
  invAssets :: "(string, model_asset) gomap"
  invScanTime :: time
  invPaths :: "string list"
  invExts :: "string list"

definition NewInventory :: inventory where
  "NewInventory = \<lparr>invAssets = [], invScanTime = zero_time, invPaths = [], invExts = []\<rparr>"

definition SetScope :: "string list \<Rightarrow> string list \<Rightarrow> inventory \<Rightarrow> inventory" where
  "SetScope paths exts iv = iv\<lparr>invPaths := paths, invExts := exts\<rparr>"

definition Scope :: "inventory \<Rightarrow> string list \<times> string list" where
  "Scope iv = (invPaths iv, invExts iv)"

definition AddPath :: "string \<Rightarrow> inventory \<Rightarrow> inventory" where
  "AddPath p iv = (if p \<in> set (invPaths iv) then iv else iv\<lparr>invPaths := invPaths iv @ [p]\<rparr>)"

definition RemovePath :: "string \<Rightarrow> inventory \<Rightarrow> inventory" where
  "RemovePath p iv = iv\<lparr>invPaths := filter (\<lambda>x. x \<noteq> p) (invPaths iv)\<rparr>"

definition frameworkByExt :: "(string, string) gomap" where
  "frameworkByExt =
     [(''.safetensors'', ''safetensors''), (''.gguf'', ''gguf''), (''.pth'', ''pytorch''), (''.pt'', ''pytorch''),
      (''.bin'', ''pytorch''), (''.ckpt'', ''pytorch''), (''.onnx'', ''onnx''), (''.h5'', ''tensorflow''),
      (''.pb'', ''tensorflow''), (''.pkl'', ''pickle'')]"

definition frameworkForExt :: "string \<Rightarrow> string option" where
  "frameworkForExt ext = map_of frameworkByExt (to_lower ext)"

definition unsafeFormats :: "string list" where
  "unsafeFormats = [''.pt'', ''.pth'', ''.bin'', ''.ckpt'', ''.pkl'']"

definition cautionFormats :: "string list" where
  "cautionFormats = [''.h5'', ''.pb'']"

definition formatSafety :: "string \<Rightarrow> string" where
  "formatSafety ext =
     (let e = to_lower ext
      in if e \<in> set unsafeFormats then ''unsafe'' else if e \<in> set cautionFormats then ''caution'' else ''safe'')"

subsection \<open>Scanning\<close>

text \<open>The callback of the walk: the asset it stores, if any.\<close>

definition scan_entry :: "sha \<Rightarrow> host_files \<Rightarrow> string list \<Rightarrow> walk_entry \<Rightarrow> model_asset option" where
  "scan_entry sha fs exts d =
     (if weErr d \<or> weIsDir d then None
      else
        let p = wePath d; ext = to_lower (path_Ext p); extSet = map to_lower exts
        in if extSet \<noteq> [] \<and> ext \<notin> set extSet then None
           else if frameworkForExt ext = None \<and> extSet = [] then None
           else case weInfo d of
             None \<Rightarrow> None
           | Some (sz, mtime) \<Rightarrow>
               let a = \<lparr>maPath = p, maName = path_Base p, maExtension = ext, maSize = sz, maModTime = mtime, maSHA256 = '''',
                        maFramework = (case frameworkForExt ext of None \<Rightarrow> '''' | Some fw \<Rightarrow> fw), maStatus = ''indexed'',
                        maSafety = formatSafety ext\<rparr>
               in case hashFile sha fs p of
                    Some digest \<Rightarrow> Some (a\<lparr>maSHA256 := digest\<rparr>)
                  | None \<Rightarrow> Some (a\<lparr>maStatus := ''unreadable''\<rparr>))"

definition scan_put :: "sha \<Rightarrow> host_files \<Rightarrow> string list \<Rightarrow> walk_entry \<Rightarrow> (string, model_asset) gomap \<Rightarrow> (string, model_asset) gomap" where
  "scan_put sha fs exts d found = (case scan_entry sha fs exts d of None \<Rightarrow> found | Some a \<Rightarrow> mput (wePath d) a found)"

definition scan_found :: "sha \<Rightarrow> host_files \<Rightarrow> string list \<Rightarrow> string list \<Rightarrow> (string, model_asset) gomap" where
  "scan_found sha fs paths exts = fold (scan_put sha fs exts) (concat (map (fsWalk fs) paths)) []"

definition mark_modified :: "(string, model_asset) gomap \<Rightarrow> string \<Rightarrow> model_asset \<Rightarrow> model_asset" where
  "mark_modified old path a =
     (case map_of old path of
        None \<Rightarrow> a
      | Some prev \<Rightarrow>
          if maSHA256 prev \<noteq> '''' \<and> maSHA256 a \<noteq> '''' \<and> maSHA256 prev \<noteq> maSHA256 a then a\<lparr>maStatus := ''modified''\<rparr> else a)"

definition inventory_Scan :: "sha \<Rightarrow> host_files \<Rightarrow> time \<Rightarrow> string list \<Rightarrow> string list \<Rightarrow> inventory \<Rightarrow> inventory" where
  "inventory_Scan sha fs now paths exts iv =
     iv\<lparr>invAssets := map (\<lambda>(p, a). (p, mark_modified (invAssets iv) p a)) (scan_found sha fs paths exts), invScanTime := now\<rparr>"

definition Rescan :: "sha \<Rightarrow> host_files \<Rightarrow> time \<Rightarrow> inventory \<Rightarrow> inventory" where
  "Rescan sha fs now iv = (case Scope iv of (paths, exts) \<Rightarrow> inventory_Scan sha fs now paths exts iv)"

definition Assets :: "(string list \<Rightarrow> string list) \<Rightarrow> inventory \<Rightarrow> model_asset list" where
  "Assets ord iv = map (\<lambda>p. the (map_of (invAssets iv) p)) (ord (keys (invAssets iv)))"

definition FindByPath :: "string \<Rightarrow> inventory \<Rightarrow> model_asset option" where
  "FindByPath p iv = map_of (invAssets iv) p"

definition summary_add :: "model_asset \<Rightarrow> inventory_summary \<Rightarrow> inventory_summary" where
  "summary_add a s =
     s\<lparr>isTotal := isTotal s + 1, isTotalSize := wrap64 (isTotalSize s + maSize a),
       isByFramework := mput (maFramework a) (mget 0 (isByFramework s) (maFramework a) + 1) (isByFramework s),
       isModified := (if maStatus a = ''modified'' then isModified s + 1 else isModified s),
       isUnreadable := (if maStatus a = ''unreadable'' then isUnreadable s + 1 else isUnreadable s),
       isUnsafe := (if maSafety a = ''unsafe'' then isUnsafe s + 1 else isUnsafe s)\<rparr>"

definition Summary :: "(string list \<Rightarrow> string list) \<Rightarrow> inventory \<Rightarrow> inventory_summary" where
  "Summary ord iv =
     fold summary_add (Assets ord iv)
       \<lparr>isTotal = 0, isTotalSize = 0, isByFramework = [], isModified = 0, isUnreadable = 0, isUnsafe = 0, isScannedAt = invScanTime iv\<rparr>"

subsection \<open>What a scan indexes\<close>

lemma scan_entry_path: "scan_entry sha fs exts d = Some a \<Longrightarrow> maPath a = wePath d"
  by (auto simp: scan_entry_def Let_def split: if_splits option.splits)

lemma scan_entry_hash:
  "scan_entry sha fs exts d = Some a \<Longrightarrow> maSHA256 a = hash_or_empty sha fs (wePath d) \<and>
     maStatus a = (if fsRead fs (wePath d) = None then ''unreadable'' else ''indexed'')"
  by (auto simp: scan_entry_def Let_def hash_or_empty_def hashFile_def split: if_splits option.splits)

text \<open>The last call of the walk that yields an asset for the path decides.\<close>

lemma map_of_fold_scan_put:
  "map_of (fold (scan_put sha fs exts) ds found) p =
     (case filter (\<lambda>d. wePath d = p \<and> scan_entry sha fs exts d \<noteq> None) ds of
        [] \<Rightarrow> map_of found p
      | d # ds' \<Rightarrow> scan_entry sha fs exts (last (d # ds')))"
proof (induction ds rule: rev_induct)
  case (snoc d ds)
  then show ?case
    by (auto simp: scan_put_def split: option.splits list.splits)
qed simp

lemma scan_found_Some:
  "map_of (scan_found sha fs paths exts) p = Some a \<Longrightarrow>
     \<exists>root \<in> set paths. \<exists>d \<in> set (fsWalk fs root). wePath d = p \<and> scan_entry sha fs exts d = Some a"
proof -
  let ?ds = "concat (map (fsWalk fs) paths)" and ?P = "\<lambda>d. wePath d = p \<and> scan_entry sha fs exts d \<noteq> None"
  assume "map_of (scan_found sha fs paths exts) p = Some a"
  then obtain d ds' where f: "filter ?P ?ds = d # ds'" and e: "scan_entry sha fs exts (last (d # ds')) = Some a"
    unfolding scan_found_def map_of_fold_scan_put by (auto split: list.splits)
  have "last (d # ds') \<in> set (filter ?P ?ds)" unfolding f by (rule last_in_set) simp
  with e show ?thesis by auto
qed

lemma scan_found_None:
  "map_of (scan_found sha fs paths exts) p = None \<longleftrightarrow>
     (\<forall>root \<in> set paths. \<forall>d \<in> set (fsWalk fs root). wePath d = p \<longrightarrow> scan_entry sha fs exts d = None)"
proof -
  let ?ds = "concat (map (fsWalk fs) paths)" and ?P = "\<lambda>d. wePath d = p \<and> scan_entry sha fs exts d \<noteq> None"
  have "last (d # ds') \<in> {d. ?P d}" if "filter ?P ?ds = d # ds'" for d ds'
  proof -
    have "last (d # ds') \<in> set (filter ?P ?ds)" unfolding that by (rule last_in_set) simp
    then show ?thesis by simp
  qed
  then have "map_of (scan_found sha fs paths exts) p = None \<longleftrightarrow> filter ?P ?ds = []"
    unfolding scan_found_def map_of_fold_scan_put by (auto split: list.splits)
  then show ?thesis by (auto simp: filter_empty_conv)
qed

lemma map_of_mark:
  "map_of (map (\<lambda>(p, a). (p, mark_modified old p a)) m) p = map_option (mark_modified old p) (map_of m p)"
  by (induction m) auto

lemma FindByPath_Scan:
  "FindByPath p (inventory_Scan sha fs now paths exts iv) =
     map_option (mark_modified (invAssets iv) p) (map_of (scan_found sha fs paths exts) p)"
  by (simp add: FindByPath_def inventory_Scan_def map_of_mark)

lemma mark_modified_fields [simp]: "maSHA256 (mark_modified old p a) = maSHA256 a" "maPath (mark_modified old p a) = maPath a"
  by (auto simp: mark_modified_def split: option.splits)

text \<open>
  The state of an asset after a scan: its hash is that of the file at the scan, and its status compares it
  with the hash of the scan before, and with that one only.
\<close>

lemma scanned_status:
  assumes "FindByPath p (inventory_Scan sha fs now paths exts iv) = Some a"
  shows "maSHA256 a = hash_or_empty sha fs p"
    and "maStatus a =
      (if fsRead fs p = None then ''unreadable''
       else case FindByPath p iv of
         None \<Rightarrow> ''indexed''
       | Some b \<Rightarrow> if maSHA256 b \<noteq> '''' \<and> maSHA256 b \<noteq> maSHA256 a then ''modified'' else ''indexed'')"
proof -
  obtain a0 where a0: "map_of (scan_found sha fs paths exts) p = Some a0" "a = mark_modified (invAssets iv) p a0"
    using assms by (auto simp: FindByPath_Scan)
  from scan_found_Some [OF a0(1)] obtain d where "wePath d = p" "scan_entry sha fs exts d = Some a0" by blast
  then have h: "maSHA256 a0 = hash_or_empty sha fs p"
      "maStatus a0 = (if fsRead fs p = None then ''unreadable'' else ''indexed'')"
    using scan_entry_hash by blast+
  show "maSHA256 a = hash_or_empty sha fs p" using h(1) a0(2) by simp
  show "maStatus a =
      (if fsRead fs p = None then ''unreadable''
       else case FindByPath p iv of
         None \<Rightarrow> ''indexed''
       | Some b \<Rightarrow> if maSHA256 b \<noteq> '''' \<and> maSHA256 b \<noteq> maSHA256 a then ''modified'' else ''indexed'')"
    using h a0(2) by (auto simp: mark_modified_def FindByPath_def split: option.splits)
qed


subsection \<open>The summary\<close>

lemma Assets_perm:
  assumes "range_order ord" and "gomap_ok (invAssets iv)"
  shows "mset (Assets ord iv) = mset (map snd (invAssets iv))"
proof -
  have "mset (ord (keys (invAssets iv))) = mset (keys (invAssets iv))"
    using range_orderD [OF assms(1)] range_order_distinct [OF assms(1)] assms(2)
    by (intro set_eq_iff_mset_eq_distinct [THEN iffD1]) (auto simp: gomap_ok_def)
  then have "mset (Assets ord iv) = image_mset (\<lambda>p. the (map_of (invAssets iv) p)) (mset (keys (invAssets iv)))"
    by (simp add: Assets_def)
  also have "\<dots> = image_mset snd (mset (invAssets iv))"
    using assms(2) by (auto simp: gomap_ok_def multiset.map_comp intro!: image_mset_cong)
  finally show ?thesis by simp
qed

lemma fold_summary_add:
  "isTotal (fold summary_add as s) = isTotal s + length as"
  "isModified (fold summary_add as s) = isModified s + length (filter (\<lambda>a. maStatus a = ''modified'') as)"
  "isUnreadable (fold summary_add as s) = isUnreadable s + length (filter (\<lambda>a. maStatus a = ''unreadable'') as)"
  "isUnsafe (fold summary_add as s) = isUnsafe s + length (filter (\<lambda>a. maSafety a = ''unsafe'') as)"
  "mget 0 (isByFramework (fold summary_add as s)) fw =
     mget 0 (isByFramework s) fw + int (length (filter (\<lambda>a. maFramework a = fw) as))"
  by (induction as arbitrary: s) (auto simp: summary_add_def)

lemma length_filter_mset_eq: "mset xs = mset ys \<Longrightarrow> length (filter P xs) = length (filter P ys)"
  by (metis mset_filter size_mset)

text \<open>The counts do not depend on the order in which Go visits the map.\<close>

lemma Summary_counts:
  assumes "range_order ord" and "gomap_ok (invAssets iv)"
  shows "isTotal (Summary ord iv) = length (invAssets iv)"
    and "isModified (Summary ord iv) = length (filter (\<lambda>a. maStatus a = ''modified'') (map snd (invAssets iv)))"
    and "isUnreadable (Summary ord iv) = length (filter (\<lambda>a. maStatus a = ''unreadable'') (map snd (invAssets iv)))"
    and "isUnsafe (Summary ord iv) = length (filter (\<lambda>a. maSafety a = ''unsafe'') (map snd (invAssets iv)))"
  using length_filter_mset_eq [OF Assets_perm [OF assms]] arg_cong [OF Assets_perm [OF assms], of size]
  by (simp_all add: Summary_def fold_summary_add)

lemma gomap_ok_scan_found [simp]: "gomap_ok (scan_found sha fs paths exts)"
proof -
  have "gomap_ok (fold (scan_put sha fs exts) ds found)" if "gomap_ok found" for ds found
    using that by (induction ds arbitrary: found) (auto simp: scan_put_def split: option.splits)
  then show ?thesis by (simp add: scan_found_def)
qed

lemma gomap_ok_Scan [simp]: "gomap_ok (invAssets (inventory_Scan sha fs now paths exts iv))"
proof -
  have "map fst (invAssets (inventory_Scan sha fs now paths exts iv)) = map fst (scan_found sha fs paths exts)"
    by (simp add: inventory_Scan_def comp_def case_prod_unfold)
  then show ?thesis using gomap_ok_scan_found by (metis gomap_ok_def)
qed

subsection \<open>Detection of changes\<close>

text \<open>
  C37: integrity monitoring of the inventory.  When a file is read by two successive scans, the second reports it
  as modified exactly if the digest changed; the count of the summary is the number of such files.  A change that
  coincides with a scan at which the file cannot be read is never reported, and a reported change is reported by
  one scan only: the next one compares with the changed content.
\<close>

theorem inventory_change_detection:
  assumes "FindByPath p iv = Some a" and "maSHA256 a = hex256 (sha before)"
    and "FindByPath p (inventory_Scan sha fs1 t1 paths exts iv) = Some a1"
    and "FindByPath p (inventory_Scan sha fs2 t2 paths exts (inventory_Scan sha fs1 t1 paths exts iv)) = Some a2"
    and "fsRead fs2 p = Some after"
  shows "(case fsRead fs1 p of
            Some now \<Rightarrow> maStatus a1 = (if distinguishes sha before now then ''modified'' else ''indexed'') \<and>
                        maStatus a2 = (if distinguishes sha now after then ''modified'' else ''indexed'')
          | None \<Rightarrow> maStatus a1 = ''unreadable'' \<and> maStatus a2 = ''indexed'')"
  using scanned_status [OF assms(3)] scanned_status [OF assms(4)] assms
  by (auto simp: distinguishes_def hash_or_empty_read hex256_inject split: option.splits)

definition demo_sha :: sha where
  "demo_sha d = (if d = ''v1'' then 1 else if d = ''v2'' then 2 else 0)"

definition demo_host :: "string option \<Rightarrow> host_files" where
  "demo_host c =
     \<lparr>fsStat = (\<lambda>p. Some 2), fsRead = (\<lambda>p. c),
      fsWalk = (\<lambda>root. [\<lparr>wePath = ''/m/a.gguf'', weErr = False, weIsDir = False, weInfo = Some (2, 7)\<rparr>])\<rparr>"

definition demo_inventory :: inventory where
  "demo_inventory = inventory_Scan demo_sha (demo_host (Some ''v1'')) 1 [''/m''] [''.gguf''] NewInventory"

lemma demo_path: "to_lower (path_Ext ''/m/a.gguf'') = ''.gguf''" "to_lower ''.gguf'' = ''.gguf''"
  by code_simp+

theorem inventory_change_detection_witness:
  "let iv1 = inventory_Scan demo_sha (demo_host None) 2 [''/m''] [''.gguf''] demo_inventory;
       iv2 = inventory_Scan demo_sha (demo_host (Some ''v2'')) 3 [''/m''] [''.gguf''] iv1
   in map_option maStatus (FindByPath ''/m/a.gguf'' iv2) = Some ''indexed'' \<and>
      map_option maSHA256 (FindByPath ''/m/a.gguf'' demo_inventory) \<noteq> map_option maSHA256 (FindByPath ''/m/a.gguf'' iv2)"
proof -
  let ?iv1 = "inventory_Scan demo_sha (demo_host None) 2 [''/m''] [''.gguf''] demo_inventory"
  let ?iv2 = "inventory_Scan demo_sha (demo_host (Some ''v2'')) 3 [''/m''] [''.gguf''] ?iv1"
  have "map_option maSHA256 (FindByPath ''/m/a.gguf'' demo_inventory) = Some (hex256 (demo_sha ''v1''))"
    "map_option maSHA256 (FindByPath ''/m/a.gguf'' ?iv2) = Some (hex256 (demo_sha ''v2''))"
    "hex256 (demo_sha ''v1'') \<noteq> hex256 (demo_sha ''v2'')" "FindByPath ''/m/a.gguf'' ?iv1 \<noteq> None"
    using demo_path by (simp_all add: demo_inventory_def NewInventory_def inventory_Scan_def scan_found_def scan_put_def scan_entry_def
        demo_host_def FindByPath_def mark_modified_def hashFile_def hex256_inject demo_sha_def Let_def)
  then obtain a a1 a2 where a: "FindByPath ''/m/a.gguf'' demo_inventory = Some a" "maSHA256 a = hex256 (demo_sha ''v1'')"
      "FindByPath ''/m/a.gguf'' ?iv1 = Some a1" "FindByPath ''/m/a.gguf'' ?iv2 = Some a2"
      "maSHA256 a2 = hex256 (demo_sha ''v2'')" "maSHA256 a \<noteq> maSHA256 a2"
    by auto
  show ?thesis
    using inventory_change_detection [OF a(1-4), of "''v2''"] a(1,4,6) by (simp add: demo_host_def)
qed

end
