(* ===== verification/Management.thy ===== *)
theory Management
  imports Alerting Inventory
begin

text \<open>
  Every state-changing route that \<^verbatim>\<open>NewServer\<close> of \<^verbatim>\<open>src/pkg/web/server.go\<close> registers, from the guard through the
  handler to the audit entry, over the state these routes manage: the agent, the settings of the
  notification channels and the model inventory (\<open>None\<close> where the agent runs without one).
\<close>

subsection \<open>Every route that changes the agent\<close>

text \<open>
  The routes of \<^verbatim>\<open>NewServer\<close> that change state, with the decoded bodies; the routes of the fleet registry and of the
  tenant stores are those of \<open>Routes\<close> and \<open>Console\<close>.
\<close>

datatype console_op =
    CaseCreate "finding option"
  | CaseStatus string "string option"
  | CaseAssign string "string option"
  | CaseNote string "string option"
  | CaseNoteEdit string string "string option"
  | CaseNoteDelete string string
  | CaseNoteRestore string string
  | DetectionToggle string "bool option"
  | DetectionCreate "rule_spec option"
  | DetectionUpdate string "rule_spec option"
  | DetectionDelete string
  | SuppressionCreate "suppression_spec option"
  | SuppressionDelete string
  | BreakerArm "bool option"
  | Learning "bool option"
  | ResponseAction "(string \<times> (string, string) gomap) option"
  | NotifyTest
  | NotifyConfig "(string \<times> string \<times> string) option"
  | InventoryRescan
  | InventoryPaths "(string \<times> string) option"

record console_env =
  ceRegexp :: regexp
  ceShown :: "response_error + response_result \<Rightarrow> string \<times> string"
  ceParams :: "(string, string) gomap \<Rightarrow> string"
  ceNotify :: notify_config
  ceSha :: sha
  ceFiles :: host_files

record 's managed =
  mgAgent :: "'s agent"
  mgNotify :: notify_settings
  mgInventory :: "inventory option"

abbreviation on_agent :: "('s agent \<Rightarrow> 's agent \<times> 'b resp) \<Rightarrow> 's managed \<Rightarrow> 's managed \<times> int" where
  "on_agent h g \<equiv> (case h (mgAgent g) of (a, r) \<Rightarrow> (g\<lparr>mgAgent := a\<rparr>, status_of r))"

definition handleInventoryRescan :: "console_env \<Rightarrow> 's agent_env \<Rightarrow> principal option \<Rightarrow> 's managed \<Rightarrow> 's managed \<times> int" where
  "handleInventoryRescan w x caller g =
     (case mgInventory g of
        None \<Rightarrow> (g, 503)
      | Some iv \<Rightarrow>
          (g\<lparr>mgInventory := Some (Rescan (ceSha w) (ceFiles w) (xNow x 0) iv),
             mgAgent := audit_as x 1 caller ''inventory:rescan'' ''info'' [] (mgAgent g)\<rparr>, 200))"

definition handleInventoryPaths ::
  "console_env \<Rightarrow> 's agent_env \<Rightarrow> principal option \<Rightarrow> (string \<times> string) option \<Rightarrow> 's managed \<Rightarrow> 's managed \<times> int" where
  "handleInventoryPaths w x caller body g =
     (case body of
        None \<Rightarrow> (g, 400)
      | Some (act, path) \<Rightarrow>
          if path = '''' then (g, 400)
          else if act \<noteq> ''add'' \<and> act \<noteq> ''remove'' then (g, 400)
          else case mgInventory g of
            None \<Rightarrow> (g, 503)
          | Some iv \<Rightarrow>
              let iv1 = (if act = ''add'' then AddPath path iv else RemovePath path iv)
              in (g\<lparr>mgInventory := Some (Rescan (ceSha w) (ceFiles w) (xNow x 0) iv1),
                    mgAgent := audit_as x 1 caller (''inventory:path_'' @ act) ''medium'' [(''path'', DStr path)] (mgAgent g)\<rparr>, 200))"

text \<open>\<open>m\<close> is the method of the request, which only the notification settings look at.\<close>

fun console_step ::
  "console_env \<Rightarrow> 's agent_env \<Rightarrow> string \<Rightarrow> principal option \<Rightarrow> console_op \<Rightarrow> 's managed \<Rightarrow> 's managed \<times> int" where
  "console_step w x m p (CaseCreate b) g = on_agent (handleCaseCreate x p b) g"
| "console_step w x m p (CaseStatus i b) g = on_agent (handleCaseStatus x p i b) g"
| "console_step w x m p (CaseAssign i b) g = on_agent (handleCaseAssign x p i b) g"
| "console_step w x m p (CaseNote i b) g = on_agent (handleCaseNote x p i b) g"
| "console_step w x m p (CaseNoteEdit i n b) g = on_agent (handleCaseNoteEdit x p i n b) g"
| "console_step w x m p (CaseNoteDelete i n) g = on_agent (handleCaseNoteDelete x p i n) g"
| "console_step w x m p (CaseNoteRestore i n) g = on_agent (handleCaseNoteRestore x p i n) g"
| "console_step w x m p (DetectionToggle i b) g = on_agent (handleDetectionToggle x p i b) g"
| "console_step w x m p (DetectionCreate b) g = on_agent (handleDetectionCreate (ceRegexp w) x p b) g"
| "console_step w x m p (DetectionUpdate i b) g = on_agent (handleDetectionUpdate (ceRegexp w) x p i b) g"
| "console_step w x m p (DetectionDelete i) g = on_agent (handleDetectionDelete x p i) g"
| "console_step w x m p (SuppressionCreate b) g = on_agent (handleSuppressionCreate (ceRegexp w) x p b) g"
| "console_step w x m p (SuppressionDelete i) g = on_agent (handleSuppressionDelete x p i) g"
| "console_step w x m p (BreakerArm b) g = on_agent (handleBreaker x p b) g"
| "console_step w x m p (Learning b) g = on_agent (handleLearning x p b) g"
| "console_step w x m p (ResponseAction b) g = on_agent (handleResponse (ceShown w) (ceParams w) x p b) g"
| "console_step w x m p NotifyTest g = on_agent (handleNotifyTest x p) g"
| "console_step w x m p (NotifyConfig b) g =
     (case handleNotifyConfig x (ceNotify w) p (m = ''GET'') b (mgNotify g, mgAgent g) of
        ((ns, ag), r) \<Rightarrow> (g\<lparr>mgNotify := ns, mgAgent := ag\<rparr>, status_of r))"
| "console_step w x m p InventoryRescan g = handleInventoryRescan w x p g"
| "console_step w x m p (InventoryPaths b) g = handleInventoryPaths w x p b g"

text \<open>The permission \<^verbatim>\<open>NewServer\<close> puts before each of them.\<close>

fun op_permission :: "console_op \<Rightarrow> string" where
  "op_permission (CaseCreate b) = PermManageAlerts"
| "op_permission (CaseStatus i b) = PermManageAlerts"
| "op_permission (CaseAssign i b) = PermManageAlerts"
| "op_permission (CaseNote i b) = PermManageAlerts"
| "op_permission (CaseNoteEdit i n b) = PermManageAlerts"
| "op_permission (CaseNoteDelete i n) = PermManageAlerts"
| "op_permission (CaseNoteRestore i n) = PermManageAlerts"
| "op_permission NotifyTest = PermManageAlerts"
| "op_permission (ResponseAction b) = PermManageSystem"
| "op_permission (DetectionToggle i b) = PermManagePolicy"
| "op_permission (DetectionCreate b) = PermManagePolicy"
| "op_permission (DetectionUpdate i b) = PermManagePolicy"
| "op_permission (DetectionDelete i) = PermManagePolicy"
| "op_permission (SuppressionCreate b) = PermManagePolicy"
| "op_permission (SuppressionDelete i) = PermManagePolicy"
| "op_permission (BreakerArm b) = PermManagePolicy"
| "op_permission (Learning b) = PermManagePolicy"
| "op_permission (NotifyConfig b) = PermManageAlerts"
| "op_permission InventoryRescan = PermManagePolicy"
| "op_permission (InventoryPaths b) = PermManagePolicy"

text \<open>
  A request for such a route, from the guard to the handler.  The notification settings are guarded for every
  method, the other routes admit only a POST.
\<close>

definition op_guard ::
  "bool \<Rightarrow> auth_env \<Rightarrow> time \<Rightarrow> user_store \<Rightarrow> console_op \<Rightarrow> http_request \<Rightarrow> (int + principal option) outcome" where
  "op_guard on ax now us op r =
     (case op of
        NotifyConfig b \<Rightarrow>
          if on then
            (case Require ax now us (op_permission op) None r of
               Panic \<Rightarrow> Panic | Done (Inl c) \<Rightarrow> Done (Inl c) | Done (Inr p) \<Rightarrow> Done (Inr (Some p)))
          else Done (Inr None)
      | _ \<Rightarrow> mutationGuard on ax now us (op_permission op) r)"

definition console_request ::
  "console_env \<Rightarrow> 's agent_env \<Rightarrow> bool \<Rightarrow> auth_env \<Rightarrow> user_store \<Rightarrow> http_request \<Rightarrow> console_op \<Rightarrow> 's managed \<Rightarrow>
     ('s managed \<times> int) outcome" where
  "console_request w x on ax us r op g =
     (case op_guard on ax (xNow x 0) us op r of
        Panic \<Rightarrow> Panic
      | Done (Inl c) \<Rightarrow> Done (g, c)
      | Done (Inr p) \<Rightarrow> Done (console_step w x (rqMethod r) p op g))"

lemma op_guard_mediates:
  assumes "op_guard True ax now us op r = Done (Inr q)"
  shows "\<exists>p. q = Some p \<and> Can (op_permission op) (Some p) \<and> authentic ax now us r p \<and>
    (rqMethod r = ''POST'' \<or> (\<exists>b. op = NotifyConfig b))"
proof (cases "\<exists>b. op = NotifyConfig b")
  case True
  then obtain b where op: "op = NotifyConfig b" by blast
  with assms obtain p where "Require ax now us (op_permission op) None r = Done (Inr p)" "q = Some p"
    by (auto simp: op_guard_def split: outcome.splits sum.splits)
  with Require_mediates op show ?thesis by blast
next
  case False
  then have "op_guard True ax now us op r = mutationGuard True ax now us (op_permission op) r"
    by (cases op) (simp_all add: op_guard_def)
  with assms method_guard_mediates [of "''POST''" ax now us "op_permission op" r q] show ?thesis
    unfolding mutationGuard_def by auto
qed

lemma op_guard_returns: "users_ok us \<Longrightarrow> op_guard on ax now us op r \<noteq> Panic"
  using Require_returns [of us ax now "op_permission op" r]
  by (cases op) (auto simp: op_guard_def mutationGuard_def method_guard_def split: outcome.splits sum.splits)

subsection \<open>Changes leave an entry\<close>

text \<open>The event types under which a route records what it did.\<close>

fun op_events :: "console_op \<Rightarrow> string list" where
  "op_events (CaseCreate b) = [''case:created'']"
| "op_events (CaseStatus i b) = [''case:status_change'']"
| "op_events (CaseAssign i b) = []"
| "op_events (CaseNote i b) = [''case:note:add'']"
| "op_events (CaseNoteEdit i n b) = [''case:note:edit'']"
| "op_events (CaseNoteDelete i n) = [''case:note:delete'']"
| "op_events (CaseNoteRestore i n) = [''case:note:restore'']"
| "op_events (DetectionToggle i b) = [if b = Some True then ''detection:enabled'' else ''detection:disabled'']"
| "op_events (DetectionCreate b) = [''detection:created'']"
| "op_events (DetectionUpdate i b) = [''detection:updated'']"
| "op_events (DetectionDelete i) = [''detection:deleted'']"
| "op_events (SuppressionCreate b) = [''suppression:created'']"
| "op_events (SuppressionDelete i) = [''suppression:deleted'']"
| "op_events (BreakerArm b) = [if b = Some True then ''breaker:armed'' else ''breaker:disarmed'']"
| "op_events (Learning b) = [if b = Some True then ''detections:learning_enabled'' else ''detections:enforce_enabled'']"
| "op_events (ResponseAction b) = [''response:failed'', ''response:'' @ (case b of None \<Rightarrow> '''' | Some (act, ps) \<Rightarrow> act)]"
| "op_events NotifyTest = [''notify:test'']"
| "op_events (NotifyConfig b) = [''notify:config'']"
| "op_events InventoryRescan = [''inventory:rescan'']"
| "op_events (InventoryPaths b) = [''inventory:path_'' @ (case b of None \<Rightarrow> '''' | Some (act, p) \<Rightarrow> act)]"

text \<open>The step appended one entry to the chain, of one of the given types, and the entry names the caller.\<close>

definition admin_logged :: "'s agent_env \<Rightarrow> principal \<Rightarrow> string list \<Rightarrow> 's agent \<Rightarrow> 's agent \<Rightarrow> bool" where
  "admin_logged x p tys g g' \<longleftrightarrow>
     (\<exists>e d. agChain g' = fst (Append (xCodec x) (xWrite x) e (agChain g)) \<and> enEventType e \<in> set tys \<and> enDetails e = Some d \<and>
        (ppEmail p \<noteq> '''' \<longrightarrow> map_of d ''actor_email'' = Some (DStr (ppEmail p))) \<and>
        (ppUserID p \<noteq> '''' \<longrightarrow> map_of d ''actor_user_id'' = Some (DStr (ppUserID p))))"

lemma recordAdminAudit_frame [simp]:
  "agIncidents (recordAdminAudit x n ty sev em i d g) = agIncidents g" "agCorrelator (recordAdminAudit x n ty sev em i d g) = agCorrelator g"
  "agBreaker (recordAdminAudit x n ty sev em i d g) = agBreaker g" "agKernel (recordAdminAudit x n ty sev em i d g) = agKernel g"
  "agNotifier (recordAdminAudit x n ty sev em i d g) = agNotifier g" "agPolicy (recordAdminAudit x n ty sev em i d g) = agPolicy g"
  "agChain (recordAdminAudit x n ty sev em i d g) = fst (Append (xCodec x) (xWrite x) (admin_entry x n ty sev em i d) (agChain g))"
  by (simp_all add: recordAdminAudit_def split: prod.splits option.splits)

lemma admin_details_actor:
  "ppEmail p \<noteq> '''' \<Longrightarrow> map_of (admin_details (ppEmail p) i d) ''actor_email'' = Some (DStr (ppEmail p))"
  "i \<noteq> '''' \<Longrightarrow> map_of (admin_details em i d) ''actor_user_id'' = Some (DStr i)"
  by (simp_all add: admin_details_def Let_def)

lemma audit_as_logged:
  "agChain g1 = agChain g \<Longrightarrow> ty \<in> set tys \<Longrightarrow> admin_logged x p tys g (audit_as x n (Some p) ty sev d g1)"
  unfolding admin_logged_def
  by (intro exI [of _ "admin_entry x n ty sev (ppEmail p) (ppUserID p) d"] exI [of _ "admin_details (ppEmail p) (ppUserID p) d"])
    (simp add: callerEmail_def callerID_def admin_details_actor admin_entry_def SetCategory_def NewEntry_def)

text \<open>A refused operation leaves its component as it was.\<close>

lemma refused_same:
  "SetStatus now i st s = (s', False) \<Longrightarrow> s' = s" "Assign now i a s = (s', False) \<Longrightarrow> s' = s"
  "AddNote fr t1 t2 i a txt s = (s', None) \<Longrightarrow> s' = s" "EditNote t1 t2 t3 i n a txt s = (s', None) \<Longrightarrow> s' = s"
  "DeleteNote t1 t2 i n a s = (s', None) \<Longrightarrow> s' = s" "RestoreNote t1 i n s = (s', None) \<Longrightarrow> s' = s"
  by (auto simp: SetStatus_def Assign_def AddNote_def EditNote_def DeleteNote_def RestoreNote_def update_note_def Let_def
      split: if_splits option.splits)

lemma refused_same_rules:
  "SetEnabled i on c = (c', False) \<Longrightarrow> c' = c" "AddRule re fr spec c = (c', Inl e) \<Longrightarrow> c' = c"
  "UpdateRule re fr spec c = (c', Inl e) \<Longrightarrow> c' = c" "RemoveRule i c = (c', Inl e) \<Longrightarrow> c' = c"
  "AddSuppression re fr sp c = (c', Inl e) \<Longrightarrow> c' = c" "RemoveSuppression i c = (c', Inl e) \<Longrightarrow> c' = c"
  by (auto simp: SetEnabled_def AddRule_def UpdateRule_def RemoveRule_def AddSuppression_def RemoveSuppression_def Let_def
      split: if_splits option.splits sum.splits)

lemmas handler_defs = handleCaseCreate_def handleCaseStatus_def handleCaseAssign_def handleCaseNote_def handleCaseNoteEdit_def
  handleCaseNoteDelete_def handleCaseNoteRestore_def handleDetectionToggle_def handleDetectionCreate_def handleDetectionUpdate_def
  handleDetectionDelete_def handleSuppressionCreate_def handleSuppressionDelete_def handleBreaker_def handleLearning_def
  handleResponse_def handleNotifyTest_def handleNotifyConfig_def handleInventoryRescan_def handleInventoryPaths_def

lemma console_step_logged:
  "fst (console_step w x m (Some p) op g) = g \<or>
   admin_logged x p (op_events op) (mgAgent g) (mgAgent (fst (console_step w x m (Some p) op g))) \<or>
   (\<exists>i b. op = CaseAssign i b \<and> agChain (mgAgent (fst (console_step w x m (Some p) op g))) = agChain (mgAgent g))"
  by (cases op)
    (auto simp: handler_defs Let_def intro!: audit_as_logged dest: refused_same refused_same_rules
       split: option.split sum.split prod.split bool.split)

text \<open>The notification settings are only read by a GET.\<close>

lemma notify_config_get: "fst (console_step w x ''GET'' p (NotifyConfig b) g) = g"
  by (simp add: handleNotifyConfig_def)

end
