(* ===== verification/Console_Claims.thy ===== *)
theory Console_Claims
  imports Console_Props Agent_Claims Management
begin

text \<open>What the control plane guarantees and where it falls short, each with a concrete instance.\<close>

subsection \<open>Settings of the witnesses\<close>

text \<open>A token codec: fields are escaped and separated, numbers are written in unary after their sign.\<close>

fun enc_fields :: "string list \<Rightarrow> string" where
  "enc_fields [] = ''''"
| "enc_fields (s # ss) = concat (map (\<lambda>c. [CHR ''x'', c]) s) @ ''y'' @ enc_fields ss"

fun dec_fields :: "string \<Rightarrow> string \<Rightarrow> string list" where
  "dec_fields acc (a # c # t) =
     (if a = CHR ''x'' then dec_fields (acc @ [c]) t else acc # dec_fields '''' (c # t))"
| "dec_fields acc [a] = [acc]"
| "dec_fields acc [] = []"

lemma dec_enc_fields: "dec_fields acc (concat (map (\<lambda>c. [CHR ''x'', c]) s) @ ''y'' @ t) = (acc @ s) # dec_fields '''' t"
  by (induction s arbitrary: acc) (cases t, auto)

lemma fields_roundtrip: "dec_fields '''' (enc_fields ss) = ss"
  by (induction ss) (simp_all only: enc_fields.simps dec_fields.simps dec_enc_fields append_Nil)

definition enc_int :: "int \<Rightarrow> string" where
  "enc_int n = (if n < 0 then CHR ''-'' # replicate (nat (- n)) CHR ''1'' else CHR ''+'' # replicate (nat n) CHR ''1'')"

definition dec_int :: "string \<Rightarrow> int" where
  "dec_int s = (if hd s = CHR ''-'' then - int (length (tl s)) else int (length (tl s)))"

lemma int_roundtrip [simp]: "dec_int (enc_int n) = n"
  by (simp add: enc_int_def dec_int_def)

definition demo_jwt :: jwt_codec where
  "demo_jwt =
     \<lparr>jHmac = (\<lambda>k m. k @ m), jMarshalHeader = (\<lambda>h. enc_fields [jhAlg h, jhTyp h]),
      jUnmarshalHeader = (\<lambda>s. case dec_fields '''' s of [a, t] \<Rightarrow> Some \<lparr>jhAlg = a, jhTyp = t\<rparr> | _ \<Rightarrow> None),
      jMarshalClaims = (\<lambda>c. enc_fields ([clSubject c, clTenantID c, clEmail c, clIssuer c, enc_int (clIssuedAt c), enc_int (clExpiresAt c)] @ clRoles c)),
      jUnmarshalClaims = (\<lambda>s. case dec_fields '''' s of
         sub # tid # em # iss # iat # ex # rs \<Rightarrow>
           Some \<lparr>clSubject = sub, clTenantID = tid, clEmail = em, clRoles = rs, clIssuedAt = dec_int iat, clExpiresAt = dec_int ex, clIssuer = iss\<rparr>
       | _ \<Rightarrow> None)\<rparr>"

lemma demo_jwt_ok: "codec_ok demo_jwt c"
  by (simp add: codec_ok_def demo_jwt_def fields_roundtrip del: enc_fields.simps)

definition demo_auth :: auth_env where
  "demo_auth = \<lparr>aeJwt = demo_jwt, aeHmac = (\<lambda>k m. replicate 32 7), aeSha = (\<lambda>s. s), aeIssuer = NewTokenIssuer ''key'' ''neurosentry'' 0\<rparr>"

definition demo_platform :: platform_env where
  "demo_platform = \<lparr>peAuth = demo_auth, peProviders = NewAuthenticator demo_auth, peFresh = ''u2'', peSalt = [1], peHex = ''ff'',
     peScimToken = ''scim'', peScimTenant = ''acme''\<rparr>"

definition demo_user :: user where
  "demo_user = \<lparr>uID = ''u1'', uTenantID = ''t1'', uEmail = ''ann@acme'', uUsername = ''ann'', uRoles = [RoleAdmin], uStatus = UserActive,
     uCreatedAt = 1, uPasswordHash = [], uPasswordSalt = [], uApiKeyHashes = [(''nsk_1'', ())]\<rparr>"

definition demo_users :: user_store where
  "demo_users = fst (user_Create '''' 1 demo_user NewMemUserStore)"

definition demo_tenants :: tenant_store where
  "demo_tenants = fst (tenant_Create ''t1'' 1 (new_tenant ''acme'' ''Acme'' '''') NewMemTenantStore)"

definition demo_console :: "unit console" where
  "demo_console = \<lparr>cnTenants = demo_tenants, cnUsers = demo_users, cnGuard = Some (NewLoginGuard 5 0 0), cnAgent = demo_agent\<rparr>"

lemma demo_console_ok: "console_ok demo_console" "users_ok demo_users"
  by (simp_all add: console_ok_def demo_console_def demo_tenants_def demo_users_def wf_intros)

definition key_request :: http_request where
  "key_request = \<lparr>rqMethod = ''POST'', rqAuthorization = '''', rqAPIKey = ''nsk_1'', rqToken = ''''\<rparr>"

subsection \<open>Complete mediation\<close>

text \<open>C14: Complete mediation and accountability of the management API. With the control plane on, a request
  for any state-changing route of the server (cases, detections, suppressions, breaker, learning mode, responses,
  notification settings and test, inventory rescan and paths; the fleet and tenant APIs apart) changes the agent, its notification
  settings or its inventory only if it carried an authentic, unexpired token or an active user's API key, for a principal whose
  roles grant the permission of that route, and was a POST, or anything but a GET for the notification settings;
  and the change appends one entry to the audit chain, of the event type of the route, that names this principal. The one
  exception is assigning a case, which leaves no entry. No such request panics.\<close>

theorem console_mediated:
  assumes "users_ok us"
  shows "\<exists>g' st. console_request w x True ax us r op g = Done (g', st) \<and>
    (g' \<noteq> g \<longrightarrow> (\<exists>p. authentic ax (xNow x 0) us r p \<and> Can (op_permission op) (Some p) \<and>
       (rqMethod r = ''POST'' \<or> rqMethod r \<noteq> ''GET'' \<and> (\<exists>b. op = NotifyConfig b)) \<and>
       (admin_logged x p (op_events op) (mgAgent g) (mgAgent g') \<or>
        (\<exists>i b. op = CaseAssign i b \<and> agChain (mgAgent g') = agChain (mgAgent g)))))"
proof (cases "op_guard True ax (xNow x 0) us op r")
  case Panic
  with op_guard_returns [OF assms] show ?thesis by blast
next
  case (Done v)
  show ?thesis
  proof (cases v)
    case (Inl c)
    with Done show ?thesis by (simp add: console_request_def)
  next
    case (Inr q)
    from op_guard_mediates [OF Done [unfolded Inr]] obtain p where
      p: "q = Some p" "Can (op_permission op) (Some p)" "authentic ax (xNow x 0) us r p"
        "rqMethod r = ''POST'' \<or> (\<exists>b. op = NotifyConfig b)" by blast
    obtain g' st where s: "console_step w x (rqMethod r) (Some p) op g = (g', st)" by fastforce
    with Done Inr p(1) have c: "console_request w x True ax us r op g = Done (g', st)" by (simp add: console_request_def)
    have "rqMethod r = ''POST'' \<or> rqMethod r \<noteq> ''GET'' \<and> (\<exists>b. op = NotifyConfig b)" if "g' \<noteq> g"
      using p(4) that s notify_config_get by (metis fst_conv)
    with c p(2,3) console_step_logged [of w x "rqMethod r" p op g] s show ?thesis by auto
  qed
qed

definition demo_web :: console_env where
  "demo_web = \<lparr>ceRegexp = (\<lambda>_. None), ceShown = (\<lambda>_. ('''', '''')), ceParams = (\<lambda>_. ''''),
     ceNotify = \<lparr>ntcEnabled = True, ntcWebhookURL = '''', ntcSlackWebhook = '''', ntcMinSeverity = '''', ntcSplunkHECURL = '''',
       ntcSplunkHECToken = '''', ntcSplunkIndex = '''', ntcSentinelWorkspaceID = '''', ntcSentinelSharedKey = '''', ntcSentinelLogType = ''''\<rparr>,
     ceSha = demo_sha, ceFiles = demo_host None\<rparr>"

definition demo_managed :: "unit managed" where
  "demo_managed = \<lparr>mgAgent = demo_agent, mgNotify = \<lparr>nsWebhook = '''', nsSlack = '''', nsMinSev = ''high''\<rparr>, mgInventory = None\<rparr>"

theorem console_mediated_witness:
  "\<exists>g' st. console_request demo_web demo_env True demo_auth demo_users key_request (BreakerArm (Some False)) demo_managed = Done (g', st) \<and>
     \<not> Armed (agBreaker (mgAgent g')) \<and>
     (\<exists>p. Can PermManagePolicy (Some p) \<and> admin_logged demo_env p [''breaker:disarmed''] demo_agent (mgAgent g'))"
proof -
  let ?p = "principalOf demo_user" and ?op = "BreakerArm (Some False)"
  have "mutationGuard True demo_auth (xNow demo_env 0) demo_users PermManagePolicy key_request = Done (Inr (Some ?p))" by code_simp
  then have r: "console_request demo_web demo_env True demo_auth demo_users key_request ?op demo_managed =
      Done (console_step demo_web demo_env (rqMethod key_request) (Some ?p) ?op demo_managed)"
    by (simp add: console_request_def op_guard_def)
  obtain g' st where g': "console_step demo_web demo_env (rqMethod key_request) (Some ?p) ?op demo_managed = (g', st)" by fastforce
  have b: "\<not> Armed (agBreaker (mgAgent g'))"
    using g' by (auto simp: handleBreaker_def Armed_def SetArmed_def)
  moreover have "Armed (agBreaker (mgAgent demo_managed))" by code_simp
  ultimately have "g' \<noteq> demo_managed" by metis
  with console_mediated [OF demo_console_ok(2), of demo_web demo_env demo_auth key_request ?op demo_managed] r g'
  obtain p where "Can (op_permission ?op) (Some p)" "admin_logged demo_env p (op_events ?op) (mgAgent demo_managed) (mgAgent g')"
    by (metis Pair_inject console_op.distinct outcome.inject)
  with r g' b show ?thesis by (auto simp: demo_managed_def)
qed

subsection \<open>Sessions\<close>

text \<open>C15: From account to session. Once a user has been created, logging in with the tenant's slug, the email
  and the password answers 200 with a token, as long as the login guard admits the attempt; and until the
  token's lifetime is over, a request bearing it is resolved to exactly that user's principal, with the
  roles the account was given.\<close>

theorem login_session:
  assumes "codec_ok (aeJwt (peAuth pe)) (claims_for (aeIssuer (peAuth pe)) (xNow y 1) (NewPrincipal (fst b) tid (cuEmail r) (cuRoles r)))"
    and "\<And>k m. length (aeHmac (peAuth pe) k m) = 32"
    and "peProviders pe = NewAuthenticator (peAuth pe)"
    and c: "handleCreateUser pe x p tid (Some r) s = (s1, Reply 201 b)"
    and t: "GetBySlug slug (cnTenants s) = Inr t" "tnID t = tid" "slug \<noteq> ''''"
    and g: "snd (guard_allows (xNow y 0) (slug @ '':'' @ cuEmail r) s1)"
    and now: "unix_time now < unix_time (xNow y 1 + tiTTL (aeIssuer (peAuth pe)))"
  shows "\<exists>s2 resp. handleLogin pe y (Some (password_login slug (cuEmail r) (cuPassword r))) s1 = Done (s2, Reply 200 resp) \<and>
     lpUserID resp = fst b \<and> lpRoles resp = cuRoles r \<and>
     (\<forall>us m. resolve (peAuth pe) now us \<lparr>rqMethod = m, rqAuthorization = ''Bearer '' @ lpToken resp, rqAPIKey = '''', rqToken = ''''\<rparr> =
       Done (Some (NewPrincipal (fst b) tid (cuEmail r) (cuRoles r))))"
  by (rule login_after_create [OF assms])

definition bob :: "string list \<Rightarrow> create_user_request" where
  "bob roles = \<lparr>cuEmail = ''bob@acme'', cuUsername = ''bob'', cuPassword = ''correct horse'', cuRoles = roles\<rparr>"

lemma demo_settings:
  "GetBySlug ''acme'' (cnTenants demo_console) = Inr \<lparr>tnID = ''t1'', tnSlug = ''acme'', tnName = ''Acme'', tnPlan = ''free'', tnStatus = ''active'', tnCreatedAt = 1\<rparr>"
  "codec_ok (aeJwt (peAuth demo_platform)) c" "length (aeHmac (peAuth demo_platform) k m) = 32"
  "peProviders demo_platform = NewAuthenticator (peAuth demo_platform)"
  "unix_time (xNow demo_env 1) < unix_time (xNow demo_env 1 + tiTTL (aeIssuer (peAuth demo_platform)))"
  "cnGuard s = cnGuard demo_console \<Longrightarrow> snd (guard_allows now key s)"
proof -
  show "GetBySlug ''acme'' (cnTenants demo_console) = Inr \<lparr>tnID = ''t1'', tnSlug = ''acme'', tnName = ''Acme'', tnPlan = ''free'', tnStatus = ''active'', tnCreatedAt = 1\<rparr>"
    by code_simp
  show "codec_ok (aeJwt (peAuth demo_platform)) c" using demo_jwt_ok by (simp add: demo_platform_def demo_auth_def)
  show "length (aeHmac (peAuth demo_platform) k m) = 32" by (simp add: demo_platform_def demo_auth_def)
  show "peProviders demo_platform = NewAuthenticator (peAuth demo_platform)" by (simp add: demo_platform_def)
  show "unix_time (xNow demo_env 1) < unix_time (xNow demo_env 1 + tiTTL (aeIssuer (peAuth demo_platform)))" by code_simp
  show "cnGuard s = cnGuard demo_console \<Longrightarrow> snd (guard_allows now key s)"
    by (simp add: guard_allows_def demo_console_def NewLoginGuard_def Allowed_def)
qed

lemma bob_created:
  assumes "list_all KnownRole roles"
  shows "\<exists>s1. handleCreateUser demo_platform demo_env (principalOf demo_user) ''t1'' (Some (bob roles)) demo_console =
    (s1, Reply 201 (''u2'', ''bob@acme'', roles)) \<and> cnGuard s1 = cnGuard demo_console"
proof -
  have k: "TenantScoped ''t1'' (Some (principalOf demo_user))"
    "map_of (usByEmail (cnUsers demo_console)) (emailKey ''t1'' ''bob@acme'') = None"
    "map_of (usByID (cnUsers demo_console)) (peFresh demo_platform) = None" by code_simp+
  have "peFresh demo_platform = ''u2''" by (simp add: demo_platform_def)
  with handleCreateUser_succeeds [OF k(1), of "bob roles" demo_console demo_platform demo_env] k(2,3) assms
  show ?thesis by (simp add: bob_def)
qed

theorem login_session_witness:
  "\<exists>s1 s2 resp. handleLogin demo_platform demo_env (Some (password_login ''acme'' ''bob@acme'' ''correct horse'')) s1 = Done (s2, Reply 200 resp) \<and>
     lpRoles resp = [RoleViewer]"
proof -
  have "list_all KnownRole [RoleViewer]" by code_simp
  from bob_created [OF this] obtain s1 where
    s1: "handleCreateUser demo_platform demo_env (principalOf demo_user) ''t1'' (Some (bob [RoleViewer])) demo_console =
      (s1, Reply 201 (''u2'', ''bob@acme'', [RoleViewer]))" "cnGuard s1 = cnGuard demo_console" by blast
  from login_session [OF demo_settings(2,3,4) s1(1) demo_settings(1) _ _ demo_settings(6) [OF s1(2)] demo_settings(5)]
  show ?thesis by (simp add: bob_def) blast
qed

subsection \<open>Where the control plane falls short\<close>

text \<open>C31: Privilege escalation. The handler that creates users checks that the requested roles exist, not that
  the caller may grant them: whoever may manage users of a tenant without being an owner, as an admin, can
  create an owner in it, log in as that owner, and then holds every permission and passes the isolation
  guard of every tenant.\<close>

theorem admin_escalates_to_owner:
  assumes "codec_ok (aeJwt (peAuth pe)) (claims_for (aeIssuer (peAuth pe)) (xNow y 1) (NewPrincipal (peFresh pe) (tnID t) email [RoleOwner]))"
    and "\<And>k m. length (aeHmac (peAuth pe) k m) = 32"
    and "peProviders pe = NewAuthenticator (peAuth pe)"
    and "p = NewPrincipal i (tnID t) e [RoleAdmin]" and "tnID t \<noteq> ''''" and t: "GetBySlug slug (cnTenants s) = Inr t" "slug \<noteq> ''''"
    and "map_of (usByEmail (cnUsers s)) (emailKey (tnID t) email) = None" "map_of (usByID (cnUsers s)) (peFresh pe) = None"
    and "email \<noteq> ''''" "8 \<le> length pw"
    and g: "snd (guard_allows (xNow y 0) (slug @ '':'' @ email) s)"
    and "unix_time now < unix_time (xNow y 1 + tiTTL (aeIssuer (peAuth pe)))"
  shows "\<not> Can PermManageSystem (Some p) \<and>
    (\<exists>s1 uid. handleCreateUser pe x p (tnID t) (Some \<lparr>cuEmail = email, cuUsername = un, cuPassword = pw, cuRoles = [RoleOwner]\<rparr>) s =
        (s1, Reply 201 (uid, email, [RoleOwner])) \<and>
      (\<exists>s2 resp. handleLogin pe y (Some (password_login slug email pw)) s1 = Done (s2, Reply 200 resp) \<and>
        (\<exists>q. resolve (peAuth pe) now (cnUsers s2) \<lparr>rqMethod = ''GET'', rqAuthorization = ''Bearer '' @ lpToken resp, rqAPIKey = '''', rqToken = ''''\<rparr> = Done (Some q) \<and>
          (\<forall>perm tid. Can perm (Some q) \<and> TenantScoped tid (Some q)))))"
proof -
  let ?r = "\<lparr>cuEmail = email, cuUsername = un, cuPassword = pw, cuRoles = [RoleOwner]\<rparr>"
  have ca: "Can perm (Some (NewPrincipal i' t' e' rs)) \<longleftrightarrow> RoleOwner \<in> set rs \<or> (\<exists>ro \<in> set rs. perm \<in> set (role_grants ro))" for perm i' t' e' rs
    by (rule Can_iff)
  have no: "\<not> Can PermManageSystem (Some p)" unfolding assms(4) ca using system_grant by simp
  have sc: "TenantScoped (tnID t) (Some p)" by (simp add: TenantScoped_def assms(4) NewPrincipal_def)
  have kr: "list_all KnownRole [RoleOwner]" by code_simp
  from handleCreateUser_succeeds [OF sc, of ?r s pe x] kr assms(5,8-11) obtain s1 where
    s1: "handleCreateUser pe x p (tnID t) (Some ?r) s = (s1, Reply 201 (peFresh pe, email, [RoleOwner]))" "cnGuard s1 = cnGuard s" by auto
  from login_after_create [OF _ assms(2,3) s1(1) t(1) refl t(2) _ assms(13)] assms(1) g guard_allows_cong [OF s1(2)] obtain s2 resp where
    s2: "handleLogin pe y (Some (password_login slug email pw)) s1 = Done (s2, Reply 200 resp)"
    and rs: "resolve (peAuth pe) now (cnUsers s2) \<lparr>rqMethod = ''GET'', rqAuthorization = ''Bearer '' @ lpToken resp, rqAPIKey = '''', rqToken = ''''\<rparr> =
       Done (Some (NewPrincipal (peFresh pe) (tnID t) email [RoleOwner]))" by auto
  have "Can perm (Some (NewPrincipal (peFresh pe) (tnID t) email [RoleOwner])) \<and> TenantScoped tid (Some (NewPrincipal (peFresh pe) (tnID t) email [RoleOwner]))" for perm tid
    by (simp add: ca TenantScoped_def)
  with no s1 s2 rs show ?thesis by blast
qed

theorem admin_escalates_to_owner_witness:
  "\<exists>s1 s2 resp q. handleLogin demo_platform demo_env (Some (password_login ''acme'' ''bob@acme'' ''correct horse'')) s1 = Done (s2, Reply 200 resp) \<and>
     Can PermManageSystem (Some q) \<and> TenantScoped ''other'' (Some q)"
proof -
  have k: "map_of (usByEmail (cnUsers demo_console)) (emailKey ''t1'' ''bob@acme'') = None"
    "map_of (usByID (cnUsers demo_console)) (peFresh demo_platform) = None" by code_simp+
  have "\<not> Can PermManageSystem (Some (NewPrincipal ''u1'' ''t1'' ''ann@acme'' [RoleAdmin])) \<and>
    (\<exists>s1 uid. handleCreateUser demo_platform demo_env (NewPrincipal ''u1'' ''t1'' ''ann@acme'' [RoleAdmin]) ''t1''
        (Some \<lparr>cuEmail = ''bob@acme'', cuUsername = '''', cuPassword = ''correct horse'', cuRoles = [RoleOwner]\<rparr>) demo_console =
        (s1, Reply 201 (uid, ''bob@acme'', [RoleOwner])) \<and>
      (\<exists>s2 resp. handleLogin demo_platform demo_env (Some (password_login ''acme'' ''bob@acme'' ''correct horse'')) s1 = Done (s2, Reply 200 resp) \<and>
        (\<exists>q. resolve (peAuth demo_platform) (xNow demo_env 1) (cnUsers s2) \<lparr>rqMethod = ''GET'', rqAuthorization = ''Bearer '' @ lpToken resp, rqAPIKey = '''', rqToken = ''''\<rparr> = Done (Some q) \<and>
          (\<forall>perm tid. Can perm (Some q) \<and> TenantScoped tid (Some q)))))"
    using admin_escalates_to_owner [OF demo_settings(2,3,4) _ _ demo_settings(1), of "NewPrincipal ''u1'' ''t1'' ''ann@acme'' [RoleAdmin]"
        "''u1''" "''ann@acme''" "''bob@acme''" "''correct horse''" demo_env "xNow demo_env 1" demo_env "''''"]
      k demo_settings(5) demo_settings(6) [of demo_console] by simp
  then show ?thesis by blast
qed

text \<open>The live event stream is open. With the control plane on, the stream is served to every request
  with a non-empty authorization header, whatever it says, also when no route would accept its
  credentials.\<close>

theorem sse_open:
  "(sse_authed True x now r \<longleftrightarrow>
      rqAuthorization r \<noteq> '''' \<or> rqToken r \<noteq> '''' \<and> (\<exists>c. token_Verify (aeJwt x) (aeIssuer x) now (rqToken r) = Inr c)) \<and>
   (let anonymous = \<lparr>rqMethod = ''GET'', rqAuthorization = ''none'', rqAPIKey = '''', rqToken = ''''\<rparr>
    in sse_authed True x now anonymous \<and> dataGuard True x now us PermViewEvents anonymous = Done (Inl 401))"
proof -
  have "\<not> prefix ''Bearer '' ''none''" by code_simp
  then have "resolve x now us \<lparr>rqMethod = ''GET'', rqAuthorization = ''none'', rqAPIKey = '''', rqToken = ''''\<rparr> = Done None"
    unfolding resolve_def bearer_principal_def by simp
  then show ?thesis
    by (auto simp: sse_authed_def Let_def dataGuard_def method_guard_def Require_def split: sum.splits)
qed

theorem sse_open_witness:
  "sse_authed True demo_auth 0 \<lparr>rqMethod = ''GET'', rqAuthorization = ''none'', rqAPIKey = '''', rqToken = ''''\<rparr> \<and>
   \<not> sse_authed True demo_auth 0 \<lparr>rqMethod = ''GET'', rqAuthorization = '''', rqAPIKey = '''', rqToken = ''''\<rparr>"
  using sse_open [of demo_auth 0 "\<lparr>rqMethod = ''GET'', rqAuthorization = '''', rqAPIKey = '''', rqToken = ''''\<rparr>"]
  by (simp add: Let_def)

text \<open>C32: Deprovisioning does not revoke access. After the identity provider has deactivated a user over SCIM,
  a session token the user already holds is still accepted until it expires, since tokens are checked
  against no store; and the next single sign-on of that user makes the account active again.\<close>

theorem deprovisioning_undone:
  assumes "console_ok s" and a: "user_Get i (cnUsers s) = Inr a"
    and t: "GetBySlug slug (cnTenants s) = Inr t" "tnID t = uTenantID (usHeap (cnUsers s) ! a)"
    and "codec_ok (aeJwt (peAuth pe)) (claims_for (aeIssuer (peAuth pe)) t0 (principalOf (usHeap (cnUsers s) ! a)))"
    and "unix_time now < unix_time (t0 + tiTTL (aeIssuer (peAuth pe)))"
    and "rqAuthorization r = ''Bearer '' @ Issue (aeJwt (peAuth pe)) (aeIssuer (peAuth pe)) t0 (principalOf (usHeap (cnUsers s) ! a))"
  shows "\<exists>s1 v. handleSCIMPatchUser pe x i (Some ([], Some False)) s = (s1, Reply 200 v) \<and> \<not> suActive v \<and>
      resolve (peAuth pe) now (cnUsers s1) r = Done (Some (principalOf (usHeap (cnUsers s) ! a))) \<and>
      (\<exists>s2 resp. ssoIssue pe y slug (uEmail (usHeap (cnUsers s) ! a)) roles pr s1 = (s2, Reply 200 resp) \<and>
        uStatus (usHeap (cnUsers s2) ! a) = UserActive)"
proof -
  let ?u = "usHeap (cnUsers s) ! a" and ?f = "\<lambda>v. v\<lparr>uStatus := activeStatus False\<rparr>"
  have us: "users_ok (cnUsers s)" using assms(1) by (simp add: console_ok_def)
  note id = user_Get_ID [OF a]
  note ok = users_okD(1) [OF us id]
  let ?w = "set_user a ?f (cnUsers s)"
  have w: "usHeap ?w ! a = ?f ?u" using ok by (simp add: set_user_def)
  obtain us1 where up: "user_Update a ?w = (us1, None)" "usHeap us1 = usHeap ?w" "map_of (usByEmail us1) (emailKey (uTenantID ?u) (uEmail ?u)) = Some a"
    using ok id w by (auto simp: user_Update_def Let_def set_user_def)
  define s1 where "s1 = fst (handleSCIMPatchUser pe x i (Some ([], Some False)) s)"
  have h: "handleSCIMPatchUser pe x i (Some ([], Some False)) s = (s1, Reply 200 (toSCIM (?f ?u)))"
    and s1: "cnUsers s1 = us1" "cnTenants s1 = cnTenants s"
    using a up w unfolding s1_def by (simp_all add: handleSCIMPatchUser_def Let_def)
  have dis: "\<not> suActive (toSCIM (?f ?u))" by (simp add: toSCIM_def activeStatus_def)
  have tok: "resolve (peAuth pe) now (cnUsers s1) r = Done (Some (principalOf ?u))"
    by (rule resolve_issued [OF assms(5) _ assms(6,7)]) (simp add: principalOf_def)
  have em: "GetByEmail (tnID t) (uEmail ?u) (cnUsers s1) = Inr a" using up(3) s1 t(2) by (simp add: GetByEmail_def)
  have al: "a < length (usHeap us1)" using ok up(2) by (simp add: set_user_def)
  let ?z = "fst (user_Update a (set_user a (\<lambda>u. u\<lparr>uRoles := roles, uStatus := UserActive\<rparr>) us1))"
  have "uStatus (usHeap ?z ! a) = UserActive"
    using al by (simp add: user_Update_def set_user_def Let_def)
  then have "\<exists>s2 resp. ssoIssue pe y slug (uEmail ?u) roles pr s1 = (s2, Reply 200 resp) \<and> uStatus (usHeap (cnUsers s2) ! a) = UserActive"
    using t(1) em s1 by (simp add: ssoIssue_def sso_session_def Let_def)
  with h dis tok show ?thesis by blast
qed

theorem deprovisioning_undone_witness:
  "\<exists>s1 v. handleSCIMPatchUser demo_platform demo_env ''u1'' (Some ([], Some False)) demo_console = (s1, Reply 200 v) \<and> \<not> suActive v \<and>
     (\<exists>s2 resp. ssoIssue demo_platform demo_env ''acme'' ''ann@acme'' [RoleViewer] ''oidc'' s1 = (s2, Reply 200 resp) \<and>
        uStatus (usHeap (cnUsers s2) ! 0) = UserActive)"
proof -
  let ?r = "\<lparr>rqMethod = ''GET'', rqAuthorization = ''Bearer '' @ Issue (aeJwt (peAuth demo_platform)) (aeIssuer (peAuth demo_platform)) (xNow demo_env 1)
      (principalOf (usHeap (cnUsers demo_console) ! 0)), rqAPIKey = '''', rqToken = ''''\<rparr>"
  have g: "user_Get ''u1'' (cnUsers demo_console) = Inr 0" "uEmail (usHeap (cnUsers demo_console) ! 0) = ''ann@acme''"
    "uTenantID (usHeap (cnUsers demo_console) ! 0) = ''t1''" by code_simp+
  have t: "tnID \<lparr>tnID = ''t1'', tnSlug = ''acme'', tnName = ''Acme'', tnPlan = ''free'', tnStatus = ''active'', tnCreatedAt = 1\<rparr> =
      uTenantID (usHeap (cnUsers demo_console) ! 0)" using g(3) by simp
  have r: "rqAuthorization ?r = ''Bearer '' @ Issue (aeJwt (peAuth demo_platform)) (aeIssuer (peAuth demo_platform)) (xNow demo_env 1)
      (principalOf (usHeap (cnUsers demo_console) ! 0))" by simp
  from deprovisioning_undone [OF demo_console_ok(1) g(1) demo_settings(1) t demo_settings(2,5) r, of demo_env demo_env "[RoleViewer]" "''oidc''"]
  show ?thesis unfolding g(2) by blast
qed

text \<open>C17: Consistency of the control plane. From a first boot, after any sequence of logins, single sign-ons
  and provisioning, tenant, user and API-key requests, in any order and with any payloads, the indexes of
  both stores agree: identifiers, slugs, emails and keys lead to the same live records and to nothing
  deleted; and with the local provider every further request returns, none dereferences a missing user.\<close>

theorem platform_consistent:
  assumes "setupPlatform pe0 gen uid t1 t2 bc None g = Some s0" and "platform_reach s0 s"
  shows "console_ok s \<and> (\<forall>pe x op. peProviders pe = NewAuthenticator (peAuth pe) \<longrightarrow> (\<exists>s'. platform_step pe x op s = Done s'))"
proof -
  have ok: "console_ok s" using platform_reach_ok [OF assms(2) setupPlatform_ok [OF assms(1)]] .
  have "\<exists>s'. platform_step pe x op s = Done s'" if pr: "peProviders pe = NewAuthenticator (peAuth pe)" for pe x op
  proof (cases op)
    case (PLogin b)
    obtain v where "handleLogin pe x b s = Done v" using handleLogin_returns [OF ok pr] by blast
    with PLogin show ?thesis by simp
  qed simp_all
  with ok show ?thesis by blast
qed

theorem platform_consistent_witness:
  "\<exists>s0 s1 s2. setupPlatform demo_platform ''generated'' ''u9'' 1 2 \<lparr>bcTenant = '''', bcEmail = '''', bcPassword = ''''\<rparr> None demo_agent = Some s0 \<and>
     platform_step demo_platform demo_env (PSso ''default'' ''eve@x'' [RoleViewer] ''oidc'') s0 = Done s1 \<and>
     platform_step demo_platform demo_env (PScimDelete ''u2'') s1 = Done s2 \<and> console_ok s2"
proof -
  let ?b = "\<lparr>bcTenant = '''', bcEmail = '''', bcPassword = ''''\<rparr>"
  obtain s0 where s0: "setupPlatform demo_platform ''generated'' ''u9'' 1 2 ?b None demo_agent = Some s0"
    by (auto simp: setupPlatform_def bootstrapAdmin_def NewMemTenantStore_def NewMemUserStore_def tenant_Create_def new_tenant_def
        SetPassword_def new_user_def user_Create_def Let_def demo_platform_def)
  let ?s1 = "fst (ssoIssue demo_platform demo_env ''default'' ''eve@x'' [RoleViewer] ''oidc'' s0)"
  let ?s2 = "fst (handleSCIMDeleteUser demo_platform demo_env ''u2'' ?s1)"
  have st: "platform_step demo_platform demo_env (PSso ''default'' ''eve@x'' [RoleViewer] ''oidc'') s0 = Done ?s1"
    "platform_step demo_platform demo_env (PScimDelete ''u2'') ?s1 = Done ?s2" by simp_all
  have "platform_reach s0 ?s2" using st by (blast intro: platform_reach.intros)
  with platform_consistent [OF s0] have "console_ok ?s2" by blast
  with s0 st show ?thesis by blast
qed

end
