(* ===== verification/SSO.thy ===== *)
theory SSO
  imports Console_Claims Float64
begin

text \<open>
  Single sign-on: verification of ID tokens and the role mapping (\<^verbatim>\<open>src/pkg/platform/oidc.go\<close>), the provider
  with its key cache (\<^verbatim>\<open>oidc_provider.go\<close>), the claims of a validated SAML assertion and their role mapping
  (\<^verbatim>\<open>saml.go\<close>), and the two login handlers (\<^verbatim>\<open>src/pkg/web/sso_api.go\<close>).  JSON decoding, the RSA signature
  check, the key fetch and the SAML library are parameters; base64, the key set and every check on the
  claims are computed.
\<close>

subsection \<open>Keys\<close>

record rsa_key =
  rkN :: nat
  rkE :: int

record jwk =
  jkKty :: string
  jkKid :: string
  jkN :: string
  jkE :: string

datatype oidc_error =
    OMalformed | OHeaderEncoding | OHeaderJSON | OUnsupportedAlg string | OUnknownKey string | OSigEncoding | OSignature
  | OPayloadEncoding | OPayloadJSON | OIssuer | OAudience | OExpired | ONotYet | ONoSubject

datatype jwks_error = JwksJSON | BadModulus string | BadExponent string | NoRSAKeys

definition big_bytes :: "string \<Rightarrow> nat" where
  "big_bytes s = foldl (\<lambda>n c. n * 256 + of_char c) 0 s"

text \<open>\<^verbatim>\<open>Int64\<close> of a big integer keeps its low 64 bits.\<close>

definition low_int64 :: "nat \<Rightarrow> int" where
  "low_int64 n = sint (of_nat n :: 64 word)"

fun parse_keys :: "jwk list \<Rightarrow> (string, rsa_key) gomap \<Rightarrow> jwks_error + (string, rsa_key) gomap" where
  "parse_keys [] out = Inr out"
| "parse_keys (k # ks) out =
     (if jkKty k \<noteq> ''RSA'' then parse_keys ks out
      else case unb64 (jkN k) of
        None \<Rightarrow> Inl (BadModulus (jkKid k))
      | Some n \<Rightarrow>
          (case unb64 (jkE k) of
             None \<Rightarrow> Inl (BadExponent (jkKid k))
           | Some e \<Rightarrow> parse_keys ks (mput (jkKid k) \<lparr>rkN = big_bytes n, rkE = low_int64 (big_bytes e)\<rparr> out)))"

definition ParseJWKS :: "(string \<Rightarrow> jwk list option) \<Rightarrow> string \<Rightarrow> jwks_error + (string, rsa_key) gomap" where
  "ParseJWKS dec data =
     (case dec data of
        None \<Rightarrow> Inl JwksJSON
      | Some ks \<Rightarrow>
          (case parse_keys ks [] of Inl e \<Rightarrow> Inl e | Inr out \<Rightarrow> if out = [] then Inl NoRSAKeys else Inr out))"

subsection \<open>Claims\<close>

text \<open>What \<^verbatim>\<open>encoding/json\<close> gives for \<^verbatim>\<open>any\<close>.\<close>

datatype jval = JNull | JBool bool | JNum float64 | JStr string | JArr "jval list" | JObj "(string \<times> jval) list"

definition str_claim :: "jval \<Rightarrow> string" where
  "str_claim v = (case v of JStr s \<Rightarrow> s | _ \<Rightarrow> '''')"

definition audienceContains :: "jval \<Rightarrow> string \<Rightarrow> bool" where
  "audienceContains aud clientID = (case aud of JStr v \<Rightarrow> v = clientID | JArr vs \<Rightarrow> JStr clientID \<in> set vs | _ \<Rightarrow> False)"

definition numericClaim :: "jval \<Rightarrow> int option" where
  "numericClaim v = (case v of JNum n \<Rightarrow> Some (to_int64 n) | _ \<Rightarrow> None)"

definition stringSlice :: "jval \<Rightarrow> string list" where
  "stringSlice v =
     (case v of
        JArr vs \<Rightarrow> map str_claim (filter (\<lambda>e. case e of JStr s \<Rightarrow> True | _ \<Rightarrow> False) vs)
      | JStr s \<Rightarrow> [s]
      | _ \<Rightarrow> [])"

record oidc_config =
  ocIssuer :: string
  ocClientID :: string
  ocGroupsClaim :: string
  ocRoleMap :: "(string, string) gomap"
  ocDefaultRoles :: "string list"

record oidc_claims =
  oiSubject :: string
  oiEmail :: string
  oiGroups :: "string list"

record oidc_codec =
  okHeader :: "string \<Rightarrow> (string \<times> string) option"
  okClaims :: "string \<Rightarrow> (string, jval) gomap option"
  okVerify :: "rsa_key \<Rightarrow> string \<Rightarrow> string \<Rightarrow> bool"

definition groups_claim :: "oidc_config \<Rightarrow> string" where
  "groups_claim cfg = (if ocGroupsClaim cfg = '''' then ''groups'' else ocGroupsClaim cfg)"

text \<open>The checks on the decoded claims.\<close>

definition check_claims :: "oidc_config \<Rightarrow> time \<Rightarrow> (string, jval) gomap \<Rightarrow> oidc_error + oidc_claims" where
  "check_claims cfg t claims =
     (let cl = mget JNull claims; now = unix_time t in
      if str_claim (cl ''iss'') \<noteq> ocIssuer cfg then Inl OIssuer
      else if \<not> audienceContains (cl ''aud'') (ocClientID cfg) then Inl OAudience
      else if (case numericClaim (cl ''exp'') of Some e \<Rightarrow> e \<le> now | None \<Rightarrow> False) then Inl OExpired
      else if (case numericClaim (cl ''nbf'') of Some n \<Rightarrow> now < n | None \<Rightarrow> False) then Inl ONotYet
      else
        let out = \<lparr>oiSubject = str_claim (cl ''sub''), oiEmail = str_claim (cl ''email''), oiGroups = stringSlice (cl (groups_claim cfg))\<rparr>
        in if oiSubject out = '''' then Inl ONoSubject else Inr out)"

definition oidc_Verify ::
  "oidc_codec \<Rightarrow> oidc_config \<Rightarrow> (string, rsa_key) gomap \<Rightarrow> time \<Rightarrow> string \<Rightarrow> oidc_error + oidc_claims" where
  "oidc_Verify k cfg ks t idToken =
     (let parts = Split ''.'' idToken in
      if length parts \<noteq> 3 then Inl OMalformed
      else case unb64 (parts ! 0) of
        None \<Rightarrow> Inl OHeaderEncoding
      | Some hb \<Rightarrow>
      (case okHeader k hb of
        None \<Rightarrow> Inl OHeaderJSON
      | Some (alg, kid) \<Rightarrow>
      if alg \<noteq> ''RS256'' then Inl (OUnsupportedAlg alg)
      else case map_of ks kid of
        None \<Rightarrow> Inl (OUnknownKey kid)
      | Some key \<Rightarrow>
      (case unb64 (parts ! 2) of
        None \<Rightarrow> Inl OSigEncoding
      | Some sg \<Rightarrow>
      if \<not> okVerify k key (parts ! 0 @ ''.'' @ parts ! 1) sg then Inl OSignature
      else case unb64 (parts ! 1) of
        None \<Rightarrow> Inl OPayloadEncoding
      | Some pb \<Rightarrow>
      (case okClaims k pb of
        None \<Rightarrow> Inl OPayloadJSON
      | Some claims \<Rightarrow> check_claims cfg t claims))))"

text \<open>Roles keep the order in which they are first granted.\<close>

definition add_role :: "string \<Rightarrow> string list \<Rightarrow> string list" where
  "add_role r roles = (if r \<in> set roles then roles else roles @ [r])"

definition MapRoles :: "(string, string) gomap \<Rightarrow> string list \<Rightarrow> string list \<Rightarrow> string list" where
  "MapRoles roleMap defaultRoles groups =
     (let r1 = fold add_role defaultRoles [];
          r2 = fold (\<lambda>g roles. case map_of roleMap g of Some r \<Rightarrow> add_role r roles | None \<Rightarrow> roles) groups r1
      in if r2 = [] then add_role RoleViewer r2 else r2)"

subsection \<open>The provider\<close>

record oidc_provider =
  opConfig :: oidc_config
  opKeys :: "(string, rsa_key) gomap"
  opFetchedAt :: time
  opMinRefresh :: dur

text \<open>
  \<open>discovered\<close> is the issuer of the discovery document, \<open>None\<close> when it cannot be had; \<open>fetch\<close> is the result
  of fetching and parsing the key set.
\<close>

definition refreshKeys :: "(jwks_error + (string, rsa_key) gomap) option \<Rightarrow> time \<Rightarrow> oidc_provider \<Rightarrow> oidc_provider \<times> bool" where
  "refreshKeys fetch now p =
     (case fetch of Some (Inr ks) \<Rightarrow> (p\<lparr>opKeys := ks, opFetchedAt := now\<rparr>, True) | _ \<Rightarrow> (p, False))"

definition NewOIDCProvider ::
  "oidc_config \<Rightarrow> string option \<Rightarrow> (jwks_error + (string, rsa_key) gomap) option \<Rightarrow> time \<Rightarrow> oidc_provider option" where
  "NewOIDCProvider cfg discovered fetch now =
     (case discovered of
        None \<Rightarrow> None
      | Some iss \<Rightarrow>
          if iss \<noteq> ocIssuer cfg then None
          else case refreshKeys fetch now \<lparr>opConfig = cfg\<lparr>ocGroupsClaim := groups_claim cfg\<rparr>, opKeys = [], opFetchedAt = zero_time, opMinRefresh = minute\<rparr> of
            (p, True) \<Rightarrow> Some p | (p, False) \<Rightarrow> None)"

text \<open>
  The retry is decided on the text of the error; \<open>quoted\<close> is \<^verbatim>\<open>%q\<close>, by which the text of two errors contains
  a part of the token.
\<close>

definition looks_unknown_key :: "(string \<Rightarrow> string) \<Rightarrow> oidc_error \<Rightarrow> bool" where
  "looks_unknown_key quoted e =
     (case e of
        OUnknownKey kid \<Rightarrow> True
      | OUnsupportedAlg alg \<Rightarrow> sublist ''unknown signing key'' (quoted alg)
      | _ \<Rightarrow> False)"

definition provider_Verify ::
  "(string \<Rightarrow> string) \<Rightarrow> oidc_codec \<Rightarrow> (jwks_error + (string, rsa_key) gomap) option \<Rightarrow> time \<Rightarrow> string \<Rightarrow> oidc_provider \<Rightarrow>
   oidc_provider \<times> (oidc_error + oidc_claims)" where
  "provider_Verify quoted k fetch now idToken p =
     (case oidc_Verify k (opConfig p) (opKeys p) now idToken of
        Inr c \<Rightarrow> (p, Inr c)
      | Inl e \<Rightarrow>
          if \<not> looks_unknown_key quoted e then (p, Inl e)
          else if \<not> opMinRefresh p < time_sub now (opFetchedAt p) then (p, Inl e)
          else case refreshKeys fetch now p of
            (p1, False) \<Rightarrow> (p1, Inl e)
          | (p1, True) \<Rightarrow> (p1, oidc_Verify k (opConfig p1) (opKeys p1) now idToken))"

subsection \<open>SAML\<close>

record saml_attribute =
  saName :: string
  saFriendly :: string
  saValues :: "string list"

record saml_claims =
  scNameID :: string
  scEmail :: string
  scGroups :: "string list"

definition saml_attr :: "string \<Rightarrow> string \<Rightarrow> saml_attribute \<Rightarrow> saml_claims \<Rightarrow> saml_claims" where
  "saml_attr groupsAttr emailAttr a c =
     (if saName a = groupsAttr \<or> saFriendly a = groupsAttr then c\<lparr>scGroups := scGroups c @ filter (\<lambda>v. v \<noteq> '''') (saValues a)\<rparr>
      else if saName a = emailAttr \<or> saFriendly a = emailAttr then (if saValues a \<noteq> [] then c\<lparr>scEmail := hd (saValues a)\<rparr> else c)
      else c)"

text \<open>An assertion is its subject's name, if any, and the attributes of all its statements in order.\<close>

definition saml_extract :: "string \<Rightarrow> string \<Rightarrow> string option \<Rightarrow> saml_attribute list \<Rightarrow> saml_claims" where
  "saml_extract groupsAttr emailAttr nameID attrs =
     (let c0 = \<lparr>scNameID = (case nameID of None \<Rightarrow> '''' | Some n \<Rightarrow> n), scEmail = '''', scGroups = []\<rparr>;
          c = fold (saml_attr groupsAttr emailAttr) attrs c0
      in if scEmail c = '''' then c\<lparr>scEmail := scNameID c\<rparr> else c)"

subsection \<open>The login handlers\<close>

text \<open>\<open>text_of\<close> renders the error for the audit entry.\<close>

definition handleSSOLogin ::
  "(string \<Rightarrow> string) \<Rightarrow> (oidc_error \<Rightarrow> string) \<Rightarrow> oidc_codec \<Rightarrow> (jwks_error + (string, rsa_key) gomap) option \<Rightarrow> platform_env \<Rightarrow> 's agent_env \<Rightarrow>
   string \<Rightarrow> string option \<Rightarrow> oidc_provider option \<Rightarrow> 's console \<Rightarrow> (oidc_provider option \<times> 's console) \<times> login_response resp" where
  "handleSSOLogin quoted text_of k fetch pe x slug body pv s =
     (case pv of
        None \<Rightarrow> ((None, s), Refused 503)
      | Some p \<Rightarrow>
          (case body of
             None \<Rightarrow> ((Some p, s), Refused 400)
           | Some tok \<Rightarrow>
               if trim_space tok = '''' then ((Some p, s), Refused 400)
               else case provider_Verify quoted k fetch (xNow x 4) tok p of
                 (p1, Inl e) \<Rightarrow>
                   ((Some p1, admin_audit x 0 ''auth:sso_failed'' ''medium'' '''' '''' [(''error'', DStr (text_of e))] s), Refused 401)
               | (p1, Inr c) \<Rightarrow>
                   if oiEmail c = '''' then ((Some p1, s), Refused 401)
                   else case ssoIssue pe x slug (oiEmail c) (MapRoles (ocRoleMap (opConfig p1)) (ocDefaultRoles (opConfig p1)) (oiGroups c)) ''oidc'' s of
                     (s1, r) \<Rightarrow> ((Some p1, s1), r)))"

text \<open>\<open>parse\<close> is \<^verbatim>\<open>ParseAssertion\<close>: decoding and the library's validation, then \<open>saml_extract\<close>.\<close>

definition handleSAMLACS ::
  "platform_env \<Rightarrow> 's agent_env \<Rightarrow> string \<Rightarrow> (string, string) gomap \<Rightarrow> string list \<Rightarrow> (string \<Rightarrow> string + saml_claims) option \<Rightarrow>
   string option \<Rightarrow> 's console \<Rightarrow> 's console \<times> login_response resp" where
  "handleSAMLACS pe x slug roleMap defaultRoles provider form s =
     (case provider of
        None \<Rightarrow> (s, Refused 503)
      | Some parse \<Rightarrow>
          (case form of
             None \<Rightarrow> (s, Refused 400)
           | Some samlResp \<Rightarrow>
               if samlResp = '''' then (s, Refused 400)
               else case parse samlResp of
                 Inl e \<Rightarrow> (admin_audit x 0 ''auth:sso_failed'' ''medium'' '''' '''' [(''protocol'', DStr ''saml''), (''error'', DStr e)] s, Refused 401)
               | Inr c \<Rightarrow>
                   if scEmail c = '''' then (s, Refused 401)
                   else ssoIssue pe x slug (scEmail c) (MapRoles roleMap defaultRoles (scGroups c)) ''saml'' s))"

subsection \<open>What an accepted token was\<close>

text \<open>The token was signed with a published key, for this issuer and client, and is within its times.\<close>

definition id_token_ok ::
  "oidc_codec \<Rightarrow> oidc_config \<Rightarrow> (string, rsa_key) gomap \<Rightarrow> time \<Rightarrow> string \<Rightarrow> oidc_claims \<Rightarrow> bool" where
  "id_token_ok k cfg ks t tok c \<longleftrightarrow>
     (\<exists>h p sg hb kid key sb pb claims. tok = h @ ''.'' @ p @ ''.'' @ sg \<and> unb64 h = Some hb \<and> okHeader k hb = Some (''RS256'', kid) \<and>
        map_of ks kid = Some key \<and> unb64 sg = Some sb \<and> okVerify k key (h @ ''.'' @ p) sb \<and> unb64 p = Some pb \<and> okClaims k pb = Some claims \<and>
        (mget JNull claims ''iss'' = JStr (ocIssuer cfg) \<or> ocIssuer cfg = '''' \<and> str_claim (mget JNull claims ''iss'') = '''') \<and>
        audienceContains (mget JNull claims ''aud'') (ocClientID cfg) \<and>
        (\<forall>e. numericClaim (mget JNull claims ''exp'') = Some e \<longrightarrow> unix_time t < e) \<and>
        (\<forall>n. numericClaim (mget JNull claims ''nbf'') = Some n \<longrightarrow> n \<le> unix_time t) \<and>
        mget JNull claims ''email'' = JStr (oiEmail c) \<and> oiSubject c \<noteq> '''' \<and> oiGroups c = stringSlice (mget JNull claims (groups_claim cfg)))"

lemma str_claim_nonempty: "str_claim v = s \<Longrightarrow> s \<noteq> '''' \<Longrightarrow> v = JStr s"
  by (cases v) (simp_all add: str_claim_def)

lemma check_claims_Inr:
  assumes "check_claims cfg t claims = Inr c" and "oiEmail c \<noteq> ''''"
  shows "mget JNull claims ''iss'' = JStr (ocIssuer cfg) \<or> ocIssuer cfg = '''' \<and> str_claim (mget JNull claims ''iss'') = ''''"
    "audienceContains (mget JNull claims ''aud'') (ocClientID cfg)"
    "numericClaim (mget JNull claims ''exp'') = Some e \<Longrightarrow> unix_time t < e"
    "numericClaim (mget JNull claims ''nbf'') = Some n \<Longrightarrow> n \<le> unix_time t"
    "mget JNull claims ''email'' = JStr (oiEmail c)" "oiSubject c \<noteq> ''''" "oiGroups c = stringSlice (mget JNull claims (groups_claim cfg))"
  using assms str_claim_nonempty [of "mget JNull claims ''iss''" "ocIssuer cfg"] str_claim_nonempty [of "mget JNull claims ''email''" "oiEmail c"]
  by (auto simp: check_claims_def Let_def split: if_splits option.splits)

lemma oidc_Verify_Inr:
  assumes v: "oidc_Verify k cfg ks t tok = Inr c" and "oiEmail c \<noteq> ''''"
  shows "id_token_ok k cfg ks t tok c"
proof -
  have "length (Split ''.'' tok) = 3" using v by (simp add: oidc_Verify_def Let_def split: if_splits)
  then obtain h p sg where parts: "Split ''.'' tok = [h, p, sg]" by (auto simp: numeral_3_eq_3 length_Suc_conv)
  then have tk: "tok = h @ ''.'' @ p @ ''.'' @ sg" using join_Split [of "''.''" tok] by simp
  note v' = v [unfolded oidc_Verify_def Let_def parts, simplified]
  obtain hb where hb: "unb64 h = Some hb" using v' by (cases "unb64 h") simp_all
  note v1 = v' [unfolded hb option.case]
  obtain kid where kid: "okHeader k hb = Some (''RS256'', kid)" using v1 by (auto split: option.splits if_splits)
  note v2 = v1 [unfolded kid option.case prod.case, simplified]
  obtain key where key: "map_of ks kid = Some key" using v2 by (cases "map_of ks kid") simp_all
  note v3 = v2 [unfolded key option.case]
  obtain sb where sb: "unb64 sg = Some sb" using v3 by (cases "unb64 sg") simp_all
  note v4 = v3 [simplified, unfolded sb option.case]
  have ver: "okVerify k key (h @ ''.'' @ p) sb" using v4 by (simp split: if_splits)
  obtain pb where pb: "unb64 p = Some pb" using v4 ver by (cases "unb64 p") simp_all
  obtain claims where cl: "okClaims k pb = Some claims" "check_claims cfg t claims = Inr c"
    using v4 ver pb by (cases "okClaims k pb") simp_all
  note cc = check_claims_Inr [OF cl(2) assms(2)]
  show ?thesis
    unfolding id_token_ok_def using tk hb kid key sb ver pb cl(1) cc by blast
qed

lemma add_role_props: "set (add_role r rs) = insert r (set rs)" "distinct rs \<Longrightarrow> distinct (add_role r rs)"
  by (auto simp: add_role_def)

lemma fold_roles: "set (fold add_role rs acc) = set acc \<union> set rs" "distinct acc \<Longrightarrow> distinct (fold add_role rs acc)"
  by (induction rs arbitrary: acc) (auto simp: add_role_props)

definition granted :: "(string, string) gomap \<Rightarrow> string list \<Rightarrow> string list \<Rightarrow> string set" where
  "granted roleMap dflt groups = set dflt \<union> {r. \<exists>g \<in> set groups. map_of roleMap g = Some r}"

text \<open>The mapping grants the default roles and those of the known groups, the viewer role when there are none.\<close>

lemma MapRoles_exact:
  "distinct (MapRoles rm dflt gs) \<and>
   set (MapRoles rm dflt gs) = (if granted rm dflt gs = {} then {RoleViewer} else granted rm dflt gs)"
proof -
  let ?f = "\<lambda>g roles. case map_of rm g of Some r \<Rightarrow> add_role r roles | None \<Rightarrow> roles"
  have "set (fold ?f gs acc) = set acc \<union> {r. \<exists>g \<in> set gs. map_of rm g = Some r} \<and> (distinct acc \<longrightarrow> distinct (fold ?f gs acc))" for acc
    by (induction gs arbitrary: acc) (auto simp: add_role_props split: option.splits)
  from this [of "fold add_role dflt []"] fold_roles(1) [of dflt "[]"] fold_roles(2) [of "[]" dflt]
  have f: "set (fold ?f gs (fold add_role dflt [])) = granted rm dflt gs" "distinct (fold ?f gs (fold add_role dflt []))"
    by (auto simp: granted_def)
  then show ?thesis by (auto simp: MapRoles_def Let_def add_role_props simp flip: f(1))
qed

text \<open>
  What an issued session is: the account of the email in the tenant, active and with the given roles, and a token
  issued for exactly the principal of the answer.
\<close>

definition session_of :: "platform_env \<Rightarrow> time \<Rightarrow> tenant \<Rightarrow> string \<Rightarrow> string list \<Rightarrow> user_store \<Rightarrow> login_response \<Rightarrow> bool" where
  "session_of pe now t em roles us resp \<longleftrightarrow>
     (\<exists>a. GetByEmail (tnID t) em us = Inr a \<and> uStatus (usHeap us ! a) = UserActive \<and> uRoles (usHeap us ! a) = roles \<and>
        uID (usHeap us ! a) = lpUserID resp \<and> uTenantID (usHeap us ! a) = lpTenantID resp \<and> uEmail (usHeap us ! a) = lpEmail resp) \<and>
     emailKey (lpTenantID resp) (lpEmail resp) = emailKey (tnID t) em \<and> lpRoles resp = roles \<and>
     lpToken resp = Issue (aeJwt (peAuth pe)) (aeIssuer (peAuth pe)) now
       (NewPrincipal (lpUserID resp) (lpTenantID resp) (lpEmail resp) (lpRoles resp))"

lemma sso_session_of:
  assumes "sso_session pe x slug pr a s = (s', Reply c resp)" and "GetByEmail (tnID t) em (cnUsers s) = Inr a"
    and "uStatus (usHeap (cnUsers s) ! a) = UserActive" "uRoles (usHeap (cnUsers s) ! a) = roles"
    and "emailKey (uTenantID (usHeap (cnUsers s) ! a)) (uEmail (usHeap (cnUsers s) ! a)) = emailKey (tnID t) em"
  shows "session_of pe (xNow x 2) t em roles (cnUsers s') resp"
  using assms by (auto simp: sso_session_def session_of_def Let_def login_response_of_def principalOf_def NewPrincipal_def)

lemma ssoIssue_reply:
  assumes ok: "console_ok s" and r: "ssoIssue pe x slug em roles pr s = (s', Reply c resp)"
  shows "\<exists>t. GetBySlug slug (cnTenants s) = Inr t \<and> session_of pe (xNow x 2) t em roles (cnUsers s') resp"
proof (cases "GetBySlug slug (cnTenants s)")
  case (Inr t)
  have us: "users_ok (cnUsers s)" using ok by (simp add: console_ok_def)
  have "session_of pe (xNow x 2) t em roles (cnUsers s') resp"
  proof (cases "GetByEmail (tnID t) em (cnUsers s)")
    case (Inl e)
    let ?n = "new_user (tnID t) em em roles UserActive"
    obtain us res where c: "user_Create (peFresh pe) (xNow x 0) ?n (cnUsers s) = (us, res)" by fastforce
    with r Inr Inl obtain a where a: "res = Inr a" by (cases res) (simp_all add: ssoIssue_def)
    note mk = user_Create_Inr [OF c [unfolded a]]
    have v: "usHeap us ! a = created_user (peFresh pe) (xNow x 0) ?n" using mk(1,2) by simp
    have f: "uTenantID ?n = tnID t" "uEmail ?n = em" by (simp_all add: new_user_def)
    let ?s = "admin_audit x 1 ''auth:sso_provision'' ''info'' em (uID (usHeap us ! a)) (sso_details slug pr) (s\<lparr>cnUsers := us\<rparr>)"
    have "sso_session pe x slug pr a ?s = (s', Reply c resp)" using r Inr Inl c a by (simp add: ssoIssue_def)
    then show ?thesis
      by (rule sso_session_of) (use mk(3) v f in \<open>simp_all add: created_user_def new_user_def\<close>)
  next
    case e: (Inr a)
    then have em: "map_of (usByEmail (cnUsers s)) (emailKey (tnID t) em) = Some a" by (auto simp: GetByEmail_def split: option.splits)
    note u = users_okD(2) [OF us em]
    let ?f = "\<lambda>u. u\<lparr>uRoles := roles, uStatus := UserActive\<rparr>"
    let ?us = "fst (user_Update a (set_user a ?f (cnUsers s)))"
    have h: "usHeap ?us ! a = ?f (usHeap (cnUsers s) ! a)" "map_of (usByEmail ?us) (emailKey (tnID t) em) = Some a"
      using u em by (simp_all add: user_Update_def set_user_def Let_def)
    have "sso_session pe x slug pr a (s\<lparr>cnUsers := ?us\<rparr>) = (s', Reply c resp)" using r Inr e by (simp add: ssoIssue_def)
    then show ?thesis
      by (rule sso_session_of) (use h u in \<open>simp_all add: GetByEmail_def\<close>)
  qed
  with Inr show ?thesis by blast
qed (use r in \<open>simp add: ssoIssue_def\<close>)

lemma provider_Verify_Inr:
  assumes "provider_Verify quoted k fetch now tok p = (p1, Inr c)"
  shows "opConfig p1 = opConfig p \<and> (opKeys p1 = opKeys p \<or> fetch = Some (Inr (opKeys p1))) \<and>
    oidc_Verify k (opConfig p) (opKeys p1) now tok = Inr c"
  using assms by (auto simp: provider_Verify_def refreshKeys_def split: sum.splits if_splits option.splits)

text \<open>C16: What an OpenID Connect single sign-on proves. A session is issued only for a token that was signed, under RS256,
  with one of the provider's published keys, that names the configured issuer and client (a configuration without
  issuer accepts tokens that name none), is not outside the times it states and carries an email; the session is for
  the account of that email in the configured tenant, which then exists, is active and has exactly the default roles
  and those the token's groups map to, the viewer role if there are none; and the session token is the one issued for that
  account's user, tenant, email and roles, so that until it expires a request bearing it is resolved to
  exactly that principal. (A provider token that states no expiry passes at any time.)\<close>

theorem sso_session_authentic:
  assumes "handleSSOLogin quoted text_of k fetch pe x slug body (Some p) s = ((pv, s'), Reply c resp)"
    and ok: "console_ok s"
    and q: "q = NewPrincipal (lpUserID resp) (lpTenantID resp) (lpEmail resp) (lpRoles resp)"
  shows "(\<exists>tok oc p1 t. body = Some tok \<and> pv = Some p1 \<and> (opKeys p1 = opKeys p \<or> fetch = Some (Inr (opKeys p1))) \<and>
      id_token_ok k (opConfig p) (opKeys p1) (xNow x 4) tok oc \<and> GetBySlug slug (cnTenants s) = Inr t \<and>
      session_of pe (xNow x 2) t (oiEmail oc) (lpRoles resp) (cnUsers s') resp \<and>
      set (lpRoles resp) = (let gr = granted (ocRoleMap (opConfig p)) (ocDefaultRoles (opConfig p)) (oiGroups oc) in if gr = {} then {RoleViewer} else gr)) \<and>
    (\<forall>now us m. codec_ok (aeJwt (peAuth pe)) (claims_for (aeIssuer (peAuth pe)) (xNow x 2) q) \<and>
       unix_time now < unix_time (xNow x 2 + tiTTL (aeIssuer (peAuth pe))) \<longrightarrow>
       resolve (peAuth pe) now us \<lparr>rqMethod = m, rqAuthorization = ''Bearer '' @ lpToken resp, rqAPIKey = '''', rqToken = ''''\<rparr> = Done (Some q))"
proof -
  note h = assms(1) [unfolded handleSSOLogin_def option.case]
  obtain tok where tok: "body = Some tok" using h by (cases body) simp_all
  note h1 = h [unfolded tok option.case]
  have ne: "trim_space tok \<noteq> ''''" using h1 by (auto split: if_splits)
  obtain p1 v where v: "provider_Verify quoted k fetch (xNow x 4) tok p = (p1, v)" by fastforce
  note h2 = h1 [unfolded v if_not_P [OF ne] prod.case]
  obtain oc where oc: "v = Inr oc" using h2 by (cases v) simp_all
  note h3 = h2 [unfolded oc sum.case]
  have em: "oiEmail oc \<noteq> ''''" using h3 by (auto split: if_splits)
  note pr = provider_Verify_Inr [OF v [unfolded oc]]
  let ?roles = "MapRoles (ocRoleMap (opConfig p)) (ocDefaultRoles (opConfig p)) (oiGroups oc)"
  have i: "ssoIssue pe x slug (oiEmail oc) ?roles ''oidc'' s = (s', Reply c resp)"
    and pv: "pv = Some p1" using h3 [unfolded if_not_P [OF em]] pr by (auto split: prod.splits)
  from ssoIssue_reply [OF ok i] obtain t where t: "GetBySlug slug (cnTenants s) = Inr t"
    "session_of pe (xNow x 2) t (oiEmail oc) ?roles (cnUsers s') resp" by blast
  then have rl: "lpRoles resp = ?roles" and issued: "lpToken resp = Issue (aeJwt (peAuth pe)) (aeIssuer (peAuth pe)) (xNow x 2) q"
    by (simp_all add: session_of_def q)
  have "id_token_ok k (opConfig p) (opKeys p1) (xNow x 4) tok oc"
    by (rule oidc_Verify_Inr [OF conjunct2 [OF conjunct2 [OF pr]] em])
  with tok pv pr t rl conjunct2 [OF MapRoles_exact, of "ocRoleMap (opConfig p)" "ocDefaultRoles (opConfig p)" "oiGroups oc"]
  have 1: "\<exists>tok oc p1 t. body = Some tok \<and> pv = Some p1 \<and> (opKeys p1 = opKeys p \<or> fetch = Some (Inr (opKeys p1))) \<and>
      id_token_ok k (opConfig p) (opKeys p1) (xNow x 4) tok oc \<and> GetBySlug slug (cnTenants s) = Inr t \<and>
      session_of pe (xNow x 2) t (oiEmail oc) (lpRoles resp) (cnUsers s') resp \<and>
      set (lpRoles resp) = (let gr = granted (ocRoleMap (opConfig p)) (ocDefaultRoles (opConfig p)) (oiGroups oc) in if gr = {} then {RoleViewer} else gr)"
    unfolding Let_def by (intro exI [of _ tok] exI [of _ oc] exI [of _ p1] exI [of _ t]) simp
  have p: "principal_ok q" by (simp add: q)
  have "resolve (peAuth pe) now us \<lparr>rqMethod = m, rqAuthorization = ''Bearer '' @ lpToken resp, rqAPIKey = '''', rqToken = ''''\<rparr> = Done (Some q)"
    if "codec_ok (aeJwt (peAuth pe)) (claims_for (aeIssuer (peAuth pe)) (xNow x 2) q)"
      and "unix_time now < unix_time (xNow x 2 + tiTTL (aeIssuer (peAuth pe)))" for now us m
    using resolve_issued [OF that(1) p that(2)] issued by simp
  with 1 show ?thesis by blast
qed

definition demo_oidc :: oidc_codec where
  "demo_oidc = \<lparr>okHeader = (\<lambda>_. Some (''RS256'', ''k1'')),
     okClaims = (\<lambda>_. Some [(''iss'', JStr ''https://idp''), (''aud'', JArr [JStr ''ns'']), (''sub'', JStr ''7''), (''email'', JStr ''ann@acme''),
        (''groups'', JArr [JStr ''soc''])]), okVerify = (\<lambda>key input sg. sg = ''~'')\<rparr>"

definition demo_oidc_provider :: oidc_provider where
  "demo_oidc_provider = \<lparr>opConfig = \<lparr>ocIssuer = ''https://idp'', ocClientID = ''ns'', ocGroupsClaim = ''groups'', ocRoleMap = [(''soc'', RoleAnalyst)], ocDefaultRoles = []\<rparr>,
     opKeys = [(''k1'', \<lparr>rkN = 1, rkE = 3\<rparr>)], opFetchedAt = 0, opMinRefresh = minute\<rparr>"

theorem sso_session_authentic_witness:
  "\<exists>pv s' resp. handleSSOLogin (\<lambda>a. a) (\<lambda>_. '''') demo_oidc None demo_platform demo_env ''acme'' (Some ''aa.aa.fg'') (Some demo_oidc_provider) demo_console =
     ((pv, s'), Reply 200 resp) \<and> set (lpRoles resp) = {RoleAnalyst}"
proof -
  let ?r = "handleSSOLogin (\<lambda>a. a) (\<lambda>_. '''') demo_oidc None demo_platform demo_env ''acme'' (Some ''aa.aa.fg'') (Some demo_oidc_provider) demo_console"
  have v: "provider_Verify (\<lambda>a. a) demo_oidc None (xNow demo_env 4) ''aa.aa.fg'' demo_oidc_provider =
      (demo_oidc_provider, Inr \<lparr>oiSubject = ''7'', oiEmail = ''ann@acme'', oiGroups = [''soc'']\<rparr>)" "trim_space ''aa.aa.fg'' \<noteq> ''''"
    by code_simp+
  have g: "GetBySlug ''acme'' (cnTenants demo_console) = Inr \<lparr>tnID = ''t1'', tnSlug = ''acme'', tnName = ''Acme'', tnPlan = ''free'', tnStatus = ''active'', tnCreatedAt = 1\<rparr>"
    "GetByEmail ''t1'' ''ann@acme'' (cnUsers demo_console) = Inr 0" by code_simp+
  obtain pv s' resp where r: "?r = ((pv, s'), Reply 200 resp)"
    using v g by (auto simp: handleSSOLogin_def ssoIssue_def sso_session_def Let_def)
  from conjunct1 [OF sso_session_authentic [OF r demo_console_ok(1) refl]] obtain oc where
    "set (lpRoles resp) = (let gr = granted (ocRoleMap (opConfig demo_oidc_provider)) (ocDefaultRoles (opConfig demo_oidc_provider)) (oiGroups oc) in if gr = {} then {RoleViewer} else gr)"
    and "id_token_ok demo_oidc (opConfig demo_oidc_provider) (opKeys demo_oidc_provider) (xNow demo_env 4) ''aa.aa.fg'' oc"
    by auto
  then have "oiGroups oc = [''soc'']"
    by (auto simp: id_token_ok_def demo_oidc_def stringSlice_def str_claim_def groups_claim_def demo_oidc_provider_def mget_def)
  with \<open>set (lpRoles resp) = _\<close> have "set (lpRoles resp) = {RoleAnalyst}"
    by (auto simp: granted_def demo_oidc_provider_def)
  with r show ?thesis by blast
qed

end
