(* ===== verification/Routes.thy ===== *)
theory Routes
  imports Console_Claims Fleet
begin

text \<open>
  The surface of the server: the routes \<^verbatim>\<open>NewServer\<close> and \<^verbatim>\<open>EnablePlatform\<close> register
  (\<^verbatim>\<open>server.go\<close>, \<^verbatim>\<open>auth_api.go\<close>, \<^verbatim>\<open>scim_api.go\<close>, \<^verbatim>\<open>fleet_api.go\<close> of \<^verbatim>\<open>src/pkg/web\<close>) with the guard in front of
  each handler, and the handlers of the fleet API.  A pattern is a method (empty for any) and its
  segments; \<^verbatim>\<open>ServeMux\<close> prefers the more specific pattern, which for this table means the only one that
  matches, and the dashboard's catch-all otherwise.  Paths are the cleaned ones.
\<close>

datatype seg = Lit string | Wild

datatype guard =
    GOpen | GOnlyGET | GData string | GMutation string | GRequire string | GSse | GScim | GFleet

type_synonym route = "string \<times> seg list \<times> guard"

definition server_routes :: "route list" where
  "server_routes =
     [
      ('''', [Lit ''api'', Lit ''health''], GOnlyGET),
      ('''', [Lit ''healthz''], GOnlyGET),
      ('''', [Lit ''readyz''], GOnlyGET),
      ('''', [Lit ''api'', Lit ''status''], GOnlyGET),
      ('''', [Lit ''api'', Lit ''audit''], GData PermViewAudit),
      ('''', [Lit ''api'', Lit ''audit'', Lit ''verify''], GData PermViewAudit),
      ('''', [Lit ''api'', Lit ''audit'', Lit ''export''], GData PermExportAudit),
      ('''', [Lit ''api'', Lit ''audit'', Lit ''durable''], GData PermViewAudit),
      ('''', [Lit ''api'', Lit ''export'', Lit ''siem''], GData PermExportAudit),
      ('''', [Lit ''api'', Lit ''report''], GData PermViewAudit),
      ('''', [Lit ''api'', Lit ''mcp'', Lit ''stats''], GData PermViewEvents),
      ('''', [Lit ''api'', Lit ''mcp'', Lit ''events''], GData PermViewEvents),
      ('''', [Lit ''api'', Lit ''correlate'', Lit ''findings''], GData PermViewEvents),
      ('''', [Lit ''api'', Lit ''events''], GData PermViewEvents),
      ('''', [Lit ''api'', Lit ''detections''], GData PermViewEvents),
      ('''', [Lit ''api'', Lit ''detections'', Wild, Lit ''toggle''], GMutation PermManagePolicy),
      ('''', [Lit ''api'', Lit ''detections'', Lit ''validate''], GData PermViewEvents),
      ('''', [Lit ''api'', Lit ''detections'', Lit ''coverage''], GData PermViewEvents),
      ('''', [Lit ''api'', Lit ''kb''], GData PermViewEvents),
      ('''', [Lit ''api'', Lit ''network'', Lit ''blocklist''], GData PermViewEvents),
      ('''', [Lit ''api'', Lit ''detections'', Lit ''learning''], GMutation PermManagePolicy),
      ('''', [Lit ''api'', Lit ''breaker''], GMutation PermManagePolicy),
      ('''', [Lit ''api'', Lit ''selfprotect''], GData PermViewEvents),
      ('''', [Lit ''api'', Lit ''suppressions''], GData PermViewEvents),
      ('''', [Lit ''api'', Lit ''suppressions'', Lit ''create''], GMutation PermManagePolicy),
      ('''', [Lit ''api'', Lit ''suppressions'', Wild, Lit ''delete''], GMutation PermManagePolicy),
      ('''', [Lit ''api'', Lit ''detections'', Lit ''create''], GMutation PermManagePolicy),
      ('''', [Lit ''api'', Lit ''detections'', Wild, Lit ''update''], GMutation PermManagePolicy),
      ('''', [Lit ''api'', Lit ''detections'', Wild, Lit ''delete''], GMutation PermManagePolicy),
      ('''', [Lit ''api'', Lit ''search''], GData PermViewAudit),
      ('''', [Lit ''api'', Lit ''inventory''], GData PermViewInventory),
      ('''', [Lit ''api'', Lit ''inventory'', Lit ''rescan''], GMutation PermManagePolicy),
      ('''', [Lit ''api'', Lit ''inventory'', Lit ''paths''], GMutation PermManagePolicy),
      ('''', [Lit ''api'', Lit ''response''], GMutation PermManageSystem),
      ('''', [Lit ''api'', Lit ''config''], GData PermViewEvents),
      ('''', [Lit ''api'', Lit ''trends''], GData PermViewEvents),
      ('''', [Lit ''api'', Lit ''notify'', Lit ''test''], GMutation PermManageAlerts),
      ('''', [Lit ''api'', Lit ''notify'', Lit ''config''], GRequire PermManageAlerts),
      ('''', [Lit ''api'', Lit ''cases''], GData PermViewEvents),
      ('''', [Lit ''api'', Lit ''cases'', Lit ''create''], GMutation PermManageAlerts),
      ('''', [Lit ''api'', Lit ''cases'', Wild, Lit ''status''], GMutation PermManageAlerts),
      ('''', [Lit ''api'', Lit ''cases'', Wild, Lit ''assign''], GMutation PermManageAlerts),
      ('''', [Lit ''api'', Lit ''cases'', Wild, Lit ''note''], GMutation PermManageAlerts),
      ('''', [Lit ''api'', Lit ''cases'', Wild, Lit ''note'', Wild, Lit ''edit''], GMutation PermManageAlerts),
      ('''', [Lit ''api'', Lit ''cases'', Wild, Lit ''note'', Wild, Lit ''delete''], GMutation PermManageAlerts),
      ('''', [Lit ''api'', Lit ''cases'', Wild, Lit ''note'', Wild, Lit ''restore''], GMutation PermManageAlerts),
      ('''', [Lit ''api'', Lit ''events'', Lit ''stream''], GSse),
      ('''', [Lit ''api'', Lit ''openapi.json''], GOnlyGET),
      ('''', [Lit ''docs''], GOnlyGET)]"

definition platform_routes :: "route list" where
  "platform_routes =
     [
      (''POST'', [Lit ''api'', Lit ''auth'', Lit ''login''], GOpen),
      (''POST'', [Lit ''api'', Lit ''auth'', Lit ''sso'', Lit ''oidc''], GOpen),
      (''POST'', [Lit ''api'', Lit ''auth'', Lit ''sso'', Lit ''saml'', Lit ''acs''], GOpen),
      (''GET'', [Lit ''api'', Lit ''auth'', Lit ''me''], GRequire PermViewEvents),
      (''GET'', [Lit ''api'', Lit ''tenants''], GRequire PermManageSystem),
      (''POST'', [Lit ''api'', Lit ''tenants''], GRequire PermManageSystem),
      (''GET'', [Lit ''api'', Lit ''tenants'', Wild, Lit ''users''], GRequire PermManageUsers),
      (''POST'', [Lit ''api'', Lit ''tenants'', Wild, Lit ''users''], GRequire PermManageUsers),
      (''POST'', [Lit ''api'', Lit ''users'', Wild, Lit ''apikeys''], GRequire PermManageUsers)]"

definition scim_routes :: "route list" where
  "scim_routes =
     [
      (''POST'', [Lit ''scim'', Lit ''v2'', Lit ''Users''], GScim),
      (''GET'', [Lit ''scim'', Lit ''v2'', Lit ''Users''], GScim),
      (''GET'', [Lit ''scim'', Lit ''v2'', Lit ''Users'', Wild], GScim),
      (''PATCH'', [Lit ''scim'', Lit ''v2'', Lit ''Users'', Wild], GScim),
      (''PUT'', [Lit ''scim'', Lit ''v2'', Lit ''Users'', Wild], GScim),
      (''DELETE'', [Lit ''scim'', Lit ''v2'', Lit ''Users'', Wild], GScim)]"

definition fleet_routes :: "route list" where
  "fleet_routes =
     [
      (''GET'', [Lit ''api'', Lit ''fleet''], GData PermViewEvents),
      (''POST'', [Lit ''api'', Lit ''fleet'', Lit ''enroll''], GFleet),
      (''POST'', [Lit ''api'', Lit ''fleet'', Wild, Lit ''heartbeat''], GFleet),
      (''POST'', [Lit ''api'', Lit ''fleet'', Wild, Lit ''remove''], GMutation PermManageSystem),
      (''POST'', [Lit ''api'', Lit ''fleet'', Lit ''desired''], GMutation PermManagePolicy),
      (''POST'', [Lit ''api'', Lit ''fleet'', Lit ''rollout''], GMutation PermManagePolicy),
      (''POST'', [Lit ''api'', Lit ''fleet'', Lit ''rollout'', Lit ''promote''], GMutation PermManagePolicy),
      (''POST'', [Lit ''api'', Lit ''fleet'', Lit ''rollout'', Lit ''abort''], GMutation PermManagePolicy)]"

definition routes :: "route list" where
  "routes = server_routes @ platform_routes @ scim_routes @ fleet_routes"

fun seg_matches :: "seg \<Rightarrow> string \<Rightarrow> bool" where
  "seg_matches (Lit l) s = (l = s)"
| "seg_matches Wild s = True"

definition method_matches :: "string \<Rightarrow> string \<Rightarrow> bool" where
  "method_matches pm m \<longleftrightarrow> pm = '''' \<or> pm = m \<or> pm = ''GET'' \<and> m = ''HEAD''"

definition route_matches :: "string \<Rightarrow> string list \<Rightarrow> route \<Rightarrow> bool" where
  "route_matches m path rt =
     (case rt of (pm, segs, gd) \<Rightarrow> method_matches pm m \<and> list_all2 seg_matches segs path)"

definition dispatch :: "string \<Rightarrow> string list \<Rightarrow> guard" where
  "dispatch m path = (case find (route_matches m path) routes of None \<Rightarrow> GOpen | Some (pm, segs, gd) \<Rightarrow> gd)"

definition fleetAuth :: "string \<Rightarrow> bool \<Rightarrow> http_request \<Rightarrow> int option" where
  "fleetAuth token configured r =
     (if \<not> configured \<or> token = '''' then Some 503
      else if TrimPrefix (rqAuthorization r) ''Bearer '' \<noteq> token then Some 401
      else None)"

definition onlyGET :: "http_request \<Rightarrow> int option" where
  "onlyGET r = (if rqMethod r \<noteq> ''GET'' then Some 405 else None)"

text \<open>\<open>Inl\<close> is the status of a refusal; \<open>Inr\<close> runs the handler for the principal, \<open>None\<close> if the guard sets none.\<close>

abbreviation refuse_or_run :: "int option \<Rightarrow> (int + principal option) outcome" where
  "refuse_or_run c \<equiv> Done (case c of Some code' \<Rightarrow> Inl code' | None \<Rightarrow> Inr None)"

fun admit :: "platform_env \<Rightarrow> string \<Rightarrow> time \<Rightarrow> user_store \<Rightarrow> guard \<Rightarrow> http_request \<Rightarrow> (int + principal option) outcome" where
  "admit pe ft now us GOpen r = refuse_or_run None"
| "admit pe ft now us GOnlyGET r = refuse_or_run (onlyGET r)"
| "admit pe ft now us (GData perm) r = dataGuard True (peAuth pe) now us perm r"
| "admit pe ft now us (GMutation perm) r = mutationGuard True (peAuth pe) now us perm r"
| "admit pe ft now us (GRequire perm) r =
     (case Require (peAuth pe) now us perm None r of Panic \<Rightarrow> Panic | Done (Inl c) \<Rightarrow> Done (Inl c) | Done (Inr p) \<Rightarrow> Done (Inr (Some p)))"
| "admit pe ft now us GSse r = refuse_or_run (if sse_authed True (peAuth pe) now r then None else Some 401)"
| "admit pe ft now us GScim r = refuse_or_run (scimAuth pe r)"
| "admit pe ft now us GFleet r = refuse_or_run (fleetAuth ft True r)"

subsection \<open>Fleet handlers\<close>

text \<open>The registry is \<open>None\<close> when the fleet control plane is off.\<close>

type_synonym 's fleet_server = "registry option \<times> 's agent"

definition handleFleetEnroll ::
  "'s agent_env \<Rightarrow> (string \<times> agent_info) option \<Rightarrow> registry \<Rightarrow> 's agent \<Rightarrow> (registry \<times> 's agent) \<times> string resp" where
  "handleFleetEnroll x body reg g =
     (case body of
        None \<Rightarrow> ((reg, g), Refused 400)
      | Some (i0, info) \<Rightarrow>
          (case Enroll (xID x 0) (xNow x 0) i0 info reg of
             (reg1, Inl e) \<Rightarrow> ((reg1, g), Refused 503)
           | (reg1, Inr i) \<Rightarrow>
               ((reg1, recordAdminAudit x 1 ''fleet:agent_enrolled'' ''info'' (aiHostname info) i
                   [(''version'', DStr (aiVersion info)), (''kernel'', DStr (aiKernel info))] g), Reply 201 i)))"

definition handleFleetHeartbeat ::
  "'s agent_env \<Rightarrow> string \<Rightarrow> agent_info option \<Rightarrow> registry \<Rightarrow> registry \<times> desired_state resp" where
  "handleFleetHeartbeat x i body reg =
     (case body of
        None \<Rightarrow> (reg, Refused 400)
      | Some info \<Rightarrow>
          (case Heartbeat (xNow x 0) i info reg of
             (reg1, Some e) \<Rightarrow> (reg1, Refused 400)
           | (reg1, None) \<Rightarrow> (reg1, Reply 200 (DesiredForAgent i reg1))))"

definition handleFleetRollout ::
  "'s agent_env \<Rightarrow> principal option \<Rightarrow> (desired_state \<times> int) option \<Rightarrow> 's fleet_server \<Rightarrow> 's fleet_server \<times> rollout resp" where
  "handleFleetRollout x p body s =
     (case s of
        (None, g) \<Rightarrow> ((None, g), Refused 503)
      | (Some reg, g) \<Rightarrow>
          (case body of
             None \<Rightarrow> ((Some reg, g), Refused 400)
           | Some (d, percent) \<Rightarrow>
               (case StartRollout d percent reg of
                  (reg1, ro) \<Rightarrow>
                    ((Some reg1, audit_as x 0 p ''fleet:rollout_started'' ''medium''
                        [(''version'', DInt (dsVersion (roDesired ro))), (''percent'', DInt (roPercent ro))] g), Reply 200 ro))))"

text \<open>A body that does not decode leaves the percentage zero.\<close>

definition handleFleetRolloutPromote ::
  "'s agent_env \<Rightarrow> principal option \<Rightarrow> int option \<Rightarrow> 's fleet_server \<Rightarrow> 's fleet_server \<times> rollout resp" where
  "handleFleetRolloutPromote x p body s =
     (case s of
        (None, g) \<Rightarrow> ((None, g), Refused 503)
      | (Some reg, g) \<Rightarrow>
          (case PromoteRollout (case body of None \<Rightarrow> 0 | Some n \<Rightarrow> n) reg of
             (reg1, None) \<Rightarrow> ((Some reg1, g), Refused 400)
           | (reg1, Some ro) \<Rightarrow>
               ((Some reg1, audit_as x 0 p ''fleet:rollout_promoted'' ''medium'' [(''percent'', DInt (roPercent ro))] g), Reply 200 ro)))"

definition handleFleetRolloutAbort ::
  "'s agent_env \<Rightarrow> principal option \<Rightarrow> 's fleet_server \<Rightarrow> 's fleet_server \<times> unit resp" where
  "handleFleetRolloutAbort x p s =
     (case s of
        (None, g) \<Rightarrow> ((None, g), Refused 503)
      | (Some reg, g) \<Rightarrow>
          (case AbortRollout reg of
             (reg1, False) \<Rightarrow> ((Some reg1, g), Refused 400)
           | (reg1, True) \<Rightarrow> ((Some reg1, audit_as x 0 p ''fleet:rollout_aborted'' ''medium'' [] g), Reply 200 ())))"

definition handleFleetDesired ::
  "'s agent_env \<Rightarrow> principal option \<Rightarrow> desired_state option \<Rightarrow> 's fleet_server \<Rightarrow> 's fleet_server \<times> desired_state resp" where
  "handleFleetDesired x p body s =
     (case s of
        (None, g) \<Rightarrow> ((None, g), Refused 503)
      | (Some reg, g) \<Rightarrow>
          (case body of
             None \<Rightarrow> ((Some reg, g), Refused 400)
           | Some d \<Rightarrow>
               (case SetDesired d reg of
                  (reg1, applied) \<Rightarrow>
                    ((Some reg1, audit_as x 0 p ''fleet:desired_set'' ''medium'' [(''version'', DInt (dsVersion applied))] g), Reply 200 applied))))"

definition handleFleetRemove ::
  "'s agent_env \<Rightarrow> principal option \<Rightarrow> string \<Rightarrow> 's fleet_server \<Rightarrow> 's fleet_server \<times> string resp" where
  "handleFleetRemove x p i s =
     (case s of
        (None, g) \<Rightarrow> ((None, g), Refused 503)
      | (Some reg, g) \<Rightarrow>
          (case fleet_Remove i reg of
             (reg1, False) \<Rightarrow> ((Some reg1, g), Refused 404)
           | (reg1, True) \<Rightarrow>
               ((Some reg1, audit_as x 0 p ''fleet:agent_removed'' ''medium'' [(''agent_id'', DStr i)] g), Reply 200 i)))"

subsection \<open>The surface\<close>

text \<open>No request matches two patterns of the table, so the order of registration does not matter.\<close>

fun seg_overlap :: "seg \<Rightarrow> seg \<Rightarrow> bool" where
  "seg_overlap (Lit a) (Lit b) = (a = b)"
| "seg_overlap _ _ = True"

definition route_overlap :: "route \<Rightarrow> route \<Rightarrow> bool" where
  "route_overlap a b =
     (case (a, b) of ((m, s, _), (n, t, _)) \<Rightarrow> (m = '''' \<or> n = '''' \<or> m = n) \<and> list_all2 seg_overlap s t)"

fun pairwise_apart :: "route list \<Rightarrow> bool" where
  "pairwise_apart [] = True"
| "pairwise_apart (r # rs) = (list_all (\<lambda>s. \<not> route_overlap r s) rs \<and> pairwise_apart rs)"

lemma routes_apart: "pairwise_apart routes"
  by code_simp

text \<open>The routes anyone may reach, besides the dashboard's pages.\<close>

definition open_routes :: "(string \<times> seg list) list" where
  "open_routes =
     [('''', [Lit ''api'', Lit ''health'']), ('''', [Lit ''healthz'']), ('''', [Lit ''readyz'']), ('''', [Lit ''api'', Lit ''status'']),
      ('''', [Lit ''api'', Lit ''openapi.json'']), ('''', [Lit ''docs'']),
      (''POST'', [Lit ''api'', Lit ''auth'', Lit ''login'']), (''POST'', [Lit ''api'', Lit ''auth'', Lit ''sso'', Lit ''oidc'']),
      (''POST'', [Lit ''api'', Lit ''auth'', Lit ''sso'', Lit ''saml'', Lit ''acs''])]"

definition unguarded :: "guard \<Rightarrow> bool" where
  "unguarded gd \<longleftrightarrow> gd = GOpen \<or> gd = GOnlyGET"

lemma open_routes_exact: "map (\<lambda>(m, s, _). (m, s)) (filter (\<lambda>(m, s, gd). unguarded gd) routes) = open_routes"
  by code_simp

definition needs :: "guard \<Rightarrow> string \<Rightarrow> bool" where
  "needs gd perm \<longleftrightarrow> gd = GData perm \<or> gd = GMutation perm \<or> gd = GRequire perm"

lemma dispatch_unguarded:
  assumes "unguarded (dispatch m path)"
  shows "find (route_matches m path) routes = None \<or>
    (\<exists>(pm, segs) \<in> set open_routes. method_matches pm m \<and> list_all2 seg_matches segs path)"
proof (cases "find (route_matches m path) routes")
  case (Some rt)
  obtain pm segs gd where rt: "rt = (pm, segs, gd)" by (metis prod_cases3)
  with Some assms have g: "unguarded gd" by (simp add: dispatch_def)
  from Some rt have mem: "(pm, segs, gd) \<in> set routes" "route_matches m path (pm, segs, gd)"
    by (auto simp: find_Some_iff)
  have "(pm, segs) \<in> set (map (\<lambda>(m, s, _). (m, s)) (filter (\<lambda>(m, s, gd). unguarded gd) routes))"
    using mem(1) g by (auto intro!: image_eqI [of _ _ "(pm, segs, gd)"])
  then have "(pm, segs) \<in> set open_routes" by (simp only: open_routes_exact)
  with mem(2) show ?thesis by (auto simp: route_matches_def)
qed simp

lemma admit_perm:
  assumes "needs gd perm" and "admit pe ft now us gd r = Done (Inr q)"
  shows "\<exists>p. q = Some p \<and> Can perm (Some p) \<and> authentic (peAuth pe) now us r p"
  using assms method_guard_mediates Require_mediates
  by (fastforce simp: needs_def dataGuard_def mutationGuard_def split: outcome.splits sum.splits)

text \<open>C13: The open surface of the server. With the control plane on, a request to any path, with any method and
  headers, gets an answer (no guard panics), and a handler runs for it in one of these cases only: the
  route requires a permission and the request carries an authentic credential of a principal that holds
  it; it is one of the nine open routes (liveness, status, documentation, the three logins); no route matches and it gets a
  page of the dashboard; it presents the non-empty token shared with the provisioning system or with the fleet's
  agents, for their routes; or it asks for the event stream with a session token that verifies or with any
  authorization header at all. The last case is real: the event stream runs for every request whose authorization header
  is not empty, whatever it says.\<close>

theorem open_surface:
  assumes "users_ok us"
  shows "\<exists>v. admit pe ft now us (dispatch (rqMethod r) path) r = Done v \<and>
    (\<forall>q. v = Inr q \<longrightarrow>
       (\<exists>p perm. q = Some p \<and> needs (dispatch (rqMethod r) path) perm \<and> Can perm (Some p) \<and> authentic (peAuth pe) now us r p) \<or>
       find (route_matches (rqMethod r) path) routes = None \<or>
       (\<exists>(pm, segs) \<in> set open_routes. method_matches pm (rqMethod r) \<and> list_all2 seg_matches segs path) \<or>
       (\<exists>tok. tok \<noteq> '''' \<and> TrimPrefix (rqAuthorization r) ''Bearer '' = tok \<and>
          (tok = peScimToken pe \<and> dispatch (rqMethod r) path = GScim \<or> tok = ft \<and> dispatch (rqMethod r) path = GFleet)) \<or>
       dispatch (rqMethod r) path = GSse \<and>
         (rqAuthorization r \<noteq> '''' \<or>
          rqToken r \<noteq> '''' \<and> (\<exists>c. token_Verify (aeJwt (peAuth pe)) (aeIssuer (peAuth pe)) now (rqToken r) = Inr c))) \<and>
    (dispatch (rqMethod r) path = GSse \<and> rqAuthorization r \<noteq> '''' \<longrightarrow> v = Inr None)"
proof -
  let ?g = "dispatch (rqMethod r) path"
  have req: "\<exists>v. Require (peAuth pe) now us perm None r = Done v" for perm by (rule Require_returns [OF assms])
  have "admit pe ft now us gd r \<noteq> Panic" for gd
  proof (cases gd)
    case (GData perm) then show ?thesis using req [of perm] by (auto simp: dataGuard_def method_guard_def split: sum.splits)
  next
    case (GMutation perm) then show ?thesis using req [of perm] by (auto simp: mutationGuard_def method_guard_def split: sum.splits)
  next
    case (GRequire perm) then show ?thesis using req [of perm] by (auto split: sum.splits)
  qed simp_all
  then obtain v where v: "admit pe ft now us ?g r = Done v" by (metis outcome.exhaust)
  show ?thesis
  proof (intro exI [of _ v] conjI v allI impI)
    show "v = Inr None" if "?g = GSse \<and> rqAuthorization r \<noteq> ''''"
      using v that by (auto simp: sse_authed_def)
    fix q assume q: "v = Inr q"
    show "(\<exists>p perm. q = Some p \<and> needs ?g perm \<and> Can perm (Some p) \<and> authentic (peAuth pe) now us r p) \<or>
       find (route_matches (rqMethod r) path) routes = None \<or>
       (\<exists>(pm, segs) \<in> set open_routes. method_matches pm (rqMethod r) \<and> list_all2 seg_matches segs path) \<or>
       (\<exists>tok. tok \<noteq> '''' \<and> TrimPrefix (rqAuthorization r) ''Bearer '' = tok \<and>
          (tok = peScimToken pe \<and> ?g = GScim \<or> tok = ft \<and> ?g = GFleet)) \<or>
       ?g = GSse \<and> (rqAuthorization r \<noteq> '''' \<or>
          rqToken r \<noteq> '''' \<and> (\<exists>c. token_Verify (aeJwt (peAuth pe)) (aeIssuer (peAuth pe)) now (rqToken r) = Inr c))"
    proof (cases "(\<exists>perm. needs ?g perm) \<or> unguarded ?g")
      case True
      then show ?thesis using admit_perm [OF _ v [unfolded q]] dispatch_unguarded [of "rqMethod r" path] by blast
    next
      case False
      then have "?g = GScim \<or> ?g = GFleet \<or> ?g = GSse" by (cases ?g) (auto simp: needs_def unguarded_def)
      then show ?thesis using v q by (auto simp: scimAuth_def fleetAuth_def sse_authed_def split: if_splits sum.splits)
    qed
  qed
qed

theorem open_surface_witness:
  "admit demo_platform ''fleet'' 0 demo_users (dispatch ''POST'' [''api'', ''response'']) key_request = Done (Inl 403) \<and>
   admit demo_platform ''fleet'' 0 demo_users (dispatch ''POST'' [''api'', ''breaker'']) key_request = Done (Inr (Some (principalOf demo_user))) \<and>
   Can PermManagePolicy (Some (principalOf demo_user))"
proof -
  have d: "admit demo_platform ''fleet'' 0 demo_users (dispatch ''POST'' [''api'', ''response'']) key_request = Done (Inl 403)"
    "admit demo_platform ''fleet'' 0 demo_users (dispatch ''POST'' [''api'', ''breaker'']) key_request = Done (Inr (Some (principalOf demo_user)))"
    by code_simp+
  have m: "rqMethod key_request = ''POST''" by (simp add: key_request_def)
  have n: "dispatch ''POST'' [''api'', ''breaker''] = GMutation PermManagePolicy" "\<not> unguarded (GMutation PermManagePolicy)" by code_simp+
  have f: "find (route_matches ''POST'' [''api'', ''breaker'']) routes \<noteq> None"
    "\<not> (\<exists>(pm, segs) \<in> set open_routes. method_matches pm ''POST'' \<and> list_all2 seg_matches segs [''api'', ''breaker''])" by code_simp+
  note o = open_surface [OF demo_console_ok(2), of demo_platform "''fleet''" 0 key_request "[''api'', ''breaker'']", unfolded m d(2), simplified outcome.inject]
  have "\<exists>p perm. Some (principalOf demo_user) = Some p \<and> needs (GMutation PermManagePolicy) perm \<and> Can perm (Some p)"
    using o f n(1) by simp blast
  then have "Can PermManagePolicy (Some (principalOf demo_user))" by (auto simp: needs_def)
  with d show ?thesis by blast
qed

end
