(* ===== verification/SelfProtect.thy ===== *)
theory SelfProtect
  imports Inventory Agent_Claims
begin

text \<open>
  The agent's defence of its own files: the integrity baseline of
  \<^verbatim>\<open>src/pkg/selfprotect/selfprotect.go\<close> and the loop of \<^verbatim>\<open>runSelfProtect\<close> (\<^verbatim>\<open>src/pkg/agent/controller.go\<close>)
  that turns each deviation into a critical finding.  The theorems follow a change of a protected file
  from the verification to the audit log, the case store and the notification channels.
\<close>

subsection \<open>The guard\<close>

record file_state =
  ftPath :: string
  ftHash :: string
  ftSize :: int
  ftExists :: bool

record tamper =
  tpPath :: string
  tpReason :: string
  tpOldHash :: string
  tpNewHash :: string

record self_guard =
  sgBaseline :: "(string, file_state) gomap"
  sgOrder :: "string list"

definition selfprotect_New :: self_guard where
  "selfprotect_New = \<lparr>sgBaseline = [], sgOrder = []\<rparr>"

definition statOf :: "sha \<Rightarrow> host_files \<Rightarrow> string \<Rightarrow> file_state" where
  "statOf sha fs path =
     (let f = \<lparr>ftPath = path, ftHash = '''', ftSize = 0, ftExists = False\<rparr> in
      case fsStat fs path of
        None \<Rightarrow> f
      | Some n \<Rightarrow>
          let f1 = f\<lparr>ftExists := True, ftSize := n\<rparr> in
          case hashFile sha fs path of None \<Rightarrow> f1 | Some h \<Rightarrow> f1\<lparr>ftHash := h\<rparr>)"

fun Protect :: "sha \<Rightarrow> host_files \<Rightarrow> string list \<Rightarrow> self_guard \<Rightarrow> self_guard" where
  "Protect sha fs [] g = g"
| "Protect sha fs (p # ps) g =
     (if p = '''' then Protect sha fs ps g
      else
        let g1 = (if map_of (sgBaseline g) p = None then g\<lparr>sgOrder := sgOrder g @ [p]\<rparr> else g)
        in Protect sha fs ps (g1\<lparr>sgBaseline := mput p (statOf sha fs p) (sgBaseline g1)\<rparr>))"

abbreviation no_file :: file_state where
  "no_file \<equiv> \<lparr>ftPath = '''', ftHash = '''', ftSize = 0, ftExists = False\<rparr>"

definition check_file :: "file_state \<Rightarrow> file_state \<Rightarrow> string \<Rightarrow> tamper option" where
  "check_file base cur p =
     (if ftExists base \<and> \<not> ftExists cur then Some \<lparr>tpPath = p, tpReason = ''removed'', tpOldHash = ftHash base, tpNewHash = ''''\<rparr>
      else if ftExists base \<and> ftHash cur = ''''
      then Some \<lparr>tpPath = p, tpReason = ''unreadable'', tpOldHash = ftHash base, tpNewHash = ''''\<rparr>
      else if ftExists base \<and> ftHash cur \<noteq> ftHash base
      then Some \<lparr>tpPath = p, tpReason = ''modified'', tpOldHash = ftHash base, tpNewHash = ftHash cur\<rparr>
      else None)"

definition guard_Verify :: "sha \<Rightarrow> host_files \<Rightarrow> self_guard \<Rightarrow> tamper list" where
  "guard_Verify sha fs g =
     List.map_filter (\<lambda>p. check_file (mget no_file (sgBaseline g) p) (statOf sha fs p) p) (sgOrder g)"

definition Baseline :: "self_guard \<Rightarrow> file_state list" where
  "Baseline g = map (mget no_file (sgBaseline g)) (sgOrder g)"

definition tamper_String :: "tamper \<Rightarrow> string" where
  "tamper_String t = tpPath t @ '': '' @ tpReason t"

subsection \<open>The loop of the agent\<close>

definition tamper_finding :: "time \<Rightarrow> tamper \<Rightarrow> finding" where
  "tamper_finding now t =
     \<lparr>fTimestamp = now, fRuleID = ''NS-SELF-001'', fRule = ''agent-self-tamper'', fPID = 0, fTenantID = '''',
      fSeverity = ''critical'', fTechnique = ''T1562.001'',
      fDescription = ''the NeuroSentry agent's own '' @ tpPath t @ '' was '' @ tpReason t @ '' '' @ em_dash @
        '' the security control itself may be under attack'', fChain = []\<rparr>"

text \<open>One tick; the interval between ticks defaults to a minute.\<close>

definition protect_interval :: "int \<Rightarrow> dur" where
  "protect_interval secs = (let every = wrap64 (secs * second) in if every \<le> 0 then 60 * second else every)"

definition protect_tick ::
  "(response_error + response_result \<Rightarrow> string \<times> string) \<Rightarrow> 's agent_env \<Rightarrow> sha \<Rightarrow> host_files \<Rightarrow> self_guard \<Rightarrow> 's agent \<Rightarrow> 's agent" where
  "protect_tick shown x sha fs sg g = handle_findings shown x 0 (map (tamper_finding (xNow x 0)) (guard_Verify sha fs sg)) g"

subsection \<open>What the guard reports\<close>

lemma statOf_simps [simp]:
  "ftExists (statOf sha fs p) \<longleftrightarrow> fsStat fs p \<noteq> None"
  "ftHash (statOf sha fs p) = (if fsStat fs p = None then '''' else hash_or_empty sha fs p)"
  by (simp_all add: statOf_def Let_def hash_or_empty_def split: option.splits)

lemma map_of_Protect:
  "map_of (sgBaseline (Protect sha fs ps g)) p =
     (if p \<in> set ps \<and> p \<noteq> '''' then Some (statOf sha fs p) else map_of (sgBaseline g) p)"
  by (induction ps arbitrary: g) (auto simp: Let_def)

text \<open>The order lists the keys of the baseline, each once.\<close>

definition guard_ok :: "self_guard \<Rightarrow> bool" where
  "guard_ok g \<longleftrightarrow> distinct (sgOrder g) \<and> set (sgOrder g) = set (keys (sgBaseline g))"

lemma guard_ok_New [simp]: "guard_ok selfprotect_New"
  by (simp add: guard_ok_def selfprotect_New_def)

lemma guard_ok_Protect [wf_intros]: "guard_ok g \<Longrightarrow> guard_ok (Protect sha fs ps g)"
proof (induction ps arbitrary: g)
  case (Cons p ps)
  let ?g1 = "if map_of (sgBaseline g) p = None then g\<lparr>sgOrder := sgOrder g @ [p]\<rparr> else g"
  have "guard_ok (?g1\<lparr>sgBaseline := mput p (statOf sha fs p) (sgBaseline ?g1)\<rparr>)"
    using Cons.prems unfolding guard_ok_def map_of_None_keys by (auto simp: keys_mput)
  with Cons.IH Cons.prems show ?case by (simp add: Let_def)
qed simp

lemma set_Verify:
  "t \<in> set (guard_Verify sha fs g) \<longleftrightarrow>
     (\<exists>p \<in> set (sgOrder g). check_file (mget no_file (sgBaseline g) p) (statOf sha fs p) p = Some t)"
  by (auto simp: guard_Verify_def List.map_filter_def image_iff)

text \<open>
  A file that was readable when protected is reported exactly while it is missing, unreadable or has another
  digest, whatever was reported before.
\<close>

lemma Verify_protected:
  assumes "guard_ok g" "p \<in> set ps" "p \<noteq> ''''" "fsStat fs0 p \<noteq> None" "fsRead fs0 p = Some c0"
  shows "(\<exists>t \<in> set (guard_Verify sha fs1 (Protect sha fs0 ps g)). tpPath t = p) \<longleftrightarrow>
     fsStat fs1 p = None \<or> (case fsRead fs1 p of None \<Rightarrow> True | Some c \<Rightarrow> distinguishes sha c0 c)"
proof -
  let ?g = "Protect sha fs0 ps g"
  have b: "map_of (sgBaseline ?g) p = Some (statOf sha fs0 p)" using assms(2,3) by (simp add: map_of_Protect)
  then have "p \<in> set (keys (sgBaseline ?g))" by (metis in_keys_iff option.discI)
  then have o: "p \<in> set (sgOrder ?g)" using guard_ok_Protect [OF assms(1), of sha fs0 ps] by (simp add: guard_ok_def)
  have m: "mget no_file (sgBaseline ?g) p = statOf sha fs0 p" using b by (simp add: mget_def)
  have path: "tpPath t = q" if "check_file base cur q = Some t" for base cur q t
    using that by (auto simp: check_file_def split: if_splits)
  have "(\<exists>t \<in> set (guard_Verify sha fs1 ?g). tpPath t = p) \<longleftrightarrow> check_file (statOf sha fs0 p) (statOf sha fs1 p) p \<noteq> None"
    unfolding set_Verify Bex_def using o m path by (metis not_Some_eq)
  also have "\<dots> \<longleftrightarrow> fsStat fs1 p = None \<or> (case fsRead fs1 p of None \<Rightarrow> True | Some c \<Rightarrow> distinguishes sha c0 c)"
    using assms(4,5) by (auto simp: check_file_def hash_or_empty_read hex256_inject distinguishes_def split: option.splits)
  finally show ?thesis .
qed


subsection \<open>From a change to the audit log\<close>

lemma breaker_needs_pid: "fPID f \<le> 0 \<Longrightarrow> apply_breaker sh x n f g = g"
  by (simp add: apply_breaker_def breaker_Evaluate_def refuse_def)

lemma quiet_finding_records:
  assumes "fPID f \<le> 0"
  shows "records x [finding_entry x (n + 1) f] g (handleCorrelationFinding sh x n f g)"
    and "agKernel (handleCorrelationFinding sh x n f g) = agKernel g"
  using before_breaker_records [of x n f g]
  by (simp_all add: handleCorrelationFinding_split breaker_needs_pid [OF assms])

definition tamper_details :: "tamper \<Rightarrow> details" where
  "tamper_details t =
     [(''technique'', DStr ''T1562.001''), (''description'', DStr (fDescription (tamper_finding 0 t))), (''pid'', DInt 0),
      (''chain_len'', DInt 0)]"

lemma tamper_entry_details: "enDetails (finding_entry x n (tamper_finding now t)) = Some (tamper_details t)"
  by (simp add: finding_entry_def SetCategory_def NewEntry_def tamper_details_def tamper_finding_def)

text \<open>The entries of a tick: one for each deviation, in the order of the report.\<close>

fun tamper_entries :: "'s agent_env \<Rightarrow> nat \<Rightarrow> time \<Rightarrow> tamper list \<Rightarrow> details entry list" where
  "tamper_entries x n now [] = []"
| "tamper_entries x n now (t # ts) = finding_entry x (n + 1) (tamper_finding now t) # tamper_entries x (n + 3) now ts"

lemma tamper_entries_content:
  "map (\<lambda>en. (enEventType en, enSeverity en, enDetails en)) (tamper_entries x n now ts) =
     map (\<lambda>t. (''correlation:agent-self-tamper'', ''critical'', Some (tamper_details t))) ts"
  by (induction ts arbitrary: n)
    (simp_all add: tamper_entry_details, simp add: finding_entry_def SetCategory_def NewEntry_def tamper_finding_def finding_severity_def)

lemma sealed_content:
  "map (\<lambda>en. (enEventType en, enSeverity en, enDetails en)) (sealed k rs c) = map (\<lambda>en. (enEventType en, enSeverity en, enDetails en)) rs"
  by (induction rs arbitrary: c) (simp_all add: seal_def Let_def)

lemma tampers_recorded:
  "records x (tamper_entries x n now ts) g (handle_findings sh x n (map (tamper_finding now) ts) g) \<and>
     agKernel (handle_findings sh x n (map (tamper_finding now) ts) g) = agKernel g"
proof (induction ts arbitrary: n g)
  case Nil
  show ?case using records_refl [of g g x] by simp
next
  case (Cons t ts)
  let ?f = "tamper_finding now t" and ?g = "handleCorrelationFinding sh x n (tamper_finding now t) g"
  have f: "fPID ?f \<le> 0" by (simp add: tamper_finding_def)
  note q = quiet_finding_records [OF f, where sh = sh and x = x and n = n and g = g]
  from records_trans [OF q(1) conjunct1 [OF Cons.IH [of "n + 3" ?g]]] Cons.IH [of "n + 3" ?g] q(2)
  show ?case by simp
qed


definition demo_guard :: self_guard where
  "demo_guard = Protect demo_sha (demo_host (Some ''v1'')) [''/usr/bin/agent''] selfprotect_New"


text \<open>
  The notification channels do not tell the files apart: all tamper alerts have the same key, so after one file was
  reported the alert for another file is suppressed for the deduplication window.
\<close>

lemma second_tamper_suppressed:
  assumes "Route send now1 (finding_alert (tamper_finding a t1)) r = (r1, out, True)"
    and "now1 \<noteq> 0" and "now2 \<noteq> 0" and "time_sub now2 now1 < rtDedupEvery r"
  shows "Route send now2 (finding_alert (tamper_finding b t2)) r1 = (r1\<lparr>rtSuppressed := rtSuppressed r1 + 1\<rparr>, [], False)"
proof -
  have k: "alert_key ((finding_alert (tamper_finding c t))\<lparr>alTimestamp := n\<rparr>) = ''critical|agent-self-tamper''" for c t n
    by (simp add: alert_key_def finding_alert_def tamper_finding_def)
  have z: "alTimestamp (finding_alert f) = 0" for f by (simp add: finding_alert_def)
  have "map_of (rtLastSent r1) ''critical|agent-self-tamper'' = Some now1" "rtDedupEvery r1 = rtDedupEvery r"
    using assms(1) by (auto simp: Route_def Let_def z k split: if_splits)
  with assms(4) show ?thesis by (simp add: Route_def Let_def z k)
qed

end
