(* ===== verification/Attach.thy ===== *)
theory Attach
  imports Config Files
begin

text \<open>
  Attaching the kernel programs (\<^verbatim>\<open>src/pkg/bpf/bpf.go\<close>) to files and interfaces, and
  closing them.  The record \<open>kernel_env\<close> holds the answers of the host and of the eBPF
  library: whether an attachment succeeds, whether a \<^verbatim>\<open>tc\<close> command succeeds, which interfaces and
  processes exist, the symbol tables of a library.  \<open>attachments\<close> is what the calls leave behind: links of
  the manager, filters and pinned programs of legacy traffic control.
\<close>

subsection \<open>The host\<close>

record iface =
  ifName :: string
  ifLoopback :: bool
  ifUp :: bool
  ifAddrs :: "nat option"

record proc_entry =
  pePid :: string
  peIsDir :: bool
  peMaps :: "string option"

record elf_symbol =
  esName :: string
  esValue :: "64 word"

record elf_tables =
  etDynamic :: "elf_symbol list option"
  etStatic :: "elf_symbol list option"

record kernel_env =
  keAttachLSM :: bool
  keAttachXDP :: "string \<Rightarrow> bool"
  keAttachTCX :: "string \<Rightarrow> bool \<Rightarrow> bool"
  keInterface :: "string \<Rightarrow> bool"
  keInterfaces :: "iface list option"
  keRoute :: "string option"
  keTc :: "string list \<Rightarrow> bool"
  kePin :: "string \<Rightarrow> bool"
  keGlob :: "string \<Rightarrow> string list option"
  keStat :: "string \<Rightarrow> bool"
  keProc :: "proc_entry list option"
  keElf :: "string \<Rightarrow> elf_tables option"
  keOpen :: "string \<Rightarrow> bool"
  keUprobe :: "string \<Rightarrow> string \<Rightarrow> string \<Rightarrow> bool"
  keRange :: "string list \<Rightarrow> string list"

datatype attach_link = LsmLink | XdpLink string | TcxLink string bool | ProbeLink string string

record attachments =
  atLinks :: "attach_link list"
  atTcInterfaces :: "string list"
  atFilters :: "(string \<times> bool) list"
  atPinned :: "string list"

definition no_attachments :: attachments where
  "no_attachments = \<lparr>atLinks = [], atTcInterfaces = [], atFilters = [], atPinned = []\<rparr>"

datatype attach_error =
    ObjectsNotLoaded string | AttachFailed string | NoInterface | InterfacesUnknown | TcFailed string | PinFailed string
  | LibraryNotFound string | SymbolsNotFound | ElfOpenFailed | OpenFailed | NoSymbolAttached

abbreviation (input) add_link :: "attach_link \<Rightarrow> attachments \<Rightarrow> attachments" where
  "add_link l a \<equiv> a\<lparr>atLinks := atLinks a @ [l]\<rparr>"

subsection \<open>Files and interfaces\<close>

definition AttachLSM :: "kernel_env \<Rightarrow> bpf_manager \<Rightarrow> attachments \<Rightarrow> attachments \<times> attach_error option" where
  "AttachLSM k m a =
     (if bgLSM m = None then (a, Some (ObjectsNotLoaded ''LSM''))
      else if \<not> keAttachLSM k then (a, Some (AttachFailed ''file_open LSM''))
      else (add_link LsmLink a, None))"

definition getDefaultInterface :: "kernel_env \<Rightarrow> attach_error + string" where
  "getDefaultInterface k =
     (case keRoute k of
        None \<Rightarrow> Inl NoInterface
      | Some d \<Rightarrow>
          let ls = Split [CHR 0x0A] d
          in if 1 < length ls \<and> Fields (ls ! 1) \<noteq> [] then Inr (Fields (ls ! 1) ! 0) else Inl NoInterface)"

definition GetAllInterfaces :: "kernel_env \<Rightarrow> attach_error + string list" where
  "GetAllInterfaces k =
     (case keInterfaces k of
        None \<Rightarrow> Inl InterfacesUnknown
      | Some is \<Rightarrow>
          Inr (map ifName (filter (\<lambda>i. \<not> ifLoopback i \<and> ifUp i \<and> (case ifAddrs i of None \<Rightarrow> False | Some n \<Rightarrow> n \<noteq> 0)) is)))"

definition chosen_interfaces :: "kernel_env \<Rightarrow> bool \<Rightarrow> config \<Rightarrow> attach_error + string list" where
  "chosen_interfaces k alls cfg =
     (let is = netInterfaces (prNetworkContainment (cfProtection cfg)) in
      if is = [] then (case getDefaultInterface k of Inl e \<Rightarrow> Inl e | Inr i \<Rightarrow> Inr [i])
      else if alls \<and> is = [''all''] then GetAllInterfaces k
      else Inr is)"

fun xdp_loop :: "kernel_env \<Rightarrow> string list \<Rightarrow> attachments \<Rightarrow> attachments \<times> attach_error option" where
  "xdp_loop k [] a = (a, None)"
| "xdp_loop k (i # is) a =
     (if \<not> keInterface k i then xdp_loop k is a
      else if \<not> keAttachXDP k i then (a, Some (AttachFailed i))
      else xdp_loop k is (add_link (XdpLink i) a))"

definition AttachXDP :: "kernel_env \<Rightarrow> config \<Rightarrow> bpf_manager \<Rightarrow> attachments \<Rightarrow> attachments \<times> attach_error option" where
  "AttachXDP k cfg m a =
     (if bgXDP m = None then (a, Some (ObjectsNotLoaded ''XDP''))
      else case chosen_interfaces k False cfg of Inl e \<Rightarrow> (a, Some e) | Inr is \<Rightarrow> xdp_loop k is a)"

subsection \<open>Traffic control\<close>

abbreviation (input) ingress_pin :: "string \<Rightarrow> string" where "ingress_pin i \<equiv> ''/sys/fs/bpf/neurosentry_tc_ingress_'' @ i"
abbreviation (input) egress_pin :: "string \<Rightarrow> string" where "egress_pin i \<equiv> ''/sys/fs/bpf/neurosentry_tc_egress_'' @ i"

definition tc_filter_add :: "string \<Rightarrow> bool \<Rightarrow> string \<Rightarrow> string list" where
  "tc_filter_add i egress path =
     [''filter'', ''add'', ''dev'', i, (if egress then ''egress'' else ''ingress''), ''bpf'', ''da'', ''pinned'', path]"

definition attachTCLegacy :: "kernel_env \<Rightarrow> string \<Rightarrow> attachments \<Rightarrow> attachments \<times> attach_error option" where
  "attachTCLegacy k i a =
     (let a0 = (if keTc k [''qdisc'', ''del'', ''dev'', i, ''clsact''] then a\<lparr>atFilters := filter (\<lambda>f. fst f \<noteq> i) (atFilters a)\<rparr> else a) in
      if \<not> keTc k [''qdisc'', ''add'', ''dev'', i, ''clsact''] then (a0, Some (TcFailed ''qdisc''))
      else
        let a1 = a0\<lparr>atPinned := filter (\<lambda>p. p \<noteq> ingress_pin i \<and> p \<noteq> egress_pin i) (atPinned a0)\<rparr> in
        if \<not> kePin k (ingress_pin i) then (a1, Some (PinFailed ''ingress''))
        else if \<not> kePin k (egress_pin i) then (a1, Some (PinFailed ''egress''))
        else
          let a2 = a1\<lparr>atPinned := atPinned a1 @ [ingress_pin i, egress_pin i]\<rparr> in
          if \<not> keTc k (tc_filter_add i False (ingress_pin i)) then (a2, Some (TcFailed ''ingress''))
          else
            let a3 = a2\<lparr>atFilters := atFilters a2 @ [(i, False)]\<rparr> in
            if \<not> keTc k (tc_filter_add i True (egress_pin i)) then (a3, Some (TcFailed ''egress''))
            else (a3\<lparr>atFilters := atFilters a3 @ [(i, True)]\<rparr>, None))"

text \<open>One interface; failures are logged.\<close>

definition tc_interface :: "kernel_env \<Rightarrow> string \<Rightarrow> attachments \<Rightarrow> attachments" where
  "tc_interface k i a =
     (if \<not> keInterface k i then a
      else if keAttachTCX k i False then
        let a1 = add_link (TcxLink i False) a;
            a2 = (if keAttachTCX k i True then add_link (TcxLink i True) a1 else a1)
        in a2\<lparr>atTcInterfaces := atTcInterfaces a2 @ [i]\<rparr>
      else
        (case attachTCLegacy k i a of
           (a1, Some e) \<Rightarrow> a1
         | (a1, None) \<Rightarrow> a1\<lparr>atTcInterfaces := atTcInterfaces a1 @ [i]\<rparr>))"

definition AttachTC :: "kernel_env \<Rightarrow> config \<Rightarrow> bpf_manager \<Rightarrow> attachments \<Rightarrow> attachments \<times> attach_error option" where
  "AttachTC k cfg m a =
     (if bgTC m = None then (a, Some (ObjectsNotLoaded ''TC''))
      else case chosen_interfaces k True cfg of
        Inl e \<Rightarrow> (a, Some e)
      | Inr is \<Rightarrow> (fold (tc_interface k) is a, None))"

definition close_interface :: "kernel_env \<Rightarrow> string \<Rightarrow> attachments \<Rightarrow> attachments" where
  "close_interface k i a =
     (let a1 = (if keTc k [''filter'', ''del'', ''dev'', i, ''ingress''] then a\<lparr>atFilters := filter (\<lambda>f. f \<noteq> (i, False)) (atFilters a)\<rparr> else a);
          a2 = (if keTc k [''filter'', ''del'', ''dev'', i, ''egress''] then a1\<lparr>atFilters := filter (\<lambda>f. f \<noteq> (i, True)) (atFilters a1)\<rparr> else a1)
      in a2\<lparr>atPinned := filter (\<lambda>p. p \<noteq> ingress_pin i \<and> p \<noteq> egress_pin i) (atPinned a2)\<rparr>)"

definition manager_Close :: "kernel_env \<Rightarrow> attachments \<Rightarrow> attachments" where
  "manager_Close k a =
     (fold (close_interface k) (atTcInterfaces a) (a\<lparr>atLinks := []\<rparr>))\<lparr>atTcInterfaces := []\<rparr>"


subsection \<open>What attaching reaches and what closing releases\<close>

text \<open>Whether the legacy attachment of an interface succeeds does not depend on what is attached already.\<close>

definition legacy_ok :: "kernel_env \<Rightarrow> string \<Rightarrow> bool" where
  "legacy_ok k i \<longleftrightarrow>
     keTc k [''qdisc'', ''add'', ''dev'', i, ''clsact''] \<and> kePin k (ingress_pin i) \<and> kePin k (egress_pin i) \<and>
     keTc k (tc_filter_add i False (ingress_pin i)) \<and> keTc k (tc_filter_add i True (egress_pin i))"

lemma attachTCLegacy_ok: "snd (attachTCLegacy k i a) = None \<longleftrightarrow> legacy_ok k i"
  by (simp add: attachTCLegacy_def legacy_ok_def Let_def)

lemma attachTCLegacy_keeps:
  "atLinks (fst (attachTCLegacy k i a)) = atLinks a" "atTcInterfaces (fst (attachTCLegacy k i a)) = atTcInterfaces a"
  by (simp_all add: attachTCLegacy_def Let_def)

definition tc_reaches :: "kernel_env \<Rightarrow> string \<Rightarrow> bool" where
  "tc_reaches k i \<longleftrightarrow> keInterface k i \<and> (keAttachTCX k i False \<or> legacy_ok k i)"

lemma tc_interface_reached:
  "atTcInterfaces (tc_interface k i a) = atTcInterfaces a @ (if tc_reaches k i then [i] else [])"
  using attachTCLegacy_ok [of k i a] attachTCLegacy_keeps [of k i a]
  by (cases "attachTCLegacy k i a") (auto simp: tc_interface_def tc_reaches_def Let_def split: option.splits)

lemma tc_fold_reached:
  "atTcInterfaces (fold (tc_interface k) is a) = atTcInterfaces a @ filter (tc_reaches k) is"
  by (induction "is" arbitrary: a) (simp_all add: tc_interface_reached)

lemma tc_interface_LSM: "LsmLink \<in> set (atLinks (tc_interface k i a)) \<longleftrightarrow> LsmLink \<in> set (atLinks a)"
  using attachTCLegacy_keeps [of k i a]
  by (cases "attachTCLegacy k i a") (auto simp: tc_interface_def Let_def split: option.splits)

lemma tc_fold_LSM: "LsmLink \<in> set (atLinks (fold (tc_interface k) is a)) \<longleftrightarrow> LsmLink \<in> set (atLinks a)"
  by (induction "is" arbitrary: a) (simp_all add: tc_interface_LSM)

lemma AttachTC_exact:
  "AttachTC k cfg m a = (a1, None) \<Longrightarrow>
     \<exists>is. chosen_interfaces k True cfg = Inr is \<and> atTcInterfaces a1 = atTcInterfaces a @ filter (tc_reaches k) is"
  by (auto simp: AttachTC_def tc_fold_reached split: if_splits sum.splits)

text \<open>Where \<^verbatim>\<open>tc\<close> accepts the deletions, closing releases everything of the recorded interfaces, and only of those.\<close>

definition deletes :: "kernel_env \<Rightarrow> bool" where
  "deletes k \<longleftrightarrow> (\<forall>i. keTc k [''filter'', ''del'', ''dev'', i, ''ingress''] \<and> keTc k [''filter'', ''del'', ''dev'', i, ''egress''])"

lemma close_interface_effect:
  assumes "deletes k"
  shows "atFilters (close_interface k i a) = filter (\<lambda>f. fst f \<noteq> i) (atFilters a)"
    "atPinned (close_interface k i a) = filter (\<lambda>p. p \<noteq> ingress_pin i \<and> p \<noteq> egress_pin i) (atPinned a)"
    "atLinks (close_interface k i a) = atLinks a"
  using assms by (auto simp: close_interface_def deletes_def Let_def intro!: filter_cong)

lemma close_fold:
  assumes "deletes k"
  shows "atFilters (fold (close_interface k) is a) = filter (\<lambda>f. fst f \<notin> set is) (atFilters a)"
    "atPinned (fold (close_interface k) is a) = filter (\<lambda>p. p \<notin> ingress_pin ` set is \<union> egress_pin ` set is) (atPinned a)"
    "atLinks (fold (close_interface k) is a) = atLinks a"
proof (induction "is" arbitrary: a)
  case (Cons i "is")
  { case 1 show ?case by (auto simp: Cons(1) close_interface_effect [OF assms] intro!: filter_cong) }
  { case 2 show ?case by (auto simp: Cons(2) close_interface_effect [OF assms] intro!: filter_cong) }
  { case 3 show ?case by (simp add: Cons(3) close_interface_effect [OF assms]) }
qed simp_all

lemma manager_Close_exact:
  assumes "deletes k"
  shows "atLinks (manager_Close k a) = []"
    "atFilters (manager_Close k a) = filter (\<lambda>f. fst f \<notin> set (atTcInterfaces a)) (atFilters a)"
    "atPinned (manager_Close k a) =
       filter (\<lambda>p. p \<notin> ingress_pin ` set (atTcInterfaces a) \<union> egress_pin ` set (atTcInterfaces a)) (atPinned a)"
  by (simp_all add: manager_Close_def close_fold [OF assms])

text \<open>
  An interface whose egress filter is refused is not recorded, so its ingress filter and both pinned programs
  outlive the agent.
\<close>

lemma legacy_failure_leaks:
  assumes "deletes k" "keInterface k i" "\<not> keAttachTCX k i False"
    "keTc k [''qdisc'', ''add'', ''dev'', i, ''clsact'']" "kePin k (ingress_pin i)" "kePin k (egress_pin i)"
    "keTc k (tc_filter_add i False (ingress_pin i))" "\<not> keTc k (tc_filter_add i True (egress_pin i))"
  shows "let a = manager_Close k (tc_interface k i no_attachments) in
     atFilters a = [(i, False)] \<and> atPinned a = [ingress_pin i, egress_pin i]"
  using assms by (simp add: tc_interface_def attachTCLegacy_def no_attachments_def manager_Close_exact)

end
