(* ===== verification/Symbols.thy ===== *)
theory Symbols
  imports Attach
begin

text \<open>
  Finding libraries and symbols to probe (\<^verbatim>\<open>src/pkg/bpf/symbols.go\<close>) and attaching the uprobes
  (\<^verbatim>\<open>src/pkg/bpf/bpf.go\<close>).  The patterns of the source are of two kinds: \<open>Exactly s\<close> is \<^verbatim>\<open>^s$\<close>, and
  \<open>InOrder [s, t, ...]\<close> is \<^verbatim>\<open>s.*t...\<close>, which matches a name that contains the parts in this order
  (symbol names have no line breaks).
\<close>

subsection \<open>Symbol patterns\<close>

datatype sym_pattern = Exactly string | InOrder "string list"

fun in_order :: "string list \<Rightarrow> string \<Rightarrow> bool" where
  "in_order [] s = True"
| "in_order (p # ps) s =
     (case index_of p s of None \<Rightarrow> False | Some i \<Rightarrow> in_order ps (drop (i + length p) s))"

fun pattern_matches :: "sym_pattern \<Rightarrow> string \<Rightarrow> bool" where
  "pattern_matches (Exactly p) s = (s = p)"
| "pattern_matches (InOrder ps) s = in_order ps s"

definition getPickleSymbolPatterns :: "sym_pattern list" where
  "getPickleSymbolPatterns =
     [Exactly ''_pickle_loads'', Exactly ''_pickle_load'', Exactly ''_pickle_Unpickler_load'', Exactly ''_pickle_Unpickler_load_impl'',
      Exactly ''PyInit__pickle'',
      Exactly ''load_reduce'', Exactly ''load_global'', Exactly ''load_build'', Exactly ''load_inst'', Exactly ''load_newobj'',
      Exactly ''load_newobj_ex'',
      Exactly ''PyObject_Call'', Exactly ''PyPickleBuffer_FromObject'', Exactly ''PyPickleBuffer_GetBuffer'',
      Exactly ''PyPickleBuffer_Release'',
      InOrder [''_pickle'', ''load''], InOrder [''Unpickler'', ''load''], InOrder [''pickle'', ''deserialize'']]"

definition getPythonVersionSymbols :: "string \<Rightarrow> sym_pattern list" where
  "getPythonVersionSymbols v =
     (if v = ''3.8'' \<or> v = ''3.9'' then [Exactly ''_pickle_Unpickler___init__'']
      else if v = ''3.10'' \<or> v = ''3.11'' then [Exactly ''_pickle_Unpickler___init___impl'']
      else if v = ''3.12'' \<or> v = ''3.13'' then [Exactly ''_Unpickler_New'', Exactly ''Unpickler_init'']
      else []) @ getPickleSymbolPatterns"

definition getPyTorchSymbolPatterns :: "sym_pattern list" where
  "getPyTorchSymbolPatterns =
     [InOrder [''torch::jit::load''], InOrder [''torch::jit::_load_for_mobile''], InOrder [''torch::serialize::InputArchive''],
      InOrder [''torch::serialize::OutputArchive''], InOrder [''THPModule_load''], InOrder [''_load_from_file''], InOrder [''load_tensor''],
      InOrder [''torch'', ''serialize'', ''load''], InOrder [''torch'', ''load''], InOrder [''Unpickler''], InOrder [''pickle'', ''load''],
      InOrder [''serialize'', ''Archive''], InOrder [''jit'', ''load'']]"

text \<open>
  \<^verbatim>\<open>python3\.(\d+)\<close> at the leftmost position where it matches, then \<^verbatim>\<open>python(\d)\.(\d+)\<close>: the second
  pattern has two groups.
\<close>

fun find_python3 :: "string \<Rightarrow> string option" where
  "find_python3 [] = None"
| "find_python3 (c # s) =
     (let d = takeWhile is_digit (drop 8 (c # s))
      in if prefix ''python3.'' (c # s) \<and> d \<noteq> [] then Some d else find_python3 s)"

fun find_python :: "string \<Rightarrow> (string \<times> string) option" where
  "find_python [] = None"
| "find_python (c # s) =
     (let t = drop 6 (c # s); d = takeWhile is_digit (drop 2 t)
      in if prefix ''python'' (c # s) \<and> 2 \<le> length t \<and> is_digit (t ! 0) \<and> t ! 1 = CHR ''.'' \<and> d \<noteq> []
         then Some ([t ! 0], d) else find_python s)"

definition detectPythonVersion :: "string \<Rightarrow> string" where
  "detectPythonVersion p =
     (case find_python3 p of
        Some d \<Rightarrow> ''3.'' @ d
      | None \<Rightarrow> (case find_python p of Some (a, b) \<Rightarrow> a @ ''.'' @ b | None \<Rightarrow> ''''))"

subsection \<open>Resolving symbols\<close>

definition put_symbol :: "bool \<Rightarrow> elf_symbol \<Rightarrow> (string, 64 word) gomap \<Rightarrow> (string, 64 word) gomap" where
  "put_symbol overwrite s m =
     (if esValue s = 0 then m
      else if overwrite \<or> map_of m (esName s) = None then mput (esName s) (esValue s) m else m)"

definition all_symbols :: "elf_tables \<Rightarrow> (string, 64 word) gomap" where
  "all_symbols t =
     fold (put_symbol False) (case etStatic t of None \<Rightarrow> [] | Some l \<Rightarrow> l)
       (fold (put_symbol True) (case etDynamic t of None \<Rightarrow> [] | Some l \<Rightarrow> l) [])"

type_synonym symbol_info = "string \<times> 64 word"

fun match_names :: "sym_pattern \<Rightarrow> (string, 64 word) gomap \<Rightarrow> string list \<Rightarrow> symbol_info list \<Rightarrow> symbol_info list" where
  "match_names re m [] res = res"
| "match_names re m (n # ns) res =
     match_names re m ns
       (if n \<in> fst ` set res then res
        else if pattern_matches re n then res @ [(n, mget 0 m n)] else res)"

definition resolveELFSymbols :: "kernel_env \<Rightarrow> string \<Rightarrow> sym_pattern list \<Rightarrow> attach_error + symbol_info list" where
  "resolveELFSymbols k lib pats =
     (case keElf k lib of
        None \<Rightarrow> Inl ElfOpenFailed
      | Some t \<Rightarrow>
          let m = all_symbols t; res = fold (\<lambda>re. match_names re m (keRange k (keys m))) pats []
          in if res = [] then Inl SymbolsNotFound else Inr res)"

datatype resolution_strategy = StrategyBestMatch | StrategyFirstMatch | StrategyAllMatches

definition ResolveSymbolsWithStrategy ::
  "kernel_env \<Rightarrow> string \<Rightarrow> sym_pattern list \<Rightarrow> resolution_strategy \<Rightarrow> attach_error + symbol_info list" where
  "ResolveSymbolsWithStrategy k lib pats st =
     (case resolveELFSymbols k lib pats of
        Inl e \<Rightarrow> Inl e
      | Inr syms \<Rightarrow>
          Inr (case st of
                 StrategyFirstMatch \<Rightarrow> take 1 syms
               | StrategyBestMatch \<Rightarrow> (if 3 < length syms then take 3 syms else syms)
               | StrategyAllMatches \<Rightarrow> syms))"

subsection \<open>Finding libraries\<close>

fun find_existing :: "kernel_env \<Rightarrow> string list \<Rightarrow> string option" where
  "find_existing k [] = None"
| "find_existing k (p # ps) = (if keStat k p then Some p else find_existing k ps)"

fun findLibrary :: "kernel_env \<Rightarrow> string list \<Rightarrow> string option" where
  "findLibrary k [] = None"
| "findLibrary k (g # gs) =
     (case keGlob k g of
        None \<Rightarrow> findLibrary k gs
      | Some ms \<Rightarrow> (case find_existing k ms of Some p \<Rightarrow> Some p | None \<Rightarrow> findLibrary k gs))"

text \<open>\<^verbatim>\<open>fmt.Sscanf(pid, "%d")\<close> accepts a name that starts with a number.\<close>

definition scans_int :: "string \<Rightarrow> bool" where
  "scans_int s \<longleftrightarrow> scan_int s \<noteq> None"

definition maps_library :: "kernel_env \<Rightarrow> string \<Rightarrow> string \<Rightarrow> string option" where
  "maps_library k needle line =
     (if sublist needle line \<and> suffix ''.so'' line
      then (let fs = Fields line in if 5 < length fs \<and> keStat k (last fs) then Some (last fs) else None)
      else None)"

fun first_some :: "('a \<Rightarrow> 'b option) \<Rightarrow> 'a list \<Rightarrow> 'b option" where
  "first_some f [] = None"
| "first_some f (x # xs) = (case f x of Some y \<Rightarrow> Some y | None \<Rightarrow> first_some f xs)"

definition proc_library :: "(string \<Rightarrow> string option) \<Rightarrow> proc_entry \<Rightarrow> string option" where
  "proc_library pick e =
     (if \<not> peIsDir e \<or> \<not> scans_int (pePid e) then None
      else case peMaps e of None \<Rightarrow> None | Some d \<Rightarrow> first_some pick (Split [CHR 0x0A] d))"

definition find_from_proc :: "kernel_env \<Rightarrow> (string \<Rightarrow> string option) \<Rightarrow> string option" where
  "find_from_proc k pick = (case keProc k of None \<Rightarrow> None | Some es \<Rightarrow> first_some (proc_library pick) es)"

definition findPickleFromProc :: "kernel_env \<Rightarrow> string option" where
  "findPickleFromProc k = find_from_proc k (maps_library k ''_pickle.cpython'')"

definition findTorchFromProc :: "kernel_env \<Rightarrow> string option" where
  "findTorchFromProc k = find_from_proc k (maps_library k ''libtorch'')"

definition picklePaths :: "string list" where
  "picklePaths =
     [''/usr/lib/python3*/lib-dynload/_pickle.cpython-*.so'', ''/usr/lib/x86_64-linux-gnu/python3*/lib-dynload/_pickle.cpython-*.so'',
      ''/usr/lib/aarch64-linux-gnu/python3*/lib-dynload/_pickle.cpython-*.so'', ''/usr/lib64/python3*/lib-dynload/_pickle.cpython-*.so'',
      ''/home/*/miniconda3/lib/python3*/lib-dynload/_pickle.cpython-*.so'', ''/home/*/anaconda3/lib/python3*/lib-dynload/_pickle.cpython-*.so'',
      ''/opt/conda/lib/python3*/lib-dynload/_pickle.cpython-*.so'', ''*/venv/lib/python3*/lib-dynload/_pickle.cpython-*.so'',
      ''/home/*/.pyenv/versions/3*/lib/python3*/lib-dynload/_pickle.cpython-*.so'']"

definition torchPaths :: "string list" where
  "torchPaths = map (\<lambda>d. d @ ''/torch/lib/libtorch_cpu.so'')
     [''/home/*/.local/lib/python3*/site-packages'', ''/root/.local/lib/python3*/site-packages'',
      ''/usr/local/lib/python3*/dist-packages'', ''/usr/local/lib/python3*/site-packages'', ''/usr/lib/python3*/dist-packages'',
      ''/usr/lib/python3*/site-packages'', ''/home/*/miniconda3/envs/*/lib/python3*/site-packages'',
      ''/home/*/miniconda3/lib/python3*/site-packages'', ''/home/*/anaconda3/lib/python3*/site-packages'',
      ''/opt/conda/envs/*/lib/python3*/site-packages'', ''/opt/conda/lib/python3*/site-packages'', ''*/venv/lib/python3*/site-packages'']"

definition findPickleModule :: "kernel_env \<Rightarrow> string option" where
  "findPickleModule k =
     (case findPickleFromProc k of
        Some p \<Rightarrow> if p \<noteq> '''' then Some p else findLibrary k picklePaths
      | None \<Rightarrow> findLibrary k picklePaths)"

definition findPyTorchModule :: "kernel_env \<Rightarrow> string option" where
  "findPyTorchModule k =
     (case findTorchFromProc k of
        Some p \<Rightarrow> if p \<noteq> '''' then Some p else findLibrary k torchPaths
      | None \<Rightarrow> findLibrary k torchPaths)"

definition python_line :: "kernel_env \<Rightarrow> string \<Rightarrow> string option" where
  "python_line k line =
     (if sublist ''libpython'' line
      then (let fs = Fields line
            in if 5 < length fs \<and> suffix ''.so'' (last fs) \<and> keStat k (last fs) then Some (last fs) else None)
      else None)"

definition pythonPaths :: "string list" where
  "pythonPaths = map (\<lambda>d. d @ ''/libpython3*.so'')
     [''/usr/lib/x86_64-linux-gnu'', ''/usr/lib/aarch64-linux-gnu'', ''/usr/local/lib'', ''/lib/x86_64-linux-gnu'',
      ''/lib/aarch64-linux-gnu'', ''/usr/lib64'', ''/home/*/miniconda3/lib'', ''/opt/conda/lib'']"

definition findPythonLibrary :: "kernel_env \<Rightarrow> string option" where
  "findPythonLibrary k =
     (case find_from_proc k (python_line k) of Some p \<Rightarrow> Some p | None \<Rightarrow> findLibrary k pythonPaths)"

subsection \<open>Attaching probes\<close>

fun torch_loop :: "kernel_env \<Rightarrow> string \<Rightarrow> symbol_info list \<Rightarrow> attachments \<Rightarrow> attachments \<times> bool" where
  "torch_loop k lib [] a = (a, False)"
| "torch_loop k lib ((n, off) # syms) a =
     (if \<not> keUprobe k lib n ''UprobeTorchLoad'' then torch_loop k lib syms a
      else
        let a1 = add_link (ProbeLink ''UprobeTorchLoad'' n) a
        in (if keUprobe k lib n ''UretprobeTorchLoad'' then add_link (ProbeLink ''UretprobeTorchLoad'' n) a1 else a1, True))"

definition attachPyTorchProbes :: "kernel_env \<Rightarrow> attachments \<Rightarrow> attachments \<times> attach_error option" where
  "attachPyTorchProbes k a =
     (case findPyTorchModule k of
        None \<Rightarrow> (a, Some (LibraryNotFound ''PyTorch''))
      | Some lib \<Rightarrow>
          (case resolveELFSymbols k lib getPyTorchSymbolPatterns of
             Inl e \<Rightarrow> (a, Some e)
           | Inr syms \<Rightarrow>
               if \<not> keOpen k lib then (a, Some OpenFailed)
               else case torch_loop k lib syms a of (a1, ok) \<Rightarrow> (a1, if ok then None else Some NoSymbolAttached)))"

definition is_load_symbol :: "string \<Rightarrow> bool" where
  "is_load_symbol n \<longleftrightarrow>
     sublist ''load'' (to_lower n) \<or> sublist ''pickle'' (to_lower n) \<or> n = ''PyInit__pickle'' \<or> prefix ''PyPickleBuffer_'' n"

text \<open>The flags say whether the load and the reduce probe are attached.\<close>

fun pickle_loop :: "kernel_env \<Rightarrow> string \<Rightarrow> symbol_info list \<Rightarrow> bool \<Rightarrow> bool \<Rightarrow> attachments \<Rightarrow> attachments \<times> bool \<times> bool" where
  "pickle_loop k lib [] ld rd a = (a, ld, rd)"
| "pickle_loop k lib ((n, off) # syms) ld rd a =
     (if \<not> ld \<and> is_load_symbol n \<and> \<not> keUprobe k lib n ''UprobePickleLoad'' then pickle_loop k lib syms ld rd a
      else
        let now_ld = (\<not> ld \<and> is_load_symbol n);
            a1 = (if now_ld then add_link (ProbeLink ''UprobePickleLoad'' n) a else a);
            ld1 = (ld \<or> now_ld)
        in if \<not> rd \<and> sublist ''reduce'' (to_lower n)
           then (if \<not> keUprobe k lib n ''UprobePickleReduce'' then pickle_loop k lib syms ld1 rd a1
                 else
                   let a2 = add_link (ProbeLink ''UprobePickleReduce'' n) a1
                   in if ld1 then (a2, ld1, True) else pickle_loop k lib syms ld1 True a2)
           else if ld1 \<and> rd then (a1, ld1, rd)
           else pickle_loop k lib syms ld1 rd a1)"

definition attachPickleProbes :: "kernel_env \<Rightarrow> attachments \<Rightarrow> attachments \<times> attach_error option" where
  "attachPickleProbes k a =
     (case (case findPickleModule k of Some p \<Rightarrow> Some p | None \<Rightarrow> findPythonLibrary k) of
        None \<Rightarrow> (a, Some (LibraryNotFound ''pickle''))
      | Some lib \<Rightarrow>
          let v = detectPythonVersion lib; pats = (if v \<noteq> '''' then getPythonVersionSymbols v else getPickleSymbolPatterns)
          in (case resolveELFSymbols k lib pats of
                Inl e \<Rightarrow> (a, Some e)
              | Inr syms \<Rightarrow>
                  if \<not> keOpen k lib then (a, Some OpenFailed)
                  else case pickle_loop k lib syms False False a of
                    (a1, ld, rd) \<Rightarrow> (a1, if ld then None else Some NoSymbolAttached)))"

text \<open>Failures of either group are logged and the call reports success.\<close>

definition AttachUprobes :: "kernel_env \<Rightarrow> config \<Rightarrow> bpf_manager \<Rightarrow> attachments \<Rightarrow> attachments \<times> attach_error option" where
  "AttachUprobes k cfg m a =
     (if bgUprobe m = None then (a, Some (ObjectsNotLoaded ''Uprobe''))
      else
        let a1 = (if pytEnabled (prPyTorchObservability (cfProtection cfg)) then fst (attachPyTorchProbes k a) else a);
            a2 = (if pklEnabled (prPickleProtection (cfProtection cfg)) then fst (attachPickleProbes k a1) else a1)
        in (a2, None))"


subsection \<open>The order of the resolved symbols\<close>

definition resolve_pass :: "kernel_env \<Rightarrow> (string, 64 word) gomap \<Rightarrow> sym_pattern list \<Rightarrow> symbol_info list" where
  "resolve_pass k m pats = fold (\<lambda>re. match_names re m (keRange k (keys m))) pats []"

definition first_match :: "sym_pattern list \<Rightarrow> string \<Rightarrow> nat" where
  "first_match pats n = length (takeWhile (\<lambda>re. \<not> pattern_matches re n) pats)"

lemma match_names_eq:
  "distinct ns \<Longrightarrow> match_names re m ns res =
     res @ map (\<lambda>n. (n, mget 0 m n)) (filter (\<lambda>n. n \<notin> fst ` set res \<and> pattern_matches re n) ns)"
proof (induction ns arbitrary: res)
  case (Cons n ns)
  have "filter (\<lambda>x. x \<notin> fst ` set (res @ [(n, mget 0 m n)]) \<and> pattern_matches re x) ns =
      filter (\<lambda>x. x \<notin> fst ` set res \<and> pattern_matches re x) ns"
    using Cons.prems by (intro filter_cong) auto
  with Cons show ?case by simp
qed simp

lemma first_match_old: "\<exists>re \<in> set pats. pattern_matches re n \<Longrightarrow> first_match (pats @ [re']) n = first_match pats n \<and> first_match pats n < length pats"
  unfolding first_match_def by (induction pats) auto

lemma first_match_new: "\<forall>re \<in> set pats. \<not> pattern_matches re n \<Longrightarrow> pattern_matches re' n \<Longrightarrow> first_match (pats @ [re']) n = length pats"
  unfolding first_match_def by (induction pats) auto

lemma resolve_pass_exact:
  assumes "distinct (keRange k (keys m))"
  shows "distinct (map fst (resolve_pass k m pats)) \<and>
     set (resolve_pass k m pats) = {(n, mget 0 m n) |n. n \<in> set (keRange k (keys m)) \<and> (\<exists>re \<in> set pats. pattern_matches re n)} \<and>
     sorted (map (first_match pats \<circ> fst) (resolve_pass k m pats))"
proof (induction pats rule: rev_induct)
  case (snoc re pats)
  let ?old = "resolve_pass k m pats" and ?ns = "keRange k (keys m)"
  let ?new = "filter (\<lambda>n. n \<notin> fst ` set ?old \<and> pattern_matches re n) ?ns"
  have step: "resolve_pass k m (pats @ [re]) = ?old @ map (\<lambda>n. (n, mget 0 m n)) ?new"
    using match_names_eq [OF assms] by (simp add: resolve_pass_def)
  have old: "fst ` set ?old = {n \<in> set ?ns. \<exists>re \<in> set pats. pattern_matches re n}"
  proof -
    have "set ?old = {(n, mget 0 m n) |n. n \<in> set ?ns \<and> (\<exists>re \<in> set pats. pattern_matches re n)}" using snoc by blast
    then show ?thesis by (auto simp: image_iff)
  qed
  have hit: "\<exists>r \<in> set pats. pattern_matches r (fst x)" if "x \<in> set ?old" for x
    using imageI [OF that, of fst] unfolding old by blast
  have miss: "\<forall>r \<in> set pats. \<not> pattern_matches r n" "pattern_matches re n" if "n \<in> set ?new" for n
    using that unfolding old by auto
  have "map (first_match (pats @ [re]) \<circ> fst) ?old = map (first_match pats \<circ> fst) ?old"
    by (rule map_cong [OF refl]) (simp add: first_match_old [OF hit])
  moreover have "map (first_match (pats @ [re])) ?new = replicate (length ?new) (length pats)"
  proof -
    have "map (first_match (pats @ [re])) ?new = map (\<lambda>_. length pats) ?new"
      by (rule map_cong [OF refl]) (rule first_match_new [OF miss])
    then show ?thesis by (simp only: map_replicate_const)
  qed
  ultimately have ranks: "map (first_match (pats @ [re]) \<circ> fst) (resolve_pass k m (pats @ [re])) =
      map (first_match pats \<circ> fst) ?old @ replicate (length ?new) (length pats)"
    unfolding step by (simp add: comp_def)
  have below: "\<forall>x \<in> set ?old. first_match pats (fst x) \<le> length pats" using first_match_old [OF hit] by (blast intro: less_imp_le)
  have "sorted (map (first_match pats \<circ> fst) ?old)" using snoc by blast
  then have "sorted (map (first_match (pats @ [re]) \<circ> fst) (resolve_pass k m (pats @ [re])))"
    unfolding ranks using below by (simp add: sorted_append)
  moreover have "distinct (map fst (resolve_pass k m (pats @ [re])))"
    using snoc assms unfolding step by (auto simp: comp_def)
  moreover have "set (resolve_pass k m (pats @ [re])) =
      {(n, mget 0 m n) |n. n \<in> set ?ns \<and> (\<exists>r \<in> set (pats @ [re]). pattern_matches r n)}"
    using snoc old unfolding step by auto
  ultimately show ?case by blast
qed (simp add: resolve_pass_def)

text \<open>
  C39: Symbol resolution returns exactly the defined symbols of the library that match one of the patterns, each
  once with its address, and in the order of the first pattern they match; only where nothing matches, or the
  library cannot be read, is there an error.  Go ranges over the symbol map in any order (\<open>keRange\<close>).
\<close>

theorem symbols_by_priority:
  assumes range: "\<And>ks. distinct ks \<Longrightarrow> distinct (keRange k ks) \<and> set (keRange k ks) = set ks"
    and elf: "keElf k lib = Some t"
  shows "case resolveELFSymbols k lib pats of
      Inl e \<Rightarrow> e = SymbolsNotFound \<and> (\<forall>n \<in> set (keys (all_symbols t)). \<forall>re \<in> set pats. \<not> pattern_matches re n)
    | Inr syms \<Rightarrow>
        distinct (map fst syms) \<and> sorted (map (first_match pats \<circ> fst) syms) \<and>
        set syms = {(n, v). map_of (all_symbols t) n = Some v \<and> (\<exists>re \<in> set pats. pattern_matches re n)}"
proof -
  let ?m = "all_symbols t"
  have ok: "gomap_ok ?m"
  proof -
    have "gomap_ok (fold (put_symbol b) l m)" if "gomap_ok m" for b l m
      using that by (induction l arbitrary: m) (simp_all add: put_symbol_def)
    then show ?thesis by (simp add: all_symbols_def)
  qed
  then have ks: "distinct (keRange k (keys ?m))" "set (keRange k (keys ?m)) = set (keys ?m)"
    using range [of "keys ?m"] by (simp_all add: gomap_ok_def)
  have val: "(n \<in> set (keys ?m) \<and> v = mget 0 ?m n) \<longleftrightarrow> map_of ?m n = Some v" for n v
  proof (cases "map_of ?m n")
    case None
    then have "n \<notin> set (keys ?m)" by (simp add: map_of_eq_None_iff)
    with None show ?thesis by simp
  next
    case (Some w)
    then have "n \<in> set (keys ?m)" by (force dest: map_of_SomeD)
    with Some show ?thesis by (auto simp: mget_def)
  qed
  have res: "resolveELFSymbols k lib pats = (let r = resolve_pass k ?m pats in if r = [] then Inl SymbolsNotFound else Inr r)"
    by (simp add: resolveELFSymbols_def elf resolve_pass_def Let_def)
  have set_r: "set (resolve_pass k ?m pats) = {(n, v). map_of ?m n = Some v \<and> (\<exists>re \<in> set pats. pattern_matches re n)}"
    using resolve_pass_exact [OF ks(1), of pats] val unfolding ks(2) by blast
  show ?thesis
  proof (cases "resolve_pass k ?m pats = []")
    case True
    then have "\<forall>n v. map_of ?m n = Some v \<longrightarrow> (\<forall>re \<in> set pats. \<not> pattern_matches re n)" using set_r by auto
    with True val show ?thesis by (auto simp: res)
  qed (use set_r resolve_pass_exact [OF ks(1), of pats] in \<open>simp add: res\<close>)
qed


definition demo_kernel :: kernel_env where
  "demo_kernel =
     \<lparr>keAttachLSM = True, keAttachXDP = (\<lambda>_. True), keAttachTCX = (\<lambda>_ _. False), keInterface = (\<lambda>_. False), keInterfaces = None,
      keRoute = None, keTc = (\<lambda>_. True), kePin = (\<lambda>_. True), keGlob = (\<lambda>_. None), keStat = (\<lambda>_. False), keProc = None,
      keElf = (\<lambda>_. Some \<lparr>etDynamic = Some [\<lparr>esName = ''loads'', esValue = 16\<rparr>, \<lparr>esName = ''PyInit__pickle'', esValue = 32\<rparr>], etStatic = None\<rparr>),
      keOpen = (\<lambda>_. True), keUprobe = (\<lambda>_ _ _. True), keRange = (\<lambda>ks. ks)\<rparr>"

theorem symbols_by_priority_witness:
  "resolveELFSymbols demo_kernel ''lib'' [Exactly ''PyInit__pickle'', InOrder [''load'']] = Inr [(''PyInit__pickle'', 32), (''loads'', 16)] \<and>
   sorted (map (first_match [Exactly ''PyInit__pickle'', InOrder [''load'']] \<circ> fst) [(''PyInit__pickle'', 32 :: 64 word), (''loads'', 16)])"
proof -
  have r: "resolveELFSymbols demo_kernel ''lib'' [Exactly ''PyInit__pickle'', InOrder [''load'']] = Inr [(''PyInit__pickle'', 32), (''loads'', 16)]"
    by code_simp
  moreover have "keElf demo_kernel ''lib'' =
      Some \<lparr>etDynamic = Some [\<lparr>esName = ''loads'', esValue = 16\<rparr>, \<lparr>esName = ''PyInit__pickle'', esValue = 32\<rparr>], etStatic = None\<rparr>"
    by (simp add: demo_kernel_def)
  from symbols_by_priority [OF _ this, of "[Exactly ''PyInit__pickle'', InOrder [''load'']]"]
  have "sorted (map (first_match [Exactly ''PyInit__pickle'', InOrder [''load'']] \<circ> fst) [(''PyInit__pickle'', 32 :: 64 word), (''loads'', 16)])"
    unfolding r by (simp add: demo_kernel_def)
  ultimately show ?thesis by blast
qed

end
