(* ===== verification/Capabilities.thy ===== *)
theory Capabilities
  imports Files
begin

text \<open>
  The kernel preflight: the probes of \<^verbatim>\<open>src/pkg/bpf/capabilities_linux.go\<close> and the verdict of
  \<^verbatim>\<open>src/pkg/bpf/capabilities.go\<close>.  The host's answers are the effective user, the release string of
  \<^verbatim>\<open>uname\<close> (empty when the call fails) and the file system.
\<close>

subsection \<open>Kernel versions\<close>

definition digitsPrefix :: "string \<Rightarrow> string" where
  "digitsPrefix s = takeWhile is_digit s"

text \<open>The value \<^verbatim>\<open>strconv.Atoi\<close> leaves when its error is ignored: the largest number on overflow.\<close>

definition atoi_value :: "string \<Rightarrow> int" where
  "atoi_value s =
     (case Atoi s of Some n \<Rightarrow> n | None \<Rightarrow> if s \<noteq> '''' \<and> list_all is_digit s then max_int64 else 0)"

definition parseKernelVersion :: "string \<Rightarrow> int \<times> int" where
  "parseKernelVersion rel =
     (let parts = Split ''.'' rel
      in (if 1 \<le> length parts then atoi_value (digitsPrefix (parts ! 0)) else 0,
          if 2 \<le> length parts then atoi_value (digitsPrefix (parts ! 1)) else 0))"

definition kernelAtLeast :: "int \<Rightarrow> int \<Rightarrow> int \<Rightarrow> int \<Rightarrow> bool" where
  "kernelAtLeast major minor wantMajor wantMinor =
     (if major \<noteq> wantMajor then wantMajor < major else wantMinor \<le> minor)"

subsection \<open>Probing\<close>

record capabilities =
  caKernelVersion :: string
  caKernelMajor :: int
  caKernelMinor :: int
  caPrivileged :: bool
  caBTF :: bool
  caRingbuf :: bool
  caBPFLSM :: bool
  caTC :: bool
  caUprobe :: bool

definition unameRelease :: "string option \<Rightarrow> string" where
  "unameRelease u = (case u of None \<Rightarrow> '''' | Some b \<Rightarrow> takeWhile (\<lambda>c. code c \<noteq> 0) b)"

definition fileExists :: "host_files \<Rightarrow> string \<Rightarrow> bool" where
  "fileExists fs p \<longleftrightarrow> fsStat fs p \<noteq> None"

definition DetectCapabilities :: "int \<Rightarrow> string option \<Rightarrow> host_files \<Rightarrow> capabilities" where
  "DetectCapabilities euid u fs =
     (let rel = unameRelease u; (major, minor) = (if rel \<noteq> '''' then parseKernelVersion rel else (0, 0))
      in \<lparr>caKernelVersion = rel, caKernelMajor = major, caKernelMinor = minor, caPrivileged = (euid = 0),
          caBTF = fileExists fs ''/sys/kernel/btf/vmlinux'', caRingbuf = kernelAtLeast major minor 5 8,
          caBPFLSM = (case fsRead fs ''/sys/kernel/security/lsm'' of
                        None \<Rightarrow> False
                      | Some d \<Rightarrow> ''bpf'' \<in> set (Split '','' (trim_space d))),
          caTC = kernelAtLeast major minor 4 19,
          caUprobe = (fileExists fs ''/sys/kernel/tracing/uprobe_events'' \<or> fileExists fs ''/sys/kernel/debug/tracing/uprobe_events'')\<rparr>)"

subsection \<open>The verdict\<close>

type_synonym support_level = string

abbreviation (input) SupportFull :: support_level where "SupportFull \<equiv> ''supported''"
abbreviation (input) SupportDegraded :: support_level where "SupportDegraded \<equiv> ''degraded''"
abbreviation (input) SupportUnsupported :: support_level where "SupportUnsupported \<equiv> ''unsupported''"

record assessment =
  asmLevel :: support_level
  asmBlocking :: "string list"
  asmReduced :: "string list"
  asmEnforceUnavailable :: bool

definition Assess :: "capabilities \<Rightarrow> bool \<Rightarrow> assessment" where
  "Assess c enforce =
     (let blocking =
            (if caPrivileged c then [] else [''privileged (CAP_BPF or root)'']) @
            (if caBTF c then [] else [''BTF (/sys/kernel/btf/vmlinux) for CO-RE'']) @
            (if caRingbuf c then [] else [''BPF ring buffer (kernel >= 5.8)'']) @
            (if enforce \<and> \<not> caBPFLSM c
             then [''BPF LSM required for enforce mode (add 'bpf' to CONFIG_LSM or the lsm= boot param)''] else []);
          reduced =
            (if caTC c then [] else [''TC network programs unavailable '' @ em_dash @ '' no L3/L4 flow visibility'']) @
            (if caUprobe c then [] else [''uprobes unavailable '' @ em_dash @ '' no pickle/deserialization detection'']) @
            (if \<not> enforce \<and> \<not> caBPFLSM c
             then [''BPF LSM unavailable '' @ em_dash @ '' file access is observed, not blocked''] else []);
          coreOK = (caPrivileged c \<and> caBTF c \<and> caRingbuf c)
      in \<lparr>asmLevel = (if \<not> coreOK then SupportUnsupported
                      else if blocking \<noteq> [] \<or> reduced \<noteq> [] then SupportDegraded
                      else SupportFull),
          asmBlocking = blocking, asmReduced = reduced, asmEnforceUnavailable = (enforce \<and> \<not> caBPFLSM c)\<rparr>)"

definition assessment_String :: "assessment \<Rightarrow> string" where
  "assessment_String a =
     ''support='' @ asmLevel a @
     (if asmBlocking a \<noteq> [] then '' blocking=['' @ join ''; '' (asmBlocking a) @ '']'' else '''') @
     (if asmReduced a \<noteq> [] then '' reduced=['' @ join ''; '' (asmReduced a) @ '']'' else '''')"

subsection \<open>What the verdict means\<close>

lemma Assess_level:
  "asmLevel (Assess c e) = SupportUnsupported \<longleftrightarrow> \<not> (caPrivileged c \<and> caBTF c \<and> caRingbuf c)"
  "asmLevel (Assess c e) = SupportFull \<longleftrightarrow>
     caPrivileged c \<and> caBTF c \<and> caRingbuf c \<and> caTC c \<and> caUprobe c \<and> caBPFLSM c"
  by (auto simp: Assess_def Let_def)

lemma Assess_blocking: "asmBlocking (Assess c e) = [] \<longleftrightarrow>
    caPrivileged c \<and> caBTF c \<and> caRingbuf c \<and> \<not> asmEnforceUnavailable (Assess c e)"
  by (auto simp: Assess_def Let_def)

text \<open>Asking for enforcement never improves the verdict.\<close>

definition level_rank :: "support_level \<Rightarrow> nat" where
  "level_rank l = (if l = SupportFull then 2 else if l = SupportDegraded then 1 else 0)"

lemma Assess_enforce_le: "level_rank (asmLevel (Assess c True)) \<le> level_rank (asmLevel (Assess c False))"
  by (simp add: Assess_def Let_def level_rank_def)

lemma kernelAtLeast_lex: "kernelAtLeast a b c d \<longleftrightarrow> (c, d) \<in> {(x, y). x < a \<or> x = a \<and> y \<le> b}"
  by (auto simp: kernelAtLeast_def)

subsection \<open>Reading a printed version\<close>

lemma takeWhile_all: "\<forall>c \<in> set s. P c \<Longrightarrow> takeWhile P (s @ t) = s @ takeWhile P t"
  by (induction s) auto

lemma itoa_nonneg_digits: "is_int64 i \<Longrightarrow> 0 \<le> i \<Longrightarrow> \<forall>c \<in> set (itoa i). is_digit c"
  using itoa_loop_chars by (auto simp: itoa_def is_digit_def code_def split: if_splits)

lemma parse_printed_version:
  assumes "is_int64 a" "0 \<le> a" "is_int64 b" "0 \<le> b" and "r = [] \<or> \<not> is_digit (hd r)" and "CHR ''.'' \<notin> set r"
  shows "parseKernelVersion (itoa a @ ''.'' @ itoa b @ r @ ''.'' @ s) = (a, b)" "parseKernelVersion (itoa a @ ''.'' @ itoa b @ r) = (a, b)"
proof -
  have dig: "\<not> is_digit CHR ''.''" by (simp add: is_digit_def code_def)
  have ab: "\<forall>c \<in> set (itoa a). is_digit c" "\<forall>c \<in> set (itoa b). is_digit c"
    using assms itoa_nonneg_digits by blast+
  then have dots: "CHR ''.'' \<notin> set (itoa a)" "CHR ''.'' \<notin> set (itoa b @ r)" using dig assms(6) by auto
  have pre: "digitsPrefix (itoa a) = itoa a" "digitsPrefix (itoa b @ r) = itoa b"
    using takeWhile_all [OF ab(1), of "[]"] takeWhile_all [OF ab(2), of r] assms(5) by (cases r; auto simp: digitsPrefix_def)+
  have v: "atoi_value (itoa a) = a" "atoi_value (itoa b) = b"
    using assms(1-4) by (simp_all add: atoi_value_def Atoi_itoa)
  have "Split ''.'' (itoa a @ ''.'' @ itoa b @ r @ ''.'' @ s) = itoa a # (itoa b @ r) # Split ''.'' s"
    using Split_char_Cons [OF dots(1), of "itoa b @ r @ ''.'' @ s"] Split_char_Cons [OF dots(2), of s] by simp
  then show "parseKernelVersion (itoa a @ ''.'' @ itoa b @ r @ ''.'' @ s) = (a, b)"
    by (simp add: parseKernelVersion_def Let_def pre v)
  have "Split ''.'' (itoa a @ ''.'' @ itoa b @ r) = [itoa a, itoa b @ r]"
    using Split_char_Cons [OF dots(1), of "itoa b @ r"] Split_char_Nil [OF dots(2)] by simp
  then show "parseKernelVersion (itoa a @ ''.'' @ itoa b @ r) = (a, b)"
    by (simp add: parseKernelVersion_def Let_def pre v)
qed

end
