(* ===== verification/Startup.thy ===== *)
theory Startup
  imports Symbols Capabilities Policy
begin

text \<open>
  The protection the daemon puts in place when it starts (\<^verbatim>\<open>run\<close> in \<^verbatim>\<open>src/cmd/neurosentry/main.go\<close>, up to the
  agent itself): configuration and policy, loading the kernel programs, the capability preflight, and the three
  groups of attachments.  A failed load or attachment is only logged; the preflight is the one place that refuses
  to start.  \<open>start_env\<close> holds the answers of the host.
\<close>

subsection \<open>The start\<close>

record launch_flags =
  lfConfigFile :: string
  lfSkipBPF :: bool
  lfAllowDegraded :: bool

record 'y start_env =
  seViper :: "'y viper"
  seNotExist :: "string \<Rightarrow> bool"
  seReadPolicy :: "string \<Rightarrow> string + string"
  seParsePolicy :: "string \<Rightarrow> string + policy"
  seLoads :: "string \<Rightarrow> bool"
  seEuid :: int
  seUname :: "string option"
  seFiles :: host_files
  seKernel :: kernel_env
  sePid :: int

datatype start_error = BadConfig config_error | BadPolicy policy_error | FailSafe "string list"

definition enforce_requested :: "config \<Rightarrow> bool" where
  "enforce_requested cfg \<longleftrightarrow> fimEnabled (prModelFIM (cfProtection cfg)) \<and> fimEnforceMode (prModelFIM (cfProtection cfg))"

definition host_assessment :: "'y start_env \<Rightarrow> config \<Rightarrow> assessment" where
  "host_assessment h cfg = Assess (DetectCapabilities (seEuid h) (seUname h) (seFiles h)) (enforce_requested cfg)"

definition preflight :: "'y start_env \<Rightarrow> launch_flags \<Rightarrow> config \<Rightarrow> start_error option" where
  "preflight h fl cfg =
     (if lfSkipBPF fl then None
      else
        let a = host_assessment h cfg
        in if asmEnforceUnavailable a \<and> \<not> lfAllowDegraded fl then Some (FailSafe (asmBlocking a)) else None)"

definition attach_fim :: "'y start_env \<Rightarrow> config \<Rightarrow> bpf_manager \<times> attachments \<Rightarrow> bpf_manager \<times> attachments" where
  "attach_fim h cfg st =
     (case st of (m, a) \<Rightarrow>
        if \<not> fimEnabled (prModelFIM (cfProtection cfg)) then st
        else case AttachLSM (seKernel h) m a of
          (a1, Some e) \<Rightarrow> (m, a1)
        | (a1, None) \<Rightarrow> (fst (AddTrustedPID (uint32 (sePid h)) m), a1))"

fun seed_blocklist :: "string list \<Rightarrow> bpf_manager \<Rightarrow> nat \<Rightarrow> bpf_manager \<times> nat" where
  "seed_blocklist [] m n = (m, n)"
| "seed_blocklist (s # ss) m n =
     (case ParseIP (trim_space s) of
        None \<Rightarrow> seed_blocklist ss m n
      | Some ip \<Rightarrow>
          (case AddBlockedIP ip m of
             (m1, None) \<Rightarrow> seed_blocklist ss m1 (Suc n)
           | (m1, Some e) \<Rightarrow> seed_blocklist ss m1 n))"

datatype net_report = NetOff | NetNotAttached | NetGateFailed | NetEnforcing nat | NetMonitoring nat

definition attach_network ::
  "'y start_env \<Rightarrow> config \<Rightarrow> bpf_manager \<times> attachments \<Rightarrow> (bpf_manager \<times> attachments) \<times> net_report" where
  "attach_network h cfg st =
     (case st of (m, a) \<Rightarrow>
        let n = prNetworkContainment (cfProtection cfg) in
        if \<not> netEnabled n then (st, NetOff)
        else case AttachTC (seKernel h) cfg m a of
          (a1, Some e) \<Rightarrow> ((m, a1), NetNotAttached)
        | (a1, None) \<Rightarrow>
            (case seed_blocklist (netBlockedIPs n) m 0 of
               (m1, blocked) \<Rightarrow>
                 (case SetNetworkEnforce (netBlockExfiltration n) m1 of
                    (m2, Some e) \<Rightarrow> ((m2, a1), NetGateFailed)
                  | (m2, None) \<Rightarrow> ((m2, a1), if netBlockExfiltration n then NetEnforcing blocked else NetMonitoring blocked))))"

definition attach_probes :: "'y start_env \<Rightarrow> config \<Rightarrow> bpf_manager \<times> attachments \<Rightarrow> bpf_manager \<times> attachments" where
  "attach_probes h cfg st =
     (case st of (m, a) \<Rightarrow>
        if pklEnabled (prPickleProtection (cfProtection cfg)) then (m, fst (AttachUprobes (seKernel h) cfg m a)) else st)"

record protection_state =
  psConfig :: config
  psPolicy :: policy
  psManager :: bpf_manager
  psAttached :: attachments
  psNetwork :: net_report

definition protect_host :: "'y start_env \<Rightarrow> launch_flags \<Rightarrow> config \<Rightarrow> policy \<Rightarrow> start_error + protection_state" where
  "protect_host h fl cfg pol =
     (let m = fst (manager_Load (seLoads h) (seEuid h = 0) (seUname h) (protection_of cfg) NewManager) in
      case preflight h fl cfg of
        Some e \<Rightarrow> Inl e
      | None \<Rightarrow>
          let (st, rep) = attach_network h cfg (attach_fim h cfg (m, no_attachments));
              (m1, a1) = attach_probes h cfg st
          in Inr \<lparr>psConfig = cfg, psPolicy = pol, psManager = m1, psAttached = a1, psNetwork = rep\<rparr>)"

definition daemon_start :: "'y start_env \<Rightarrow> launch_flags \<Rightarrow> start_error + protection_state" where
  "daemon_start h fl =
     (case config_Load (seViper h) (lfConfigFile fl) of
        Inl e \<Rightarrow> Inl (BadConfig e)
      | Inr cfg \<Rightarrow>
          (case Load (seReadPolicy h) (seParsePolicy h) (NewLoader (seNotExist h) (cfPolicyPath cfg)) of
             Inl e \<Rightarrow> Inl (BadPolicy e)
           | Inr pol \<Rightarrow> protect_host h fl cfg pol))"


subsection \<open>What a started daemon guards\<close>

lemma AttachLSM_LSM:
  "AttachLSM k m a = (a1, e) \<Longrightarrow> LsmLink \<in> set (atLinks a1) \<longleftrightarrow> LsmLink \<in> set (atLinks a) \<or> (bgLSM m \<noteq> None \<and> keAttachLSM k)"
  by (auto simp: AttachLSM_def split: if_splits)

text \<open>Probes change neither the file hook nor the recorded interfaces.\<close>

definition same_hold :: "attachments \<Rightarrow> attachments \<Rightarrow> bool" where
  "same_hold a b \<longleftrightarrow> (LsmLink \<in> set (atLinks a) \<longleftrightarrow> LsmLink \<in> set (atLinks b)) \<and> atTcInterfaces a = atTcInterfaces b"

lemma same_hold_probe [simp]:
  "same_hold a (a\<lparr>atLinks := atLinks a @ [ProbeLink p n]\<rparr>)"
  "same_hold a (b\<lparr>atLinks := atLinks b @ [ProbeLink p n]\<rparr>) = same_hold a b" "same_hold a a"
  "same_hold (a\<lparr>atLinks := atLinks a @ [ProbeLink p n]\<rparr>) b = same_hold a b"
  by (auto simp: same_hold_def)

lemma same_hold_trans: "same_hold a b \<Longrightarrow> same_hold b c \<Longrightarrow> same_hold a c"
  by (simp add: same_hold_def)

lemma torch_loop_hold: "same_hold a (fst (torch_loop k lib syms a))"
proof (induction syms)
  case (Cons s syms)
  then show ?case by (cases s) (simp add: Let_def same_hold_def)
qed simp

lemma pickle_loop_hold: "same_hold a (fst (pickle_loop k lib syms ld rd a))"
proof (induction syms arbitrary: ld rd a)
  case (Cons s syms)
  have "same_hold a (fst (pickle_loop k lib syms l r (a\<lparr>atLinks := atLinks a @ [ProbeLink p n]\<rparr>)))" for l r p n
    using Cons [of "a\<lparr>atLinks := atLinks a @ [ProbeLink p n]\<rparr>" l r] by simp
  moreover have "same_hold a (fst (pickle_loop k lib syms l r (a\<lparr>atLinks := (atLinks a @ [ProbeLink p n]) @ [ProbeLink p' n']\<rparr>)))" for l r p n p' n'
    using Cons [of "a\<lparr>atLinks := (atLinks a @ [ProbeLink p n]) @ [ProbeLink p' n']\<rparr>" l r] by (simp add: same_hold_def)
  ultimately show ?case using Cons by (cases s) (simp add: Let_def same_hold_def)
qed simp

lemma attachPyTorchProbes_hold: "same_hold a (fst (attachPyTorchProbes k a))"
proof -
  have "same_hold a (fst (case torch_loop k lib syms a of (a1, ok) \<Rightarrow> (a1, if ok then None else Some NoSymbolAttached)))" for lib syms
    using torch_loop_hold [of a k lib syms] by (cases "torch_loop k lib syms a") simp
  then show ?thesis by (simp add: attachPyTorchProbes_def split: option.split sum.split)
qed

lemma attachPickleProbes_hold: "same_hold a (fst (attachPickleProbes k a))"
proof -
  have "same_hold a (fst (case pickle_loop k lib syms False False a of (a1, ld, rd) \<Rightarrow> (a1, if ld then None else Some NoSymbolAttached)))" for lib syms
    using pickle_loop_hold [of a k lib syms False False] by (cases "pickle_loop k lib syms False False a") simp
  then show ?thesis by (simp add: attachPickleProbes_def Let_def split: option.split sum.split)
qed

lemma AttachUprobes_hold: "same_hold a (fst (AttachUprobes k cfg m a))"
  using attachPyTorchProbes_hold [of a k] attachPickleProbes_hold [of "fst (attachPyTorchProbes k a)" k] attachPickleProbes_hold [of a k]
  by (auto simp: AttachUprobes_def Let_def intro: same_hold_trans)

lemma AttachTC_LSM: "LsmLink \<in> set (atLinks (fst (AttachTC k cfg m a))) \<longleftrightarrow> LsmLink \<in> set (atLinks a)"
  by (simp add: AttachTC_def tc_fold_LSM split: sum.split)

lemma manager_Load_LSM:
  "bgLSM (fst (manager_Load ld su ver cfg NewManager)) \<noteq> None \<longleftrightarrow>
     su \<and> checkKernelVersion ver = None \<and> pcFIMEnabled cfg \<and> ld ''LSM''"
proof -
  have keep: "bgLSM (fst (loadTC ld m)) = bgLSM m" "bgLSM (fst (loadUprobes ld m)) = bgLSM m" for m
    by (simp_all add: loadTC_def loadUprobes_def)
  have lsm: "bgLSM (fst (loadLSM ld cfg NewManager)) \<noteq> None \<longleftrightarrow> ld ''LSM''"
    by (simp add: loadLSM_def NewManager_def split: prod.split)
  obtain m1 e1 where 1: "(if pcFIMEnabled cfg then loadLSM ld cfg NewManager else (NewManager, None)) = (m1, e1)" by fastforce
  obtain m2 e2 where 2: "(if pcNetEnabled cfg then loadTC ld m1 else (m1, None)) = (m2, e2)" by fastforce
  have "bgLSM m1 \<noteq> None \<longleftrightarrow> pcFIMEnabled cfg \<and> ld ''LSM''" using 1 lsm by (auto simp: NewManager_def split: if_splits)
  moreover have "bgLSM m2 = bgLSM m1" using 2 keep(1) [of m1] by (auto split: if_splits)
  moreover have "bgLSM (fst (manager_Load ld su ver cfg NewManager)) = bgLSM m1"
    if "su" "checkKernelVersion ver = None"
    using that 1 2 \<open>bgLSM m2 = bgLSM m1\<close> by (cases e1; cases e2) (simp_all add: manager_Load_def keep)
  moreover have "fst (manager_Load ld su ver cfg NewManager) = NewManager"
    if "\<not> (su \<and> checkKernelVersion ver = None)"
    using that by (auto simp: manager_Load_def)
  ultimately show ?thesis by (cases "su \<and> checkKernelVersion ver = None") (auto simp: NewManager_def)
qed

lemma attach_fim_LSM:
  "LsmLink \<in> set (atLinks (snd (attach_fim h cfg (m, no_attachments)))) \<longleftrightarrow>
     fimEnabled (prModelFIM (cfProtection cfg)) \<and> bgLSM m \<noteq> None \<and> keAttachLSM (seKernel h)"
  by (simp add: attach_fim_def AttachLSM_def no_attachments_def)

lemma attach_network_LSM:
  "LsmLink \<in> set (atLinks (snd (fst (attach_network h cfg st)))) \<longleftrightarrow> LsmLink \<in> set (atLinks (snd st))"
proof (cases st)
  case (Pair m a)
  obtain a1 e where tc: "AttachTC (seKernel h) cfg m a = (a1, e)" by fastforce
  then have "LsmLink \<in> set (atLinks a1) \<longleftrightarrow> LsmLink \<in> set (atLinks a)" using AttachTC_LSM [of "seKernel h" cfg m a] by simp
  then show ?thesis
    by (cases e) (simp_all add: attach_network_def Pair tc Let_def split: prod.split option.split)
qed

lemma attach_probes_hold: "same_hold (snd st) (snd (attach_probes h cfg st))"
  by (cases st) (simp add: attach_probes_def AttachUprobes_hold)

lemma attach_probes_LSM:
  "LsmLink \<in> set (atLinks (snd (attach_probes h cfg st))) \<longleftrightarrow> LsmLink \<in> set (atLinks (snd st))"
  "atTcInterfaces (snd (attach_probes h cfg st)) = atTcInterfaces (snd st)"
  using attach_probes_hold [of st h cfg] by (simp_all add: same_hold_def)

lemma daemon_start_cases:
  assumes "daemon_start h fl = Inr s"
  obtains pol where "config_Load (seViper h) (lfConfigFile fl) = Inr (psConfig s)"
    "Load (seReadPolicy h) (seParsePolicy h) (NewLoader (seNotExist h) (cfPolicyPath (psConfig s))) = Inr pol"
    "protect_host h fl (psConfig s) pol = Inr s" "preflight h fl (psConfig s) = None"
proof -
  obtain cfg pol where c: "config_Load (seViper h) (lfConfigFile fl) = Inr cfg"
    "Load (seReadPolicy h) (seParsePolicy h) (NewLoader (seNotExist h) (cfPolicyPath cfg)) = Inr pol" "protect_host h fl cfg pol = Inr s"
    using assms by (auto simp: daemon_start_def split: sum.splits)
  then have "preflight h fl cfg = None" "psConfig s = cfg"
    by (auto simp: protect_host_def Let_def split: option.splits prod.splits)
  with c that show thesis by blast
qed

lemma protect_host_LSM:
  assumes "protect_host h fl cfg pol = Inr s"
  shows "LsmLink \<in> set (atLinks (psAttached s)) \<longleftrightarrow>
     fimEnabled (prModelFIM (cfProtection cfg)) \<and> seEuid h = 0 \<and>
     checkKernelVersion (seUname h) = None \<and> seLoads h ''LSM'' \<and> keAttachLSM (seKernel h)"
proof -
  let ?m = "fst (manager_Load (seLoads h) (seEuid h = 0) (seUname h) (protection_of cfg) NewManager)"
  let ?st = "attach_network h cfg (attach_fim h cfg (?m, no_attachments))"
  have "psAttached s = snd (attach_probes h cfg (fst ?st))"
    using assms by (auto simp: protect_host_def Let_def split: option.splits prod.splits)
  then have "LsmLink \<in> set (atLinks (psAttached s)) \<longleftrightarrow>
      fimEnabled (prModelFIM (cfProtection cfg)) \<and> bgLSM ?m \<noteq> None \<and> keAttachLSM (seKernel h)"
    by (simp only: attach_probes_LSM attach_network_LSM attach_fim_LSM)
  then show ?thesis unfolding manager_Load_LSM by (auto simp: protection_of_def Let_def)
qed


lemma protect_host_network:
  assumes "protect_host h fl cfg pol = Inr s" "psNetwork s \<in> range NetEnforcing \<union> range NetMonitoring"
  shows "\<exists>is. chosen_interfaces (seKernel h) True cfg = Inr is \<and>
     atTcInterfaces (psAttached s) = filter (tc_reaches (seKernel h)) is"
proof -
  let ?m = "fst (manager_Load (seLoads h) (seEuid h = 0) (seUname h) (protection_of cfg) NewManager)"
  obtain m a where fim: "attach_fim h cfg (?m, no_attachments) = (m, a)" by fastforce
  have a: "atTcInterfaces a = []"
    using fim by (auto simp: attach_fim_def AttachLSM_def no_attachments_def split: if_splits)
  obtain m1 a1 rep where net: "attach_network h cfg (m, a) = ((m1, a1), rep)" by (metis surj_pair)
  have s: "psNetwork s = rep" "psAttached s = snd (attach_probes h cfg (m1, a1))"
    using assms(1) fim net by (auto simp: protect_host_def Let_def split: option.splits prod.splits)
  then have "AttachTC (seKernel h) cfg m a = (a1, None)"
    using net assms(2) by (auto simp: attach_network_def Let_def split: if_splits prod.splits option.splits)
  with AttachTC_exact obtain "is" where "chosen_interfaces (seKernel h) True cfg = Inr is"
    "atTcInterfaces a1 = filter (tc_reaches (seKernel h)) is" using a by fastforce
  with s show ?thesis by (simp add: attach_probes_LSM)
qed

lemma protect_host_total: "preflight h fl cfg = None \<Longrightarrow> \<exists>s. protect_host h fl cfg pol = Inr s \<and> psConfig s = cfg"
  by (simp add: protect_host_def Let_def split_beta)

lemma daemon_start_ignores_kernel:
  assumes "daemon_start h fl = Inr s"
  shows "\<exists>s'. daemon_start (h\<lparr>seLoads := ld, seKernel := k\<rparr>) fl = Inr s' \<and> psConfig s' = psConfig s"
proof -
  let ?h = "h\<lparr>seLoads := ld, seKernel := k\<rparr>"
  from assms obtain pol where c: "config_Load (seViper h) (lfConfigFile fl) = Inr (psConfig s)"
    "Load (seReadPolicy h) (seParsePolicy h) (NewLoader (seNotExist h) (cfPolicyPath (psConfig s))) = Inr pol"
    "preflight h fl (psConfig s) = None" by (rule daemon_start_cases)
  have "preflight ?h fl (psConfig s) = None" using c(3) by (simp add: preflight_def host_assessment_def Let_def split: if_splits)
  then obtain s' where "protect_host ?h fl (psConfig s) pol = Inr s'" "psConfig s' = psConfig s"
    using protect_host_total by blast
  with c show ?thesis by (auto simp: daemon_start_def)
qed

text \<open>
  C18: What a started daemon guards.  The file hook is attached exactly when integrity monitoring is on and the
  process is root on a kernel whose release reads as 5.10 or newer and that accepts the programs and the attachment; with enforcement requested
  and neither override flag set the kernel at least lists BPF LSM.  But nothing else stops the start: the same
  configuration starts whatever the kernel answers to loading and attaching, so an enforcing daemon may run with no
  hook at all.  Likewise a network report of enforcing or monitoring says only that interfaces were chosen: the
  guarded ones are those that could be reached, possibly none.
\<close>

theorem startup_guarded:
  assumes "daemon_start h fl = Inr s"
  shows "(LsmLink \<in> set (atLinks (psAttached s)) \<longleftrightarrow>
       fimEnabled (prModelFIM (cfProtection (psConfig s))) \<and> seEuid h = 0 \<and>
       checkKernelVersion (seUname h) = None \<and> seLoads h ''LSM'' \<and> keAttachLSM (seKernel h)) \<and>
     (enforce_requested (psConfig s) \<and> \<not> lfSkipBPF fl \<and> \<not> lfAllowDegraded fl \<longrightarrow>
       caBPFLSM (DetectCapabilities (seEuid h) (seUname h) (seFiles h))) \<and>
     (\<forall>ld k. \<exists>s'. daemon_start (h\<lparr>seLoads := ld, seKernel := k\<rparr>) fl = Inr s' \<and> psConfig s' = psConfig s \<and>
        (LsmLink \<in> set (atLinks (psAttached s')) \<longrightarrow> ld ''LSM'' \<and> keAttachLSM k)) \<and>
     (psNetwork s \<in> range NetEnforcing \<union> range NetMonitoring \<longrightarrow>
       (\<exists>is. chosen_interfaces (seKernel h) True (psConfig s) = Inr is \<and>
          atTcInterfaces (psAttached s) = filter (tc_reaches (seKernel h)) is))"
proof -
  from assms obtain pol where p: "protect_host h fl (psConfig s) pol = Inr s" "preflight h fl (psConfig s) = None"
    by (rule daemon_start_cases)
  have "enforce_requested (psConfig s) \<and> \<not> lfSkipBPF fl \<and> \<not> lfAllowDegraded fl \<longrightarrow>
      caBPFLSM (DetectCapabilities (seEuid h) (seUname h) (seFiles h))"
    using p(2) by (auto simp: preflight_def host_assessment_def Assess_def Let_def split: if_splits)
  moreover have "\<exists>s'. daemon_start (h\<lparr>seLoads := ld, seKernel := k\<rparr>) fl = Inr s' \<and> psConfig s' = psConfig s \<and>
      (LsmLink \<in> set (atLinks (psAttached s')) \<longrightarrow> ld ''LSM'' \<and> keAttachLSM k)" for ld k
  proof -
    obtain s' where s': "daemon_start (h\<lparr>seLoads := ld, seKernel := k\<rparr>) fl = Inr s'" "psConfig s' = psConfig s"
      using daemon_start_ignores_kernel [OF assms] by blast
    from s'(1) obtain pol' where "protect_host (h\<lparr>seLoads := ld, seKernel := k\<rparr>) fl (psConfig s') pol' = Inr s'"
      by (rule daemon_start_cases)
    from protect_host_LSM [OF this] s' show ?thesis by auto
  qed
  ultimately show ?thesis using protect_host_LSM [OF p(1)] protect_host_network [OF p(1)] by blast
qed


definition demo_start :: "unit start_env" where
  "demo_start =
     \<lparr>seViper = \<lparr>vExists = (\<lambda>_. False), vRead = (\<lambda>_. None), vUnmarshal = (\<lambda>_ _. Some config_Default)\<rparr>,
      seNotExist = (\<lambda>_. True), seReadPolicy = (\<lambda>_. Inl ''''), seParsePolicy = (\<lambda>_. Inl ''''), seLoads = (\<lambda>_. True), seEuid = 0,
      seUname = Some ''6.8.0'',
      seFiles = \<lparr>fsStat = (\<lambda>_. None), fsRead = (\<lambda>p. if p = ''/sys/kernel/security/lsm'' then Some ''lockdown,bpf'' else None), fsWalk = (\<lambda>_. [])\<rparr>,
      seKernel = demo_kernel, sePid = 77\<rparr>"

definition demo_flags :: launch_flags where
  "demo_flags = \<lparr>lfConfigFile = '''', lfSkipBPF = False, lfAllowDegraded = False\<rparr>"

lemma demo_start_kernel: "checkKernelVersion (seUname demo_start) = None"
  by code_simp

lemma demo_start_runs: "\<exists>s. daemon_start demo_start demo_flags = Inr s \<and> psConfig s = config_Default"
proof -
  have "config_Validate config_Default = Inr config_Default"
    unfolding Validate_id by (simp add: valid_config_def config_Default_def)
  then have "config_Load (seViper demo_start) '''' = Inr config_Default"
    by (simp add: config_Load_def demo_start_def Let_def config_Default_def)
  moreover have "Load (seReadPolicy demo_start) (seParsePolicy demo_start) (NewLoader (seNotExist demo_start) p) = Inr DefaultPolicy" for p
    by (simp add: Load_def NewLoader_def demo_start_def)
  moreover have "caBPFLSM (DetectCapabilities (seEuid demo_start) (seUname demo_start) (seFiles demo_start))" by code_simp
  then have "preflight demo_start demo_flags config_Default = None"
    by (simp add: preflight_def host_assessment_def Assess_def Let_def)
  ultimately show ?thesis using protect_host_total [of demo_start demo_flags config_Default DefaultPolicy]
    by (simp add: daemon_start_def demo_flags_def)
qed

theorem startup_guarded_witness:
  "\<exists>s. daemon_start demo_start demo_flags = Inr s \<and> LsmLink \<in> set (atLinks (psAttached s)) \<and>
     (\<exists>s'. daemon_start (demo_start\<lparr>seLoads := (\<lambda>_. False), seKernel := demo_kernel\<rparr>) demo_flags = Inr s' \<and> LsmLink \<notin> set (atLinks (psAttached s')))"
proof -
  obtain s where s: "daemon_start demo_start demo_flags = Inr s" "psConfig s = config_Default" using demo_start_runs by blast
  have "LsmLink \<in> set (atLinks (psAttached s))"
    using startup_guarded [OF s(1)] s(2) demo_start_kernel
    by (simp add: demo_start_def demo_kernel_def config_Default_def)
  moreover obtain s' where "daemon_start (demo_start\<lparr>seLoads := (\<lambda>_. False), seKernel := demo_kernel\<rparr>) demo_flags = Inr s'"
    "LsmLink \<notin> set (atLinks (psAttached s'))" using startup_guarded [OF s(1)] by metis
  ultimately show ?thesis using s by blast
qed

end
