(* ===== verification/Coverage.thy ===== *)
theory Coverage
  imports Correlator "HOL-Library.List_Lexorder" "HOL-Library.Char_ord" "HOL-Library.Product_Lexorder" "HOL-Library.Multiset"
begin

text \<open>
  The framework coverage report (\<^verbatim>\<open>src/pkg/correlate/coverage.go\<close>) and the knowledge base
  (\<^verbatim>\<open>src/pkg/correlate/kb.go\<close>) derived from the detection catalog.  Strings are compared bytewise, as Go
  does; \<open>ord\<close> is the order in which Go visits the map of techniques.  The curated prose of the knowledge
  base is the argument \<open>guidance\<close>.
\<close>

subsection \<open>Coverage\<close>

record technique_coverage =
  tcFramework :: string
  tcID :: string
  tcName :: string
  tcRuleCount :: nat
  tcEnabled :: nat
  tcRules :: "string list"

record coverage_report =
  crTechniques :: "technique_coverage list"
  crTotalTechs :: nat
  crCoveredTechs :: nat
  crTotalRules :: nat
  crEnabledRules :: nat
  crATTACK :: nat
  crLLM :: nat

definition attackNames :: "(string, string) gomap" where
  "attackNames =
     [(''T1041'', ''Exfiltration Over C2 Channel''), (''T1567'', ''Exfiltration Over Web Service''),
      (''T1059'', ''Command and Scripting Interpreter''), (''T1059.004'', ''Unix Shell''), (''T1195'', ''Supply Chain Compromise''),
      (''T1030'', ''Data Transfer Size Limits''), (''T1611'', ''Escape to Host''), (''T1552'', ''Unsecured Credentials'')]"

definition llmNames :: "(string, string) gomap" where
  "llmNames =
     [(''LLM01'', ''Prompt Injection''), (''LLM02'', ''Sensitive Information Disclosure''), (''LLM03'', ''Supply Chain Vulnerabilities''),
      (''LLM06'', ''Excessive Agency''), (''LLM10'', ''Model Theft'')]"

record coverage_acc =
  caFramework :: string
  caName :: string
  caRules :: "string list"
  caEnabled :: nat

abbreviation (input) ATTACK :: string where "ATTACK \<equiv> ''MITRE ATT&CK''"
abbreviation (input) OWASP :: string where "OWASP \<equiv> ''OWASP LLM''"

definition cov_add :: "string \<Rightarrow> string \<Rightarrow> string \<Rightarrow> string \<Rightarrow> bool \<Rightarrow> (string, coverage_acc) gomap \<Rightarrow> (string, coverage_acc) gomap" where
  "cov_add framework i name ruleID enabled m =
     (if i = '''' then m
      else
        let key = framework @ ''|'' @ i;
            a = mget \<lparr>caFramework = framework, caName = name, caRules = [], caEnabled = 0\<rparr> m key
        in mput key (a\<lparr>caRules := caRules a @ [ruleID], caEnabled := (if enabled then caEnabled a + 1 else caEnabled a)\<rparr>) m)"

definition cov_rule :: "detection_info \<Rightarrow> (string, coverage_acc) gomap \<Rightarrow> (string, coverage_acc) gomap" where
  "cov_rule d m =
     cov_add OWASP (diTechnique d) (mget '''' llmNames (diTechnique d)) (diID d) (diEnabled d)
       (cov_add ATTACK (diMitreAttack d) (mget '''' attackNames (diMitreAttack d)) (diID d) (diEnabled d) m)"

definition cov_entry :: "string \<Rightarrow> coverage_acc \<Rightarrow> technique_coverage" where
  "cov_entry key a =
     (let i = drop (length (caFramework a) + 1) key
      in \<lparr>tcFramework = caFramework a, tcID = i, tcName = (if caName a = '''' then i else caName a),
          tcRuleCount = length (caRules a), tcEnabled = caEnabled a, tcRules = caRules a\<rparr>)"

definition ComputeCoverage :: "(string list \<Rightarrow> string list) \<Rightarrow> detection_info list \<Rightarrow> coverage_report" where
  "ComputeCoverage ord dets =
     (let m = fold cov_rule dets [];
          accs = map (\<lambda>k. (k, the (map_of m k))) (ord (keys m));
          ts = map (\<lambda>(k, a). cov_entry k a) accs
      in \<lparr>crTechniques = sort_key (\<lambda>t. (tcFramework t, tcID t)) ts, crTotalTechs = length ts,
          crCoveredTechs = length (filter (\<lambda>t. 0 < tcEnabled t) ts), crTotalRules = length dets,
          crEnabledRules = length (filter diEnabled dets),
          crATTACK = length (filter (\<lambda>t. tcFramework t = ATTACK) ts), crLLM = length (filter (\<lambda>t. tcFramework t \<noteq> ATTACK) ts)\<rparr>)"

subsection \<open>The knowledge base\<close>

record kb_extra =
  keRationale :: string
  keRemediation :: "string list"
  keFalsePositives :: "string list"

record kb_entry =
  kbRuleID :: string
  kbName :: string
  kbCategory :: string
  kbSeverity :: string
  kbOWASP :: string
  kbMITRE :: string
  kbWindow :: dur
  kbOrdered :: bool
  kbSummary :: string
  kbRationale :: string
  kbRemediation :: "string list"
  kbFalsePositives :: "string list"
  kbReferences :: "string list"

definition add_ref :: "string \<Rightarrow> string list \<Rightarrow> string list" where
  "add_ref u refs = (if u \<noteq> '''' \<and> u \<notin> set refs then refs @ [u] else refs)"

definition mitre_link :: "string \<Rightarrow> string" where
  "mitre_link m =
     (let base = takeWhile (\<lambda>c. c \<noteq> CHR ''.'') m; rest = dropWhile (\<lambda>c. c \<noteq> CHR ''.'') m; sub = drop 1 rest
      in ''https://attack.mitre.org/techniques/'' @ base @ ''/'' @ (if sub \<noteq> '''' then sub @ ''/'' else ''''))"

definition kbReferences_of :: "rule \<Rightarrow> string list" where
  "kbReferences_of r =
     (let refs = (if rMitreAttack r \<noteq> '''' then add_ref (mitre_link (rMitreAttack r)) [] else []);
          refs1 = (if rTechnique r \<noteq> ''''
                   then add_ref ''https://owasp.org/www-project-top-10-for-large-language-model-applications/'' refs else refs)
      in fold add_ref (rReferences r) refs1)"

definition kbEntryForRule :: "(string, kb_extra) gomap \<Rightarrow> rule \<Rightarrow> kb_entry" where
  "kbEntryForRule guidance r =
     (let (why, remedy, fps) = (case map_of guidance (rID r) of
          Some g \<Rightarrow> (keRationale g, keRemediation g, keFalsePositives g)
        | None \<Rightarrow> (rRationale r, rRemediation r, rFalsePositives r))
      in \<lparr>kbRuleID = rID r, kbName = rName r, kbCategory = rCategory r, kbSeverity = rSeverity r, kbOWASP = rTechnique r,
          kbMITRE = rMitreAttack r, kbWindow = rWindow r, kbOrdered = rOrdered r, kbSummary = rDescription r,
          kbRationale = why, kbRemediation = remedy, kbFalsePositives = fps, kbReferences = kbReferences_of r\<rparr>)"

text \<open>Articles with the same rule identifier may come in any order: \<^verbatim>\<open>sort.Slice\<close> is not stable.\<close>

definition kbEntriesForRules :: "(kb_entry list \<Rightarrow> kb_entry list) \<Rightarrow> (string, kb_extra) gomap \<Rightarrow> rule list \<Rightarrow> kb_entry list" where
  "kbEntriesForRules perm guidance rules = sort_key kbRuleID (perm (map (kbEntryForRule guidance) rules))"

definition KnowledgeBase :: "(kb_entry list \<Rightarrow> kb_entry list) \<Rightarrow> (string, kb_extra) gomap \<Rightarrow> correlator \<Rightarrow> kb_entry list" where
  "KnowledgeBase perm guidance c = kbEntriesForRules perm guidance (cRules c)"

subsection \<open>What the report counts\<close>

definition techniques_of :: "detection_info \<Rightarrow> (string \<times> string) set" where
  "techniques_of d = {(f, i). i \<noteq> '''' \<and> (f = ATTACK \<and> i = diMitreAttack d \<or> f = OWASP \<and> i = diTechnique d)}"

definition tkey :: "string \<times> string \<Rightarrow> string" where
  "tkey fi = fst fi @ ''|'' @ snd fi"

lemma tkey_inject: "f \<in> {ATTACK, OWASP} \<Longrightarrow> f' \<in> {ATTACK, OWASP} \<Longrightarrow> tkey (f, i) = tkey (f', i') \<longleftrightarrow> f = f' \<and> i = i'"
  by (auto simp: tkey_def)

text \<open>The accumulator of a technique: the rules that carry it, in catalog order, and how many are enabled.\<close>

definition rules_for :: "detection_info list \<Rightarrow> string \<times> string \<Rightarrow> detection_info list" where
  "rules_for dets fi = filter (\<lambda>d. fi \<in> techniques_of d) dets"

lemma map_of_cov_add:
  assumes "framework \<in> {ATTACK, OWASP}" "f \<in> {ATTACK, OWASP}"
  shows "map_of (cov_add framework i name rid en m) (tkey (f, j)) =
     (if i \<noteq> '''' \<and> f = framework \<and> j = i
      then Some (let a = mget \<lparr>caFramework = framework, caName = name, caRules = [], caEnabled = 0\<rparr> m (tkey (f, j))
                 in a\<lparr>caRules := caRules a @ [rid], caEnabled := (if en then caEnabled a + 1 else caEnabled a)\<rparr>)
      else map_of m (tkey (f, j)))"
  using tkey_inject [OF assms, of i j] tkey_inject [OF assms(2,1), of j i]
  by (auto simp: cov_add_def Let_def tkey_def [of "(framework, i)", simplified, symmetric])

lemma keys_cov_add: "set (keys (cov_add framework i name rid en m)) = (if i = '''' then set (keys m) else insert (tkey (framework, i)) (set (keys m)))"
  by (simp add: cov_add_def Let_def tkey_def)

definition tech_name :: "string \<times> string \<Rightarrow> string" where
  "tech_name fi = (if fst fi = ATTACK then mget '''' attackNames (snd fi) else mget '''' llmNames (snd fi))"

definition acc_of :: "detection_info list \<Rightarrow> string \<times> string \<Rightarrow> coverage_acc option" where
  "acc_of dets fi =
     (let rs = rules_for dets fi in
      if rs = [] then None
      else Some \<lparr>caFramework = fst fi, caName = tech_name fi, caRules = map diID rs, caEnabled = length (filter diEnabled rs)\<rparr>)"


lemma rules_for_snoc: "rules_for (dets @ [d]) fi = rules_for dets fi @ (if fi \<in> techniques_of d then [d] else [])"
  by (simp add: rules_for_def)

lemma acc_of_snoc:
  "acc_of (dets @ [d]) fi =
     (if fi \<in> techniques_of d
      then Some (let a = (case acc_of dets fi of None \<Rightarrow> \<lparr>caFramework = fst fi, caName = tech_name fi, caRules = [], caEnabled = 0\<rparr> | Some a \<Rightarrow> a)
                 in a\<lparr>caRules := caRules a @ [diID d], caEnabled := (if diEnabled d then caEnabled a + 1 else caEnabled a)\<rparr>)
      else acc_of dets fi)"
  by (auto simp: acc_of_def rules_for_snoc Let_def)

lemma map_of_cov_rule:
  assumes "f \<in> {ATTACK, OWASP}"
  shows "map_of (cov_rule d m) (tkey (f, i)) =
     (if (f, i) \<in> techniques_of d
      then Some (let a = mget \<lparr>caFramework = f, caName = tech_name (f, i), caRules = [], caEnabled = 0\<rparr> m (tkey (f, i))
                 in a\<lparr>caRules := caRules a @ [diID d], caEnabled := (if diEnabled d then caEnabled a + 1 else caEnabled a)\<rparr>)
      else map_of m (tkey (f, i)))"
proof (cases "f = ATTACK")
  case True
  then show ?thesis
    by (cases "i \<noteq> '''' \<and> i = diMitreAttack d") (auto simp: cov_rule_def map_of_cov_add techniques_of_def tech_name_def)
next
  case False
  with assms have "f = OWASP" by simp
  then show ?thesis
    by (cases "i \<noteq> '''' \<and> i = diTechnique d")
      (auto simp: cov_rule_def map_of_cov_add techniques_of_def tech_name_def mget_def)
qed

lemma map_of_coverage: "f \<in> {ATTACK, OWASP} \<Longrightarrow> map_of (fold cov_rule dets []) (tkey (f, i)) = acc_of dets (f, i)"
proof (induction dets rule: rev_induct)
  case Nil
  show ?case by (simp add: acc_of_def rules_for_def)
next
  case (snoc d dets)
  then have "map_of (fold cov_rule dets []) (tkey (f, i)) = acc_of dets (f, i)" by blast
  then show ?case unfolding fold_append acc_of_snoc fst_conv by (simp add: map_of_cov_rule [OF snoc.prems] mget_def Let_def)
qed

definition catalog_techniques :: "detection_info list \<Rightarrow> (string \<times> string) set" where
  "catalog_techniques dets = (\<Union>d \<in> set dets. techniques_of d)"

lemma keys_coverage: "set (keys (fold cov_rule dets [])) = tkey ` catalog_techniques dets"
proof (induction dets rule: rev_induct)
  case (snoc d dets)
  have "set (keys (fold cov_rule (dets @ [d]) [])) = tkey ` techniques_of d \<union> set (keys (fold cov_rule dets []))"
    by (auto simp: cov_rule_def keys_cov_add techniques_of_def simp del: set_map)
  with snoc show ?case by (auto simp: catalog_techniques_def)
qed (simp add: catalog_techniques_def)

lemma gomap_ok_coverage: "gomap_ok (fold cov_rule dets [])"
proof -
  have "gomap_ok m \<Longrightarrow> gomap_ok (fold cov_rule dets m)" for m
    by (induction dets arbitrary: m) (auto simp: cov_rule_def cov_add_def Let_def)
  then show ?thesis by simp
qed

lemma techniques_frameworks: "(f, i) \<in> catalog_techniques dets \<Longrightarrow> f \<in> {ATTACK, OWASP}"
  by (auto simp: catalog_techniques_def techniques_of_def)

lemma tkey_inj_on: "inj_on tkey (catalog_techniques dets)"
proof (rule inj_onI)
  fix x y assume xy: "x \<in> catalog_techniques dets" "y \<in> catalog_techniques dets" "tkey x = tkey y"
  obtain f i f' i' where "x = (f, i)" "y = (f', i')" by (meson surj_pair)
  with xy tkey_inject [of f f' i i'] techniques_frameworks [of f i dets] techniques_frameworks [of f' i' dets] show "x = y" by auto
qed

text \<open>The report entry of a technique.\<close>

definition entry_of :: "detection_info list \<Rightarrow> string \<times> string \<Rightarrow> technique_coverage" where
  "entry_of dets fi =
     (let rs = rules_for dets fi
      in \<lparr>tcFramework = fst fi, tcID = snd fi, tcName = (if tech_name fi = '''' then snd fi else tech_name fi),
          tcRuleCount = length rs, tcEnabled = length (filter diEnabled rs), tcRules = map diID rs\<rparr>)"

lemma cov_entry_of:
  assumes "fi \<in> catalog_techniques dets"
  shows "cov_entry (tkey fi) (the (map_of (fold cov_rule dets []) (tkey fi))) = entry_of dets fi"
proof -
  obtain f i where fi: "fi = (f, i)" by fastforce
  have "rules_for dets fi \<noteq> []" using assms by (auto simp: rules_for_def catalog_techniques_def filter_empty_conv)
  moreover have "f \<in> {ATTACK, OWASP}" using assms techniques_frameworks fi by blast
  ultimately show ?thesis
    using map_of_coverage [of f dets i] fi by (simp add: acc_of_def Let_def cov_entry_def entry_of_def tkey_def)
qed

lemma finite_catalog [simp]: "finite (catalog_techniques dets)"
proof -
  have "techniques_of d \<subseteq> {(ATTACK, diMitreAttack d), (OWASP, diTechnique d)}" for d by (auto simp: techniques_of_def)
  then have "finite (techniques_of d)" for d by (meson finite.emptyI finite_insert finite_subset)
  then show ?thesis by (simp add: catalog_techniques_def)
qed

text \<open>The techniques the loop visits, in its order.\<close>

lemma coverage_list:
  assumes "range_order ord"
  obtains fis where "distinct fis" "set fis = catalog_techniques dets"
    "map (\<lambda>(k, a). cov_entry k a) (map (\<lambda>k. (k, the (map_of (fold cov_rule dets []) k))) (ord (keys (fold cov_rule dets [])))) =
       map (entry_of dets) fis"
proof -
  let ?m = "fold cov_rule dets []" and ?ks = "ord (keys (fold cov_rule dets []))"
  have d: "distinct (keys ?m)" using gomap_ok_coverage [of dets] by (simp add: gomap_ok_def)
  have s: "set ?ks = tkey ` catalog_techniques dets" "distinct ?ks"
    using range_orderD [OF assms] range_order_distinct [OF assms d] keys_coverage [of dets] d by auto
  define fis where "fis = map (the_inv_into (catalog_techniques dets) tkey) ?ks"
  have bk: "tkey (the_inv_into (catalog_techniques dets) tkey k) = k \<and> the_inv_into (catalog_techniques dets) tkey k \<in> catalog_techniques dets"
    if "k \<in> set ?ks" for k
    using that s(1) tkey_inj_on [of dets] by (metis f_the_inv_into_f the_inv_into_into subset_refl)
  have f: "map tkey fis = ?ks" unfolding fis_def by (simp add: bk map_idI)
  have i: "set fis \<subseteq> catalog_techniques dets" using bk by (auto simp: fis_def)
  show thesis
  proof
    show "distinct fis" using s(2) f by (metis distinct_map)
    have "tkey ` set fis = tkey ` catalog_techniques dets" using f s(1) by (metis set_map)
    then show "set fis = catalog_techniques dets" using tkey_inj_on i by (metis inj_on_image_eq_iff subset_refl)
    show "map (\<lambda>(k, a). cov_entry k a) (map (\<lambda>k. (k, the (map_of ?m k))) ?ks) = map (entry_of dets) fis"
      using i by (auto simp: f [symmetric] cov_entry_of)
  qed
qed

text \<open>
  The report is exact and does not depend on the order of Go's map: it lists each technique some rule carries, sorted by
  framework and identifier, with the rules that carry it in catalog order; a technique counts as covered exactly if one of
  them is enabled.
\<close>

lemma coverage_exact:
  assumes "range_order ord"
  shows "crTechniques (ComputeCoverage ord dets) = map (entry_of dets) (sorted_list_of_set (catalog_techniques dets)) \<and>
    crTotalTechs (ComputeCoverage ord dets) = card (catalog_techniques dets) \<and>
    crCoveredTechs (ComputeCoverage ord dets) = card {fi. \<exists>d \<in> set dets. diEnabled d \<and> fi \<in> techniques_of d}"
proof -
  obtain fis where f: "distinct fis" "set fis = catalog_techniques dets"
    "map (\<lambda>(k, a). cov_entry k a) (map (\<lambda>k. (k, the (map_of (fold cov_rule dets []) k))) (ord (keys (fold cov_rule dets [])))) =
       map (entry_of dets) fis"
    by (rule coverage_list [OF assms])
  let ?srt = "sorted_list_of_set (catalog_techniques dets)"
  have k: "(\<lambda>t. (tcFramework t, tcID t)) \<circ> entry_of dets = (\<lambda>fi. fi)" by (auto simp: entry_of_def Let_def fun_eq_iff)
  have "mset fis = mset ?srt" using f(1,2) by (simp add: set_eq_iff_mset_eq_distinct [symmetric])
  then have "mset (map (entry_of dets) fis) = mset (map (entry_of dets) ?srt)" by simp
  moreover have "inj_on (\<lambda>t. (tcFramework t, tcID t)) (set (map (entry_of dets) fis))"
    by (auto simp: inj_on_def entry_of_def Let_def)
  moreover have "sorted (map (\<lambda>t. (tcFramework t, tcID t)) (map (entry_of dets) ?srt))" by (simp add: k)
  ultimately have srt: "sort_key (\<lambda>t. (tcFramework t, tcID t)) (map (entry_of dets) fis) = map (entry_of dets) ?srt"
    by (rule sort_key_inj_key_eq)
  have "0 < tcEnabled (entry_of dets fi) \<longleftrightarrow> (\<exists>d \<in> set dets. diEnabled d \<and> fi \<in> techniques_of d)" for fi
    by (auto simp: entry_of_def Let_def rules_for_def filter_empty_conv)
  then have "length (filter (\<lambda>fi. 0 < tcEnabled (entry_of dets fi)) fis) = card {fi. \<exists>d \<in> set dets. diEnabled d \<and> fi \<in> techniques_of d}"
    using f(1,2) by (auto simp: distinct_card [symmetric] catalog_techniques_def intro!: arg_cong [of _ _ card])
  moreover have "length fis = card (catalog_techniques dets)" using distinct_card [OF f(1)] f(2) by simp
  ultimately show ?thesis
    unfolding ComputeCoverage_def Let_def f(3) by (simp add: srt filter_map comp_def)
qed


subsection \<open>The knowledge base is complete\<close>

lemma distinct_add_refs: "distinct refs \<Longrightarrow> distinct (fold add_ref us refs)"
  by (induction us arbitrary: refs) (simp_all add: add_ref_def)

lemma kbReferences_distinct: "distinct (kbReferences_of r)"
  unfolding kbReferences_of_def Let_def by (rule distinct_add_refs) (simp add: add_ref_def)

lemma kb_complete:
  assumes "\<And>xs. mset (perm xs) = mset xs"
  shows "mset (map kbRuleID (KnowledgeBase perm guidance c)) = mset (map rID (cRules c)) \<and>
    sorted (map kbRuleID (KnowledgeBase perm guidance c)) \<and>
    (\<forall>e \<in> set (KnowledgeBase perm guidance c). distinct (kbReferences e))"
proof -
  have m: "mset (KnowledgeBase perm guidance c) = mset (map (kbEntryForRule guidance) (cRules c))"
    by (simp add: KnowledgeBase_def kbEntriesForRules_def assms)
  have i: "kbRuleID (kbEntryForRule guidance r) = rID r" "distinct (kbReferences (kbEntryForRule guidance r))" for r
    by (simp_all add: kbEntryForRule_def kbReferences_distinct split: prod.splits)
  have "mset (map kbRuleID (KnowledgeBase perm guidance c)) = image_mset kbRuleID (mset (map (kbEntryForRule guidance) (cRules c)))"
    using m by (metis mset_map)
  moreover have "set (KnowledgeBase perm guidance c) = kbEntryForRule guidance ` set (cRules c)"
    using mset_eq_setD [OF m] by simp
  ultimately show ?thesis
    by (simp add: i multiset.map_comp comp_def) (simp add: KnowledgeBase_def kbEntriesForRules_def)
qed

end
