(* ===== verification/Datasets.thy ===== *)
theory Datasets
  imports MCP Capabilities
begin

text \<open>
  Importing recorded telemetry (\<^verbatim>\<open>src/pkg/replay\<close>) and the start-up import of \<^verbatim>\<open>src/cmd/neurosentry/main.go\<close>.
  Raw records become events, events become signals of the correlation engine.  JSON decoding, time layouts and the
  textual form of floating-point numbers are parameters; a file is the lines the scanner yields and whether it
  stopped with an error.  The auditd parser slices its input, so it can panic: \<open>None\<close>.
\<close>

subsection \<open>Records and fields\<close>

datatype any_json = AnyStr string | AnyNum float64 | AnyBool bool | AnyOther

type_synonym raw_record = "(string, any_json) gomap"

record replay_event =
  reTS :: time
  rePID :: int
  reLayer :: layer
  reKind :: string
  reAttrs :: "(string, string) gomap"
  reSeverity :: string

record replay_env =
  rvFloat :: "float64 \<Rightarrow> string"
  rvTime :: "string \<Rightarrow> string \<Rightarrow> time option"
  rvParseFloat :: "string \<Rightarrow> float64 option"

definition ToSignal :: "replay_event \<Rightarrow> signal" where
  "ToSignal e =
     \<lparr>sTimestamp = reTS e, sPID = rePID e, sTenantID = '''', sLayer = reLayer e, sKind = reKind e, sAttributes = reAttrs e, sSeverity = reSeverity e\<rparr>"

fun firstStr :: "replay_env \<Rightarrow> raw_record \<Rightarrow> string list \<Rightarrow> string" where
  "firstStr v rec [] = ''''"
| "firstStr v rec (k # ks) =
     (case map_of rec k of
        Some (AnyStr s) \<Rightarrow> if s \<noteq> '''' then s else firstStr v rec ks
      | Some (AnyNum f) \<Rightarrow> rvFloat v f
      | _ \<Rightarrow> firstStr v rec ks)"

fun firstInt :: "raw_record \<Rightarrow> string list \<Rightarrow> int" where
  "firstInt rec [] = 0"
| "firstInt rec (k # ks) =
     (case map_of rec k of
        Some (AnyNum f) \<Rightarrow> to_int64 f
      | Some (AnyStr s) \<Rightarrow> (case Atoi s of Some n \<Rightarrow> n | None \<Rightarrow> firstInt rec ks)
      | _ \<Rightarrow> firstInt rec ks)"

definition layouts :: "string list" where
  "layouts = [''2006-01-02T15:04:05.999999999Z07:00'', ''2006-01-02T15:04:05Z07:00'', ''2006-01-02 15:04:05.999'', ''2006-01-02T15:04:05'']"

fun first_layout :: "replay_env \<Rightarrow> string \<Rightarrow> string list \<Rightarrow> time option" where
  "first_layout v s [] = None"
| "first_layout v s (l # ls) = (case rvTime v l s of Some t \<Rightarrow> Some t | None \<Rightarrow> first_layout v s ls)"

fun firstTime :: "replay_env \<Rightarrow> raw_record \<Rightarrow> string list \<Rightarrow> time" where
  "firstTime v rec [] = zero_time"
| "firstTime v rec (k # ks) =
     (case map_of rec k of
        Some (AnyStr s) \<Rightarrow> (if s \<noteq> '''' then case first_layout v s layouts of Some t \<Rightarrow> t | None \<Rightarrow> firstTime v rec ks else firstTime v rec ks)
      | _ \<Rightarrow> firstTime v rec ks)"

definition isExec :: "string \<Rightarrow> raw_record \<Rightarrow> bool" where
  "isExec action rec \<longleftrightarrow>
     sublist ''exec'' action \<or> sublist ''process_creat'' action \<or> (sublist ''1'' action \<and> sublist ''sysmon'' action) \<or>
     map_of rec ''argv'' \<noteq> None \<or> map_of rec ''CommandLine'' \<noteq> None"

definition baseName :: "string \<Rightarrow> string" where
  "baseName p = rev (takeWhile (\<lambda>c. c \<noteq> CHR ''/'' \<and> c \<noteq> CHR 0x5C) (rev p))"

definition truncate :: "string \<Rightarrow> nat \<Rightarrow> string" where
  "truncate s n = (if n < length s then take n s else s)"

definition IsPrivate :: "ip \<Rightarrow> bool" where
  "IsPrivate ip =
     (case To4 ip of
        Some q \<Rightarrow> q ! 0 = 10 \<or> (q ! 0 = 172 \<and> q ! 1 div 16 = 1) \<or> (q ! 0 = 192 \<and> q ! 1 = 168)
      | None \<Rightarrow> length ip = 16 \<and> ip ! 0 div 2 = 126)"

definition replay_isPublicIP :: "ip \<Rightarrow> bool" where
  "replay_isPublicIP ip \<longleftrightarrow>
     \<not> (IsLoopback ip \<or> IsPrivate ip \<or> IsLinkLocalUnicast ip \<or> ip = v4_prefix @ [0, 0, 0, 0] \<or> ip = replicate 16 0)"

subsection \<open>Adapters\<close>

definition timeKeys :: "string list" where
  "timeKeys = [''@timestamp'', ''timestamp'', ''TimeGenerated'', ''utc_time'']"

abbreviation (input) put_if :: "string \<Rightarrow> string \<Rightarrow> (string, string) gomap \<Rightarrow> (string, string) gomap" where
  "put_if k v m \<equiv> (if v \<noteq> '''' then mput k v m else m)"

definition HostTelemetryAdapter :: "replay_env \<Rightarrow> raw_record \<Rightarrow> replay_event option" where
  "HostTelemetryAdapter v rec =
     (let ts = firstTime v rec timeKeys;
          pid = firstInt rec [''process_pid'', ''pid'', ''ProcessId'', ''process_id''];
          dst = firstStr v rec [''network_dest_ip'', ''dest_ip'', ''DestinationIp'', ''dst'', ''dst_ip'', ''remote_ip''];
          path = firstStr v rec [''file_path'', ''TargetFilename'', ''path'', ''file_name'', ''name''];
          comm = firstStr v rec [''process_name'', ''Image'', ''exe'', ''comm'', ''process_path''];
          action = to_lower (firstStr v rec [''event_type'', ''action'', ''Channel'', ''category'', ''type''] @ '' '' @
                             firstStr v rec [''EventID'', ''auditd_type'', ''syscall'']);
          ev = (\<lambda>l k ats. Some \<lparr>reTS = ts, rePID = pid, reLayer = l, reKind = k, reAttrs = ats, reSeverity = ''''\<rparr>);
          with_comm = (\<lambda>m. if comm \<noteq> '''' then mput ''comm'' (baseName comm) m else m)
      in if dst \<noteq> '''' then
           ev LayerKernelNet ''net_connect''
             (with_comm (case ParseIP dst of
                Some ip \<Rightarrow> if replay_isPublicIP ip then mput ''external'' ''true'' [(''dst'', dst)] else [(''dst'', dst)]
              | None \<Rightarrow> [(''dst'', dst)]))
         else if isExec action rec then ev LayerKernelProc ''exec'' (put_if ''path'' path (with_comm []))
         else if path \<noteq> '''' then ev LayerKernelFile ''file_read'' (with_comm [(''path'', path)])
         else None)"

definition PromptInjectionAdapter :: "replay_env \<Rightarrow> raw_record \<Rightarrow> replay_event option" where
  "PromptInjectionAdapter v rec =
     (let t = firstStr v rec [''text'', ''prompt'', ''input'', ''content''] in
      if t = '''' then None
      else
        let label = to_lower (trim_space (firstStr v rec [''label'', ''class'', ''category'', ''type'']));
            malicious = (label \<in> {''jailbreak'', ''injection'', ''prompt_injection'', ''malicious'', ''1'', ''true'', ''attack'', ''unsafe''} \<or>
              map_of rec ''jailbreak'' = Some (AnyBool True) \<or>
              (case map_of rec ''label'' of Some (AnyNum n) \<Rightarrow> 1 \<le> n | _ \<Rightarrow> False))
        in Some \<lparr>reTS = firstTime v rec timeKeys, rePID = firstInt rec [''pid'', ''process_pid''], reLayer = LayerAI, reKind = ''prompt'',
             reAttrs = [(''injection'', if malicious then ''malicious'' else ''clean''), (''text'', truncate t 240)],
             reSeverity = (if malicious then ''high'' else '''')\<rparr>)"

definition MCPToolAdapter :: "replay_env \<Rightarrow> raw_record \<Rightarrow> replay_event option" where
  "MCPToolAdapter v rec =
     (let tool = firstStr v rec [''tool'', ''mcp_tool'', ''tool_name''] in
      if tool = '''' then None
      else
        let bad = (to_lower (firstStr v rec [''injection'', ''verdict'', ''label'']) \<in>
              {''malicious'', ''injection'', ''prompt_injection'', ''jailbreak'', ''attack''});
            a = firstStr v rec [''args'', ''arguments'', ''query'', ''path'', ''dst''];
            m = (if bad then mput ''injection'' ''malicious'' [(''tool'', tool)] else [(''tool'', tool)])
        in Some \<lparr>reTS = firstTime v rec timeKeys, rePID = firstInt rec [''pid'', ''process_pid''], reLayer = LayerMCP, reKind = ''tool_call'',
             reAttrs = (if a \<noteq> '''' then mput ''args'' (truncate a 120) m else m), reSeverity = (if bad then ''high'' else '''')\<rparr>)"

definition CombinedAdapter :: "replay_env \<Rightarrow> raw_record \<Rightarrow> replay_event option" where
  "CombinedAdapter v rec =
     (case MCPToolAdapter v rec of
        Some e \<Rightarrow> Some e
      | None \<Rightarrow> (case HostTelemetryAdapter v rec of Some e \<Rightarrow> Some e | None \<Rightarrow> PromptInjectionAdapter v rec))"

definition AdapterFor :: "string \<Rightarrow> replay_env \<Rightarrow> raw_record \<Rightarrow> replay_event option" where
  "AdapterFor format =
     (if format = ''host'' then HostTelemetryAdapter
      else if format = ''injection'' then PromptInjectionAdapter
      else if format = ''mcp'' then MCPToolAdapter
      else CombinedAdapter)"

subsection \<open>Reading and replaying\<close>

text \<open>\<open>unmarshal\<close> is \<^verbatim>\<open>json.Unmarshal\<close> into a map; \<open>failed\<close> is the error of the scanner.\<close>

definition read_line :: "(string \<Rightarrow> raw_record option) \<Rightarrow> (raw_record \<Rightarrow> replay_event option) \<Rightarrow> string \<Rightarrow> replay_event list" where
  "read_line unmarshal adapt l =
     (let line = trim_space l in
      if line = '''' \<or> hd line \<noteq> CHR ''{'' then []
      else case unmarshal line of
        None \<Rightarrow> []
      | Some rec \<Rightarrow> (case adapt rec of None \<Rightarrow> [] | Some e \<Rightarrow> [e]))"

definition ReadNDJSON ::
  "(string \<Rightarrow> raw_record option) \<Rightarrow> (raw_record \<Rightarrow> replay_event option) \<Rightarrow> string list \<Rightarrow> bool \<Rightarrow> replay_event list \<times> bool" where
  "ReadNDJSON unmarshal adapt lines failed = (concat (map (read_line unmarshal adapt) lines), failed)"

definition Replay :: "replay_event list \<Rightarrow> (signal \<Rightarrow> 'a \<Rightarrow> 'a) option \<Rightarrow> 'a \<Rightarrow> 'a \<times> nat" where
  "Replay events ingest st =
     (case ingest of None \<Rightarrow> (st, 0) | Some f \<Rightarrow> (fold (\<lambda>e. f (ToSignal e)) events st, length events))"

subsection \<open>The auditd log\<close>

function parse_kv :: "string \<Rightarrow> (string, string) gomap \<Rightarrow> (string, string) gomap" where
  "parse_kv s kv =
     (let s1 = dropWhile (\<lambda>c. c = CHR '' '') s in
      case index_of ''='' s1 of
        None \<Rightarrow> kv
      | Some eq \<Rightarrow>
          let key = take eq s1; r = drop (eq + 1) s1
          in if r \<noteq> [] \<and> hd r = CHR 0x22
             then (case index_of [CHR 0x22] (tl r) of
                     None \<Rightarrow> kv
                   | Some j \<Rightarrow> parse_kv (drop (j + 1) (tl r)) (mput key (take j (tl r)) kv))
             else (case index_of '' '' r of
                     None \<Rightarrow> mput key r kv
                   | Some j \<Rightarrow> parse_kv (drop j r) (mput key (take j r) kv)))"
  by pat_completeness auto
termination
proof (relation "measure (\<lambda>(s, kv). length s)", goal_cases)
  case (2 s kv s1 eq key r j)
  then have "eq + 1 \<le> length s1" "length s1 \<le> length s" using index_of_bound [of "''=''" s1 eq] by (auto simp: length_dropWhile_le)
  then have "length r < length s" using 2 by simp
  then show ?case by simp
next
  case (3 s kv s1 eq key r j)
  then have "eq + 1 \<le> length s1" "length s1 \<le> length s" using index_of_bound [of "''=''" s1 eq] by (auto simp: length_dropWhile_le)
  then have "length r < length s" using 3 by simp
  then show ?case by simp
qed simp

declare parse_kv.simps [simp del]

definition parseKV :: "string \<Rightarrow> (string, string) gomap" where
  "parseKV s = parse_kv s []"

record audit_line =
  alTyp :: string
  alSerial :: string
  alTS :: time
  alKV :: "(string, string) gomap"

definition stamp_time :: "float64 \<Rightarrow> time" where
  "stamp_time secs =
     unix_epoch + to_int64 secs * second +
     to_int64 (fround (fround (secs - fround (of_int (to_int64 secs))) * 1000000000))"

definition unparsed :: audit_line where
  "unparsed = \<lparr>alTyp = '''', alSerial = '''', alTS = zero_time, alKV = []\<rparr>"

definition parseAuditLine :: "replay_env \<Rightarrow> string \<Rightarrow> audit_line option" where
  "parseAuditLine v line =
     (if \<not> prefix ''type='' line then Some unparsed
      else case index_of '' '' line of
        None \<Rightarrow> Some unparsed
      | Some sp \<Rightarrow>
          (case index_of ''msg=audit('' line of
             None \<Rightarrow> Some unparsed
           | Some mi \<Rightarrow>
               let rest = drop (mi + 10) line
               in case index_of '')'' rest of
                    None \<Rightarrow> Some unparsed
                  | Some e \<Rightarrow>
                      if length rest < e + 2 then None
                      else
                        let stamp = take e rest; kv = parseKV (drop (e + 2) rest)
                        in Some (case index_of '':'' stamp of
                             None \<Rightarrow> \<lparr>alTyp = TrimPrefix (take sp line) ''type='', alSerial = '''', alTS = zero_time, alKV = kv\<rparr>
                           | Some c \<Rightarrow>
                               \<lparr>alTyp = TrimPrefix (take sp line) ''type='', alSerial = drop (c + 1) stamp,
                                alTS = (case rvParseFloat v (take c stamp) of Some f \<Rightarrow> stamp_time f | None \<Rightarrow> zero_time), alKV = kv\<rparr>)))"

record audit_group =
  auTS :: time
  auFields :: "(string, string) gomap"
  auPaths :: "string list"
  auHasConn :: bool

definition group_line :: "audit_line \<Rightarrow> audit_group \<Rightarrow> audit_group" where
  "group_line l g =
     (if alTyp l = ''SYSCALL'' then
        g\<lparr>auFields := fold (\<lambda>(k, x) m. mput k x m) (alKV l) (auFields g), auTS := (if alTS l \<noteq> zero_time then alTS l else auTS g)\<rparr>
      else if alTyp l = ''PATH'' then
        (let n = mget '''' (alKV l) ''name'' in if n \<noteq> '''' then g\<lparr>auPaths := auPaths g @ [n]\<rparr> else g)
      else if alTyp l = ''SOCKADDR'' \<or> alTyp l = ''NETFILTER_PKT'' then g\<lparr>auHasConn := True\<rparr>
      else g)"

definition add_audit_line :: "audit_line \<Rightarrow> (string, audit_group) gomap \<times> string list \<Rightarrow> (string, audit_group) gomap \<times> string list" where
  "add_audit_line l st =
     (case st of (gs, order) \<Rightarrow>
        if alSerial l = '''' then st
        else
          let g = (case map_of gs (alSerial l) of Some g \<Rightarrow> g | None \<Rightarrow> \<lparr>auTS = alTS l, auFields = [], auPaths = [], auHasConn = False\<rparr>);
              order1 = (if map_of gs (alSerial l) = None then order @ [alSerial l] else order)
          in (mput (alSerial l) (group_line l g) gs, order1))"

fun group_lines ::
  "replay_env \<Rightarrow> string list \<Rightarrow> (string, audit_group) gomap \<times> string list \<Rightarrow> ((string, audit_group) gomap \<times> string list) option" where
  "group_lines v [] st = Some st"
| "group_lines v (l # ls) st = (case parseAuditLine v l of None \<Rightarrow> None | Some a \<Rightarrow> group_lines v ls (add_audit_line a st))"

definition unquote :: "string \<Rightarrow> string" where
  "unquote s = rev (dropWhile (\<lambda>c. c = CHR 0x22) (rev (dropWhile (\<lambda>c. c = CHR 0x22) s)))"

definition isExecSyscall :: "string \<Rightarrow> bool" where "isExecSyscall s \<longleftrightarrow> s = ''59'' \<or> s = ''322''"
definition isOpenSyscall :: "string \<Rightarrow> bool" where "isOpenSyscall s \<longleftrightarrow> s = ''2'' \<or> s = ''257'' \<or> s = ''0''"
definition isConnectSyscall :: "string \<Rightarrow> bool" where "isConnectSyscall s \<longleftrightarrow> s = ''42'' \<or> s = ''288'' \<or> s = ''290''"

definition group_event :: "audit_group \<Rightarrow> replay_event option" where
  "group_event g =
     (let syscall = mget '''' (auFields g) ''syscall'';
          pid = (case Atoi (mget '''' (auFields g) ''pid'') of Some n \<Rightarrow> n | None \<Rightarrow> 0);
          comm = unquote (mget '''' (auFields g) ''comm'');
          exe = unquote (mget '''' (auFields g) ''exe'');
          ev = (\<lambda>l k ats. Some \<lparr>reTS = auTS g, rePID = pid, reLayer = l, reKind = k, reAttrs = ats, reSeverity = ''''\<rparr>)
      in if isExecSyscall syscall then ev LayerKernelProc ''exec'' (put_if ''path'' exe (put_if ''comm'' comm []))
         else if isConnectSyscall syscall \<or> auHasConn g then ev LayerKernelNet ''net_connect'' (put_if ''comm'' comm [])
         else if isOpenSyscall syscall \<and> auPaths g \<noteq> [] then ev LayerKernelFile ''file_read'' (put_if ''comm'' comm [(''path'', auPaths g ! 0)])
         else None)"

text \<open>The result is \<open>None\<close> on a panic, \<open>Some (Inl ())\<close> when the scanner failed.\<close>

definition ReadAuditd :: "replay_env \<Rightarrow> string list \<Rightarrow> bool \<Rightarrow> (unit + replay_event list) option" where
  "ReadAuditd v lines failed =
     (case group_lines v lines ([], []) of
        None \<Rightarrow> None
      | Some (gs, order) \<Rightarrow>
          Some (if failed then Inl ()
                else Inr (List.map_filter (\<lambda>s. case map_of gs s of None \<Rightarrow> None | Some g \<Rightarrow> group_event g) order)))"

subsection \<open>The start-up import\<close>

text \<open>\<open>file\<close> is the opened file, its lines and the error of the scanner.  A panic is \<open>None\<close>.\<close>

definition replayDataset ::
  "replay_env \<Rightarrow> (string \<Rightarrow> raw_record option) \<Rightarrow> (signal \<Rightarrow> 'a \<Rightarrow> 'a) \<Rightarrow> (string list \<times> bool) option \<Rightarrow> string \<Rightarrow> 'a \<Rightarrow> 'a option" where
  "replayDataset v unmarshal ingest file format st =
     (case file of
        None \<Rightarrow> Some st
      | Some (lines, failed) \<Rightarrow>
          if format = ''auditd'' then
            (case ReadAuditd v lines failed of
               None \<Rightarrow> None
             | Some (Inl _) \<Rightarrow> Some st
             | Some (Inr events) \<Rightarrow> Some (fst (Replay events (Some ingest) st)))
          else
            (case ReadNDJSON unmarshal (AdapterFor format v) lines failed of
               (events, err) \<Rightarrow> Some (if err then st else fst (Replay events (Some ingest) st))))"

definition sat64 :: "int \<Rightarrow> int" where
  "sat64 d = (if max_int64 < d then max_int64 else if d < min_int64 then min_int64 else d)"

definition rebase :: "time \<Rightarrow> replay_event list \<Rightarrow> replay_event list" where
  "rebase now events =
     (let newest = fold (\<lambda>e n. if n < reTS e then reTS e else n) events zero_time in
      if newest = zero_time then events
      else
        let delta = sat64 (now - 5 * second - newest)
        in map (\<lambda>e. if reTS e \<noteq> zero_time then e\<lparr>reTS := reTS e + delta\<rparr> else e) events)"

definition loadStarterDataset ::
  "replay_env \<Rightarrow> (string \<Rightarrow> raw_record option) \<Rightarrow> (signal \<Rightarrow> 'a \<Rightarrow> 'a) \<Rightarrow> string list \<Rightarrow> bool \<Rightarrow> time \<Rightarrow> 'a \<Rightarrow> 'a" where
  "loadStarterDataset v unmarshal ingest lines failed now st =
     (case ReadNDJSON unmarshal (AdapterFor ''auto'' v) lines failed of
        (events, err) \<Rightarrow>
          if err \<or> events = [] then st else fst (Replay (rebase now events) (Some ingest) st))"


subsection \<open>What the auditd parser reads\<close>

text \<open>A record as auditd writes it: fields separated by a space, each value quoted or, as for numbers, bare.\<close>

datatype field_value = Quoted string | Bare string

primrec field_text :: "field_value \<Rightarrow> string" where
  "field_text (Quoted x) = x"
| "field_text (Bare x) = x"

primrec print_value :: "field_value \<Rightarrow> string" where
  "print_value (Quoted x) = [CHR 0x22] @ x @ [CHR 0x22]"
| "print_value (Bare x) = x"

definition print_field :: "string \<times> field_value \<Rightarrow> string" where
  "print_field f = fst f @ ''='' @ print_value (snd f)"

definition audit_text :: "string \<Rightarrow> string \<Rightarrow> string \<Rightarrow> (string \<times> field_value) list \<Rightarrow> string" where
  "audit_text typ stm serial kvs =
     ''type='' @ typ @ '' msg=audit('' @ stm @ '':'' @ serial @ ''): '' @ join '' '' (map print_field kvs)"

text \<open>A key has no equals sign and no leading space; a quoted value has no quote, and a bare one no space and
  no quote in front.\<close>

primrec value_ok :: "field_value \<Rightarrow> bool" where
  "value_ok (Quoted x) \<longleftrightarrow> CHR 0x22 \<notin> set x"
| "value_ok (Bare x) \<longleftrightarrow> CHR '' '' \<notin> set x \<and> (x = [] \<or> hd x \<noteq> CHR 0x22)"

definition field_ok :: "string \<times> field_value \<Rightarrow> bool" where
  "field_ok f \<longleftrightarrow> CHR ''='' \<notin> set (fst f) \<and> (fst f = [] \<or> hd (fst f) \<noteq> CHR '' '') \<and> value_ok (snd f)"

definition fields_map :: "(string \<times> field_value) list \<Rightarrow> (string, string) gomap" where
  "fields_map kvs = fold (\<lambda>(k, x) m. mput k (field_text x) m) kvs []"

lemma parse_kv_space: "parse_kv (CHR '' '' # s) kv = parse_kv s kv"
  by (subst (1 2) parse_kv.simps) simp

lemma parse_kv_Nil: "parse_kv [] kv = kv"
  by (subst parse_kv.simps) simp

lemma index_of_absent: "c \<notin> set s \<Longrightarrow> index_of [c] s = None"
  by (induction s) auto

lemma parse_kv_field:
  assumes "field_ok f" and "r = [] \<or> hd r = CHR '' ''"
  shows "parse_kv (print_field f @ r) kv = parse_kv r (mput (fst f) (field_text (snd f)) kv)"
proof -
  obtain k v where f: "f = (k, v)" by fastforce
  have k: "CHR ''='' \<notin> set k" "k = [] \<or> hd k \<noteq> CHR '' ''" and v: "value_ok v" using assms(1) f by (auto simp: field_ok_def)
  have d: "dropWhile (\<lambda>c. c = CHR '' '') (k @ CHR ''='' # s) = k @ CHR ''='' # s" for s using k(2) by (cases k) auto
  show ?thesis
  proof (cases v)
    case (Quoted x)
    with v have "CHR 0x22 \<notin> set x" by simp
    then show ?thesis
      by (subst parse_kv.simps) (simp add: print_field_def f Quoted d index_of_char [OF k(1)] index_of_char Let_def)
  next
    case (Bare x)
    with v have x: "CHR '' '' \<notin> set x" "x = [] \<or> hd x \<noteq> CHR 0x22" by auto
    have h: "\<not> (x @ r \<noteq> [] \<and> hd (x @ r) = CHR 0x22)" using x(2) assms(2) by (cases x) auto
    show ?thesis
    proof (cases r)
      case Nil
      then show ?thesis using x(2)
        by (subst parse_kv.simps)
          (auto simp: print_field_def f Bare d index_of_char [OF k(1)] index_of_absent [OF x(1)] Let_def parse_kv_Nil)
    next
      case (Cons c r')
      with assms(2) have "r = CHR '' '' # r'" by simp
      then show ?thesis using h
        by (subst parse_kv.simps)
          (simp add: print_field_def f Bare d index_of_char [OF k(1)] index_of_char [OF x(1)] Let_def)
    qed
  qed
qed

lemma parse_kv_printed:
  "\<forall>f \<in> set kvs. field_ok f \<Longrightarrow>
     parse_kv (join '' '' (map print_field kvs)) kv = fold (\<lambda>(k, x) m. mput k (field_text x) m) kvs kv"
proof (induction kvs arbitrary: kv)
  case (Cons f kvs)
  obtain k v where f: "f = (k, v)" by fastforce
  show ?case
  proof (cases kvs)
    case Nil
    then show ?thesis using Cons.prems parse_kv_field [of f "[]" kv] by (simp add: parse_kv_Nil f)
  next
    case (Cons g gs)
    let ?r = "'' '' @ join '' '' (map print_field kvs)"
    have "parse_kv (join '' '' (map print_field (f # kvs))) kv = parse_kv (print_field f @ ?r) kv" using Cons by simp
    also have "\<dots> = parse_kv ?r (mput k (field_text v) kv)" using Cons.prems parse_kv_field [of f ?r kv] by (simp add: f)
    also have "\<dots> = fold (\<lambda>(k, x) m. mput k (field_text x) m) (f # kvs) kv"
      using Cons.IH Cons.prems by (simp add: parse_kv_space f)
    finally show ?thesis .
  qed
qed (simp add: parse_kv_Nil)

lemma index_of_marker:
  assumes "c \<notin> set q" "c \<notin> set a"
  shows "index_of (q @ [c]) (a @ (q @ [c]) @ r) = Some (length a)"
  using assms(2)
proof (induction a)
  case Nil
  have "prefix (q @ [c]) ((q @ [c]) @ r)" by simp
  then show ?case by (cases q) (simp_all del: prefix_snoc)
next
  case (Cons x a)
  have "\<not> prefix (q @ [c]) (x # a @ (q @ [c]) @ r)"
  proof
    assume "prefix (q @ [c]) (x # a @ (q @ [c]) @ r)"
    then obtain z where z: "x # a @ (q @ [c]) @ r = (q @ [c]) @ z" by (auto simp: prefix_def)
    have cut: "takeWhile (\<lambda>y. y \<noteq> c) (w @ c # u) = w" if "c \<notin> set w" for w u
      using that by (induction w) auto
    have "takeWhile (\<lambda>y. y \<noteq> c) (x # a @ (q @ [c]) @ r) = x # a @ q"
      using cut [of "x # a @ q" r] Cons.prems assms(1) by simp
    moreover have "takeWhile (\<lambda>y. y \<noteq> c) ((q @ [c]) @ z) = q" using cut [OF assms(1), of z] by simp
    ultimately have "x # a @ q = q" unfolding z by (rule trans [OF sym])
    then have "length (x # a @ q) = length q" by simp
    then show False by simp
  qed
  with Cons show ?case by simp
qed

text \<open>
  C40: A well-formed auditd line reads back: the record type, the serial number, the time of its stamp and exactly
  the fields written, quoted or bare (of a repeated key the last).  But a line that ends with the closing parenthesis
  of the stamp, such as one cut off there, makes the parser slice past the end of the line: it panics, and with it
  the import of the daemon.
\<close>

theorem audit_line_roundtrip:
  assumes typ_ok: "CHR '' '' \<notin> set typ" "CHR ''('' \<notin> set typ"
    and stmp: "CHR '':'' \<notin> set stm" "CHR '')'' \<notin> set stm" and ser_ok: "CHR '')'' \<notin> set serial"
    and fields: "\<forall>f \<in> set kvs. field_ok f"
  shows "parseAuditLine v (audit_text typ stm serial kvs) =
      Some \<lparr>alTyp = typ, alSerial = serial,
        alTS = (case rvParseFloat v stm of Some f \<Rightarrow> stamp_time f | None \<Rightarrow> zero_time), alKV = fields_map kvs\<rparr> \<and>
    parseAuditLine v (''type='' @ typ @ '' msg=audit('' @ stm @ '':'' @ serial @ '')'') = None \<and>
    replayDataset v um ingest (Some ([''type='' @ typ @ '' msg=audit('' @ stm @ '':'' @ serial @ '')''], False)) ''auditd'' st = None"
proof -
  define p where "p = ''type='' @ typ @ '' msg=audit(''"
  have len: "length p = 16 + length typ" by (simp add: p_def)
  have pre: "prefix ''type='' (p @ r)" for r by (simp add: p_def)
  have sp: "index_of '' '' (p @ r) = Some (5 + length typ)" for r
    using index_of_char [of "CHR '' ''" "''type='' @ typ" "''msg=audit('' @ r"] typ_ok(1) by (simp add: p_def)
  have mi: "index_of ''msg=audit('' (p @ r) = Some (6 + length typ)" for r
    using index_of_marker [of "CHR ''(''" "''msg=audit''" "''type='' @ typ @ '' ''" r] typ_ok(2) by (simp add: p_def)
  have rest: "drop (6 + length typ + 10) (p @ r) = r" for r by (simp add: len)
  have rp: "index_of '')'' (stm @ '':'' @ serial @ '')'' @ r) = Some (length stm + 1 + length serial)" for r
    using index_of_char [of "CHR '')''" "stm @ '':'' @ serial" r] stmp(2) ser_ok by simp
  have co: "index_of '':'' (stm @ '':'' @ serial) = Some (length stm)" using index_of_char [OF stmp(1), of serial] by simp
  have tp: "TrimPrefix (take (5 + length typ) (p @ r)) ''type='' = typ" for r
  proof -
    have "p @ r = (''type='' @ typ) @ '' msg=audit('' @ r" "5 + length typ = length (''type='' @ typ)" by (simp_all add: p_def)
    then have "take (5 + length typ) (p @ r) = ''type='' @ typ" by (simp only: append_eq_conv_conj [THEN iffD1, THEN conjunct1, OF refl] take_append take_all_iff le_refl) simp
    then show ?thesis by (simp add: TrimPrefix_def)
  qed
  let ?fs = "join '' '' (map print_field kvs)"
  let ?body = "'':'' @ '' '' @ ?fs"
  have kv: "parseKV (drop (length stm + 1 + length serial + 2) (stm @ '':'' @ serial @ '')'' @ ?body)) = fields_map kvs"
  proof -
    define q where "q = stm @ '':'' @ serial @ '')'' @ '':''"
    have "length stm + 1 + length serial + 2 = length q" "stm @ '':'' @ serial @ '')'' @ ?body = q @ '' '' @ ?fs"
      by (simp_all add: q_def)
    then have "drop (length stm + 1 + length serial + 2) (stm @ '':'' @ serial @ '')'' @ ?body) = '' '' @ ?fs" by (simp only:) simp
    then show ?thesis using parse_kv_printed [OF fields, of "[]"]
      by (simp only: parseKV_def fields_map_def) (simp add: parse_kv_space)
  qed
  have stm: "take (length stm + 1 + length serial) (stm @ '':'' @ serial @ '')'' @ r) = stm @ '':'' @ serial" for r by simp
  have "audit_text typ stm serial kvs = p @ stm @ '':'' @ serial @ '')'' @ ?body" by (simp add: audit_text_def p_def)
  then have 1: "parseAuditLine v (audit_text typ stm serial kvs) =
      Some \<lparr>alTyp = typ, alSerial = serial,
        alTS = (case rvParseFloat v stm of Some f \<Rightarrow> stamp_time f | None \<Rightarrow> zero_time), alKV = fields_map kvs\<rparr>"
    by (simp only: parseAuditLine_def pre sp mi rest rp stm kv co tp Let_def option.case if_False not_True_eq_False) simp
  have "parseAuditLine v (p @ stm @ '':'' @ serial @ '')'' @ []) = None"
    by (simp only: parseAuditLine_def pre sp mi rest rp Let_def option.case if_False not_True_eq_False) simp
  then have 2: "parseAuditLine v (''type='' @ typ @ '' msg=audit('' @ stm @ '':'' @ serial @ '')'') = None"
    by (simp add: p_def)
  with 1 show ?thesis by (simp add: replayDataset_def ReadAuditd_def)
qed


definition demo_replay :: replay_env where
  "demo_replay = \<lparr>rvFloat = (\<lambda>_. ''0''), rvTime = (\<lambda>_ _. None), rvParseFloat = (\<lambda>_. None)\<rparr>"

theorem audit_line_roundtrip_witness:
  "parseAuditLine demo_replay ''type=SYSCALL msg=audit(1.5:42): syscall=59 comm=\"cat\" pid=7'' =
     Some \<lparr>alTyp = ''SYSCALL'', alSerial = ''42'', alTS = zero_time,
       alKV = [(''syscall'', ''59''), (''comm'', ''cat''), (''pid'', ''7'')]\<rparr> \<and>
   replayDataset demo_replay (\<lambda>_. None) (\<lambda>_ n. Suc n) (Some ([''type=SYSCALL msg=audit(1.5:42)''], False)) ''auditd'' 0 = None"
proof -
  let ?kvs = "[(''syscall'', Bare ''59''), (''comm'', Quoted ''cat''), (''pid'', Bare ''7'')]"
  have ok1: "CHR '' '' \<notin> set ''SYSCALL''" "CHR ''('' \<notin> set ''SYSCALL''" by simp_all
  have ok2: "CHR '':'' \<notin> set ''1.5''" "CHR '')'' \<notin> set ''1.5''" "CHR '')'' \<notin> set ''42''" by simp_all
  have kvs: "\<forall>f \<in> set ?kvs. field_ok f" by (simp add: field_ok_def)
  have line: "audit_text ''SYSCALL'' ''1.5'' ''42'' ?kvs = ''type=SYSCALL msg=audit(1.5:42): syscall=59 comm=\"cat\" pid=7''"
    "fields_map ?kvs = [(''syscall'', ''59''), (''comm'', ''cat''), (''pid'', ''7'')]" by code_simp+
  show ?thesis
    using audit_line_roundtrip [OF ok1 ok2 kvs, of demo_replay "\<lambda>_. None" "\<lambda>_ n. Suc n" "0 :: nat"] line
    by (simp add: demo_replay_def)
qed

subsection \<open>The order of events\<close>

text \<open>Each serial number of an auditd log gives at most one event, in the order the serials appear.\<close>

lemma add_audit_line_order:
  "add_audit_line l (gs, od) = (gs1, od1) \<Longrightarrow> distinct od \<Longrightarrow> set od = set (keys gs) \<Longrightarrow>
     distinct od1 \<and> set od1 = set (keys gs1)"
proof (cases "alSerial l = []")
  case False
  assume a: "add_audit_line l (gs, od) = (gs1, od1)" "distinct od" "set od = set (keys gs)"
  then have "set (keys gs1) = insert (alSerial l) (set (keys gs))"
    using False keys_mput [of "alSerial l" _ gs] unfolding add_audit_line_def Let_def by (auto simp del: set_map)
  moreover have "od1 = (if alSerial l \<in> set (keys gs) then od else od @ [alSerial l])"
    using a(1) False by (simp add: add_audit_line_def Let_def map_of_eq_None_iff) (simp split: if_splits)
  ultimately show ?thesis using a by auto
qed (simp add: add_audit_line_def)

lemma group_lines_order:
  "group_lines v ls (gs, od) = Some (gs1, od1) \<Longrightarrow> distinct od \<Longrightarrow> set od = set (keys gs) \<Longrightarrow>
     distinct od1 \<and> set od1 = set (keys gs1)"
proof (induction ls arbitrary: gs od)
  case (Cons l ls)
  then obtain a gs2 od2 where "add_audit_line a (gs, od) = (gs2, od2)" "group_lines v ls (gs2, od2) = Some (gs1, od1)"
    by (cases "parseAuditLine v l") (auto, metis surj_pair)
  with Cons add_audit_line_order show ?case by blast
qed simp

lemma length_map_filter: "length (List.map_filter f xs) \<le> length xs"
  by (induction xs) (auto simp: List.map_filter_simps split: option.splits)

lemma ReadAuditd_bound:
  assumes "ReadAuditd v ls failed = Some (Inr es)"
  shows "\<exists>gs od. group_lines v ls ([], []) = Some (gs, od) \<and> distinct od \<and> length es \<le> length gs"
proof -
  obtain gs od where g: "group_lines v ls ([], []) = Some (gs, od)"
    and es: "es = List.map_filter (\<lambda>s. case map_of gs s of None \<Rightarrow> None | Some g \<Rightarrow> group_event g) od"
    using assms by (auto simp: ReadAuditd_def split: option.splits if_splits)
  have o: "distinct od" "set od = set (keys gs)" using group_lines_order [OF g] by simp_all
  have "length od = card (set od)" using o(1) by (simp add: distinct_card)
  also have "\<dots> \<le> length gs" unfolding o(2) using card_length [of "keys gs"] by simp
  finally show ?thesis using g o es length_map_filter [of _ od] by (metis (no_types, lifting) le_trans)
qed

text \<open>Moving the sample data to the present keeps the gaps between its events.\<close>

lemma rebase_gaps:
  assumes "reTS (es ! i) \<noteq> zero_time" "reTS (es ! j) \<noteq> zero_time" "i < length es" "j < length es"
  shows "reTS (rebase now es ! i) - reTS (rebase now es ! j) = reTS (es ! i) - reTS (es ! j)"
  using assms by (simp add: rebase_def Let_def)

end
