(* ===== verification/Spec2Isabelle.thy ===== *)
theory Spec2Isabelle
  imports Correlator_Claims Audit_Claims Incident_Props Breaker LoginGuard Gateway_Claims Agent_Claims PolicyAdvanced MCP Fleet
    RateLimit SSO Routes Management Inventory SelfProtect Startup Coverage Alerting Datasets
begin

text \<open>
  Verification development of NeuroSentry, a runtime-security agent for AI workloads written in Go: kernel programs
  report file, network and deserialization events, a correlation engine joins them with signals of AI gateways and
  tool calls, findings become cases, alerts and automated kernel responses, everything is recorded in a hash-chained
  audit trail, and a management API with tenants, users and roles controls it.  The theories model the Go code
  of \<^verbatim>\<open>src/pkg\<close> and \<^verbatim>\<open>src/cmd/neurosentry\<close>.

  \<^bold>\<open>Conventions\<close> (\<open>Prelude\<close>, \<open>GoStrings\<close>, \<open>Base64\<close>, \<open>NetIP\<close>, \<open>CIDR\<close>, \<open>Float64\<close>, \<open>Files\<close>).  A struct is a record, a
  Go map an association list with distinct keys (\<open>gomap\<close>, with \<open>mget\<close>, \<open>mput\<close>, \<open>mdel\<close>), a string a list of bytes,
  \<^verbatim>\<open>int\<close> an \<open>int\<close> with \<open>wrap64\<close> written where it can overflow, other widths \<open>word\<close>; time is nanoseconds since year 1
  and \<^verbatim>\<open>float64\<close> an exact rational rounded after every operation.  Errors are values of sums or options, a panic is
  \<open>None\<close>.  A method takes the receiver last and returns it updated.  Where Go ranges over a map, the order is an
  argument; so are the clock, fresh identifiers, the file system, the network, JSON and YAML decoding, regular
  expressions, and the cryptographic functions, and a theorem that needs more of them than their type states the documented
  property as a hypothesis.  Goroutines are sequences of handler calls, over which the
  theorems quantify; interleavings inside a handler are not modelled.

  \<^bold>\<open>Correlation\<close> (\<^verbatim>\<open>src/pkg/correlate\<close>).  \<open>Rules\<close> matches and evaluates rules, \<open>Builtin\<close> is the catalog of \<^verbatim>\<open>rules.go\<close>,
  \<open>Correlator\<close> the engine (sessions, pruning, cooldown, suppression, learning mode, catalog edits), \<open>Scenarios\<close> the validation
  suite, \<open>Coverage\<close> the coverage report and the knowledge base.  \<open>Correlator_Inv\<close> shows that every operation keeps the
  memory bounds and the catalog consistent; \<open>Correlator_Trace\<close> and \<open>Correlator_Runs\<close> make the engine a labelled transition
  system with the history of its findings, which the ring of recent findings and the cooldown table refine; \<open>Correlator_Props\<close>
  and \<open>Correlator_Claims\<close> show that for rules with disjoint matchers findings are exactly the complete patterns of enabled rules inside
  their window (of an ordered rule, those whose first matching signals are in order), spaced by the cooldown.  \<open>Scenarios\<close> also
  shows that its report says fired only on the evidence of the scenario's own signals.

  \<^bold>\<open>Audit and cases\<close> (\<^verbatim>\<open>src/pkg/audit\<close>, \<^verbatim>\<open>src/pkg/incident\<close>).  \<open>AuditTrail\<close> has entries, hashing, the in-memory chain, the
  relational and the file store.  \<open>Audit_Props\<close> states what a durable sink promises as the locale \<open>durable_sink\<close>;
  \<open>Audit_Claims\<close> interprets it on the relational store: the stored trail holds the appended entries, column by column, and verifies across
  restarts, its head commits to every hashed field unless two of the entries at hand collide, and the fields outside the hash can be
  altered unnoticed.  \<open>Incident\<close> keeps cases as objects on a heap, with invariants in \<open>Incident_Props\<close> along runs and, in
  \<open>case_life\<close>, across saves and restarts of the agent.

  \<^bold>\<open>Agent\<close> (\<^verbatim>\<open>src/pkg/agent\<close>, \<^verbatim>\<open>src/pkg/bpf\<close>, \<^verbatim>\<open>src/pkg/policy\<close>, \<^verbatim>\<open>src/pkg/notify\<close>, \<^verbatim>\<open>src/pkg/breaker\<close>).  \<open>Events\<close> decodes kernel
  records, \<open>Policy\<close> and \<open>PolicyAdvanced\<close> evaluate policies, \<open>KernelMaps\<close> (with \<open>Kernel_Props\<close>) are the kernel maps with their capacities,
  \<open>Breaker\<close> and \<open>Notify\<close> the circuit breaker and the alert router, both instances of the locale \<open>cooldown_gate\<close> together with the
  rule cooldown; \<open>Agent\<close> connects them and \<open>Agent_Props\<close>, \<open>Agent_Claims\<close> show that threats are always alerted and entered in the
  audit chain (\<open>records\<close> says which sealed entries a handler appends to chain and log file), what a finding does to the trusted list for
  every action of the breaker, and which kernel records decode to what.  \<open>Alerting\<close> has the channels and their configuration, \<open>Inventory\<close>
  and \<open>SelfProtect\<close> the integrity monitors over model files and over the agent itself, \<open>Datasets\<close> the import of recorded
  telemetry (\<^verbatim>\<open>src/pkg/replay\<close>).

  \<^bold>\<open>Start\<close> (\<^verbatim>\<open>src/cmd/neurosentry/main.go\<close>, \<^verbatim>\<open>src/pkg/config\<close>).  \<open>Config\<close> loads and validates the configuration, \<open>Capabilities\<close> is the
  kernel preflight, \<open>Attach\<close> and \<open>Symbols\<close> attach programs and probes, \<open>Startup\<close> composes them in the order of \<^verbatim>\<open>run\<close> and says
  what a started daemon guards.

  \<^bold>\<open>AI gateway and tools\<close> (\<^verbatim>\<open>src/pkg/aiguard\<close>, \<^verbatim>\<open>src/pkg/aigateway\<close>, \<^verbatim>\<open>src/pkg/mcp\<close>).  \<open>AIGuard\<close> has the content detectors, \<open>Quota\<close> and
  \<open>Vault\<close> (locale \<open>key_vault\<close>) the limits and provider keys, \<open>Gateway\<close> the request handler from admission to the answer,
  \<open>Gateway_Props\<close> and \<open>Gateway_Claims\<close> its complete mediation, metering and key custody; \<open>MCP\<close> is the tool-call interceptor, whose
  history is an instance of the locale \<open>bounded_history\<close>.

  \<^bold>\<open>Control plane\<close> (\<^verbatim>\<open>src/pkg/platform\<close>, \<^verbatim>\<open>src/pkg/web\<close>, \<^verbatim>\<open>src/pkg/fleet\<close>).  \<open>Tenants\<close>, \<open>Identity\<close>, \<open>Access\<close>, \<open>LoginGuard\<close> and \<open>Auth\<close> are stores,
  passwords, roles, tokens and guards; \<open>Console\<close>, \<open>Dashboard\<close>, \<open>Management\<close> (every state-changing route of the management API from
  guard to audit entry), \<open>SSO\<close>, \<open>RateLimit\<close>, \<open>Siem\<close> and \<open>Routes\<close> the handlers and the route
  table; \<open>Fleet\<close> the registry and its rollouts.  \<open>Console_Props\<close>, \<open>Console_Claims\<close> and the claims of \<open>SSO\<close> and \<open>Routes\<close> show who can reach what
  and that the change is audited, and record the places where the code grants more than it says.

  \<^bold>\<open>Bounds.\<close>  Every loop of the model ends by construction or with a termination proof; the walk up the process tree
  takes the code's own bound of ten levels, and no other fuel is used.  Capacities are those of the source: 10000 entries
  in the chain, 5000 findings and 20000 signals in the rings, 1000 events in the queue, the declared sizes of the kernel maps.

  \<^bold>\<open>Not modelled.\<close>  The kernel programs in C and their generated bindings (their maps and record layouts are); system calls
  that fail for other reasons than full maps or missing objects; the Landlock sandbox, certificates and TLS, Prometheus
  registration, HTML, OpenAPI text and log output, which have no behaviour of their own to state; the HTTP server, the event stream
  and the parsing of SAML, which belong to libraries; the wiring of the controller's goroutines at start and stop, whose bodies are
  modelled as handlers.  NaN, infinities and subnormal \<^verbatim>\<open>float64\<close> values do not occur in the model.
\<close>

end
